(* ===== verification/Prelude.thy ===== *)
theory Prelude
  imports Main "HOL-Library.Sublist"
begin

text \<open>
  Shared vocabulary of the development: Python results (a value or a raised exception),
  sequences of checks that raise at the first failure, dictionaries in insertion order,
  character classes of the regular expressions the program uses, decimal rendering and the
  contract of a counted gate.

  A Python \<open>str\<close> is a HOL \<open>string\<close> (a list of 8-bit characters): the values the program
  accepts through its patterns are ASCII, where the two agree; where a wider code point matters
  the component says how it is represented.
\<close>

section \<open>Results and checks\<close>

named_theorems check_simps "unfolding of guarded checks"

datatype py_error =
    ValueError string
  | TypeError string
  | KeyError string
  | OSError string
  | RuntimeError string
  | PersistenceError string

text \<open>\<open>check b e\<close> is the statement \<open>if b: raise e\<close>: \<open>None\<close> when nothing is raised.\<close>

definition check :: "bool \<Rightarrow> 'e \<Rightarrow> 'e option" where
  "check b e = (if b then Some e else None)"

text \<open>A block of such statements raises what the first failing one raises.\<close>

fun run_checks :: "'e option list \<Rightarrow> 'e option" where
  "run_checks [] = None"
| "run_checks (None # cs) = run_checks cs"
| "run_checks (Some e # cs) = Some e"

lemma check_None [check_simps]: "check b e = None \<longleftrightarrow> \<not> b"
  by (simp add: check_def)

lemma check_Some [check_simps]: "check b e = Some e' \<longleftrightarrow> b \<and> e' = e"
  by (auto simp: check_def)

lemma run_checks_None [check_simps]: "run_checks cs = None \<longleftrightarrow> (\<forall>c \<in> set cs. c = None)"
  by (induction cs rule: run_checks.induct) auto

lemma run_checks_Some_mem: "run_checks cs = Some e \<Longrightarrow> Some e \<in> set cs"
  by (induction cs rule: run_checks.induct) auto

lemma run_checks_append:
  "run_checks (xs @ ys) = (case run_checks xs of None \<Rightarrow> run_checks ys | Some e \<Rightarrow> Some e)"
  by (induction xs rule: run_checks.induct) auto

text \<open>Sequencing of computations that may raise.\<close>

definition and_then :: "'e + 'a \<Rightarrow> ('a \<Rightarrow> 'e + 'b) \<Rightarrow> 'e + 'b" where
  "and_then r f = (case r of Inl e \<Rightarrow> Inl e | Inr a \<Rightarrow> f a)"

definition guarded :: "'e option \<Rightarrow> 'e + 'b \<Rightarrow> 'e + 'b" where
  "guarded c r = (case c of Some e \<Rightarrow> Inl e | None \<Rightarrow> r)"

lemma and_then_simps [simp]:
  "and_then (Inl e) f = Inl e" "and_then (Inr a) f = f a"
  by (simp_all add: and_then_def)

lemma guarded_simps [simp]:
  "guarded None r = r" "guarded (Some e) r = Inl e"
  by (simp_all add: guarded_def)

lemma and_then_Inr: "and_then r f = Inr b \<longleftrightarrow> (\<exists>a. r = Inr a \<and> f a = Inr b)"
  by (cases r) simp_all

lemma guarded_Inr [check_simps]: "guarded c r = Inr b \<longleftrightarrow> c = None \<and> r = Inr b"
  by (cases c) simp_all

section \<open>Dictionaries\<close>

text \<open>
  A Python \<open>dict\<close> keeps insertion order: assigning to a present key replaces its value in
  place, a new key goes to the end, \<open>{k: v for ... if k != key}\<close> and \<open>pop\<close> drop it. The
  representation is an association list with distinct keys.
\<close>

type_synonym ('k, 'v) dict = "('k \<times> 'v) list"

abbreviation dict_get :: "('k, 'v) dict \<Rightarrow> 'k \<Rightarrow> 'v option" where
  "dict_get \<equiv> map_of"

fun dict_set :: "'k \<Rightarrow> 'v \<Rightarrow> ('k, 'v) dict \<Rightarrow> ('k, 'v) dict" where
  "dict_set k v [] = [(k, v)]"
| "dict_set k v ((k', v') # d) = (if k' = k then (k, v) # d else (k', v') # dict_set k v d)"

definition dict_del :: "'k \<Rightarrow> ('k, 'v) dict \<Rightarrow> ('k, 'v) dict" where
  "dict_del k d = filter (\<lambda>kv. fst kv \<noteq> k) d"

abbreviation dict_ok :: "('k, 'v) dict \<Rightarrow> bool" where
  "dict_ok d \<equiv> distinct (map fst d)"

lemma map_of_dict_set [simp]: "map_of (dict_set k v d) = (map_of d)(k \<mapsto> v)"
  by (induction k v d rule: dict_set.induct) (auto simp: fun_eq_iff)

lemma map_of_dict_del [simp]: "map_of (dict_del k d) = (map_of d)(k := None)"
  by (induction d) (auto simp: dict_del_def fun_eq_iff)

lemma keys_dict_set: "set (map fst (dict_set k v d)) = insert k (set (map fst d))"
  by (induction k v d rule: dict_set.induct) auto

lemma dict_ok_set [simp]: "dict_ok d \<Longrightarrow> dict_ok (dict_set k v d)"
proof (induction k v d rule: dict_set.induct)
  case (2 k v k' v' d)
  then show ?case using keys_dict_set [of k v d] by (auto simp del: set_map)
qed simp

lemma dict_ok_del [simp]: "dict_ok d \<Longrightarrow> dict_ok (dict_del k d)"
  by (simp add: dict_del_def distinct_map_filter)

text \<open>The laws the components use of a keyed store, and what follows from them alone.\<close>

locale keyed_store =
  fixes lookup :: "'m \<Rightarrow> 'k \<Rightarrow> 'v option"
    and store :: "'k \<Rightarrow> 'v \<Rightarrow> 'm \<Rightarrow> 'm"
    and remove :: "'k \<Rightarrow> 'm \<Rightarrow> 'm"
    and wf :: "'m \<Rightarrow> bool"
  assumes lookup_store: "lookup (store k v m) = (lookup m)(k \<mapsto> v)"
    and lookup_remove: "lookup (remove k m) = (lookup m)(k := None)"
    and wf_store: "wf m \<Longrightarrow> wf (store k v m)"
    and wf_remove: "wf m \<Longrightarrow> wf (remove k m)"
begin

lemma store_same: "lookup (store k v m) k = Some v"
  by (simp add: lookup_store)

lemma store_other: "k' \<noteq> k \<Longrightarrow> lookup (store k v m) k' = lookup m k'"
  by (simp add: lookup_store)

lemma restore_removed:
  assumes "lookup m k = Some v"
  shows "lookup (store k v (remove k m)) = lookup m"
  using assms by (auto simp: lookup_store lookup_remove fun_eq_iff)

end

interpretation pydict: keyed_store dict_get dict_set dict_del dict_ok
  by unfold_locales (auto simp del: distinct_map)

section \<open>Characters and patterns\<close>

definition code :: "char \<Rightarrow> nat" where
  "code c = of_char c"

definition is_digit :: "char \<Rightarrow> bool" where
  "is_digit c \<longleftrightarrow> 48 \<le> code c \<and> code c \<le> 57"

definition is_lower :: "char \<Rightarrow> bool" where
  "is_lower c \<longleftrightarrow> 97 \<le> code c \<and> code c \<le> 122"

definition is_upper :: "char \<Rightarrow> bool" where
  "is_upper c \<longleftrightarrow> 65 \<le> code c \<and> code c \<le> 90"

definition is_alpha :: "char \<Rightarrow> bool" where
  "is_alpha c \<longleftrightarrow> is_lower c \<or> is_upper c"

definition is_alnum :: "char \<Rightarrow> bool" where
  "is_alnum c \<longleftrightarrow> is_alpha c \<or> is_digit c"

definition is_hex_lower :: "char \<Rightarrow> bool" where
  "is_hex_lower c \<longleftrightarrow> is_digit c \<or> (97 \<le> code c \<and> code c \<le> 102)"

definition is_hex :: "char \<Rightarrow> bool" where
  "is_hex c \<longleftrightarrow> is_hex_lower c \<or> (65 \<le> code c \<and> code c \<le> 70)"

text \<open>\<open>str.lower\<close> on ASCII.\<close>

definition lower_char :: "char \<Rightarrow> char" where
  "lower_char c = (if is_upper c then char_of (code c + 32) else c)"

definition lower :: "string \<Rightarrow> string" where
  "lower s = map lower_char s"

text \<open>A pattern \<open>[first][rest]{lo,hi}\<close>, matched against the whole string.\<close>

definition slug_match :: "(char \<Rightarrow> bool) \<Rightarrow> (char \<Rightarrow> bool) \<Rightarrow> nat \<Rightarrow> nat \<Rightarrow> string \<Rightarrow> bool" where
  "slug_match p q lo hi s =
     (case s of [] \<Rightarrow> False
      | c # cs \<Rightarrow> p c \<and> list_all q cs \<and> lo \<le> length cs \<and> length cs \<le> hi)"

text \<open>
  \<open>re.match\<close> with a pattern that ends in \<open>$\<close>: Python's \<open>$\<close> also matches just before a final
  newline, so the subject may be the matched text followed by one newline character.
\<close>

definition newline :: char where
  "newline = CHR 0x0A"

definition dollar_match :: "(string \<Rightarrow> bool) \<Rightarrow> string \<Rightarrow> bool" where
  "dollar_match full s \<longleftrightarrow> full s \<or> (s \<noteq> [] \<and> last s = newline \<and> full (butlast s))"

text \<open>\<open>str.split(sep)\<close> on a one-character separator: never empty.\<close>

fun split_on :: "char \<Rightarrow> string \<Rightarrow> string list" where
  "split_on sep [] = [[]]"
| "split_on sep (c # cs) =
     (if c = sep then [] # split_on sep cs
      else (case split_on sep cs of [] \<Rightarrow> [[c]] | w # ws \<Rightarrow> (c # w) # ws))"

lemma split_on_ne [simp]: "split_on sep s \<noteq> []"
  by (induction sep s rule: split_on.induct) (auto split: list.splits)

fun join_with :: "string \<Rightarrow> string list \<Rightarrow> string" where
  "join_with sep [] = []"
| "join_with sep [w] = w"
| "join_with sep (w # ws) = w @ sep @ join_with sep ws"

lemma join_with_Cons: "ws \<noteq> [] \<Longrightarrow> join_with sep (w # ws) = w @ sep @ join_with sep ws"
  by (cases ws) simp_all

lemma join_split [simp]: "join_with [sep] (split_on sep s) = s"
proof (induction sep s rule: split_on.induct)
  case (2 sep c cs)
  show ?case
  proof (cases "split_on sep cs")
    case Nil
    then show ?thesis by simp
  next
    case (Cons w ws)
    with 2 show ?thesis by (cases ws) auto
  qed
qed simp

lemma split_on_no_sep: "w \<in> set (split_on sep s) \<Longrightarrow> sep \<notin> set w"
proof (induction sep s arbitrary: w rule: split_on.induct)
  case (2 sep c cs)
  then show ?case by (cases "split_on sep cs") (auto split: if_splits)
qed simp

lemma split_on_idem: "sep \<notin> set w \<Longrightarrow> split_on sep w = [w]"
  by (induction w) auto

lemma split_on_append: "sep \<notin> set w \<Longrightarrow> split_on sep (w @ sep # s) = w # split_on sep s"
  by (induction w) auto

lemma split_on_app: "split_on sep (s @ sep # t) = split_on sep s @ split_on sep t"
proof (induction sep s rule: split_on.induct)
  case (2 sep c cs)
  then show ?case by (cases "split_on sep cs") auto
qed simp

lemma split_join:
  assumes "ws \<noteq> []" "\<forall>w \<in> set ws. sep \<notin> set w"
  shows "split_on sep (join_with [sep] ws) = ws"
  using assms
proof (induction ws rule: list_nonempty_induct)
  case (single w)
  then show ?case by (simp add: split_on_idem)
next
  case (cons w ws)
  then show ?case by (simp add: join_with_Cons split_on_append)
qed

section \<open>Decimal rendering\<close>

definition digit_char :: "nat \<Rightarrow> char" where
  "digit_char d = char_of (48 + d)"

fun show_nat :: "nat \<Rightarrow> string" where
  "show_nat n = (if n < 10 then [digit_char n] else show_nat (n div 10) @ [digit_char (n mod 10)])"

declare show_nat.simps [simp del]

definition show_int :: "int \<Rightarrow> string" where
  "show_int i = (if i < 0 then CHR 0x2D # show_nat (nat (- i)) else show_nat (nat i))"

text \<open>\<open>int(text)\<close> on a text of decimal digits.\<close>

definition digit_val :: "char \<Rightarrow> nat" where
  "digit_val c = code c - 48"

definition parse_nat :: "string \<Rightarrow> nat" where
  "parse_nat s = fold (\<lambda>c n. 10 * n + digit_val c) s 0"

lemma code_digit_char: "d < 10 \<Longrightarrow> code (digit_char d) = 48 + d"
  by (simp add: code_def digit_char_def)

lemma is_digit_digit_char: "d < 10 \<Longrightarrow> is_digit (digit_char d)"
  by (simp add: is_digit_def code_digit_char)

lemma show_nat_digits: "list_all is_digit (show_nat n)"
proof (induction n rule: show_nat.induct)
  case (1 n)
  then show ?case
    by (subst show_nat.simps) (auto simp: is_digit_digit_char)
qed

lemma show_nat_ne [simp]: "show_nat n \<noteq> []"
  by (subst show_nat.simps) simp

lemma parse_show_nat: "parse_nat (show_nat n) = n"
proof (induction n rule: show_nat.induct)
  case (1 n)
  show ?case
  proof (cases "n < 10")
    case True
    then show ?thesis
      by (subst show_nat.simps) (simp add: parse_nat_def digit_val_def code_digit_char)
  next
    case False
    with 1 have "parse_nat (show_nat (n div 10)) = n div 10" by simp
    with False show ?thesis
      by (subst show_nat.simps) (simp add: parse_nat_def digit_val_def code_digit_char)
  qed
qed

lemma show_nat_inj: "show_nat m = show_nat n \<Longrightarrow> m = n"
  by (metis parse_show_nat)

section \<open>Counted gates\<close>

text \<open>
  Two components keep a count of requests in flight beside an event that is set exactly while
  the count is zero, so that a drain waiting on the event wakes when the last one leaves. The
  contract, and what a drain may conclude from it.
\<close>

locale counted_gate =
  fixes count :: "'g \<Rightarrow> int"
    and idle :: "'g \<Rightarrow> bool"
    and enter :: "'g \<Rightarrow> 'g"
    and leave :: "'g \<Rightarrow> 'g"
    and fresh :: 'g
  assumes count_fresh: "count fresh = 0" "idle fresh"
    and count_enter: "count (enter g) = count g + 1" "\<not> idle (enter g)"
    and count_leave: "count (leave g) = count g - 1"
    and idle_leave: "idle (leave g) \<longleftrightarrow> (count g = 1 \<or> idle g)"
begin

definition gate_ok :: "'g \<Rightarrow> bool" where
  "gate_ok g \<longleftrightarrow> 0 \<le> count g \<and> (idle g \<longleftrightarrow> count g = 0)"

lemma gate_ok_fresh: "gate_ok fresh"
  by (simp add: gate_ok_def count_fresh)

lemma gate_ok_enter: "gate_ok g \<Longrightarrow> gate_ok (enter g)"
  by (simp add: gate_ok_def count_enter)

lemma gate_ok_leave: "gate_ok g \<Longrightarrow> 0 < count g \<Longrightarrow> gate_ok (leave g)"
  by (auto simp: gate_ok_def count_leave idle_leave)

lemma count_funpow_enter: "count ((enter ^^ n) g) = count g + int n"
  by (induction n) (simp_all add: count_enter)

lemma gate_ok_funpow_enter: "gate_ok g \<Longrightarrow> gate_ok ((enter ^^ n) g)"
  by (induction n) (simp_all add: gate_ok_enter)

lemma leave_all:
  "gate_ok g \<Longrightarrow> count g = int n \<Longrightarrow> gate_ok ((leave ^^ n) g) \<and> count ((leave ^^ n) g) = 0"
proof (induction n arbitrary: g)
  case (Suc n)
  then have "gate_ok (leave g)" "count (leave g) = int n"
    by (auto simp: gate_ok_leave count_leave)
  with Suc.IH have "gate_ok ((leave ^^ n) (leave g)) \<and> count ((leave ^^ n) (leave g)) = 0"
    by blast
  then show ?case by (simp add: funpow_swap1)
qed simp

lemma drained: "gate_ok g \<Longrightarrow> idle g \<longleftrightarrow> count g = 0"
  by (simp add: gate_ok_def)

end

section \<open>Machines and their invariants\<close>

text \<open>
  A component with interleaved operations is a start predicate and a step relation; its
  reachable states are those a run from a start state comes to. What each step keeps holds in
  all of them.
\<close>

locale invariant_of =
  fixes start :: "'s \<Rightarrow> bool"
    and step :: "'s \<Rightarrow> 's \<Rightarrow> bool"
    and inv :: "'s \<Rightarrow> bool"
  assumes inv_start: "start s \<Longrightarrow> inv s"
    and inv_step: "inv s \<Longrightarrow> step s t \<Longrightarrow> inv t"
begin

lemma run_inv: "step\<^sup>*\<^sup>* s t \<Longrightarrow> inv s \<Longrightarrow> inv t"
  by (induction rule: rtranclp_induct) (auto intro: inv_step)

lemma reachable_inv: "start s \<Longrightarrow> step\<^sup>*\<^sup>* s t \<Longrightarrow> inv t"
  using run_inv inv_start by blast

end

end
