(* ===== verification/PosixPath.thy ===== *)
theory PosixPath
  imports Prelude
begin

text \<open>
  What the program uses of \<open>pathlib.PurePosixPath\<close>: the root and the tail a text parses to, its
  normalised text, its parts and the tests built on them. The two path checks of
  \<open>lazarus/agent/deployments.py\<close> (absolute paths of weights, relative names inside a layout or
  snapshot) are characterised as what they are meant to accept.
\<close>

definition slash :: char where
  "slash = CHR 0x2F"

text \<open>\<open>posixpath.splitroot\<close>: two leading slashes are a root of their own, three or more are one.\<close>

definition path_root :: "string \<Rightarrow> string" where
  "path_root s =
     (case s of
        a # b # c # _ \<Rightarrow> (if a \<noteq> slash then [] else if b \<noteq> slash \<or> c = slash then [slash] else [slash, slash])
      | [a, b] \<Rightarrow> (if a \<noteq> slash then [] else if b \<noteq> slash then [slash] else [slash, slash])
      | [a] \<Rightarrow> (if a = slash then [slash] else [])
      | [] \<Rightarrow> [])"

definition path_tail :: "string \<Rightarrow> string list" where
  "path_tail s = filter (\<lambda>w. w \<noteq> [] \<and> w \<noteq> ''.'') (split_on slash (drop (length (path_root s)) s))"

definition path_parts :: "string \<Rightarrow> string list" where
  "path_parts s = (if path_root s = [] then [] else [path_root s]) @ path_tail s"

definition path_str :: "string \<Rightarrow> string" where
  "path_str s =
     (if path_root s \<noteq> [] then path_root s @ join_with [slash] (path_tail s)
      else if path_tail s = [] then ''.'' else join_with [slash] (path_tail s))"

definition is_absolute :: "string \<Rightarrow> bool" where
  "is_absolute s \<longleftrightarrow> path_root s \<noteq> []"

text \<open>\<open>Component.canonical_path\<close> and \<open>AgentDeployment.canonical_path\<close>, as the test that does not raise.\<close>

definition canonical_path :: "string \<Rightarrow> bool" where
  "canonical_path v \<longleftrightarrow>
     \<not> (\<not> is_absolute v \<or> path_str v \<noteq> v \<or> prefix ''//'' v \<or> ''..'' \<in> set (path_parts v))"

text \<open>The name test shared by \<open>SlimServeProfile.relative_paths\<close> and \<open>MLXSnapshot.pinned_files\<close>.\<close>

definition canonical_relative :: "string \<Rightarrow> bool" where
  "canonical_relative name \<longleftrightarrow>
     \<not> (path_parts name = [] \<or> prefix [slash] name \<or> path_str name \<noteq> name
        \<or> (\<exists>part \<in> set (path_parts name). part \<in> {''.'', ''..''}))"

text \<open>A component that names something: not empty, not a step in place or up, no separator.\<close>

definition plain_component :: "string \<Rightarrow> bool" where
  "plain_component w \<longleftrightarrow> w \<noteq> [] \<and> w \<noteq> ''.'' \<and> w \<noteq> ''..'' \<and> slash \<notin> set w"

lemma path_tail_components: "w \<in> set (path_tail s) \<Longrightarrow> w \<noteq> [] \<and> w \<noteq> ''.'' \<and> slash \<notin> set w"
  by (auto simp: path_tail_def dest: split_on_no_sep)

lemma root_relative: "s = [] \<or> hd s \<noteq> slash \<Longrightarrow> path_root s = []"
  by (cases s; cases "tl s"; cases "tl (tl s)") (auto simp: path_root_def)

lemma root_single:
  "w = [] \<or> hd w \<noteq> slash \<Longrightarrow> path_root (slash # w) = [slash]"
  by (cases w; cases "tl w") (auto simp: path_root_def)

lemma hd_join: "ws \<noteq> [] \<Longrightarrow> hd ws \<noteq> [] \<Longrightarrow> hd (join_with sep ws) = hd (hd ws) \<and> join_with sep ws \<noteq> []"
  by (cases ws; cases "tl ws") auto

lemma plain_tail:
  assumes "\<forall>w \<in> set ws. plain_component w" "ws \<noteq> []"
  shows "filter (\<lambda>w. w \<noteq> [] \<and> w \<noteq> ''.'') (split_on slash (join_with [slash] ws)) = ws"
  using assms by (simp add: split_join plain_component_def)

lemma plain_head:
  assumes "\<forall>w \<in> set ws. plain_component w" "ws \<noteq> []"
  shows "hd (join_with [slash] ws) \<noteq> slash" "join_with [slash] ws \<noteq> []"
  using assms hd_join [of ws "[slash]"] by (cases ws; cases "hd ws"; force simp: plain_component_def)+

lemma canonical_relative_iff:
  "canonical_relative name \<longleftrightarrow>
     (\<exists>ws. ws \<noteq> [] \<and> (\<forall>w \<in> set ws. plain_component w) \<and> name = join_with [slash] ws)"
proof
  assume c: "canonical_relative name"
  then have "\<not> prefix [slash] name" by (simp add: canonical_relative_def)
  then have root: "path_root name = []" by (intro root_relative) (cases name; auto)
  with c have "path_tail name \<noteq> []" "name = join_with [slash] (path_tail name)"
      "\<forall>w \<in> set (path_tail name). w \<noteq> ''..''"
    by (auto simp: canonical_relative_def path_parts_def path_str_def split: if_splits)
  then show "\<exists>ws. ws \<noteq> [] \<and> (\<forall>w \<in> set ws. plain_component w) \<and> name = join_with [slash] ws"
    using path_tail_components [of _ name] by (auto simp: plain_component_def)
next
  assume "\<exists>ws. ws \<noteq> [] \<and> (\<forall>w \<in> set ws. plain_component w) \<and> name = join_with [slash] ws"
  then obtain ws where ws: "ws \<noteq> []" "\<forall>w \<in> set ws. plain_component w" "name = join_with [slash] ws"
    by blast
  note head = plain_head [OF ws(2,1)]
  have root: "path_root name = []" using head by (intro root_relative) (simp add: ws(3))
  then have "path_tail name = ws" using plain_tail [OF ws(2,1)] by (simp add: path_tail_def ws(3))
  moreover have "\<not> prefix [slash] name" using head by (cases name) (auto simp: ws(3) simp flip: ws(3))
  ultimately show "canonical_relative name"
    using root ws by (auto simp: canonical_relative_def path_parts_def path_str_def plain_component_def)
qed

lemma canonical_path_iff:
  "canonical_path v \<longleftrightarrow>
     (\<exists>ws. (\<forall>w \<in> set ws. plain_component w) \<and> v = slash # join_with [slash] ws)"
proof
  assume c: "canonical_path v"
  have two: "path_root v = [slash]"
  proof -
    have "path_root v \<noteq> []" "\<not> prefix ''//'' v"
      using c by (simp_all add: canonical_path_def is_absolute_def)
    moreover have "path_root v = [slash, slash] \<Longrightarrow> prefix ''//'' v"
      by (auto simp: path_root_def slash_def split: list.splits if_splits)
    moreover have "path_root v \<in> {[], [slash], [slash, slash]}"
      by (auto simp: path_root_def split: list.splits)
    ultimately show ?thesis by auto
  qed
  with c have "v = slash # join_with [slash] (path_tail v)"
      "\<forall>w \<in> set (path_tail v). w \<noteq> ''..''"
    by (auto simp: canonical_path_def path_parts_def path_str_def)
  then show "\<exists>ws. (\<forall>w \<in> set ws. plain_component w) \<and> v = slash # join_with [slash] ws"
    using path_tail_components [of _ v] by (auto simp: plain_component_def)
next
  assume "\<exists>ws. (\<forall>w \<in> set ws. plain_component w) \<and> v = slash # join_with [slash] ws"
  then obtain ws where ws: "\<forall>w \<in> set ws. plain_component w" "v = slash # join_with [slash] ws"
    by blast
  have head: "join_with [slash] ws = [] \<or> hd (join_with [slash] ws) \<noteq> slash"
    using plain_head [OF ws(1)] by (cases "ws = []") auto
  have root: "path_root v = [slash]" using root_single [OF head] by (simp add: ws(2))
  then have "path_tail v = ws"
    using plain_tail [OF ws(1)] by (cases "ws = []") (simp_all add: path_tail_def ws(2))
  moreover have "\<not> prefix ''//'' v"
    using head by (cases "join_with [slash] ws") (auto simp: ws(2) slash_def)
  ultimately show "canonical_path v"
    using root ws by (auto simp: canonical_path_def path_parts_def path_str_def is_absolute_def
        plain_component_def slash_def)
qed

end
