(* ===== verification/DeploymentRecord.thy ===== *)
theory DeploymentRecord
  imports Complex_Main "HOL-Library.Char_ord" "HOL-Library.List_Lexorder" PosixPath
begin

text \<open>
  \<open>lazarus/agent/deployments.py\<close>, the data model: the record \<open>agent.yaml\<close> keeps for a
  deployment, the request that creates one, and the validators pydantic runs on both. A validator
  that may raise is a list of checks (\<open>Prelude.run_checks\<close>), in the code's order; one that also
  fills in defaults returns the record it leaves. SHA-256 is the argument \<open>sha256\<close>: the hex digest
  of a text. Floats are rational numbers. Pydantic patterns match the whole text.
\<close>

section \<open>Kinds and constants\<close>

datatype kind = Generation | Embedding | Image | Transcription | Speech | Video

definition kind_name :: "kind \<Rightarrow> string" where
  "kind_name k = (case k of Generation \<Rightarrow> ''generation'' | Embedding \<Rightarrow> ''embedding'' | Image \<Rightarrow> ''image''
     | Transcription \<Rightarrow> ''transcription'' | Speech \<Rightarrow> ''speech'' | Video \<Rightarrow> ''video'')"

definition NO_CONTEXT :: "kind list" where
  "NO_CONTEXT = [Image, Transcription, Speech, Video]"

definition DIFFUSION :: "kind list" where
  "DIFFUSION = [Image, Video]"

definition IMAGE_COMPONENTS :: "(string \<times> string) list" where
  "IMAGE_COMPONENTS = [(''clip_l'', ''--clip_l''), (''t5xxl'', ''--t5xxl''), (''vae'', ''--vae'')]"

definition IMAGE_SAMPLERS :: "string list" where
  "IMAGE_SAMPLERS = [''euler'', ''euler_a'', ''heun'', ''dpm2'', ''dpm++2m'', ''lcm'']"

definition VIDEO_COMPONENTS :: "(string \<times> string) list" where
  "VIDEO_COMPONENTS = [(''vae'', ''--vae''), (''t5xxl'', ''--t5xxl''), (''llm'', ''--llm''),
     (''audio_vae'', ''--audio-vae''), (''embeddings_connectors'', ''--embeddings-connectors''),
     (''spatial_upscaler'', ''--hires-upscalers-dir'')]"

definition TEXT_ENCODER_TYPES :: "string list" where
  "TEXT_ENCODER_TYPES = [''q8_0'', ''f16'']"

definition SPEECH_COMPONENTS :: "string set" where
  "SPEECH_COMPONENTS = {''config''}"

definition SLIMSERVE_WINDOW_LIMIT :: int where
  "SLIMSERVE_WINDOW_LIMIT = 1048576"

definition LLAMA_WINDOW_LIMIT :: int where
  "LLAMA_WINDOW_LIMIT = 1048576"

definition LLAMA_DEFAULT_WINDOW :: int where
  "LLAMA_DEFAULT_WINDOW = 8192"

definition LLAMA_MAX_REQUESTS :: int where
  "LLAMA_MAX_REQUESTS = 256"

definition EMBEDDINGGEMMA :: string where
  "EMBEDDINGGEMMA = ''embeddinggemma.c''"

definition EMBEDDINGGEMMA_WINDOW :: int where
  "EMBEDDINGGEMMA_WINDOW = 8192"

text \<open>\<open>^[1-9][0-9]{2,3}x[1-9][0-9]{2,3}$\<close>, \<open>^(auto|[a-z]{2,3})$\<close> and the digest patterns.\<close>

definition side_match :: "string \<Rightarrow> bool" where
  "side_match w = slug_match (\<lambda>c. is_digit c \<and> c \<noteq> CHR ''0'') is_digit 2 3 w"

definition size_match :: "string \<Rightarrow> bool" where
  "size_match s = (case split_on (CHR ''x'') s of [w, h] \<Rightarrow> side_match w \<and> side_match h | _ \<Rightarrow> False)"

definition language_match :: "string \<Rightarrow> bool" where
  "language_match s \<longleftrightarrow> s = ''auto'' \<or> (list_all is_lower s \<and> 2 \<le> length s \<and> length s \<le> 3)"

definition hex_match :: "nat \<Rightarrow> string \<Rightarrow> bool" where
  "hex_match n s \<longleftrightarrow> list_all is_hex s \<and> length s = n"

section \<open>Records\<close>

record component =
  cp_path :: string
  cp_sha256 :: string

datatype slim_file = FModel | FProjector | FDrafter

record slim_profile =
  sp_profile :: string
  sp_quant :: string
  sp_layout :: "(string, slim_file) dict"

record mlx_snapshot =
  mx_files :: "(string, string) dict"

record deployment =
  d_kind :: kind
  d_model_path :: string
  d_mmproj_path :: "string option"
  d_mmproj_sha256 :: "string option"
  d_revision :: string
  d_sha256 :: string
  d_port :: int
  d_served_model_name :: string
  d_context_length :: int
  d_requests :: int
  d_pooling :: "string option"
  d_normalization :: "string option"
  d_thinking :: "string option"
  d_thinking_budget :: "int option"
  d_components :: "(string, component) dict"
  d_steps :: "int option"
  d_cfg_scale :: "rat option"
  d_sampler :: "string option"
  d_flow_shift :: "rat option"
  d_fps :: "int option"
  d_seconds :: "int option"
  d_size :: "string option"
  d_upscale_sigmas :: "rat list option"
  d_text_encoder_type :: "string option"
  d_language :: "string option"
  d_slimserve :: "slim_profile option"
  d_mlx :: "mlx_snapshot option"
  d_engine :: "string option"

record component_request =
  cr_artifact :: string
  cr_sha256 :: string

record deployment_request =
  r_kind :: kind
  r_artifact :: string
  r_mmproj :: "string option"
  r_revision :: string
  r_sha256 :: string
  r_mmproj_sha256 :: "string option"
  r_served_model_name :: string
  r_context_length :: "int option"
  r_requests :: "int option"
  r_pooling :: "string option"
  r_normalization :: "string option"
  r_thinking :: "string option"
  r_thinking_budget :: "int option"
  r_components :: "(string, component_request) dict"
  r_steps :: "int option"
  r_cfg_scale :: "rat option"
  r_sampler :: "string option"
  r_flow_shift :: "rat option"
  r_fps :: "int option"
  r_seconds :: "int option"
  r_size :: "string option"
  r_upscale_sigmas :: "rat list option"
  r_text_encoder_type :: "string option"
  r_language :: "string option"
  r_slimserve :: "slim_profile option"
  r_mlx :: "mlx_snapshot option"
  r_engine :: "string option"

section \<open>SlimServe profiles and MLX snapshots\<close>

text \<open>\<open>str.casefold\<close> on ASCII names is \<open>str.lower\<close>.\<close>

fun clashing_neighbours :: "string list \<Rightarrow> bool" where
  "clashing_neighbours (n # f # ns) =
     (f = n \<or> prefix (n @ [slash]) f \<or> clashing_neighbours (f # ns))"
| "clashing_neighbours _ = False"

definition relative_paths :: "(string, slim_file) dict \<Rightarrow> py_error option" where
  "relative_paths layout =
     (let folded = sort (map (lower \<circ> fst) layout); files = map snd layout in
      run_checks [
        check (\<exists>n \<in> set (map fst layout). \<not> canonical_relative n)
          (ValueError ''a SlimServe layout names each file by a canonical relative path''),
        check (clashing_neighbours folded)
          (ValueError ''a SlimServe layout names each file at a place of its own''),
        check (count_list files FModel \<noteq> 1 \<or> (\<exists>f \<in> set [FModel, FProjector, FDrafter]. 1 < count_list files f))
          (ValueError ''a SlimServe layout names the weights once, and the projector and drafter at most once each'')])"

definition pin_check :: "string \<Rightarrow> string \<Rightarrow> py_error option" where
  "pin_check name digest = run_checks [
     check (\<not> canonical_relative name)
       (ValueError ''an MLX snapshot names each file by a canonical relative path''),
     check (\<exists>c \<in> set name. code c < 32)
       (ValueError ''an MLX snapshot's file names hold no control characters''),
     check (\<not> hex_match 64 digest)
       (ValueError ''an MLX snapshot pins each file by its sha256'')]"

definition pinned_files :: "(string, string) dict \<Rightarrow> py_error + (string, string) dict" where
  "pinned_files files =
     guarded (run_checks (map (\<lambda>(n, d). pin_check n d) files @ [
       check (''config.json'' \<notin> set (map fst files) \<or> \<not> (\<exists>n \<in> set (map fst files). suffix ''.safetensors'' n))
         (ValueError ''an MLX snapshot holds its config.json and safetensors weights'')]))
     (Inr (map (\<lambda>(n, d). (n, lower d)) files))"

definition tab :: char where
  "tab = CHR 0x09"

definition snapshot_digest :: "(string \<Rightarrow> string) \<Rightarrow> mlx_snapshot \<Rightarrow> string" where
  "snapshot_digest sha256 mlx =
     sha256 (concat (map (\<lambda>n. n @ [tab] @ the (dict_get (mx_files mlx) n) @ [newline])
       (sort (map fst (mx_files mlx)))))"

section \<open>Option checks\<close>

definition mlx_options ::
    "(string \<Rightarrow> string) \<Rightarrow> kind \<Rightarrow> mlx_snapshot option \<Rightarrow> slim_profile option \<Rightarrow> string list \<Rightarrow>
     string option \<Rightarrow> int option \<Rightarrow> string \<Rightarrow> py_error option" where
  "mlx_options sha256 kind mlx slimserve components projector budget sha =
     (case mlx of None \<Rightarrow> None
      | Some snapshot \<Rightarrow> run_checks [
          check (kind \<noteq> Generation) (ValueError ''MLX serves language model deployments only''),
          check (slimserve \<noteq> None \<or> components \<noteq> [] \<or> projector \<noteq> None)
            (ValueError ''an MLX deployment is its snapshot alone''),
          check (budget \<noteq> None) (ValueError ''mlx-lm takes no thinking budget''),
          check (lower sha \<noteq> snapshot_digest sha256 snapshot)
            (ValueError ''an MLX deployment's sha256 is its snapshot's own checksum'')])"

definition embeddinggemma_options ::
    "kind \<Rightarrow> string option \<Rightarrow> slim_profile option \<Rightarrow> mlx_snapshot option \<Rightarrow> string list \<Rightarrow> py_error option" where
  "embeddinggemma_options kind engine slimserve mlx components =
     (case engine of None \<Rightarrow> None
      | Some _ \<Rightarrow> check (kind \<noteq> Embedding \<or> slimserve \<noteq> None \<or> mlx \<noteq> None \<or> components \<noteq> [])
          (ValueError ''embeddinggemma.c serves embedding deployments of its own weights and projector only''))"

definition slimserve_options ::
    "kind \<Rightarrow> slim_profile option \<Rightarrow> string list \<Rightarrow> string option \<Rightarrow> string option \<Rightarrow> int option \<Rightarrow> py_error option" where
  "slimserve_options kind slimserve components projector thinking budget =
     (case slimserve of
        None \<Rightarrow> check (kind = Generation \<and> components \<noteq> [])
          (ValueError ''components apply to image, video, speech and SlimServe deployments only'')
      | Some profile \<Rightarrow>
          let files = set (map snd (sp_layout profile)) in run_checks [
          check (kind \<noteq> Generation) (ValueError ''SlimServe serves language model deployments only''),
          check (set components - {''drafter''} \<noteq> {})
            (ValueError ''a SlimServe deployment's one component is its drafter''),
          check ((FProjector \<in> files) \<noteq> (projector \<noteq> None) \<or> (FDrafter \<in> files) \<noteq> (''drafter'' \<in> set components))
            (ValueError ''a SlimServe layout names exactly the files the deployment gives''),
          check (thinking \<noteq> None \<or> budget \<noteq> None)
            (ValueError ''a SlimServe deployment thinks as its profile does'')])"

definition llama_window :: "kind \<Rightarrow> int \<Rightarrow> py_error option" where
  "llama_window kind window =
     (if kind = Generation \<and> window = 0 then None
      else check (kind \<notin> set NO_CONTEXT \<and> \<not> (128 \<le> window \<and> window \<le> LLAMA_WINDOW_LIMIT))
        (ValueError ''a llama-server deployment's window is between 128 and 1048576 tokens''))"

definition request_window :: "deployment_request \<Rightarrow> int" where
  "request_window request =
     (case r_context_length request of Some w \<Rightarrow> w
      | None \<Rightarrow> if r_kind request = Generation then 0 else LLAMA_DEFAULT_WINDOW)"

definition sides :: "string \<Rightarrow> nat list" where
  "sides sz = map parse_nat (split_on (CHR ''x'') sz)"

definition video_options ::
    "kind \<Rightarrow> rat option \<Rightarrow> int option \<Rightarrow> int option \<Rightarrow> string option \<Rightarrow> py_error option" where
  "video_options kind flow_shift fps seconds sz = run_checks [
     check (kind \<noteq> Video \<and> (flow_shift \<noteq> None \<or> fps \<noteq> None \<or> seconds \<noteq> None \<or> sz \<noteq> None))
       (ValueError ''flow_shift, fps, seconds and size apply to video deployments only''),
     (case sz of None \<Rightarrow> None
      | Some s \<Rightarrow> check (\<exists>side \<in> set (sides s). side mod 32 \<noteq> 0)
          (ValueError ''each side of a video's size is a multiple of 32''))]"

fun falling :: "rat list \<Rightarrow> bool" where
  "falling (earlier # later # rest) = (later < earlier \<and> falling (later # rest))"
| "falling _ = True"

definition sigmas_ok :: "rat list \<Rightarrow> bool" where
  "sigmas_ok sigmas \<longleftrightarrow>
     \<not> (length sigmas < 2 \<or> (\<exists>s \<in> set sigmas. \<not> (0 \<le> s \<and> s \<le> 1)) \<or> last sigmas \<noteq> 0 \<or> \<not> falling sigmas)"

definition upscale_options ::
    "kind \<Rightarrow> string list \<Rightarrow> string option \<Rightarrow> rat list option \<Rightarrow> py_error option" where
  "upscale_options kind components sz sigmas =
     (let upscaled = (kind = Video \<and> ''spatial_upscaler'' \<in> set components) in run_checks [
        check (sigmas \<noteq> None \<and> \<not> upscaled)
          (ValueError ''only a video model with a spatial upscaler refines after it''),
        (case sigmas of None \<Rightarrow> None
         | Some ss \<Rightarrow> check (\<not> sigmas_ok ss)
             (ValueError ''a refine pass's noise levels are 0 to 1 and fall to 0'')),
        check (upscaled \<and> sz = None) (ValueError ''an upscaled video names its size''),
        (case sz of None \<Rightarrow> None
         | Some s \<Rightarrow> check (upscaled \<and> (\<exists>side \<in> set (sides s). side mod 64 \<noteq> 0))
             (ValueError ''each side of an upscaled video's size is a multiple of 64''))])"

definition text_encoder_options :: "kind \<Rightarrow> string list \<Rightarrow> string option \<Rightarrow> py_error option" where
  "text_encoder_options kind components text_encoder_type =
     check (text_encoder_type \<noteq> None \<and> (kind \<noteq> Video \<or> ''llm'' \<notin> set components))
       (ValueError ''a text encoder type applies to a video model whose text encoder is a language model'')"

definition diffusion_components :: "kind \<Rightarrow> string list \<Rightarrow> py_error option" where
  "diffusion_components kind components =
     (let known = map fst (if kind = Image then IMAGE_COMPONENTS else VIDEO_COMPONENTS) in run_checks [
        check (set components - set known \<noteq> {}) (ValueError (''unknown '' @ kind_name kind @ '' components: '' @
           join_with '', '' (sort (remdups (filter (\<lambda>n. n \<notin> set known) components))))),
        check (kind = Video \<and> (''vae'' \<notin> set components \<or> {''t5xxl'', ''llm''} \<inter> set components = {}))
          (ValueError ''a video model names its autoencoder, vae, and its text encoder, t5xxl or llm'')])"

definition thinking_options :: "kind \<Rightarrow> string option \<Rightarrow> int option \<Rightarrow> py_error option" where
  "thinking_options kind thinking budget = run_checks [
     check (kind \<noteq> Generation \<and> (thinking \<noteq> None \<or> budget \<noteq> None))
       (ValueError ''thinking applies to generation deployments only''),
     check (budget \<noteq> None \<and> thinking \<noteq> Some ''on'')
       (ValueError ''a thinking budget applies when thinking is on'')]"

definition speech_components :: "(string, component) dict \<Rightarrow> string \<Rightarrow> py_error option" where
  "speech_components components model_path = run_checks [
     check (set (map fst components) \<noteq> SPEECH_COMPONENTS)
       (ValueError ''a speech deployment names its voice configuration as its one component, config''),
     (case dict_get components ''config'' of None \<Rightarrow> None
      | Some c \<Rightarrow> check (cp_path c \<noteq> model_path @ ''.json'')
          (ValueError ''a voice's configuration is the weights' name with .json appended''))]"

section \<open>The record's validator\<close>

text \<open>\<open>x or default\<close> on optional texts and numbers: \<open>None\<close>, the empty text and zero are false.\<close>

definition or_text :: "string option \<Rightarrow> string \<Rightarrow> string" where
  "or_text x dflt = (case x of None \<Rightarrow> dflt | Some s \<Rightarrow> if s = [] then dflt else s)"

definition or_int :: "int option \<Rightarrow> int \<Rightarrow> int" where
  "or_int x dflt = (case x of None \<Rightarrow> dflt | Some i \<Rightarrow> if i = 0 then dflt else i)"

definition component_names :: "deployment \<Rightarrow> string list" where
  "component_names d = map fst (d_components d)"

text \<open>The constraints of the record's fields, with its \<open>canonical_path\<close> field validator.\<close>

definition opt_in :: "('a \<Rightarrow> bool) \<Rightarrow> 'a option \<Rightarrow> bool" where
  "opt_in p x = (case x of None \<Rightarrow> True | Some v \<Rightarrow> p v)"

definition options_in_range ::
    "string option \<Rightarrow> string option \<Rightarrow> string option \<Rightarrow> int option \<Rightarrow> int option \<Rightarrow> rat option \<Rightarrow>
     string option \<Rightarrow> rat option \<Rightarrow> int option \<Rightarrow> int option \<Rightarrow> string option \<Rightarrow> string option \<Rightarrow>
     string option \<Rightarrow> string option \<Rightarrow> bool" where
  "options_in_range pooling normalization thinking budget steps cfg sampler shift fps seconds sz encoder language engine \<longleftrightarrow>
     opt_in (\<lambda>v. v \<in> {''mean'', ''last'', ''cls''}) pooling \<and>
     opt_in (\<lambda>v. v \<in> {''l2'', ''none''}) normalization \<and>
     opt_in (\<lambda>v. v \<in> {''on'', ''off''}) thinking \<and>
     opt_in (\<lambda>v. 1 \<le> v \<and> v \<le> 65536) budget \<and>
     opt_in (\<lambda>v. 1 \<le> v \<and> v \<le> 150) steps \<and>
     opt_in (\<lambda>v. 0 \<le> v \<and> v \<le> 30) cfg \<and>
     opt_in (\<lambda>v. v \<in> set IMAGE_SAMPLERS) sampler \<and>
     opt_in (\<lambda>v. 0 \<le> v \<and> v \<le> 20) shift \<and>
     opt_in (\<lambda>v. 1 \<le> v \<and> v \<le> 60) fps \<and>
     opt_in (\<lambda>v. 1 \<le> v \<and> v \<le> 10) seconds \<and>
     opt_in size_match sz \<and>
     opt_in (\<lambda>v. v \<in> set TEXT_ENCODER_TYPES) encoder \<and>
     opt_in language_match language \<and>
     opt_in (\<lambda>v. v = EMBEDDINGGEMMA) engine"

definition profile_ok :: "slim_profile \<Rightarrow> bool" where
  "profile_ok p \<longleftrightarrow>
     slug_match (\<lambda>c. is_lower c \<or> is_digit c) (\<lambda>c. is_lower c \<or> is_digit c \<or> c \<in> {CHR ''.'', CHR ''-''}) 0 63 (sp_profile p) \<and>
     slug_match is_alnum (\<lambda>c. is_alnum c \<or> c \<in> {CHR ''_'', CHR ''.'', CHR ''-''}) 0 31 (sp_quant p) \<and>
     relative_paths (sp_layout p) = None"

definition fields_ok :: "deployment \<Rightarrow> bool" where
  "fields_ok d \<longleftrightarrow>
     canonical_path (d_model_path d) \<and> opt_in canonical_path (d_mmproj_path d) \<and>
     (\<forall>c \<in> set (map snd (d_components d)). canonical_path (cp_path c)) \<and>
     1 \<le> d_port d \<and> d_port d \<le> 65535 \<and>
     0 \<le> d_context_length d \<and> d_context_length d \<le> SLIMSERVE_WINDOW_LIMIT \<and>
     1 \<le> d_requests d \<and> d_requests d \<le> LLAMA_MAX_REQUESTS \<and>
     options_in_range (d_pooling d) (d_normalization d) (d_thinking d) (d_thinking_budget d) (d_steps d)
       (d_cfg_scale d) (d_sampler d) (d_flow_shift d) (d_fps d) (d_seconds d) (d_size d)
       (d_text_encoder_type d) (d_language d) (d_engine d) \<and>
     opt_in profile_ok (d_slimserve d)"

text \<open>The \<open>files\<close> field validator of a snapshot, where there is one: it lowers the checksums.\<close>

definition read_mlx :: "mlx_snapshot option \<Rightarrow> py_error + mlx_snapshot option" where
  "read_mlx mlx =
     (case mlx of None \<Rightarrow> Inr None
      | Some m \<Rightarrow> and_then (pinned_files (mx_files m)) (\<lambda>fs. Inr (Some (m\<lparr>mx_files := fs\<rparr>))))"

definition fill_embedding :: "deployment \<Rightarrow> deployment" where
  "fill_embedding d =
     (if d_kind d = Embedding
      then d\<lparr>d_pooling := Some (or_text (d_pooling d) ''mean''),
             d_normalization := Some (or_text (d_normalization d) ''l2'')\<rparr>
      else d)"

definition fill_diffusion :: "deployment \<Rightarrow> deployment" where
  "fill_diffusion d =
     (let d = d\<lparr>d_steps := Some (or_int (d_steps d) 20),
                d_cfg_scale := Some (case d_cfg_scale d of None \<Rightarrow> if d_kind d = Image then 7 else 5 | Some c \<Rightarrow> c),
                d_sampler := Some (or_text (d_sampler d) ''euler'')\<rparr>
      in if d_kind d = Video
         then d\<lparr>d_fps := Some (or_int (d_fps d) 16), d_seconds := Some (or_int (d_seconds d) 2),
                d_size := Some (or_text (d_size d) ''640x352'')\<rparr>
         else d)"

definition kind_checks :: "deployment \<Rightarrow> py_error option" where
  "kind_checks d =
     (if d_kind d \<in> set DIFFUSION then diffusion_components (d_kind d) (component_names d)
      else run_checks [
        check (d_steps d \<noteq> None \<or> d_cfg_scale d \<noteq> None \<or> d_sampler d \<noteq> None)
          (ValueError ''steps, cfg_scale and sampler apply to image and video deployments only''),
        (if d_kind d = Speech then speech_components (d_components d) (d_model_path d)
         else check (d_kind d \<noteq> Generation \<and> d_components d \<noteq> [])
           (ValueError ''components apply to image, video, speech and SlimServe deployments only''))])"

definition fill_kind :: "deployment \<Rightarrow> deployment" where
  "fill_kind d = (if d_kind d \<in> set DIFFUSION then fill_diffusion d else d)"

definition language_check :: "deployment \<Rightarrow> py_error option" where
  "language_check d = check (d_kind d \<noteq> Transcription \<and> d_language d \<noteq> None)
     (ValueError ''language applies to transcription deployments only'')"

definition fill_language :: "deployment \<Rightarrow> deployment" where
  "fill_language d =
     (if d_kind d = Transcription then d\<lparr>d_language := Some (or_text (d_language d) ''auto'')\<rparr> else d)"

definition engine_checks :: "(string \<Rightarrow> string) \<Rightarrow> deployment \<Rightarrow> py_error option" where
  "engine_checks sha256 d = run_checks [
     slimserve_options (d_kind d) (d_slimserve d) (component_names d) (d_mmproj_path d) (d_thinking d) (d_thinking_budget d),
     mlx_options sha256 (d_kind d) (d_mlx d) (d_slimserve d) (component_names d) (d_mmproj_path d) (d_thinking_budget d) (d_sha256 d),
     embeddinggemma_options (d_kind d) (d_engine d) (d_slimserve d) (d_mlx d) (component_names d),
     check (d_engine d = Some EMBEDDINGGEMMA \<and> (d_pooling d \<noteq> Some ''mean'' \<or> d_normalization d \<noteq> Some ''l2''))
       (ValueError ''embeddinggemma.c pools by the mean and normalizes to unit length''),
     check (d_engine d = Some EMBEDDINGGEMMA \<and> EMBEDDINGGEMMA_WINDOW < d_context_length d)
       (ValueError ''embeddinggemma.c reads at most 8192 tokens of an input'')]"

definition window_check :: "deployment \<Rightarrow> py_error option" where
  "window_check d =
     (if d_slimserve d = None then llama_window (d_kind d) (d_context_length d)
      else check (d_context_length d \<noteq> 0 \<and> d_context_length d < 128)
        (ValueError ''a SlimServe deployment's window, when it names one, is at least 128 tokens''))"

definition base_checks :: "deployment \<Rightarrow> py_error option" where
  "base_checks d = run_checks [
     check (d_kind d \<noteq> Embedding \<and> (d_pooling d \<noteq> None \<or> d_normalization d \<noteq> None))
       (ValueError ''pooling and normalization apply to embedding deployments only''),
     check (d_kind d \<notin> {Generation, Embedding} \<and> d_mmproj_path d \<noteq> None)
       (ValueError (''a '' @ kind_name (d_kind d) @ '' deployment has no projector'')),
     thinking_options (d_kind d) (d_thinking d) (d_thinking_budget d),
     video_options (d_kind d) (d_flow_shift d) (d_fps d) (d_seconds d) (d_size d),
     upscale_options (d_kind d) (component_names d) (d_size d) (d_upscale_sigmas d),
     text_encoder_options (d_kind d) (component_names d) (d_text_encoder_type d)]"

definition kind_options :: "(string \<Rightarrow> string) \<Rightarrow> deployment \<Rightarrow> py_error + deployment" where
  "kind_options sha256 d0 =
     guarded (base_checks d0)
       (let d = fill_embedding d0 in guarded (kind_checks d)
       (let d = fill_kind d in guarded (engine_checks sha256 d) (guarded (language_check d)
       (let d = fill_language d in guarded (window_check d) (Inr d)))))"

text \<open>Building a record: its fields are checked first, its kind's options after.\<close>

definition make_deployment :: "(string \<Rightarrow> string) \<Rightarrow> deployment \<Rightarrow> py_error + deployment" where
  "make_deployment sha256 d =
     and_then (read_mlx (d_mlx d)) (\<lambda>mlx.
     guarded (check (\<not> fields_ok d) (ValueError ''validation error''))
     (kind_options sha256 (d\<lparr>d_mlx := mlx\<rparr>)))"

section \<open>The request's validator\<close>

definition request_fields_ok :: "deployment_request \<Rightarrow> bool" where
  "request_fields_ok r \<longleftrightarrow>
     (hex_match 40 (r_revision r) \<or> hex_match 64 (r_revision r)) \<and> hex_match 64 (r_sha256 r) \<and>
     opt_in (hex_match 64) (r_mmproj_sha256 r) \<and>
     slug_match is_alnum (\<lambda>c. is_alnum c \<or> c \<in> {CHR ''.'', CHR ''_'', CHR ''-''}) 0 127 (r_served_model_name r) \<and>
     opt_in (\<lambda>v. 128 \<le> v \<and> v \<le> SLIMSERVE_WINDOW_LIMIT) (r_context_length r) \<and>
     opt_in (\<lambda>v. 1 \<le> v \<and> v \<le> LLAMA_MAX_REQUESTS) (r_requests r) \<and>
     (\<forall>c \<in> set (map snd (r_components r)). hex_match 64 (cr_sha256 c)) \<and>
     options_in_range (r_pooling r) (r_normalization r) (r_thinking r) (r_thinking_budget r) (r_steps r)
       (r_cfg_scale r) (r_sampler r) (r_flow_shift r) (r_fps r) (r_seconds r) (r_size r)
       (r_text_encoder_type r) (r_language r) (r_engine r) \<and>
     opt_in profile_ok (r_slimserve r)"

definition projector_checksum :: "(string \<Rightarrow> string) \<Rightarrow> deployment_request \<Rightarrow> py_error option" where
  "projector_checksum sha256 r =
     (let kind = r_kind r; names = map fst (r_components r) in run_checks [
        check ((r_mmproj r = None) \<noteq> (r_mmproj_sha256 r = None))
          (ValueError ''a projector is named together with its sha256''),
        check (kind \<notin> set DIFFUSION \<and> (r_steps r \<noteq> None \<or> r_cfg_scale r \<noteq> None \<or> r_sampler r \<noteq> None))
          (ValueError ''steps, cfg_scale and sampler apply to image and video deployments only''),
        thinking_options kind (r_thinking r) (r_thinking_budget r),
        video_options kind (r_flow_shift r) (r_fps r) (r_seconds r) (r_size r),
        upscale_options kind names (r_size r) (r_upscale_sigmas r),
        text_encoder_options kind names (r_text_encoder_type r),
        (if kind \<in> set DIFFUSION then diffusion_components kind names
         else if kind = Speech then
           check (set names \<noteq> SPEECH_COMPONENTS)
             (ValueError ''a speech deployment names its voice configuration as its one component, config'')
         else check (kind \<noteq> Generation \<and> names \<noteq> [])
             (ValueError ''components apply to image, video, speech and SlimServe deployments only'')),
        slimserve_options kind (r_slimserve r) names (r_mmproj r) (r_thinking r) (r_thinking_budget r),
        mlx_options sha256 kind (r_mlx r) (r_slimserve r) names (r_mmproj r) (r_thinking_budget r) (r_sha256 r),
        embeddinggemma_options kind (r_engine r) (r_slimserve r) (r_mlx r) names,
        check (r_requests r \<noteq> None \<and> (kind \<noteq> Generation \<or> r_slimserve r \<noteq> None \<or> r_mlx r \<noteq> None))
          (ValueError ''requests apply to a language model llama-server serves''),
        check (opt_in (\<lambda>n. 1 < n) (r_requests r) \<and> r_requests r \<noteq> None \<and> r_context_length r = None)
          (ValueError ''more than one request needs a context_length: the model's own window is served for one''),
        check (kind \<noteq> Transcription \<and> r_language r \<noteq> None)
          (ValueError ''language applies to transcription deployments only'')])"

definition read_request :: "(string \<Rightarrow> string) \<Rightarrow> deployment_request \<Rightarrow> py_error + deployment_request" where
  "read_request sha256 r =
     and_then (read_mlx (r_mlx r)) (\<lambda>mlx.
     guarded (check (\<not> request_fields_ok r) (ValueError ''validation error''))
     (let r = r\<lparr>r_mlx := mlx\<rparr> in guarded (projector_checksum sha256 r) (Inr r)))"

section \<open>What the validators leave\<close>

lemma fill_embedding_frame [simp]:
  "d_kind (fill_embedding d) = d_kind d" "d_components (fill_embedding d) = d_components d"
  "d_size (fill_embedding d) = d_size d" "d_language (fill_embedding d) = d_language d"
  "d_slimserve (fill_embedding d) = d_slimserve d" "d_mlx (fill_embedding d) = d_mlx d"
  "d_engine (fill_embedding d) = d_engine d" "d_steps (fill_embedding d) = d_steps d"
  "d_cfg_scale (fill_embedding d) = d_cfg_scale d" "d_sampler (fill_embedding d) = d_sampler d"
  "d_context_length (fill_embedding d) = d_context_length d" "d_model_path (fill_embedding d) = d_model_path d"
  by (simp_all add: fill_embedding_def)

lemma fill_diffusion_frame [simp]:
  "d_kind (fill_diffusion d) = d_kind d" "d_components (fill_diffusion d) = d_components d"
  "d_language (fill_diffusion d) = d_language d" "d_slimserve (fill_diffusion d) = d_slimserve d"
  "d_mlx (fill_diffusion d) = d_mlx d" "d_engine (fill_diffusion d) = d_engine d"
  "d_context_length (fill_diffusion d) = d_context_length d"
  by (simp_all add: fill_diffusion_def Let_def)

lemma kind_options_Inr:
  "kind_options sha256 d = Inr d' \<longleftrightarrow>
     base_checks d = None \<and> kind_checks (fill_embedding d) = None \<and>
     engine_checks sha256 (fill_kind (fill_embedding d)) = None \<and>
     language_check (fill_kind (fill_embedding d)) = None \<and>
     window_check (fill_language (fill_kind (fill_embedding d))) = None \<and>
     d' = fill_language (fill_kind (fill_embedding d))"
  by (auto simp: kind_options_def guarded_Inr Let_def)

definition normalized :: "deployment \<Rightarrow> deployment" where
  "normalized d = fill_language (fill_kind (fill_embedding d))"

lemma or_text_idem [simp]: "or_text (Some (or_text x v)) v = or_text x v"
  by (auto simp: or_text_def split: option.splits)

lemma or_int_idem [simp]: "or_int (Some (or_int x v)) v = or_int x v"
  by (auto simp: or_int_def split: option.splits)

lemmas fill_defs = normalized_def fill_language_def fill_kind_def fill_embedding_def fill_diffusion_def
  DIFFUSION_def Let_def

lemma normalized_kind [simp]: "d_kind (normalized d) = d_kind d"
  by (simp add: fill_defs)

lemma normalized_idem: "normalized (normalized d) = normalized d"
  by (cases "d_kind d") (simp_all add: fill_defs)

lemma normalized_stages:
  "fill_embedding (normalized d) = normalized d"
  "fill_kind (normalized d) = normalized d"
  "fill_language (normalized d) = normalized d"
  by (cases "d_kind d"; simp add: fill_defs)+

lemma default_size: "sides ''640x352'' = [640, 352]" "size_match ''640x352''"
  by code_simp+

lemma or_size: "or_text x ''640x352'' = s \<Longrightarrow> x = Some s \<or> s = ''640x352''"
  by (auto simp: or_text_def split: option.splits if_splits)

lemma normalized_frame [simp]:
  "d_components (normalized d) = d_components d" "component_names (normalized d) = component_names d"
  "d_mmproj_path (normalized d) = d_mmproj_path d" "d_thinking (normalized d) = d_thinking d"
  "d_thinking_budget (normalized d) = d_thinking_budget d" "d_flow_shift (normalized d) = d_flow_shift d"
  "d_upscale_sigmas (normalized d) = d_upscale_sigmas d" "d_slimserve (normalized d) = d_slimserve d"
  "d_text_encoder_type (normalized d) = d_text_encoder_type d" "d_mlx (normalized d) = d_mlx d"
  "d_engine (normalized d) = d_engine d" "d_model_path (normalized d) = d_model_path d"
  "d_context_length (normalized d) = d_context_length d" "d_sha256 (normalized d) = d_sha256 d"
  "d_port (normalized d) = d_port d" "d_requests (normalized d) = d_requests d"
  "d_served_model_name (normalized d) = d_served_model_name d"
  by (simp_all add: fill_defs component_names_def)

lemma normalized_options:
  "d_pooling (normalized d) = (if d_kind d = Embedding then Some (or_text (d_pooling d) ''mean'') else d_pooling d)"
  "d_normalization (normalized d) = (if d_kind d = Embedding then Some (or_text (d_normalization d) ''l2'') else d_normalization d)"
  "d_fps (normalized d) = (if d_kind d = Video then Some (or_int (d_fps d) 16) else d_fps d)"
  "d_seconds (normalized d) = (if d_kind d = Video then Some (or_int (d_seconds d) 2) else d_seconds d)"
  "d_size (normalized d) = (if d_kind d = Video then Some (or_text (d_size d) ''640x352'') else d_size d)"
  "d_steps (normalized d) = (if d_kind d \<in> set DIFFUSION then Some (or_int (d_steps d) 20) else d_steps d)"
  "d_cfg_scale (normalized d) = (if d_kind d \<in> set DIFFUSION then
     Some (case d_cfg_scale d of None \<Rightarrow> if d_kind d = Image then 7 else 5 | Some c \<Rightarrow> c) else d_cfg_scale d)"
  "d_sampler (normalized d) = (if d_kind d \<in> set DIFFUSION then Some (or_text (d_sampler d) ''euler'') else d_sampler d)"
  "d_language (normalized d) = (if d_kind d = Transcription then Some (or_text (d_language d) ''auto'') else d_language d)"
  by (cases "d_kind d"; simp add: fill_defs)+

lemma base_checks_normalized:
  assumes "base_checks d = None" "fields_ok d"
  shows "base_checks (normalized d) = None"
proof -
  have size: "d_size d \<noteq> Some []"
    using assms(2) by (auto simp: fields_ok_def options_in_range_def opt_in_def size_match_def split_on.simps)
  have "video_options (d_kind d) (d_flow_shift d) (d_fps d) (d_seconds d) (d_size d) = None"
    "upscale_options (d_kind d) (component_names d) (d_size d) (d_upscale_sigmas d) = None"
    using assms by (simp_all add: base_checks_def run_checks_None)
  then have "video_options (d_kind d) (d_flow_shift d) (d_fps (normalized d)) (d_seconds (normalized d)) (d_size (normalized d)) = None"
    "upscale_options (d_kind d) (component_names d) (d_size (normalized d)) (d_upscale_sigmas d) = None"
    using size by (auto simp: normalized_options video_options_def upscale_options_def check_simps Let_def
        default_size or_text_def split: option.splits if_splits)
  then show ?thesis
    using assms(1) by (auto simp: base_checks_def run_checks_None check_None normalized_options)
qed

lemma normalized_fields:
  assumes "fields_ok d"
  shows "fields_ok (normalized d)"
proof -
  have fill: "opt_in P (Some (or_text x v))" if "opt_in P x" "P v" for P x v
    using that by (auto simp: opt_in_def or_text_def split: option.splits)
  have filln: "opt_in P (Some (or_int x v))" if "opt_in P x" "P v" for P x v
    using that by (auto simp: opt_in_def or_int_def split: option.splits)
  have cfg: "opt_in (\<lambda>v. 0 \<le> v \<and> v \<le> 30) (Some (case x of None \<Rightarrow> if b then 7 else 5 | Some c \<Rightarrow> c))"
    if "opt_in (\<lambda>v. 0 \<le> v \<and> v \<le> 30) x" for x :: "rat option" and b
    using that by (auto simp: opt_in_def split: option.splits)
  show ?thesis
    using assms
    by (simp add: fields_ok_def options_in_range_def normalized_options fill filln cfg default_size
        IMAGE_SAMPLERS_def language_match_def)
qed

lemma lower_char_idem [simp]: "lower_char (lower_char c) = lower_char c"
  by (cases "is_upper c") (auto simp: lower_char_def is_upper_def code_def)

lemma lower_idem [simp]: "lower (lower s) = lower s"
  by (simp add: lower_def)

lemma hex_lower_char: "is_hex c \<Longrightarrow> is_hex (lower_char c)"
  by (auto simp: lower_char_def is_upper_def is_hex_def is_hex_lower_def is_digit_def code_def)

lemma hex_match_lower: "hex_match n s \<Longrightarrow> hex_match n (lower s)"
  by (auto simp: hex_match_def lower_def list_all_iff hex_lower_char)

lemma pin_check_lower: "pin_check n x = None \<Longrightarrow> pin_check n (lower x) = None"
  by (auto simp: pin_check_def run_checks_None check_None hex_match_lower)

lemma pinned_files_Inr:
  "pinned_files fs = Inr fs' \<longleftrightarrow>
     (\<forall>(n, x) \<in> set fs. pin_check n x = None) \<and>
     ''config.json'' \<in> set (map fst fs) \<and> (\<exists>n \<in> set (map fst fs). suffix ''.safetensors'' n) \<and>
     fs' = map (\<lambda>(n, x). (n, lower x)) fs"
  by (auto simp: pinned_files_def guarded_Inr run_checks_None check_None)

lemma pinned_files_idem: "pinned_files fs = Inr fs' \<Longrightarrow> pinned_files fs' = Inr fs'"
  unfolding pinned_files_Inr by (auto simp: pin_check_lower comp_def split_beta)

lemma read_mlx_idem: "read_mlx m = Inr m' \<Longrightarrow> read_mlx m' = Inr m'"
  by (auto simp: read_mlx_def and_then_Inr pinned_files_idem split: option.splits)

lemma fields_ok_mlx [simp]: "fields_ok (d\<lparr>d_mlx := m\<rparr>) = fields_ok d"
  by (simp add: fields_ok_def)

text \<open>
  C27. A record the agent accepted and wrote is accepted again when \<open>agent.yaml\<close> is reloaded, and
  reloading changes none of its fields.
\<close>

theorem record_reload_stable:
  assumes "make_deployment sha256 d = Inr d'"
  shows "make_deployment sha256 d' = Inr d'"
proof -
  obtain m where m: "read_mlx (d_mlx d) = Inr m" and f0: "fields_ok d"
    and k: "kind_options sha256 (d\<lparr>d_mlx := m\<rparr>) = Inr d'"
    using assms by (auto simp: make_deployment_def and_then_Inr guarded_Inr check_None)
  define e where "e = d\<lparr>d_mlx := m\<rparr>"
  have f: "fields_ok e" and me: "d_mlx e = m" using f0 by (simp_all add: e_def)
  note K = k [folded e_def, unfolded kind_options_Inr]
  have d': "d' = normalized e" using K by (simp add: normalized_def)
  have "kind_checks d' = None" "engine_checks sha256 d' = None" "language_check d' = None"
    "window_check d' = None"
    using K unfolding d'
    by (auto simp: kind_checks_def engine_checks_def language_check_def fill_defs component_names_def
        check_simps split: if_splits)
  moreover have "kind_options sha256 d' = Inr d'" if "base_checks d' = None" "kind_checks d' = None"
    "engine_checks sha256 d' = None" "language_check d' = None" "window_check d' = None"
    using that normalized_stages [of e] by (simp add: kind_options_Inr d')
  ultimately have "kind_options sha256 d' = Inr d'"
    using base_checks_normalized [OF _ f] K d' by simp
  moreover have "d_mlx d' = m" "fields_ok d'" using me d' normalized_fields [OF f] by simp_all
  moreover from this have "d'\<lparr>d_mlx := m\<rparr> = d'" by (cases d') simp
  ultimately have "kind_options sha256 (d'\<lparr>d_mlx := m\<rparr>) = Inr d'" "d_mlx d' = m" "fields_ok d'"
    by metis+
  then show ?thesis
    using read_mlx_idem [OF m] by (simp add: make_deployment_def guarded_Inr check_None)
qed


text \<open>Concrete records for the witnesses, and a digest function that names no digest.\<close>

definition bare_deployment :: deployment where
  "bare_deployment = \<lparr>d_kind = Generation, d_model_path = ''/m/a.gguf'', d_mmproj_path = None,
     d_mmproj_sha256 = None, d_revision = replicate 40 (CHR ''a''), d_sha256 = replicate 64 (CHR ''a''),
     d_port = 9110, d_served_model_name = ''a'', d_context_length = 4096, d_requests = 4,
     d_pooling = None, d_normalization = None, d_thinking = None, d_thinking_budget = None,
     d_components = [], d_steps = None, d_cfg_scale = None, d_sampler = None, d_flow_shift = None,
     d_fps = None, d_seconds = None, d_size = None, d_upscale_sigmas = None,
     d_text_encoder_type = None, d_language = None, d_slimserve = None, d_mlx = None, d_engine = None\<rparr>"

definition clip_deployment :: deployment where
  "clip_deployment = bare_deployment\<lparr>d_kind := Video, d_context_length := 0, d_requests := 1, d_size := Some ''1280x704'',
     d_components := [(''vae'', \<lparr>cp_path = ''/m/v'', cp_sha256 = []\<rparr>), (''llm'', \<lparr>cp_path = ''/m/t'', cp_sha256 = []\<rparr>),
       (''spatial_upscaler'', \<lparr>cp_path = ''/m/u/s'', cp_sha256 = []\<rparr>)],
     d_upscale_sigmas := Some [9/10, 1/2, 0]\<rparr>"

definition clip_recorded :: deployment where
  "clip_recorded = clip_deployment\<lparr>d_steps := Some 20, d_cfg_scale := Some 5, d_sampler := Some ''euler'',
     d_fps := Some 16, d_seconds := Some 2\<rparr>"

lemma clip_accepted: "make_deployment (\<lambda>_. []) clip_deployment = Inr clip_recorded"
  by code_simp

lemma record_reload_stable_witness:
  "make_deployment (\<lambda>_. []) clip_deployment = Inr clip_recorded \<and>
   make_deployment (\<lambda>_. []) clip_recorded = Inr clip_recorded"
  using record_reload_stable [OF clip_accepted] clip_accepted by simp

lemma make_deployment_checks:
  assumes "make_deployment sha256 d = Inr d'"
  shows "base_checks d' = None" "kind_checks d' = None" "engine_checks sha256 d' = None"
    "language_check d' = None" "window_check d' = None" "fields_ok d'"
proof -
  obtain e m where f: "fields_ok e" and k: "kind_options sha256 e = Inr d'"
    using assms fields_ok_mlx by (auto simp: make_deployment_def and_then_Inr guarded_Inr check_None simp del: fields_ok_mlx)
  note K = k [unfolded kind_options_Inr]
  have d': "d' = normalized e" using K by (simp add: normalized_def)
  show "kind_checks d' = None" "engine_checks sha256 d' = None" "language_check d' = None"
    "window_check d' = None"
    using K unfolding d'
    by (auto simp: kind_checks_def engine_checks_def language_check_def fill_defs component_names_def
        check_simps split: if_splits)
  show "base_checks d' = None" using base_checks_normalized [OF _ f] K d' by simp
  show "fields_ok d'" using normalized_fields [OF f] d' by simp
qed

text \<open>
  An accepted record is served by one engine: a SlimServe profile, an MLX snapshot and
  embeddinggemma.c exclude one another; the first two serve language models only, the third
  embeddings, and beside a SlimServe profile the record carries exactly the files its layout names.
\<close>

lemma one_engine:
  assumes "make_deployment sha256 d = Inr d'"
  shows "case d_slimserve d' of
      Some p \<Rightarrow> d_kind d' = Generation \<and> d_mlx d' = None \<and> d_engine d' = None \<and>
        (FProjector \<in> snd ` set (sp_layout p) \<longleftrightarrow> d_mmproj_path d' \<noteq> None) \<and>
        set (component_names d') = (if FDrafter \<in> snd ` set (sp_layout p) then {''drafter''} else {})
    | None \<Rightarrow> (case d_mlx d' of
        Some m \<Rightarrow> d_kind d' = Generation \<and> d_engine d' = None \<and> d_components d' = [] \<and> d_mmproj_path d' = None \<and>
          lower (d_sha256 d') = snapshot_digest sha256 m
      | None \<Rightarrow> (d_engine d' \<noteq> None \<longrightarrow> d_kind d' = Embedding \<and> d_components d' = [] \<and>
          d_pooling d' = Some ''mean'' \<and> d_normalization d' = Some ''l2'' \<and> d_context_length d' \<le> 8192))"
proof -
  note E = make_deployment_checks(3) [OF assms, unfolded engine_checks_def run_checks_None]
  have eg: "opt_in (\<lambda>v. v = EMBEDDINGGEMMA) (d_engine d')"
    using make_deployment_checks(6) [OF assms] by (simp add: fields_ok_def options_in_range_def)
  have s: "slimserve_options (d_kind d') (d_slimserve d') (component_names d') (d_mmproj_path d') (d_thinking d') (d_thinking_budget d') = None"
    and m: "mlx_options sha256 (d_kind d') (d_mlx d') (d_slimserve d') (component_names d') (d_mmproj_path d') (d_thinking_budget d') (d_sha256 d') = None"
    and e: "embeddinggemma_options (d_kind d') (d_engine d') (d_slimserve d') (d_mlx d') (component_names d') = None"
    and p: "d_engine d' = Some EMBEDDINGGEMMA \<Longrightarrow> d_pooling d' = Some ''mean'' \<and> d_normalization d' = Some ''l2'' \<and> d_context_length d' \<le> 8192"
    using E by (auto simp: check_None EMBEDDINGGEMMA_WINDOW_def)
  show ?thesis
  proof (cases "d_slimserve d'")
    case (Some p)
    moreover have "set names = {}" if "set names \<subseteq> {x}" "x \<notin> set names" for names and x :: string
      using subset_singletonD [OF that(1)] that(2) by auto
    ultimately show ?thesis using s m e
      by (fastforce simp: slimserve_options_def mlx_options_def embeddinggemma_options_def run_checks_None check_None Let_def
          split: option.splits)
  next
    case None
    then show ?thesis using m e p eg
      by (auto simp: mlx_options_def embeddinggemma_options_def run_checks_None check_None component_names_def opt_in_def
          split: option.splits)
  qed
qed

lemma one_engine_witness:
  "case d_slimserve clip_recorded of None \<Rightarrow> d_mlx clip_recorded = None \<and> d_engine clip_recorded = None | Some _ \<Rightarrow> False"
  using one_engine [OF clip_accepted] by (simp add: clip_recorded_def clip_deployment_def bare_deployment_def)


section \<open>Layouts\<close>

lemma clashing_Cons: "\<not> clashing_neighbours (n # ns) \<Longrightarrow> \<not> clashing_neighbours ns"
  by (cases ns) auto

lemma sorted_no_clash_distinct:
  "sorted (ns :: string list) \<Longrightarrow> \<not> clashing_neighbours ns \<Longrightarrow> distinct ns"
proof (induction ns rule: clashing_neighbours.induct)
  case (1 n f ns)
  then have d: "distinct (f # ns)" and ne: "f \<noteq> n" and le: "n \<le> f" "\<forall>x \<in> set ns. f \<le> x"
    by auto
  then have "n < f" by simp
  with le(2) have "n \<notin> set (f # ns)" by fastforce
  with d show ?case by simp
qed simp_all

text \<open>
  The layout of an accepted SlimServe record names every file by a canonical relative path, no
  two of them equal up to letter case, with the weights exactly once and the projector and the
  drafter at most once.
\<close>

lemma accepted_layout:
  assumes "make_deployment sha256 d = Inr d'" "d_slimserve d' = Some p"
  shows "(\<forall>n \<in> fst ` set (sp_layout p). canonical_relative n) \<and>
    distinct (map (lower \<circ> fst) (sp_layout p)) \<and>
    count_list (map snd (sp_layout p)) FModel = 1 \<and>
    count_list (map snd (sp_layout p)) FProjector \<le> 1 \<and> count_list (map snd (sp_layout p)) FDrafter \<le> 1"
proof -
  have "relative_paths (sp_layout p) = None"
    using make_deployment_checks(6) [OF assms(1)] assms(2) by (simp add: fields_ok_def opt_in_def profile_ok_def)
  then have c: "\<forall>n \<in> fst ` set (sp_layout p). canonical_relative n"
    and n: "\<not> clashing_neighbours (sort (map (lower \<circ> fst) (sp_layout p)))"
    and f: "count_list (map snd (sp_layout p)) FModel = 1"
      "\<forall>f \<in> set [FModel, FProjector, FDrafter]. count_list (map snd (sp_layout p)) f \<le> 1"
    by (auto simp: relative_paths_def run_checks_None check_None Let_def not_less)
  have "distinct (sort (map (lower \<circ> fst) (sp_layout p)))"
    by (rule sorted_no_clash_distinct [OF sorted_sort n])
  then have "distinct (map (lower \<circ> fst) (sp_layout p))"
    by (simp only: distinct_sort)
  then show ?thesis using c f by (simp del: distinct_map)
qed

definition profiled_deployment :: deployment where
  "profiled_deployment = bare_deployment\<lparr>d_requests := 1, d_context_length := 0, d_mmproj_path := Some ''/m/p'',
     d_slimserve := Some \<lparr>sp_profile = ''a'', sp_quant = ''q4'',
       sp_layout = [(''w/m'', FModel), (''w/p'', FProjector)]\<rparr>\<rparr>"

lemma accepted_layout_witness:
  "make_deployment (\<lambda>_. []) profiled_deployment = Inr profiled_deployment \<and>
   distinct (map lower [''w/m'', ''w/p''])"
proof -
  have "make_deployment (\<lambda>_. []) profiled_deployment = Inr profiled_deployment" by code_simp
  then show ?thesis
    using accepted_layout [of "\<lambda>_. []" profiled_deployment profiled_deployment "the (d_slimserve profiled_deployment)"]
    by (simp add: profiled_deployment_def)
qed

text \<open>
  The layout check compares a name only with its neighbour in sorted order, so a file placed
  inside another file's path is found exactly when nothing sorts between the two: a layout that
  nests one link inside another is accepted beside a name that sorts between them, although the
  same two names alone are refused.
\<close>

theorem nested_layout_accepted:
  "relative_paths [(''w'', FModel), (''w/d'', FDrafter)] \<noteq> None \<and>
   relative_paths [(''w'', FModel), (''w.p'', FProjector), (''w/d'', FDrafter)] = None"
  by code_simp

section \<open>From a request to its record\<close>

text \<open>\<open>replace_on_port\<close>'s candidate, from the request and the resolved files.\<close>

definition component_of :: "(string \<times> component_request) \<Rightarrow> string \<Rightarrow> string \<times> component" where
  "component_of nc path = (fst nc, \<lparr>cp_path = path, cp_sha256 = lower (cr_sha256 (snd nc))\<rparr>)"

definition candidate_of ::
    "deployment_request \<Rightarrow> string \<Rightarrow> string option \<Rightarrow> (string, component) dict \<Rightarrow> int \<Rightarrow> deployment" where
  "candidate_of r model mmproj components port =
     \<lparr>d_kind = r_kind r, d_model_path = model, d_mmproj_path = mmproj,
      d_mmproj_sha256 = map_option lower (r_mmproj_sha256 r),
      d_revision = lower (r_revision r), d_sha256 = lower (r_sha256 r), d_port = port,
      d_served_model_name = r_served_model_name r,
      d_context_length = (if r_kind r \<in> set NO_CONTEXT then 0 else request_window r),
      d_requests = or_int (r_requests r) 1,
      d_pooling = r_pooling r, d_normalization = r_normalization r,
      d_thinking = r_thinking r, d_thinking_budget = r_thinking_budget r,
      d_components = components, d_steps = r_steps r, d_cfg_scale = r_cfg_scale r,
      d_sampler = r_sampler r, d_flow_shift = r_flow_shift r, d_fps = r_fps r, d_seconds = r_seconds r,
      d_size = r_size r, d_upscale_sigmas = r_upscale_sigmas r,
      d_text_encoder_type = r_text_encoder_type r, d_language = r_language r,
      d_slimserve = r_slimserve r, d_mlx = r_mlx r, d_engine = r_engine r\<rparr>"

lemma candidate_in_range:
  assumes "request_fields_ok r" "r_kind r = Generation" "canonical_path model" "opt_in canonical_path mmproj"
    and "map fst components = map fst (r_components r)" "\<forall>c \<in> set (map snd components). canonical_path (cp_path c)"
    and "1 \<le> port" "port \<le> 65535"
  shows "fields_ok (candidate_of (r\<lparr>r_mlx := m\<rparr>) model mmproj components port)"
    and "window_check (candidate_of (r\<lparr>r_mlx := m\<rparr>) model mmproj components port) = None"
  using assms
  by (auto simp: fields_ok_def request_fields_ok_def candidate_of_def opt_in_def or_int_def request_window_def NO_CONTEXT_def
      SLIMSERVE_WINDOW_LIMIT_def LLAMA_MAX_REQUESTS_def window_check_def llama_window_def check_None LLAMA_WINDOW_LIMIT_def
      split: option.splits)

lemma candidate_engines:
  assumes "projector_checksum sha256 r = None" "r_kind r = Generation" "mmproj \<noteq> None \<longleftrightarrow> r_mmproj r \<noteq> None"
    and "map fst components = map fst (r_components r)"
  shows "engine_checks sha256 (candidate_of r model mmproj components port) = None"
proof -
  define c where "c = candidate_of r model mmproj components port"
  note cd = c_def candidate_of_def
  have names: "component_names c = map fst (r_components r)" using assms(4) by (simp add: component_names_def cd)
  have mm: "d_mmproj_path c = None \<longleftrightarrow> r_mmproj r = None" using assms(3) by (auto simp: cd)
  note R = assms(1) [unfolded projector_checksum_def Let_def run_checks_None]
  have "slimserve_options Generation (d_slimserve c) (component_names c) (d_mmproj_path c) (d_thinking c) (d_thinking_budget c) = None"
    using R assms(2) mm unfolding names
    by (auto simp: cd slimserve_options_def run_checks_None check_None Let_def split: option.splits)
  moreover have "mlx_options sha256 Generation (d_mlx c) (d_slimserve c) (component_names c) (d_mmproj_path c) (d_thinking_budget c)
      (d_sha256 c) = None"
    using R assms(2) mm unfolding names
    by (auto simp: cd mlx_options_def run_checks_None check_None split: option.splits)
  moreover have "d_engine c = None"
    using R assms(2) by (auto simp: cd embeddinggemma_options_def check_None split: option.splits)
  moreover have "d_kind c = Generation" using assms(2) by (simp add: cd)
  ultimately show ?thesis unfolding c_def [symmetric]
    by (simp add: engine_checks_def run_checks_None check_None embeddinggemma_options_def)
qed



definition bare_request :: deployment_request where
  "bare_request = \<lparr>r_kind = Generation, r_artifact = ''a.gguf'', r_mmproj = None,
     r_revision = replicate 40 (CHR ''A''), r_sha256 = replicate 64 (CHR ''A''), r_mmproj_sha256 = None,
     r_served_model_name = ''a'', r_context_length = Some 4096, r_requests = Some 4,
     r_pooling = None, r_normalization = None, r_thinking = None, r_thinking_budget = None,
     r_components = [], r_steps = None, r_cfg_scale = None, r_sampler = None, r_flow_shift = None,
     r_fps = None, r_seconds = None, r_size = None, r_upscale_sigmas = None,
     r_text_encoder_type = None, r_language = None, r_slimserve = None, r_mlx = None, r_engine = None\<rparr>"


end
