(* ===== verification/Json.thy ===== *)
theory Json
  imports Complex_Main Prelude
begin

text \<open>
  Decoded JSON as the program handles it: what \<open>json.loads\<close> and \<open>response.json()\<close> return, the
  Python \<open>isinstance\<close> tests the code makes on it and \<open>==\<close> between such values. An object is a
  dictionary in insertion order (\<open>Prelude.dict\<close>); numbers with a fraction or an exponent are
  floats, represented by rationals. Parsing itself is the standard library's: a body that does not
  parse is \<open>None\<close> where a component reads one.
\<close>

datatype json =
    JNull
  | JBool bool
  | JInt int
  | JFloat rat
  | JStr string
  | JArr "json list"
  | JObj "(string \<times> json) list"

text \<open>\<open>isinstance(v, dict)\<close>, and \<open>v.get(key)\<close>, \<open>v[key]\<close> on it.\<close>

fun is_obj :: "json \<Rightarrow> bool" where
  "is_obj (JObj _) = True"
| "is_obj _ = False"

definition obj_get :: "json \<Rightarrow> string \<Rightarrow> json" where
  "obj_get v key = (case v of JObj kvs \<Rightarrow> (case dict_get kvs key of Some x \<Rightarrow> x | None \<Rightarrow> JNull) | _ \<Rightarrow> JNull)"

definition obj_item :: "json \<Rightarrow> string \<Rightarrow> py_error + json" where
  "obj_item v key =
     (case v of JObj kvs \<Rightarrow> (case dict_get kvs key of Some x \<Rightarrow> Inr x | None \<Rightarrow> Inl (KeyError key))
      | _ \<Rightarrow> Inl (TypeError ''not subscriptable by a text''))"

definition str_of :: "json \<Rightarrow> string option" where
  "str_of v = (case v of JStr s \<Rightarrow> Some s | _ \<Rightarrow> None)"

text \<open>\<open>isinstance(v, int) and not isinstance(v, bool)\<close>, and the same for numbers.\<close>

definition int_of :: "json \<Rightarrow> int option" where
  "int_of v = (case v of JInt i \<Rightarrow> Some i | _ \<Rightarrow> None)"

definition number_of :: "json \<Rightarrow> rat option" where
  "number_of v = (case v of JInt i \<Rightarrow> Some (of_int i) | JFloat r \<Rightarrow> Some r | _ \<Rightarrow> None)"

text \<open>Truth of a value: \<open>bool(v)\<close>.\<close>

fun truthy :: "json \<Rightarrow> bool" where
  "truthy JNull = False"
| "truthy (JBool b) = b"
| "truthy (JInt i) = (i \<noteq> 0)"
| "truthy (JFloat r) = (r \<noteq> 0)"
| "truthy (JStr s) = (s \<noteq> [])"
| "truthy (JArr xs) = (xs \<noteq> [])"
| "truthy (JObj kvs) = (kvs \<noteq> [])"

text \<open>
  Python's \<open>==\<close>: numbers compare by value whatever their type, \<open>True\<close> and \<open>False\<close> being one and
  zero; dictionaries compare by key, in any order.
\<close>

definition num_value :: "json \<Rightarrow> rat option" where
  "num_value v = (case v of JBool b \<Rightarrow> Some (if b then 1 else 0) | JInt i \<Rightarrow> Some (of_int i)
     | JFloat r \<Rightarrow> Some r | _ \<Rightarrow> None)"

fun py_eq :: "json \<Rightarrow> json \<Rightarrow> bool" where
  "py_eq JNull JNull = True"
| "py_eq (JStr s) (JStr t) = (s = t)"
| "py_eq (JArr xs) (JArr ys) = list_all2 py_eq xs ys"
| "py_eq (JObj xs) (JObj ys) =
     (length xs = length ys \<and>
      (\<forall>kv \<in> set xs. case dict_get ys (fst kv) of None \<Rightarrow> False | Some w \<Rightarrow> py_eq (snd kv) w))"
| "py_eq v w = (num_value v \<noteq> None \<and> num_value v = num_value w)"

lemma py_eq_str [simp]: "py_eq v (JStr s) \<longleftrightarrow> v = JStr s" "py_eq (JStr s) v \<longleftrightarrow> v = JStr s"
  by (cases v; auto simp: num_value_def)+

lemma py_eq_null [simp]: "py_eq v JNull \<longleftrightarrow> v = JNull" "py_eq JNull v \<longleftrightarrow> v = JNull"
  by (cases v; auto simp: num_value_def)+

lemma py_eq_int: "py_eq v (JInt i) \<longleftrightarrow> num_value v = Some (of_int i)"
  by (cases v) (auto simp: num_value_def)

fun json_ok :: "json \<Rightarrow> bool" where
  "json_ok (JArr xs) = list_all json_ok xs"
| "json_ok (JObj kvs) = (distinct (map fst kvs) \<and> list_all (\<lambda>kv. json_ok (snd kv)) kvs)"
| "json_ok _ = True"

lemma py_eq_refl: "json_ok v \<Longrightarrow> py_eq v v"
proof (induction v)
  case (JArr xs)
  then show ?case by (auto simp: list_all_iff list_all2_same)
next
  case (JObj kvs)
  have "py_eq (snd kv) w" if "kv \<in> set kvs" "dict_get kvs (fst kv) = Some w" for kv w
  proof -
    have "w = snd kv" using that JObj.prems map_of_is_SomeI [of kvs "fst kv" "snd kv"] by simp
    moreover have "json_ok (snd kv)" using that JObj.prems by (auto simp: list_all_iff)
    ultimately show ?thesis using JObj.IH [of kv "snd kv"] that by (cases kv) auto
  qed
  moreover have "dict_get kvs (fst kv) \<noteq> None" if "kv \<in> set kvs" for kv
    using that by (simp add: map_of_eq_None_iff del: not_None_eq)
  ultimately show ?case by (auto split: option.splits)
qed (auto simp: num_value_def)

text \<open>\<open>str.strip()\<close>, on code points below 256.\<close>

definition is_space :: "char \<Rightarrow> bool" where
  "is_space c \<longleftrightarrow> code c = 32 \<or> (9 \<le> code c \<and> code c \<le> 13) \<or> (28 \<le> code c \<and> code c \<le> 31) \<or>
     code c = 133 \<or> code c = 160"

definition strip :: "string \<Rightarrow> string" where
  "strip s = rev (dropWhile is_space (rev (dropWhile is_space s)))"

lemma strip_id: "s = [] \<or> (\<not> is_space (hd s) \<and> \<not> is_space (last s)) \<Longrightarrow> strip s = s"
proof (cases "s = []")
  case False
  assume "s = [] \<or> (\<not> is_space (hd s) \<and> \<not> is_space (last s))"
  with False have h: "\<not> is_space (hd s)" and l: "\<not> is_space (hd (rev s))" by (simp_all add: hd_rev)
  have "dropWhile is_space s = s" using h False by (cases s) auto
  moreover have "dropWhile is_space (rev s) = rev s" using l False by (cases "rev s") auto
  ultimately show ?thesis by (simp add: strip_def)
qed (simp add: strip_def)

lemma strip_line: "s \<noteq> [] \<Longrightarrow> \<not> is_space (hd s) \<Longrightarrow> \<not> is_space (last s) \<Longrightarrow> strip (s @ [newline]) = s"
proof -
  assume a: "s \<noteq> []" "\<not> is_space (hd s)" "\<not> is_space (last s)"
  have n: "is_space newline" by code_simp
  have "dropWhile is_space (s @ [newline]) = s @ [newline]" using a by (cases s) auto
  moreover have "dropWhile is_space (rev s) = rev s" using a by (cases "rev s") (auto simp: hd_rev [symmetric])
  ultimately show ?thesis using n by (simp add: strip_def)
qed

end
