(* ===== verification/LogLevel.thy ===== *)
theory LogLevel
  imports Complex_Main Json
begin

text \<open>
  \<open>lazarus/agent/log_level.py\<close> and the route of \<open>lazarus/agent/server.py\<close> that sets the level:
  the levels, the loggers they move, and the file that keeps the last one. The loggers' state and
  the module's \<open>_applied\<close> are a record; the kept file is its content, \<open>None\<close> when there is none.
\<close>

definition LEVELS :: "(string, int) dict" where
  "LEVELS = [(''error'', 40), (''warn'', 30), (''info'', 20), (''debug'', 10)]"

definition LLAMA_VERBOSITY :: "(string, string) dict" where
  "LLAMA_VERBOSITY = [(''error'', ''1''), (''warn'', ''2''), (''debug'', ''4'')]"

definition DIFFUSION_LEVELS :: "(string, string) dict" where
  "DIFFUSION_LEVELS = [(''error'', ''error''), (''warn'', ''warn'')]"

record loggers =
  applied :: "string option"
  root_level :: int
  uvicorn_level :: int
  uvicorn_error :: int
  uvicorn_access :: int

definition apply_level :: "string \<Rightarrow> loggers \<Rightarrow> bool \<times> loggers" where
  "apply_level name ls =
     (case dict_get LEVELS name of
        None \<Rightarrow> (False, ls)
      | Some level \<Rightarrow>
          (True, ls\<lparr>applied := Some name, root_level := level, uvicorn_level := level, uvicorn_error := level,
                    uvicorn_access := (if level \<le> 10 then 20 else 30)\<rparr>))"

definition current_level :: "loggers \<Rightarrow> string option" where
  "current_level ls = applied ls"

text \<open>
  The file is kept where the agent has a configuration path (\<open>has_path\<close>); reading it may fail
  (\<open>None\<close>), which leaves the level as it was.
\<close>

definition restore_level :: "bool \<Rightarrow> string option \<Rightarrow> loggers \<Rightarrow> loggers" where
  "restore_level has_path kept ls =
     (if \<not> has_path then ls
      else case kept of None \<Rightarrow> ls | Some text \<Rightarrow> snd (apply_level (strip text) ls))"

definition keep_level :: "bool \<Rightarrow> bool \<Rightarrow> string \<Rightarrow> string option \<Rightarrow> py_error + string option" where
  "keep_level has_path writable name kept =
     (if \<not> has_path then Inr kept
      else if \<not> writable then Inl (OSError ''write'')
      else Inr (Some (name @ [newline])))"

text \<open>
  The route: the answer's status, the loggers and the kept file after it. \<open>body\<close> is the decoded
  body, \<open>None\<close> when it is not JSON.
\<close>

definition set_log_level ::
    "bool \<Rightarrow> bool \<Rightarrow> json option \<Rightarrow> string option \<Rightarrow> loggers \<Rightarrow> nat \<times> string option \<times> loggers" where
  "set_log_level has_path writable body kept ls =
     (let name = (case body of Some v \<Rightarrow> if is_obj v then str_of (obj_get v ''level'') else None | None \<Rightarrow> None)
      in case name of
           None \<Rightarrow> (400, kept, ls)
         | Some level \<Rightarrow>
             (let (ok, ls') = apply_level level ls in
              if \<not> ok then (400, kept, ls')
              else case keep_level has_path writable level kept of
                     Inl _ \<Rightarrow> (500, kept, ls')
                   | Inr kept' \<Rightarrow> (200, kept', ls')))"

lemma level_names: "dict_get LEVELS name = Some level \<Longrightarrow>
    name \<in> {''error'', ''warn'', ''info'', ''debug''} \<and> level \<in> {10, 20, 30, 40}"
  by (auto simp: LEVELS_def split: if_splits)

lemma strip_level: "dict_get LEVELS name = Some level \<Longrightarrow> strip (name @ [newline]) = name"
  using level_names [of name level] by (intro strip_line) (auto simp: is_space_def code_def)

text \<open>
  Setting the level answers 200 exactly when the body names one of the four levels and the
  level could be kept; then the level is in force, the access log is on at the detailed level
  alone, and an agent started again from the kept file (whatever its loggers were) logs at that
  level. Any other answer leaves the kept file as it was, and a 400 leaves the loggers too.
\<close>

theorem log_level_kept:
  assumes "set_log_level True writable body kept ls = (status, kept', ls')"
  shows "(status = 200 \<longleftrightarrow> writable \<and> (\<exists>v level. body = Some v \<and> obj_get v ''level'' = JStr level \<and> level \<in> fst ` set LEVELS)) \<and>
    (status = 200 \<longrightarrow> current_level ls' \<noteq> None \<and> root_level ls' \<in> snd ` set LEVELS \<and>
      (uvicorn_access ls' = 20 \<longleftrightarrow> current_level ls' = Some ''debug'') \<and>
      current_level (restore_level True kept' ls0) = current_level ls' \<and> root_level (restore_level True kept' ls0) = root_level ls') \<and>
    (status \<noteq> 200 \<longrightarrow> kept' = kept) \<and> (status = 400 \<longrightarrow> ls' = ls)"
proof -
  have obj: "is_obj v" if "obj_get v ''level'' = JStr x" for v x
    using that by (cases v) (auto simp: obj_get_def)
  have dom: "x \<in> fst ` set LEVELS \<longleftrightarrow> dict_get LEVELS x \<noteq> None" for x
    by (simp add: map_of_eq_None_iff)
  show ?thesis
  proof (cases "\<exists>v level. body = Some v \<and> obj_get v ''level'' = JStr level")
    case False
    then have "status = 400 \<and> kept' = kept \<and> ls' = ls"
      using assms by (auto simp: set_log_level_def str_of_def split: option.splits json.splits if_splits)
    with False show ?thesis by simp
  next
    case True
    then obtain v name where v: "body = Some v" "obj_get v ''level'' = JStr name" by blast
    show ?thesis
    proof (cases "dict_get LEVELS name")
      case None
      then have "status = 400 \<and> kept' = kept \<and> ls' = ls"
        using assms v obj by (auto simp: set_log_level_def str_of_def apply_level_def)
      with v None show ?thesis by (simp add: dom)
    next
      case (Some level)
      have acc: "(if level \<le> 10 then 20 else 30 :: int) = 20 \<longleftrightarrow> name = ''debug''" "level \<in> snd ` set LEVELS"
        using Some by (auto simp: LEVELS_def split: if_splits)
      show ?thesis
        using assms v obj Some acc strip_level [OF Some]
        by (cases writable)
          (auto simp: set_log_level_def str_of_def apply_level_def keep_level_def restore_level_def current_level_def dom
            intro: rev_image_eqI)
    qed
  qed
qed

definition quiet_loggers :: loggers where
  "quiet_loggers = \<lparr>applied = None, root_level = 20, uvicorn_level = 30, uvicorn_error = 30, uvicorn_access = 30\<rparr>"

lemma log_level_kept_witness:
  "fst (set_log_level True True (Some (JObj [(''level'', JStr ''debug'')])) None quiet_loggers) = 200 \<and>
   current_level (restore_level True (Some (''debug'' @ [newline])) quiet_loggers) = Some ''debug''"
proof -
  let ?b = "Some (JObj [(''level'', JStr ''debug'')])"
  obtain st k l where r: "set_log_level True True ?b None quiet_loggers = (st, k, l)" by (metis prod_cases3)
  have "st = 200" "k = Some (''debug'' @ [newline])" "current_level l = Some ''debug''"
    using r [symmetric] by (simp_all add: set_log_level_def obj_get_def str_of_def apply_level_def LEVELS_def
        keep_level_def current_level_def)
  with r log_level_kept [OF r, of quiet_loggers] show ?thesis by simp
qed

end
