(* ===== verification/DeploymentCommand.thy ===== *)
theory DeploymentCommand
  imports DeploymentRecord LogLevel
begin

text \<open>
  \<open>lazarus/agent/deployments.py\<close>, what a deployment's engine is started with: its command line, its
  environment and the directory SlimServe reads; and \<open>ServerProcess\<close>'s constructor of
  \<open>lazarus/agent/server.py\<close>, which gives a language model's child its key. Arguments of the model:
  \<open>python\<close> (\<open>sys.executable\<close>), \<open>number\<close> (\<open>str\<close> of a float).
\<close>

section \<open>The agent's configuration\<close>

text \<open>\<open>AgentConfig\<close> of \<open>lazarus/agent/config.py\<close>.\<close>

record agent_config =
  ac_listen :: string
  ac_port :: int
  ac_token_env :: string
  ac_llama_server :: string
  ac_sd_server :: string
  ac_whisper_server :: string
  ac_piper_server :: string
  ac_slimserve :: string
  ac_embeddinggemma_server :: string
  ac_deployments :: "(string, deployment) dict"
  ac_hardware_profile :: string

definition default_config :: agent_config where
  "default_config = \<lparr>ac_listen = ''127.0.0.1'', ac_port = 9100, ac_token_env = ''SOVEREIGN_AGENT_TOKEN'',
     ac_llama_server = ''llama-server'', ac_sd_server = ''sd-server'', ac_whisper_server = ''whisper-server'',
     ac_piper_server = [], ac_slimserve = [], ac_embeddinggemma_server = [], ac_deployments = [],
     ac_hardware_profile = ''metal-arm64''\<rparr>"

section \<open>Splitting a configured command\<close>

text \<open>\<open>shlex.split\<close>: the POSIX lexer, whitespace-separated, without comments.\<close>

datatype lexer = Blank | InWord | InQuote char | Escaped "char option"

definition blank :: "char \<Rightarrow> bool" where
  "blank c \<longleftrightarrow> code c \<in> {32, 9, 13, 10}"

definition quote_mark :: "char \<Rightarrow> bool" where
  "quote_mark c \<longleftrightarrow> code c \<in> {34, 39}"

definition escape_mark :: char where
  "escape_mark = CHR 0x5C"

definition emit :: "string \<Rightarrow> bool \<Rightarrow> string list \<Rightarrow> string list" where
  "emit token quoted rest = (if token \<noteq> [] \<or> quoted then token # rest else rest)"

fun shlex_run :: "lexer \<Rightarrow> string \<Rightarrow> bool \<Rightarrow> string \<Rightarrow> py_error + string list" where
  "shlex_run Blank token quoted [] = Inr (emit token quoted [])"
| "shlex_run Blank token quoted (c # cs) =
     (if blank c then and_then (shlex_run Blank [] False cs) (\<lambda>rest. Inr (emit token quoted rest))
      else if c = escape_mark then shlex_run (Escaped None) token quoted cs
      else if quote_mark c then shlex_run (InQuote c) token quoted cs
      else shlex_run InWord [c] quoted cs)"
| "shlex_run InWord token quoted [] = Inr (emit token quoted [])"
| "shlex_run InWord token quoted (c # cs) =
     (if blank c then and_then (shlex_run Blank [] False cs) (\<lambda>rest. Inr (emit token quoted rest))
      else if quote_mark c then shlex_run (InQuote c) token quoted cs
      else if c = escape_mark then shlex_run (Escaped None) token quoted cs
      else shlex_run InWord (token @ [c]) quoted cs)"
| "shlex_run (InQuote q) token quoted [] = Inl (ValueError ''No closing quotation'')"
| "shlex_run (InQuote q) token quoted (c # cs) =
     (if c = q then shlex_run InWord token True cs
      else if c = escape_mark \<and> code q = 34 then shlex_run (Escaped (Some q)) token True cs
      else shlex_run (InQuote q) (token @ [c]) True cs)"
| "shlex_run (Escaped back) token quoted [] = Inl (ValueError ''No escaped character'')"
| "shlex_run (Escaped None) token quoted (c # cs) = shlex_run InWord (token @ [c]) quoted cs"
| "shlex_run (Escaped (Some q)) token quoted (c # cs) =
     shlex_run (InQuote q) (token @ (if c \<noteq> escape_mark \<and> c \<noteq> q then [escape_mark] else []) @ [c]) quoted cs"

definition shlex_split :: "string \<Rightarrow> py_error + string list" where
  "shlex_split s = shlex_run Blank [] False s"

definition plain_word :: "string \<Rightarrow> bool" where
  "plain_word w \<longleftrightarrow> w \<noteq> [] \<and> (\<forall>c \<in> set w. \<not> blank c \<and> \<not> quote_mark c \<and> c \<noteq> escape_mark)"

lemma shlex_word:
  assumes "\<forall>c \<in> set w. \<not> blank c \<and> \<not> quote_mark c \<and> c \<noteq> escape_mark"
  shows "shlex_run InWord token False (w @ s) = shlex_run InWord (token @ w) False s"
  using assms by (induction w arbitrary: token) auto

lemma shlex_plain_words:
  "\<forall>w \<in> set ws. plain_word w \<Longrightarrow> shlex_split (join_with [CHR '' ''] ws) = Inr ws"
proof -
  have space: "blank (CHR '' '')" by code_simp
  have first: "shlex_run Blank [] False (w @ s) = shlex_run InWord w False s" if "plain_word w" for w s
    using that shlex_word [of "tl w" "[hd w]" s] by (cases w) (auto simp: plain_word_def)
  show "\<forall>w \<in> set ws. plain_word w \<Longrightarrow> shlex_split (join_with [CHR '' ''] ws) = Inr ws"
    unfolding shlex_split_def
  proof (induction ws)
    case (Cons w ws)
    then have w: "plain_word w" by simp
    show ?case
    proof (cases "ws = []")
      case True
      then show ?thesis using first [OF w, of "[]"] w by (simp add: emit_def plain_word_def)
    next
      case False
      then show ?thesis using first [OF w, of "CHR '' '' # join_with [CHR '' ''] ws"] w Cons space
        by (simp add: join_with_Cons emit_def plain_word_def)
    qed
  qed (simp add: emit_def)
qed

section \<open>Command lines\<close>

definition MLX :: string where "MLX = ''mlx-lm''"
definition SLIMSERVE :: string where "SLIMSERVE = ''slimserve''"
definition EMBEDDINGGEMMA_SHORT_TOKENS :: int where "EMBEDDINGGEMMA_SHORT_TOKENS = 64"
definition MLX_CONCURRENCY :: int where "MLX_CONCURRENCY = 1"
definition MLX_PROMPT_CACHE_BYTES :: int where "MLX_PROMPT_CACHE_BYTES = 2 * 2 ^ 30"
definition LORA_DIRECTORY :: string where "LORA_DIRECTORY = ''/var/empty''"

definition ENGINES :: "kind \<Rightarrow> string" where
  "ENGINES k = (case k of Generation \<Rightarrow> ''llama.cpp'' | Embedding \<Rightarrow> ''llama.cpp''
     | Image \<Rightarrow> ''stable-diffusion.cpp'' | Transcription \<Rightarrow> ''whisper.cpp'' | Speech \<Rightarrow> ''piper''
     | Video \<Rightarrow> ''stable-diffusion.cpp'')"

definition HEALTH_PATHS :: "kind \<Rightarrow> string" where
  "HEALTH_PATHS k = (case k of Generation \<Rightarrow> ''/health'' | Embedding \<Rightarrow> ''/health'' | Image \<Rightarrow> ''/v1/models''
     | Transcription \<Rightarrow> ''/health'' | Speech \<Rightarrow> ''/voices'' | Video \<Rightarrow> ''/v1/models'')"

definition engine_of :: "deployment \<Rightarrow> string" where
  "engine_of d =
     (if d_mlx d \<noteq> None then MLX
      else case d_engine d of Some e \<Rightarrow> e
        | None \<Rightarrow> if d_slimserve d \<noteq> None then SLIMSERVE else ENGINES (d_kind d))"

definition log_level_arguments :: "kind \<Rightarrow> string option \<Rightarrow> string list" where
  "log_level_arguments kind level =
     (case (case level of None \<Rightarrow> None | Some l \<Rightarrow> dict_get DIFFUSION_LEVELS l) of
        Some dl \<Rightarrow> if kind \<in> set DIFFUSION then [''--log-level'', dl] else []
      | None \<Rightarrow> if kind = Transcription \<and> level = Some ''debug'' then [''--print-progress''] else [])"

definition generation_requests :: "deployment \<Rightarrow> string list" where
  "generation_requests d =
     (if d_context_length d = 0
      then [''-np'', ''1'', ''--kv-unified'', ''--cache-ram'', ''0'', ''-c'', ''0'', ''--metrics'']
      else [''-np'', show_int (d_requests d), ''--kv-unified'', ''--cache-ram'', ''0'',
            ''-c'', show_int (d_context_length d * d_requests d),
            ''--kv-unified-per-slot'', show_int (d_context_length d), ''--metrics''])"

definition opt_arg :: "string \<Rightarrow> string option \<Rightarrow> string list" where
  "opt_arg flag x = (case x of None \<Rightarrow> [] | Some v \<Rightarrow> if v = [] then [] else [flag, v])"

definition embeddinggemma_command :: "agent_config \<Rightarrow> deployment \<Rightarrow> string list" where
  "embeddinggemma_command c d =
     [ac_embeddinggemma_server c, ''--bind'', ''127.0.0.1'', ''--port'', show_int (d_port d),
      ''--model'', d_model_path d, ''--short-bypass-tokens'', show_int EMBEDDINGGEMMA_SHORT_TOKENS]
     @ opt_arg ''--mmproj'' (d_mmproj_path d)"

definition mlx_command :: "string \<Rightarrow> deployment \<Rightarrow> string list" where
  "mlx_command python d =
     [python, ''-m'', ''lazarus.agent.mlx_server'', ''--model'', d_model_path d,
      ''--host'', ''127.0.0.1'', ''--port'', show_int (d_port d),
      ''--max-tokens'', show_int (if d_context_length d = 0 then LLAMA_DEFAULT_WINDOW else d_context_length d),
      ''--decode-concurrency'', show_int MLX_CONCURRENCY,
      ''--prompt-concurrency'', show_int MLX_CONCURRENCY,
      ''--prompt-cache-bytes'', show_int MLX_PROMPT_CACHE_BYTES]
     @ (case d_thinking d of None \<Rightarrow> []
        | Some t \<Rightarrow> [''--chat-template-args'',
            (if t = ''on'' then ''{\"enable_thinking\": true}'' else ''{\"enable_thinking\": false}'')])"

definition slimserve_command :: "agent_config \<Rightarrow> deployment \<Rightarrow> slim_profile \<Rightarrow> string \<Rightarrow> string list" where
  "slimserve_command c d p directory =
     [ac_slimserve c, sp_profile p, ''--quant'', sp_quant p, ''--cache'', directory,
      ''--host'', ''127.0.0.1'', ''--port'', show_int (d_port d),
      ''--served-model-name'', d_served_model_name d]
     @ (if d_context_length d = 0 then [] else [''--ctx'', show_int (d_context_length d)])"

text \<open>An accepted image record has its sampling set; \<open>str\<close> of an unset one is \<open>None\<close>.\<close>

definition str_opt :: "('a \<Rightarrow> string) \<Rightarrow> 'a option \<Rightarrow> string" where
  "str_opt f x = (case x of None \<Rightarrow> ''None'' | Some v \<Rightarrow> f v)"

definition component_args :: "(string \<times> string) list \<Rightarrow> (string \<Rightarrow> string \<Rightarrow> string) \<Rightarrow> deployment \<Rightarrow> string list" where
  "component_args flags place d =
     concat (map (\<lambda>(name, flag). case dict_get (d_components d) name of
       None \<Rightarrow> [] | Some component \<Rightarrow> [flag, place name (cp_path component)]) flags)"

definition image_command :: "(rat \<Rightarrow> string) \<Rightarrow> agent_config \<Rightarrow> deployment \<Rightarrow> string list" where
  "image_command number c d =
     [ac_sd_server c, ''--listen-ip'', ''127.0.0.1'', ''--listen-port'', show_int (d_port d),
      (if d_components d \<noteq> [] then ''--diffusion-model'' else ''--model''), d_model_path d,
      ''--lora-model-dir'', LORA_DIRECTORY]
     @ component_args IMAGE_COMPONENTS (\<lambda>_ path. path) d
     @ [''--steps'', str_opt show_int (d_steps d), ''--cfg-scale'', str_opt number (d_cfg_scale d),
        ''--sampling-method'', str_opt id (d_sampler d)]"

text \<open>\<open>os.path.dirname\<close>: the text before the last slash, its own trailing slashes dropped.\<close>

definition dirname :: "string \<Rightarrow> string" where
  "dirname p =
     (let head = rev (dropWhile (\<lambda>c. c \<noteq> slash) (rev p)) in
      if list_all (\<lambda>c. c = slash) head then head else rev (dropWhile (\<lambda>c. c = slash) (rev head)))"

definition video_command :: "agent_config \<Rightarrow> deployment \<Rightarrow> string list" where
  "video_command c d =
     [ac_sd_server c, ''--listen-ip'', ''127.0.0.1'', ''--listen-port'', show_int (d_port d),
      ''--diffusion-model'', d_model_path d, ''--lora-model-dir'', LORA_DIRECTORY]
     @ component_args VIDEO_COMPONENTS (\<lambda>name path. if name = ''spatial_upscaler'' then dirname path else path) d
     @ (case d_text_encoder_type d of None \<Rightarrow> []
        | Some t \<Rightarrow> [''--tensor-type-rules'', ''^text_encoders'' @ [escape_mark] @ ''.llm'' @ [escape_mark] @ ''.='' @ t])
     @ [''--diffusion-fa'', ''--backend'', ''vae=cpu'', ''--temporal-tiling'']"

definition transcription_command :: "agent_config \<Rightarrow> deployment \<Rightarrow> string list" where
  "transcription_command c d =
     [ac_whisper_server c, ''--host'', ''127.0.0.1'', ''--port'', show_int (d_port d), ''-m'', d_model_path d,
      ''--inference-path'', ''/v1/audio/transcriptions'', ''--no-timestamps'',
      ''--language'', or_text (d_language d) ''auto'']"

definition speech_command :: "string \<Rightarrow> agent_config \<Rightarrow> deployment \<Rightarrow> py_error + string list" where
  "speech_command python c d =
     and_then (shlex_split (ac_piper_server c)) (\<lambda>server.
       Inr ((if server = [] then [python, ''-m'', ''piper.http_server''] else server)
            @ [''--host'', ''127.0.0.1'', ''--port'', show_int (d_port d), ''-m'', d_model_path d]))"

definition llama_command :: "agent_config \<Rightarrow> deployment \<Rightarrow> string list" where
  "llama_command c d =
     [ac_llama_server c]
     @ (if d_kind d = Embedding
        then [''--embedding'', ''--pooling'', or_text (d_pooling d) ''mean'', ''--embd-normalize'',
              (if or_text (d_normalization d) ''l2'' = ''l2'' then ''2'' else ''-1'')]
        else [''--jinja''])
     @ [''--alias'', d_served_model_name d, ''--host'', ''127.0.0.1'', ''--port'', show_int (d_port d),
        ''--model-url'', [], ''--hf-repo'', [], ''--docker-repo'', [], ''-m'', d_model_path d]
     @ opt_arg ''--mmproj'' (d_mmproj_path d)
     @ (if d_kind d = Generation then generation_requests d
        else (let window = show_int (d_context_length d) in [''-c'', window, ''-b'', window, ''-ub'', window]))"

definition server_command ::
    "string \<Rightarrow> (rat \<Rightarrow> string) \<Rightarrow> agent_config \<Rightarrow> deployment \<Rightarrow> py_error + string list" where
  "server_command python number c d =
     (case d_kind d of
        Image \<Rightarrow> Inr (image_command number c d)
      | Video \<Rightarrow> Inr (video_command c d)
      | Transcription \<Rightarrow> Inr (transcription_command c d)
      | Speech \<Rightarrow> speech_command python c d
      | _ \<Rightarrow> Inr (if d_engine d = Some EMBEDDINGGEMMA then embeddinggemma_command c d else llama_command c d))"

definition deployment_command ::
    "string \<Rightarrow> (rat \<Rightarrow> string) \<Rightarrow> agent_config \<Rightarrow> string option \<Rightarrow> deployment \<Rightarrow> py_error + string list" where
  "deployment_command python number c level d =
     and_then (server_command python number c d) (\<lambda>command. Inr (command @ log_level_arguments (d_kind d) level))"

text \<open>The part of \<open>start_deployment\<close> that chooses the command, after the files are checked.\<close>

definition start_command ::
    "string \<Rightarrow> (rat \<Rightarrow> string) \<Rightarrow> agent_config \<Rightarrow> string option \<Rightarrow> string \<Rightarrow> deployment \<Rightarrow> py_error + string list" where
  "start_command python number c level directory d =
     (case d_slimserve d of
        Some p \<Rightarrow>
          if ac_slimserve c = [] then Inl (ValueError ''SlimServe is not installed on this host'')
          else Inr (slimserve_command c d p directory)
      | None \<Rightarrow>
          if d_mlx d \<noteq> None then Inr (mlx_command python d)
          else if d_engine d = Some EMBEDDINGGEMMA \<and> ac_embeddinggemma_server c = []
          then Inl (ValueError ''embeddinggemma.c is not installed on this host'')
          else deployment_command python number c level d)"

section \<open>The child's environment and key\<close>

definition upper :: "string \<Rightarrow> string" where
  "upper s = map (\<lambda>c. if is_lower c then char_of (code c - 32) else c) s"

definition deployment_environment :: "string option \<Rightarrow> deployment \<Rightarrow> (string, string) dict" where
  "deployment_environment level d =
     (if d_engine d = Some EMBEDDINGGEMMA then []
      else if d_slimserve d \<noteq> None
      then (''HF_HUB_OFFLINE'', ''1'') #
        (case level of None \<Rightarrow> [] | Some l \<Rightarrow>
           if dict_get LEVELS l \<noteq> None then [(''VLLM_LOGGING_LEVEL'', if l = ''warn'' then ''WARNING'' else upper l)] else [])
      else
        (case dict_get LLAMA_VERBOSITY (case level of None \<Rightarrow> [] | Some l \<Rightarrow> l) of None \<Rightarrow> []
         | Some v \<Rightarrow> if d_kind d \<in> {Generation, Embedding} then [(''LLAMA_ARG_LOG_VERBOSITY'', v)] else [])
        @ (case d_thinking d of None \<Rightarrow> [] | Some t \<Rightarrow> [(''LLAMA_ARG_REASONING'', t)])
        @ (case d_thinking_budget d of None \<Rightarrow> [] | Some b \<Rightarrow> [(''LLAMA_ARG_THINK_BUDGET'', show_int b)]))"

text \<open>
  \<open>ServerProcess.__init__\<close> up to the child's start: a child that is authenticated gets the key in
  its environment, where nothing the host sets or the command line gives can put another; \<open>token\<close>
  is the random part of the key.
\<close>

definition key_option :: "string \<Rightarrow> bool" where
  "key_option arg \<longleftrightarrow>
     map (\<lambda>c. if c = CHR ''_'' then CHR ''-'' else c) (takeWhile (\<lambda>c. c \<noteq> CHR ''='') arg)
       \<in> {''--api-key'', ''--api-key-file''}"

definition dict_update :: "('k, 'v) dict \<Rightarrow> ('k, 'v) dict \<Rightarrow> ('k, 'v) dict" where
  "dict_update env d = fold (\<lambda>(k, v) e. dict_set k v e) env d"

record child =
  ch_command :: "string list"
  ch_port :: int
  ch_key :: "string option"
  ch_env :: "(string, string) dict option"
  ch_health :: string
  ch_engine :: string

definition server_process ::
    "(string, string) dict \<Rightarrow> string \<Rightarrow> string list \<Rightarrow> int \<Rightarrow> bool \<Rightarrow> (string, string) dict \<Rightarrow> string \<Rightarrow> string \<Rightarrow> py_error + child" where
  "server_process environ token command port authenticated environment health engine =
     (let key = (if authenticated then Some (token @ ''-agent'') else None);
          base = (if key \<noteq> None \<or> environment \<noteq> [] then Some environ else None);
          keyed = (case (key, base) of
             (Some k, Some env) \<Rightarrow>
               Some (dict_set ''VLLM_API_KEY'' k (dict_set ''LLAMA_API_KEY'' k (dict_del ''LLAMA_ARG_API_KEY_FILE'' env)))
           | _ \<Rightarrow> base)
      in guarded (check (key \<noteq> None \<and> (\<exists>arg \<in> set command. key_option arg))
           (ValueError ''generation authentication is agent-owned''))
         (Inr \<lparr>ch_command = command, ch_port = port, ch_key = key,
               ch_env = map_option (dict_update environment) keyed, ch_health = health, ch_engine = engine\<rparr>))"

definition start_child ::
    "string \<Rightarrow> (rat \<Rightarrow> string) \<Rightarrow> agent_config \<Rightarrow> string option \<Rightarrow> (string, string) dict \<Rightarrow> string \<Rightarrow> string \<Rightarrow> deployment \<Rightarrow> py_error + child" where
  "start_child python number c level environ token directory d =
     and_then (start_command python number c level directory d) (\<lambda>command.
       server_process environ token command (d_port d) (d_kind d = Generation) (deployment_environment level d)
         (if d_engine d = Some EMBEDDINGGEMMA then ''/healthz'' else HEALTH_PATHS (d_kind d)) (engine_of d))"


section \<open>Where a child listens\<close>

definition listen_flags :: "string set" where
  "listen_flags = {''--host'', ''--listen-ip'', ''--bind'', ''--port'', ''--listen-port''}"

text \<open>A text that is not a long option.\<close>

definition bare :: "string \<Rightarrow> bool" where
  "bare w \<longleftrightarrow> \<not> prefix ''--'' w"

definition unlisted :: "string list \<Rightarrow> bool" where
  "unlisted ws \<longleftrightarrow> (\<forall>w \<in> set ws. w \<notin> listen_flags)"

definition bare_words :: "string \<Rightarrow> (rat \<Rightarrow> string) \<Rightarrow> agent_config \<Rightarrow> string \<Rightarrow> bool" where
  "bare_words python number c directory \<longleftrightarrow>
     bare python \<and> bare directory \<and> (\<forall>r. bare (number r)) \<and>
     bare (ac_llama_server c) \<and> bare (ac_sd_server c) \<and> bare (ac_whisper_server c) \<and>
     bare (ac_slimserve c) \<and> bare (ac_embeddinggemma_server c) \<and>
     (case shlex_split (ac_piper_server c) of Inl _ \<Rightarrow> True | Inr ws \<Rightarrow> list_all bare ws)"

definition listens :: "int \<Rightarrow> string list \<Rightarrow> bool" where
  "listens port command \<longleftrightarrow>
     (\<exists>host \<in> {''--host'', ''--listen-ip'', ''--bind''}. \<exists>flag \<in> {''--port'', ''--listen-port''}.
        sublist [host, ''127.0.0.1'', flag, show_int port] command \<and>
        filter (\<lambda>w. w \<in> listen_flags) command = [host, flag])"

lemma bare_unlisted [simp]: "bare w \<Longrightarrow> w \<notin> listen_flags"
  by (auto simp: bare_def listen_flags_def)

lemma unlisted_simps [simp]:
  "unlisted []" "unlisted (w # ws) \<longleftrightarrow> w \<notin> listen_flags \<and> unlisted ws"
  "unlisted (us @ ws) \<longleftrightarrow> unlisted us \<and> unlisted ws"
  by (auto simp: unlisted_def)

lemma bare_show_int [simp]: "bare (show_int i)"
proof -
  have digit: "is_digit (hd (show_nat n))" for n
    using show_nat_digits [of n] by (cases "show_nat n") auto
  have "\<not> is_digit (CHR ''-'')" by code_simp
  then show ?thesis
    using digit [of "nat i"] digit [of "nat (- i)"] show_nat_ne [of "nat i"] show_nat_ne [of "nat (- i)"]
    by (cases "show_nat (nat i)"; cases "show_nat (nat (- i))") (auto simp: bare_def show_int_def)
qed

lemma bare_absolute: "hd w = slash \<Longrightarrow> bare w"
  by (cases w) (auto simp: bare_def slash_def)

lemma bare_canonical: "canonical_path w \<Longrightarrow> bare w"
  by (auto simp: canonical_path_iff intro: bare_absolute)

lemma bare_dirname: "canonical_path w \<Longrightarrow> bare (dirname w)"
proof -
  assume "canonical_path w"
  then obtain v where v: "w = slash # v" by (auto simp: canonical_path_iff)
  have drop: "prefix (rev (dropWhile P (rev u))) u" for P and u :: string
    using suffix_dropWhile [of P "rev u"] by (simp add: suffix_to_prefix)
  define head where "head = rev (dropWhile (\<lambda>c. c \<noteq> slash) (rev w))"
  have "prefix head w" "prefix (rev (dropWhile (\<lambda>c. c = slash) (rev head))) head"
    unfolding head_def by (rule drop)+
  then have "prefix (dirname w) w"
    using prefix_order.trans by (auto simp: dirname_def head_def [symmetric])
  then have "dirname w = [] \<or> hd (dirname w) = slash" by (cases "dirname w") (auto simp: v)
  then show ?thesis using bare_absolute [of "dirname w"] by (elim disjE) (simp_all add: bare_def)
qed

lemma listensI:
  assumes "command = pre @ [host, ''127.0.0.1'', flag, show_int port] @ post"
    and "host \<in> {''--host'', ''--listen-ip'', ''--bind''}" "flag \<in> {''--port'', ''--listen-port''}"
    and "unlisted pre" "unlisted post"
  shows "listens port command"
proof -
  have none: "filter (\<lambda>w. w \<in> listen_flags) ws = []" if "unlisted ws" for ws
    using that by (simp add: unlisted_def)
  have "host \<in> listen_flags" "flag \<in> listen_flags"
    using assms(2,3) unfolding listen_flags_def by blast+
  moreover have "''127.0.0.1'' \<notin> listen_flags" by (simp add: listen_flags_def)
  ultimately have "filter (\<lambda>w. w \<in> listen_flags) command = [host, flag]"
    using none [OF assms(4)] none [OF assms(5)] by (simp add: assms(1))
  moreover have "sublist [host, ''127.0.0.1'', flag, show_int port] command"
    unfolding assms(1) sublist_def by blast
  ultimately show ?thesis using assms(2,3) unfolding listens_def by blast
qed

lemma listed_literals [simp]: "unlisted [''--jinja'', ''-m'']"
  by (simp add: listen_flags_def)


lemma listed_args:
  "unlisted (opt_arg flag x) \<longleftrightarrow> x = None \<or> x = Some [] \<or> unlisted [flag, the x]"
  by (auto simp: opt_arg_def split: option.splits)

lemma unlisted_concat: "(\<And>ws. ws \<in> set wss \<Longrightarrow> unlisted ws) \<Longrightarrow> unlisted (concat wss)"
  by (auto simp: unlisted_def)

lemma unlisted_component_args:
  assumes "\<forall>nf \<in> set flags. snd nf \<notin> listen_flags"
    and "\<forall>nc \<in> set (d_components d). bare (place (fst nc) (cp_path (snd nc)))"
  shows "unlisted (component_args flags place d)"
  unfolding component_args_def
  using assms by (intro unlisted_concat) (fastforce dest: map_of_SomeD split: option.splits)

lemma unlisted_log_level: "unlisted (log_level_arguments kind level)"
  by (auto simp: log_level_arguments_def DIFFUSION_LEVELS_def listen_flags_def split: option.splits if_splits)

lemma unlisted_generation: "unlisted (generation_requests d)"
proof -
  have "unlisted [''-np'', ''1'', ''--kv-unified'', ''--cache-ram'', ''0'', ''-c'', ''0'', ''--metrics'', ''--kv-unified-per-slot'']"
    by (simp add: listen_flags_def)
  then show ?thesis by (simp add: generation_requests_def)
qed


lemma bare_sets:
  "v \<in> {''mean'', ''last'', ''cls''} \<Longrightarrow> bare v" "v \<in> {''on'', ''off''} \<Longrightarrow> bare v"
  "v \<in> set IMAGE_SAMPLERS \<Longrightarrow> bare v" "v \<in> set TEXT_ENCODER_TYPES \<Longrightarrow> bare v"
  by (auto simp: bare_def IMAGE_SAMPLERS_def TEXT_ENCODER_TYPES_def)

lemma bare_language: "language_match v \<Longrightarrow> bare v"
proof -
  have "\<not> is_lower (CHR ''-'')" by code_simp
  then show "language_match v \<Longrightarrow> bare v"
    by (auto simp: language_match_def bare_def prefix_def)
qed

lemma bare_slug: "slug_match p q lo hi v \<Longrightarrow> \<not> p (CHR ''-'') \<Longrightarrow> bare v"
  by (auto simp: slug_match_def bare_def prefix_def split: list.splits)

lemma llama_listens:
  assumes "fields_ok d" "bare (d_served_model_name d)" "bare (ac_llama_server c)"
  shows "listens (d_port d) (llama_command c d @ log_level_arguments (d_kind d) level)"
proof -
  have m: "bare (d_model_path d)" "\<And>v. d_mmproj_path d = Some v \<Longrightarrow> bare v"
    using assms(1) by (auto simp: fields_ok_def opt_in_def intro: bare_canonical)
  have pool: "bare (or_text (d_pooling d) ''mean'')"
    using assms(1) bare_sets(1) [of "''mean''"] bare_sets(1) [of "the (d_pooling d)"]
    by (auto simp: fields_ok_def options_in_range_def or_text_def opt_in_def simp del: bare_sets split: option.splits)
  have lit: "unlisted [''--jinja'', ''--alias'', ''--embedding'', ''--pooling'', ''--embd-normalize'', ''2'', ''-1'', ''--model-url'',
     [], ''--hf-repo'', ''--docker-repo'', ''-m'', ''--mmproj'', ''-c'', ''-b'', ''-ub'']"
    by (simp add: listen_flags_def)
  define pre where "pre = [ac_llama_server c]
     @ (if d_kind d = Embedding
        then [''--embedding'', ''--pooling'', or_text (d_pooling d) ''mean'', ''--embd-normalize'',
              (if or_text (d_normalization d) ''l2'' = ''l2'' then ''2'' else ''-1'')]
        else [''--jinja'']) @ [''--alias'', d_served_model_name d]"
  define post where "post = [''--model-url'', [], ''--hf-repo'', [], ''--docker-repo'', [], ''-m'', d_model_path d]
     @ opt_arg ''--mmproj'' (d_mmproj_path d)
     @ (if d_kind d = Generation then generation_requests d
        else (let window = show_int (d_context_length d) in [''-c'', window, ''-b'', window, ''-ub'', window]))
     @ log_level_arguments (d_kind d) level"
  have "llama_command c d @ log_level_arguments (d_kind d) level =
      pre @ [''--host'', ''127.0.0.1'', ''--port'', show_int (d_port d)] @ post"
    by (simp add: llama_command_def pre_def post_def)
  moreover have "unlisted pre" using assms lit pool by (simp add: pre_def)
  moreover have "unlisted post" using m lit unlisted_generation unlisted_log_level
    by (cases "d_mmproj_path d") (simp_all add: post_def listed_args Let_def)
  ultimately show ?thesis by (intro listensI [of _ pre "''--host''" "''--port''" _ post]) simp_all
qed

lemma gemma_listens:
  assumes "fields_ok d" "bare (ac_embeddinggemma_server c)"
  shows "listens (d_port d) (embeddinggemma_command c d @ log_level_arguments (d_kind d) level)"
proof -
  have m: "bare (d_model_path d)" "\<And>v. d_mmproj_path d = Some v \<Longrightarrow> bare v"
    using assms(1) by (auto simp: fields_ok_def opt_in_def intro: bare_canonical)
  have lit: "unlisted [''--model'', ''--short-bypass-tokens'', ''--mmproj'']" by (simp add: listen_flags_def)
  define post where "post = [''--model'', d_model_path d, ''--short-bypass-tokens'', show_int EMBEDDINGGEMMA_SHORT_TOKENS]
     @ opt_arg ''--mmproj'' (d_mmproj_path d) @ log_level_arguments (d_kind d) level"
  have "unlisted post" using m lit unlisted_log_level
    by (cases "d_mmproj_path d") (simp_all add: post_def listed_args)
  then show ?thesis
    by (intro listensI [of _ "[ac_embeddinggemma_server c]" "''--bind''" "''--port''" _ post])
      (simp_all add: embeddinggemma_command_def post_def assms(2))
qed


lemma mlx_listens:
  assumes "fields_ok d" "bare python"
  shows "listens (d_port d) (mlx_command python d)"
proof -
  have m: "bare (d_model_path d)" using assms(1) by (auto simp: fields_ok_def intro: bare_canonical)
  have lit: "unlisted [''-m'', ''lazarus.agent.mlx_server'', ''--model'', ''--max-tokens'', ''--decode-concurrency'',
     ''--prompt-concurrency'', ''--prompt-cache-bytes'', ''--chat-template-args'',
     ''{\"enable_thinking\": true}'', ''{\"enable_thinking\": false}'']"
    by (simp add: listen_flags_def)
  define pre where "pre = [python, ''-m'', ''lazarus.agent.mlx_server'', ''--model'', d_model_path d]"
  define post where "post = drop 9 (mlx_command python d)"
  have "unlisted post" using lit by (auto simp: post_def mlx_command_def split: option.splits)
  moreover have "unlisted pre" using lit m assms(2) by (simp add: pre_def)
  ultimately show ?thesis
    by (intro listensI [of _ pre "''--host''" "''--port''" _ post]) (simp_all add: mlx_command_def pre_def post_def)
qed

lemma slimserve_listens:
  assumes "fields_ok d" "d_slimserve d = Some p" "bare (ac_slimserve c)" "bare directory" "bare (d_served_model_name d)"
  shows "listens (d_port d) (slimserve_command c d p directory)"
proof -
  have dash: "\<not> is_alnum (CHR ''-'')" "\<not> is_lower (CHR ''-'')" "\<not> is_digit (CHR ''-'')" by code_simp+
  have "profile_ok p" using assms(1,2) by (simp add: fields_ok_def opt_in_def)
  then have b: "bare (sp_profile p)" "bare (sp_quant p)"
    using dash by (auto simp: profile_ok_def intro!: bare_slug)
  have lit: "unlisted [''--quant'', ''--cache'', ''--served-model-name'', ''--ctx'']" by (simp add: listen_flags_def)
  define pre where "pre = [ac_slimserve c, sp_profile p, ''--quant'', sp_quant p, ''--cache'', directory]"
  define post where "post = [''--served-model-name'', d_served_model_name d]
     @ (if d_context_length d = 0 then [] else [''--ctx'', show_int (d_context_length d)])"
  have "unlisted pre" "unlisted post" using lit b assms by (simp_all add: pre_def post_def)
  then show ?thesis
    by (intro listensI [of _ pre "''--host''" "''--port''" _ post]) (simp_all add: slimserve_command_def pre_def post_def)
qed

lemma component_flags:
  "\<forall>nf \<in> set IMAGE_COMPONENTS. snd nf \<notin> listen_flags" "\<forall>nf \<in> set VIDEO_COMPONENTS. snd nf \<notin> listen_flags"
  by (simp_all add: IMAGE_COMPONENTS_def VIDEO_COMPONENTS_def listen_flags_def)

lemma bare_str_opt: "opt_in (\<lambda>v. bare (f v)) x \<Longrightarrow> bare (str_opt f x)"
  by (auto simp: str_opt_def opt_in_def bare_def split: option.splits)

lemma image_listens:
  assumes "fields_ok d" "bare (ac_sd_server c)" "\<forall>r. bare (number r)"
  shows "listens (d_port d) (image_command number c d @ log_level_arguments (d_kind d) level)"
proof -
  have m: "bare (d_model_path d)" "\<forall>nc \<in> set (d_components d). bare (cp_path (snd nc))"
    using assms(1) by (auto simp: fields_ok_def intro!: bare_canonical)
  have "opt_in (\<lambda>v. v \<in> set IMAGE_SAMPLERS) (d_sampler d)"
    using assms(1) by (simp add: fields_ok_def options_in_range_def)
  then have smp: "opt_in (\<lambda>v. bare (id v)) (d_sampler d)"
    using bare_sets(3) by (simp add: opt_in_def split: option.splits)
  have lit: "unlisted [''--diffusion-model'', ''--model'', ''--lora-model-dir'', LORA_DIRECTORY, ''--steps'', ''--cfg-scale'', ''--sampling-method'']"
    by (simp add: listen_flags_def LORA_DIRECTORY_def)
  define post where "post = [(if d_components d \<noteq> [] then ''--diffusion-model'' else ''--model''), d_model_path d,
      ''--lora-model-dir'', LORA_DIRECTORY] @ component_args IMAGE_COMPONENTS (\<lambda>_ path. path) d
     @ [''--steps'', str_opt show_int (d_steps d), ''--cfg-scale'', str_opt number (d_cfg_scale d),
        ''--sampling-method'', str_opt id (d_sampler d)] @ log_level_arguments (d_kind d) level"
  have "unlisted (component_args IMAGE_COMPONENTS (\<lambda>_ path. path) d)"
    using m by (intro unlisted_component_args component_flags)
  moreover have "bare (str_opt show_int (d_steps d))" "bare (str_opt number (d_cfg_scale d))" "bare (str_opt id (d_sampler d))"
    using smp assms(3) by (intro bare_str_opt; simp add: opt_in_def split: option.splits)+
  ultimately have "unlisted post" using lit m unlisted_log_level by (simp add: post_def)
  then show ?thesis
    by (intro listensI [of _ "[ac_sd_server c]" "''--listen-ip''" "''--listen-port''" _ post])
      (simp_all add: image_command_def post_def assms(2))
qed

lemma video_listens:
  assumes "fields_ok d" "bare (ac_sd_server c)"
  shows "listens (d_port d) (video_command c d @ log_level_arguments (d_kind d) level)"
proof -
  have m: "bare (d_model_path d)"
    "\<forall>nc \<in> set (d_components d). bare (if fst nc = ''spatial_upscaler'' then dirname (cp_path (snd nc)) else cp_path (snd nc))"
    using assms(1) bare_canonical bare_dirname by (auto simp: fields_ok_def)
  have lit: "unlisted [''--diffusion-model'', ''--lora-model-dir'', LORA_DIRECTORY, ''--tensor-type-rules'', ''--diffusion-fa'',
      ''--backend'', ''vae=cpu'', ''--temporal-tiling'']"
    by (simp add: listen_flags_def LORA_DIRECTORY_def)
  define post where "post = drop 5 (video_command c d) @ log_level_arguments (d_kind d) level"
  have "unlisted (component_args VIDEO_COMPONENTS (\<lambda>name path. if name = ''spatial_upscaler'' then dirname path else path) d)"
    using m(2) by (intro unlisted_component_args component_flags)
  moreover have "bare (CHR ''^'' # w)" for w by (simp add: bare_def)
  ultimately have "unlisted post" using lit m(1) unlisted_log_level
    by (simp add: post_def video_command_def split: option.splits)
  then show ?thesis
    by (intro listensI [of _ "[ac_sd_server c]" "''--listen-ip''" "''--listen-port''" _ post])
      (simp_all add: video_command_def post_def assms(2))
qed

lemma transcription_listens:
  assumes "fields_ok d" "bare (ac_whisper_server c)"
  shows "listens (d_port d) (transcription_command c d @ log_level_arguments (d_kind d) level)"
proof -
  have m: "bare (d_model_path d)" using assms(1) by (auto simp: fields_ok_def intro!: bare_canonical)
  have "opt_in language_match (d_language d)" using assms(1) by (simp add: fields_ok_def options_in_range_def)
  then have lang: "bare (or_text (d_language d) ''auto'')"
    using bare_language by (auto simp: or_text_def opt_in_def language_match_def split: option.splits)
  have lit: "unlisted [''-m'', ''--inference-path'', ''/v1/audio/transcriptions'', ''--no-timestamps'', ''--language'']"
    by (simp add: listen_flags_def)
  define post where "post = drop 5 (transcription_command c d) @ log_level_arguments (d_kind d) level"
  have "unlisted post" using lit m lang unlisted_log_level by (simp add: post_def transcription_command_def)
  then show ?thesis
    by (intro listensI [of _ "[ac_whisper_server c]" "''--host''" "''--port''" _ post])
      (simp_all add: transcription_command_def post_def assms(2))
qed

lemma speech_listens:
  assumes "fields_ok d" "bare python" "speech_command python c d = Inr command"
    and "\<And>ws. shlex_split (ac_piper_server c) = Inr ws \<Longrightarrow> list_all bare ws"
  shows "listens (d_port d) (command @ log_level_arguments (d_kind d) level)"
proof -
  obtain ws where ws: "shlex_split (ac_piper_server c) = Inr ws"
    and cmd: "command = (if ws = [] then [python, ''-m'', ''piper.http_server''] else ws)
            @ [''--host'', ''127.0.0.1'', ''--port'', show_int (d_port d), ''-m'', d_model_path d]"
    using assms(3) by (auto simp: speech_command_def and_then_Inr)
  have m: "bare (d_model_path d)" using assms(1) by (auto simp: fields_ok_def intro!: bare_canonical)
  have lit: "unlisted [''-m'', ''piper.http_server'']" by (simp add: listen_flags_def)
  have pre: "unlisted (if ws = [] then [python, ''-m'', ''piper.http_server''] else ws)"
    using lit assms(2,4) ws by (auto simp: unlisted_def list_all_iff)
  show ?thesis
    using pre lit m unlisted_log_level cmd
    by (intro listensI [of _ "if ws = [] then [python, ''-m'', ''piper.http_server''] else ws" "''--host''" "''--port''" _
        "[''-m'', d_model_path d] @ log_level_arguments (d_kind d) level"]) simp_all
qed

text \<open>
  C39. Whatever kind of model an accepted record names, the command its engine is started with
  gives it one address and one port to listen on, the loopback address and the record's own port,
  next to each other, and names no other address or port anywhere: neither a path, a served name,
  a profile nor an option's value can put one in.
\<close>

theorem listens_on_loopback:
  assumes "make_deployment sha256 d0 = Inr d" "bare_words python number c directory"
    and "bare (d_served_model_name d)" "start_command python number c level directory d = Inr command"
  shows "listens (d_port d) command"
proof -
  have f: "fields_ok d" by (rule make_deployment_checks [OF assms(1)])
  note w = assms(2) [unfolded bare_words_def]
  show ?thesis
  proof (cases "d_slimserve d")
    case (Some p)
    then show ?thesis using assms(4) slimserve_listens [OF f Some] w assms(3)
      by (auto simp: start_command_def split: if_splits)
  next
    case None
    show ?thesis
    proof (cases "d_mlx d")
      case (Some m)
      then show ?thesis using assms(4) None mlx_listens [OF f] w by (auto simp: start_command_def)
    next
      case no_mlx: None
      then obtain cmd where cmd: "server_command python number c d = Inr cmd" "command = cmd @ log_level_arguments (d_kind d) level"
        using assms(4) None by (auto simp: start_command_def deployment_command_def and_then_Inr split: if_splits)
      have "list_all bare ws" if "shlex_split (ac_piper_server c) = Inr ws" for ws using w that by simp
      then show ?thesis
        using cmd w assms(3) speech_listens [OF f, of python c] llama_listens [OF f] gemma_listens [OF f]
          image_listens [OF f] video_listens [OF f] transcription_listens [OF f]
        by (cases "d_kind d") (auto simp: server_command_def split: if_splits)
    qed
  qed
qed


definition host_config :: agent_config where
  "host_config = default_config\<lparr>ac_piper_server := ''piper serve'', ac_slimserve := ''/opt/slimserve''\<rparr>"

lemma clip_command: "start_command ''python'' (\<lambda>_. ''5.0'') host_config None ''/d'' clip_recorded =
    Inr (video_command host_config clip_recorded)"
  by (simp add: start_command_def deployment_command_def server_command_def clip_recorded_def clip_deployment_def
      bare_deployment_def log_level_arguments_def)

lemma listens_on_loopback_witness:
  "listens 9110 (video_command host_config clip_recorded)"
proof -
  have "shlex_split (ac_piper_server host_config) = Inr [''piper'', ''serve'']" by code_simp
  then have "bare_words ''python'' (\<lambda>_. ''5.0'') host_config ''/d''"
    by (simp add: bare_words_def bare_def) (simp add: host_config_def default_config_def)
  moreover have "bare (d_served_model_name clip_recorded)" by code_simp
  ultimately show ?thesis
    using listens_on_loopback [OF clip_accepted _ _ clip_command]
    by (simp add: clip_recorded_def clip_deployment_def bare_deployment_def)
qed

section \<open>The key of a language model's child\<close>

text \<open>A text that begins neither like an option nor like one spelled with underscores.\<close>

definition no_option :: "string \<Rightarrow> bool" where
  "no_option w \<longleftrightarrow> w = [] \<or> hd w \<noteq> CHR ''-'' \<and> hd w \<noteq> CHR ''_''"

lemma no_option_key [simp]: "no_option w \<Longrightarrow> \<not> key_option w"
  by (cases w) (auto simp: no_option_def key_option_def)

lemma no_option_show: "0 \<le> i \<Longrightarrow> no_option (show_int i)"
proof -
  have "is_digit (hd (show_nat (nat i)))" using show_nat_digits [of "nat i"] by (cases "show_nat (nat i)") auto
  moreover have "\<not> is_digit (CHR ''-'')" "\<not> is_digit (CHR ''_'')" by code_simp+
  ultimately show "0 \<le> i \<Longrightarrow> no_option (show_int i)" by (auto simp: no_option_def show_int_def)
qed

lemma no_option_canonical: "canonical_path w \<Longrightarrow> no_option w"
  by (auto simp: canonical_path_iff no_option_def slash_def)

lemma no_option_slug: "slug_match p q lo hi v \<Longrightarrow> \<not> p (CHR ''-'') \<Longrightarrow> \<not> p (CHR ''_'') \<Longrightarrow> no_option v"
  by (auto simp: slug_match_def no_option_def split: list.splits)

lemma key_literals:
  "list_all (\<lambda>w. \<not> key_option w) [''--jinja'', ''--alias'', ''--host'', ''127.0.0.1'', ''--port'', ''--model-url'', [],
     ''--hf-repo'', ''--docker-repo'', ''-m'', ''--mmproj'', ''-np'', ''1'', ''0'', ''--kv-unified'', ''--cache-ram'', ''-c'',
     ''--kv-unified-per-slot'', ''--metrics'', ''lazarus.agent.mlx_server'', ''--model'', ''--max-tokens'',
     ''--decode-concurrency'', ''--prompt-concurrency'', ''--prompt-cache-bytes'', ''--chat-template-args'',
     ''{\"enable_thinking\": true}'', ''{\"enable_thinking\": false}'',
     ''--quant'', ''--cache'', ''--served-model-name'', ''--ctx'']"
  by code_simp

lemma generation_command_keyless:
  assumes "make_deployment sha256 d0 = Inr d" "d_kind d = Generation"
    and "start_command python number c level directory d = Inr command"
    and "no_option python" "no_option (ac_llama_server c)" "no_option (ac_slimserve c)" "no_option directory"
    and "no_option (d_served_model_name d)"
  shows "\<forall>w \<in> set command. \<not> key_option w"
proof -
  have f: "fields_ok d" by (rule make_deployment_checks [OF assms(1)])
  have eng: "d_engine d = None"
  proof (rule ccontr)
    assume "d_engine d \<noteq> None"
    moreover have "embeddinggemma_options (d_kind d) (d_engine d) (d_slimserve d) (d_mlx d) (component_names d) = None"
      using make_deployment_checks(3) [OF assms(1)] by (simp add: engine_checks_def run_checks_None)
    ultimately show False using assms(2) by (auto simp: embeddinggemma_options_def check_None split: option.splits)
  qed
  have num: "no_option (show_int (d_port d))" "no_option (show_int (d_context_length d))" "no_option (show_int (d_requests d))"
    "no_option (show_int (d_context_length d * d_requests d))" "no_option (show_int LLAMA_DEFAULT_WINDOW)"
    "no_option (show_int MLX_CONCURRENCY)" "no_option (show_int MLX_PROMPT_CACHE_BYTES)"
    using f by (auto simp: fields_ok_def MLX_CONCURRENCY_def MLX_PROMPT_CACHE_BYTES_def LLAMA_DEFAULT_WINDOW_def
        intro!: no_option_show)
  have path: "no_option (d_model_path d)" "\<And>v. d_mmproj_path d = Some v \<Longrightarrow> no_option v"
    using f by (auto simp: fields_ok_def opt_in_def intro: no_option_canonical)
  note lit = key_literals [unfolded list.pred_inject]
  show ?thesis
  proof (cases "d_slimserve d")
    case (Some p)
    have dash: "\<not> is_alnum (CHR ''-'')" "\<not> is_lower (CHR ''-'')" "\<not> is_digit (CHR ''-'')"
      "\<not> is_alnum (CHR ''_'')" "\<not> is_lower (CHR ''_'')" "\<not> is_digit (CHR ''_'')" by code_simp+
    have "profile_ok p" using f Some by (simp add: fields_ok_def opt_in_def)
    then have "no_option (sp_profile p)" "no_option (sp_quant p)"
      using dash by (auto simp: profile_ok_def intro!: no_option_slug)
    moreover have "command = slimserve_command c d p directory"
      using assms(3) Some by (simp add: start_command_def split: if_splits)
    ultimately show ?thesis using assms num path lit by (simp add: slimserve_command_def)
  next
    case None
    show ?thesis
    proof (cases "d_mlx d")
      case (Some m)
      then have "command = mlx_command python d" using None assms(3) by (simp add: start_command_def)
      moreover have "list_all (\<lambda>w. \<not> key_option w) (mlx_command python d)"
        using assms(4) num path lit by (cases "d_thinking d") (simp_all add: mlx_command_def)
      ultimately show ?thesis by (simp add: list_all_iff)
    next
      case no_mlx: None
      have lvl: "log_level_arguments Generation level = []"
        by (simp add: log_level_arguments_def DIFFUSION_def split: option.splits)
      have "command = llama_command c d"
        using None no_mlx assms(2,3) eng lvl
        by (simp add: start_command_def deployment_command_def server_command_def)
      moreover have "list_all (\<lambda>w. \<not> key_option w) (generation_requests d)"
        using num lit by (simp add: generation_requests_def)
      moreover have "list_all (\<lambda>w. \<not> key_option w) (opt_arg ''--mmproj'' (d_mmproj_path d))"
        using path(2) lit by (cases "d_mmproj_path d") (simp_all add: opt_arg_def)
      ultimately have "list_all (\<lambda>w. \<not> key_option w) command"
        using assms(2,5,8) num path(1) lit by (simp add: llama_command_def)
      then show ?thesis by (simp add: list_all_iff)
    qed
  qed
qed


lemma dict_get_update:
  "k \<notin> fst ` set e \<Longrightarrow> dict_get (dict_update e d) k = dict_get d k"
  unfolding dict_update_def by (induction e arbitrary: d) auto

lemma environment_keys:
  "fst ` set (deployment_environment level d) \<subseteq> {''HF_HUB_OFFLINE'', ''VLLM_LOGGING_LEVEL'', ''LLAMA_ARG_LOG_VERBOSITY'',
     ''LLAMA_ARG_REASONING'', ''LLAMA_ARG_THINK_BUDGET''}"
  by (auto simp: deployment_environment_def split: option.splits)

text \<open>
  C38. A language model's child made from an accepted record is never refused for a key on its
  command line, and it is started with the key the agent made and no other: both key variables of
  its environment hold it, the host's key file variable is gone, and none of the record's own
  environment overwrites them. A child of any other kind is given no key.
\<close>

theorem child_holds_agents_key:
  assumes "make_deployment sha256 d0 = Inr d"
    and "start_command python number c level directory d = Inr command"
    and "no_option python" "no_option (ac_llama_server c)" "no_option (ac_slimserve c)" "no_option directory"
    and "no_option (d_served_model_name d)"
  shows "\<exists>ch. start_child python number c level environ token directory d = Inr ch \<and>
    ch_command ch = command \<and> ch_port ch = d_port d \<and>
    (if d_kind d = Generation
     then ch_key ch = Some (token @ ''-agent'') \<and>
       (\<exists>env. ch_env ch = Some env \<and> dict_get env ''LLAMA_API_KEY'' = ch_key ch \<and>
         dict_get env ''VLLM_API_KEY'' = ch_key ch \<and> dict_get env ''LLAMA_ARG_API_KEY_FILE'' = None)
     else ch_key ch = None)"
proof (cases "d_kind d = Generation")
  case True
  have "\<forall>w \<in> set command. \<not> key_option w"
    using generation_command_keyless [OF assms(1) True assms(2-7)] .
  moreover have "k \<notin> fst ` set (deployment_environment level d)"
    if "k \<in> {''LLAMA_API_KEY'', ''VLLM_API_KEY'', ''LLAMA_ARG_API_KEY_FILE''}" for k
    using that environment_keys [of level d] by auto
  ultimately show ?thesis
    using True assms(2) by (simp add: start_child_def server_process_def guarded_def check_def dict_get_update)
next
  case False
  then show ?thesis
    using assms(2) by (simp add: start_child_def server_process_def guarded_def check_def)
qed

lemma bare_accepted: "make_deployment (\<lambda>_. []) bare_deployment = Inr bare_deployment"
  by code_simp

lemma bare_command: "start_command ''python'' (\<lambda>_. ''5.0'') host_config None ''/d'' bare_deployment =
    Inr (llama_command host_config bare_deployment)"
  by (simp add: start_command_def deployment_command_def server_command_def
      bare_deployment_def log_level_arguments_def)

lemma child_holds_agents_key_witness:
  "\<exists>ch. start_child ''python'' (\<lambda>_. ''5.0'') host_config None [(''LLAMA_API_KEY'', ''x'')] ''t'' ''/d'' bare_deployment = Inr ch \<and>
    ch_key ch = Some ''t-agent''"
proof -
  have "no_option ''python''" "no_option (ac_llama_server host_config)" "no_option (ac_slimserve host_config)"
    "no_option ''/d''" "no_option (d_served_model_name bare_deployment)" "d_kind bare_deployment = Generation"
    by code_simp+
  then show ?thesis
    using child_holds_agents_key [OF bare_accepted bare_command, of "[(''LLAMA_API_KEY'', ''x'')]" "''t''"] by auto
qed

section \<open>The places of a language model\<close>

definition engine_serves_metrics :: "deployment \<Rightarrow> bool" where
  "engine_serves_metrics d \<longleftrightarrow> engine_of d = ENGINES Generation \<and> d_kind d = Generation"

definition places_of :: "deployment \<Rightarrow> int option" where
  "places_of d =
     (if d_mlx d \<noteq> None then Some MLX_CONCURRENCY
      else if engine_serves_metrics d
      then Some (if d_context_length d \<noteq> 0 then d_requests d else 1)
      else None)"

text \<open>
  The places the agent counts waiting requests against are the places the engine it starts
  really has: an accepted record's llama-server is told to run exactly that many requests and to
  hold a pool of that many full windows, never past 2 to the 28 tokens, and mlx-lm to decode and
  read exactly that many.
\<close>

theorem engine_has_the_places_counted:
  assumes "make_deployment sha256 d0 = Inr d" "places_of d = Some n"
    and "start_command python number c level directory d = Inr command"
  shows "1 \<le> n \<and> n \<le> 256 \<and>
    (if d_mlx d = None
     then sublist [''-np'', show_int n] command \<and> sublist [''-c'', show_int (n * d_context_length d)] command \<and>
       0 \<le> n * d_context_length d \<and> n * d_context_length d \<le> 2 ^ 28
     else sublist [''--decode-concurrency'', show_int n, ''--prompt-concurrency'', show_int n] command)"
proof (cases "d_mlx d")
  case (Some m)
  have "d_slimserve d = None"
  proof (rule ccontr)
    assume "d_slimserve d \<noteq> None"
    moreover have "mlx_options sha256 (d_kind d) (d_mlx d) (d_slimserve d) (component_names d) (d_mmproj_path d) (d_thinking_budget d) (d_sha256 d) = None"
      using make_deployment_checks(3) [OF assms(1)] by (simp add: engine_checks_def run_checks_None)
    ultimately show False using Some by (simp add: mlx_options_def run_checks_None check_None)
  qed
  then have cmd: "command = mlx_command python d" using Some assms(3) by (simp add: start_command_def)
  have n: "n = 1" using Some assms(2) by (simp add: places_of_def MLX_CONCURRENCY_def)
  define pre where "pre = take 11 (mlx_command python d)"
  define post where "post = drop 15 (mlx_command python d)"
  have "command = pre @ [''--decode-concurrency'', show_int n, ''--prompt-concurrency'', show_int n] @ post"
    using cmd n by (simp add: mlx_command_def pre_def post_def MLX_CONCURRENCY_def)
  then have "sublist [''--decode-concurrency'', show_int n, ''--prompt-concurrency'', show_int n] command"
    unfolding sublist_def by blast
  then show ?thesis using Some n by simp
next
  case None
  have f: "fields_ok d" by (rule make_deployment_checks [OF assms(1)])
  have esm: "engine_serves_metrics d" using assms(2) None by (simp add: places_of_def split: if_splits)
  then have kind: "d_kind d = Generation" by (simp add: engine_serves_metrics_def)
  have eng: "d_engine d = None" "d_slimserve d = None"
  proof -
    have ne: "EMBEDDINGGEMMA \<noteq> ENGINES Generation" "SLIMSERVE \<noteq> ENGINES Generation"
      by (simp_all add: EMBEDDINGGEMMA_def SLIMSERVE_def ENGINES_def)
    have "engine_of d = ENGINES Generation" using esm by (simp add: engine_serves_metrics_def)
    moreover have "opt_in (\<lambda>v. v = EMBEDDINGGEMMA) (d_engine d)"
      using f by (simp add: fields_ok_def options_in_range_def)
    ultimately show "d_engine d = None" "d_slimserve d = None"
      using None ne by (auto simp: engine_of_def opt_in_def split: option.splits if_splits)
  qed
  have n: "n = (if d_context_length d \<noteq> 0 then d_requests d else 1)"
    using assms(2) None esm by (simp add: places_of_def)
  have lvl: "log_level_arguments Generation level = []"
    by (simp add: log_level_arguments_def DIFFUSION_def split: option.splits)
  have "command = llama_command c d"
    using None assms(3) eng kind lvl by (simp add: start_command_def deployment_command_def server_command_def)
  then obtain pre where pre: "command = pre @ generation_requests d"
    using kind by (simp add: llama_command_def)
  have lit: "show_int 0 = ''0''" "show_int 1 = ''1''" by code_simp+
  have gen: "sublist [''-np'', show_int n] (generation_requests d) \<and>
      sublist [''-c'', show_int (n * d_context_length d)] (generation_requests d)"
  proof (cases "d_context_length d = 0")
    case True
    have "generation_requests d = [] @ [''-np'', show_int n] @ [''--kv-unified'', ''--cache-ram'', ''0'', ''-c'', ''0'', ''--metrics'']"
      "generation_requests d = [''-np'', ''1'', ''--kv-unified'', ''--cache-ram'', ''0''] @ [''-c'', show_int (n * d_context_length d)] @ [''--metrics'']"
      using True n lit by (simp_all add: generation_requests_def)
    then show ?thesis unfolding sublist_def by blast
  next
    case False
    have "generation_requests d = [] @ [''-np'', show_int n] @ drop 2 (generation_requests d)"
      "generation_requests d = take 5 (generation_requests d) @ [''-c'', show_int (n * d_context_length d)] @ drop 7 (generation_requests d)"
      using False n by (simp_all add: generation_requests_def mult.commute)
    then show ?thesis unfolding sublist_def by blast
  qed
  have bounds: "1 \<le> n" "n \<le> 256" "0 \<le> d_context_length d" "d_context_length d \<le> 2 ^ 20"
    using f n by (auto simp: fields_ok_def LLAMA_MAX_REQUESTS_def SLIMSERVE_WINDOW_LIMIT_def)
  then have "n * d_context_length d \<le> 256 * 2 ^ 20" by (intro mult_mono) auto
  then show ?thesis using None gen bounds pre sublist_order.order.trans [of _ "generation_requests d" command]
    by (auto intro: sublist_order.order.trans)
qed

lemma engine_has_the_places_counted_witness:
  "sublist [''-np'', show_int 4] (llama_command host_config bare_deployment)"
proof -
  have "places_of bare_deployment = Some 4" "d_mlx bare_deployment = None" by code_simp+
  then show ?thesis
    using engine_has_the_places_counted [OF bare_accepted _ bare_command, of 4] by simp
qed


section \<open>SlimServe's directory\<close>

text \<open>
  \<open>lay_out_slimserve\<close> removes the deployment's directory and makes it again: for each name of the
  layout the directories over it, then a link to the file given. A tree is a dictionary from
  paths below that directory, folded as the Mac's disk folds them, to what is there; the files
  linked to are regular files, so making a directory where a link is raises.
\<close>

datatype node = Dir | Link string

type_synonym tree = "(string list, node) dict"

definition mkdir_at :: "string list \<Rightarrow> tree \<Rightarrow> py_error + tree" where
  "mkdir_at p t =
     (case dict_get t p of
        None \<Rightarrow> Inr (dict_set p Dir t)
      | Some Dir \<Rightarrow> Inr t
      | Some (Link _) \<Rightarrow> Inl (OSError ''File exists''))"

fun mkdir_all :: "string list \<Rightarrow> string list \<Rightarrow> tree \<Rightarrow> py_error + tree" where
  "mkdir_all [] base t = Inr t"
| "mkdir_all (w # ws) base t = and_then (mkdir_at (base @ [w]) t) (mkdir_all ws (base @ [w]))"

definition link_at :: "string list \<Rightarrow> string \<Rightarrow> tree \<Rightarrow> py_error + tree" where
  "link_at p source t =
     (if dict_get t p = None then Inr (dict_set p (Link source) t) else Inl (OSError ''File exists''))"

definition source_of :: "deployment \<Rightarrow> slim_file \<Rightarrow> py_error + string" where
  "source_of d file =
     (case file of
        FModel \<Rightarrow> Inr (d_model_path d)
      | FProjector \<Rightarrow> (case d_mmproj_path d of Some p \<Rightarrow> Inr p | None \<Rightarrow> Inl (TypeError ''NoneType''))
      | FDrafter \<Rightarrow> (case dict_get (d_components d) ''drafter'' of
          Some c \<Rightarrow> Inr (cp_path c) | None \<Rightarrow> Inl (KeyError ''drafter'')))"

definition folded_parts :: "string \<Rightarrow> string list" where
  "folded_parts name = split_on slash (lower name)"

definition place_file :: "deployment \<Rightarrow> string \<times> slim_file \<Rightarrow> tree \<Rightarrow> py_error + tree" where
  "place_file d nf t =
     and_then (mkdir_all (butlast (folded_parts (fst nf))) [] t) (\<lambda>t.
     and_then (source_of d (snd nf)) (\<lambda>source.
     link_at (folded_parts (fst nf)) source t))"

fun place_files :: "deployment \<Rightarrow> (string, slim_file) dict \<Rightarrow> tree \<Rightarrow> py_error + tree" where
  "place_files d [] t = Inr t"
| "place_files d (nf # nfs) t = and_then (place_file d nf t) (place_files d nfs)"

definition lay_out_slimserve :: "deployment \<Rightarrow> slim_profile \<Rightarrow> py_error + tree" where
  "lay_out_slimserve d p = place_files d (sp_layout p) []"

text \<open>No name of the layout lies inside another's path.\<close>

definition unnested :: "(string, slim_file) dict \<Rightarrow> bool" where
  "unnested layout \<longleftrightarrow>
     (\<forall>m \<in> set (map fst layout). \<forall>n \<in> set (map fst layout).
        \<not> strict_prefix (folded_parts m) (folded_parts n))"

definition linked :: "tree \<Rightarrow> string list \<Rightarrow> bool" where
  "linked t p \<longleftrightarrow> (\<exists>source. dict_get t p = Some (Link source))"

lemma mkdir_at_ok:
  "\<not> linked t p \<Longrightarrow> \<exists>t'. mkdir_at p t = Inr t' \<and>
     (\<forall>q. dict_get t' q = (if q = p then Some Dir else dict_get t q))"
  by (auto simp: mkdir_at_def linked_def split: option.splits node.splits)

lemma mkdir_all_ok:
  assumes "\<forall>q. q \<noteq> [] \<and> prefix q ws \<longrightarrow> \<not> linked t (base @ q)"
  shows "\<exists>t'. mkdir_all ws base t = Inr t' \<and>
    (\<forall>p. dict_get t' p = (if \<exists>q. q \<noteq> [] \<and> prefix q ws \<and> p = base @ q then Some Dir else dict_get t p))"
  using assms
proof (induction ws arbitrary: base t)
  case (Cons w ws)
  have "\<not> linked t (base @ [w])" using Cons.prems by (auto elim: allE [of _ "[w]"])
  then obtain t1 where t1: "mkdir_at (base @ [w]) t = Inr t1"
    "\<And>q. dict_get t1 q = (if q = base @ [w] then Some Dir else dict_get t q)"
    using mkdir_at_ok by blast
  have "\<not> linked t1 ((base @ [w]) @ q)" if "q \<noteq> []" "prefix q ws" for q
    using Cons.prems that t1(2) by (auto simp: linked_def dest: spec [of _ "w # q"])
  then obtain t' where t': "mkdir_all ws (base @ [w]) t1 = Inr t'"
    "\<And>p. dict_get t' p = (if \<exists>q. q \<noteq> [] \<and> prefix q ws \<and> p = (base @ [w]) @ q then Some Dir else dict_get t1 p)"
    using Cons.IH [of t1 "base @ [w]"] by blast
  have "(\<exists>q. q \<noteq> [] \<and> prefix q (w # ws) \<and> p = base @ q) \<longleftrightarrow>
      p = base @ [w] \<or> (\<exists>q. q \<noteq> [] \<and> prefix q ws \<and> p = (base @ [w]) @ q)" for p
    by (auto simp: prefix_Cons)
  then show ?case using t1 t' by auto
qed simp

lemma place_file_ok:
  assumes "source_of d (snd nf) = Inr source" "folded_parts (fst nf) \<noteq> []"
    and "\<forall>q. strict_prefix q (folded_parts (fst nf)) \<longrightarrow> \<not> linked t q" "dict_get t (folded_parts (fst nf)) = None"
  shows "\<exists>t'. place_file d nf t = Inr t' \<and>
    (\<forall>p. dict_get t' p = (if p = folded_parts (fst nf) then Some (Link source)
       else if p \<noteq> [] \<and> strict_prefix p (folded_parts (fst nf)) then Some Dir else dict_get t p))"
proof -
  let ?ws = "folded_parts (fst nf)"
  have sp: "prefix q (butlast ?ws) \<longleftrightarrow> strict_prefix q ?ws" for q
    using assms(2) by (metis append_butlast_last_id prefix_order.dual_order.strict_iff_not prefix_snoc strict_prefixI' strict_prefix_def)
  then have "\<forall>q. q \<noteq> [] \<and> prefix q (butlast ?ws) \<longrightarrow> \<not> linked t ([] @ q)" using assms(3) by simp
  then obtain t' where "mkdir_all (butlast ?ws) [] t = Inr t'"
    "\<forall>p. dict_get t' p = (if p \<noteq> [] \<and> strict_prefix p ?ws then Some Dir else dict_get t p)"
    using mkdir_all_ok [of "butlast ?ws" t "[]"] sp by auto
  then show ?thesis using assms(1,4) by (auto simp: place_file_def link_at_def)
qed

lemma place_files_ok:
  assumes "\<forall>nf \<in> set nfs. \<exists>source. source_of d (snd nf) = Inr source"
    and "distinct (map (folded_parts \<circ> fst) nfs)" "unnested nfs"
    and "\<forall>nf \<in> set nfs. dict_get t (folded_parts (fst nf)) = None \<and>
           (\<forall>q. strict_prefix q (folded_parts (fst nf)) \<longrightarrow> \<not> linked t q)"
  shows "\<exists>t'. place_files d nfs t = Inr t' \<and>
    (\<forall>p. linked t p \<longrightarrow> dict_get t' p = dict_get t p) \<and>
    (\<forall>nf \<in> set nfs. \<forall>source. source_of d (snd nf) = Inr source \<longrightarrow>
       dict_get t' (folded_parts (fst nf)) = Some (Link source))"
  using assms
proof (induction nfs arbitrary: t)
  case (Cons nf nfs)
  let ?c = "folded_parts (fst nf)"
  obtain source where src: "source_of d (snd nf) = Inr source" using Cons.prems(1) by auto
  have ne: "folded_parts n \<noteq> []" for n by (simp add: folded_parts_def)
  obtain t1 where t1: "place_file d nf t = Inr t1"
    "\<And>p. dict_get t1 p = (if p = ?c then Some (Link source)
       else if p \<noteq> [] \<and> strict_prefix p ?c then Some Dir else dict_get t p)"
    using place_file_ok [OF src ne, of t] Cons.prems(4) by auto
  have keep: "dict_get t1 p = dict_get t p" if "linked t p" for p
    using that Cons.prems(4) t1(2) [of p] by (auto simp: linked_def)
  have fresh: "dict_get t1 (folded_parts (fst mf)) = None"
    "strict_prefix q (folded_parts (fst mf)) \<Longrightarrow> \<not> linked t1 q" if "mf \<in> set nfs" for mf q
  proof -
    have "folded_parts (fst mf) \<noteq> ?c" using Cons.prems(2) that by (auto simp: comp_def image_iff)
    moreover have "\<not> strict_prefix (folded_parts (fst mf)) ?c" "\<not> strict_prefix ?c (folded_parts (fst mf))"
      using Cons.prems(3) that by (auto simp: unnested_def)
    ultimately show "dict_get t1 (folded_parts (fst mf)) = None"
      "strict_prefix q (folded_parts (fst mf)) \<Longrightarrow> \<not> linked t1 q"
      using Cons.prems(4) that t1(2) by (auto simp: linked_def split: if_splits)
  qed
  have "unnested nfs" using Cons.prems(3) by (simp add: unnested_def)
  then obtain t' where t': "place_files d nfs t1 = Inr t'" "\<And>p. linked t1 p \<Longrightarrow> dict_get t' p = dict_get t1 p"
    "\<And>mf source. mf \<in> set nfs \<Longrightarrow> source_of d (snd mf) = Inr source \<Longrightarrow>
       dict_get t' (folded_parts (fst mf)) = Some (Link source)"
  proof -
    have "\<forall>nf \<in> set nfs. \<exists>source. source_of d (snd nf) = Inr source" "distinct (map (folded_parts \<circ> fst) nfs)"
      "\<forall>nf \<in> set nfs. dict_get t1 (folded_parts (fst nf)) = None \<and>
         (\<forall>q. strict_prefix q (folded_parts (fst nf)) \<longrightarrow> \<not> linked t1 q)"
      using Cons.prems(1,2) fresh by (auto simp: comp_def)
    from Cons.IH [OF this(1,2) \<open>unnested nfs\<close> this(3)] show ?thesis using that by blast
  qed
  have "linked t1 ?c" using t1(2) by (simp add: linked_def)
  then have "dict_get t' ?c = Some (Link source)" using t'(2) t1(2) by simp
  moreover have "dict_get t' p = dict_get t p" if "linked t p" for p
  proof -
    have "linked t1 p" using that keep [OF that] by (simp add: linked_def)
    then show ?thesis using t'(2) keep [OF that] by simp
  qed
  ultimately show ?case using t1(1) t' src by auto
qed simp

text \<open>An accepted layout's names stay apart once the disk has folded them, and each of its files is given.\<close>

lemma layout_folds_apart:
  assumes "make_deployment sha256 d0 = Inr d" "d_slimserve d = Some p"
  shows "distinct (map (folded_parts \<circ> fst) (sp_layout p))"
proof -
  have "distinct (map (lower \<circ> fst) (sp_layout p))" using accepted_layout [OF assms] by blast
  moreover have "inj (split_on slash)" by (metis injI join_split)
  ultimately show ?thesis by (auto simp: folded_parts_def distinct_map comp_def inj_on_def)
qed

lemma layout_given:
  assumes "make_deployment sha256 d0 = Inr d" "d_slimserve d = Some p" "(name, f) \<in> set (sp_layout p)"
  shows "\<exists>source. source_of d f = Inr source"
proof -
  have opts: "slimserve_options (d_kind d) (d_slimserve d) (component_names d) (d_mmproj_path d) (d_thinking d) (d_thinking_budget d) = None"
    using make_deployment_checks(3) [OF assms(1)] by (simp add: engine_checks_def run_checks_None)
  show ?thesis
  proof (cases f)
    case FModel
    then show ?thesis by (simp add: source_of_def)
  next
    case FProjector
    then have "FProjector \<in> snd ` set (sp_layout p)" using assms(3) by force
    then have "d_mmproj_path d \<noteq> None"
      using opts assms(2) by (auto simp: slimserve_options_def run_checks_None check_None Let_def)
    then show ?thesis using FProjector by (auto simp: source_of_def)
  next
    case FDrafter
    then have "FDrafter \<in> snd ` set (sp_layout p)" using assms(3) by force
    then have "''drafter'' \<in> set (component_names d)"
      using opts assms(2) by (auto simp: slimserve_options_def run_checks_None check_None Let_def)
    then have "dict_get (d_components d) ''drafter'' \<noteq> None"
      by (simp add: component_names_def map_of_eq_None_iff del: not_None_eq)
    then show ?thesis using FDrafter by (auto simp: source_of_def)
  qed
qed



text \<open>A layout nested past the check of C8 fails where it is laid out, in either order.\<close>

lemma nested_layout_fails:
  "place_files bare_deployment [(''w'', FModel), (''w/d'', FModel)] [] = Inl (OSError ''File exists'') \<and>
   place_files bare_deployment [(''w/d'', FModel), (''w'', FModel)] [] = Inl (OSError ''File exists'')"
  by code_simp

end
