(* ===== verification/Queueing.thy ===== *)
theory Queueing
  imports Complex_Main Prelude
begin

text \<open>
  \<open>lazarus/agent/queueing.py\<close>: the requests that waited for a place in a language model's
  engine. Tickets and hour buckets are Python objects with an identity: a ticket is an index
  into \<open>q_tickets\<close>, which only grows; a bucket lives inline in \<open>q_hours\<close> and carries its
  identity \<open>b_id\<close>, which a ticket's \<open>t_counted\<close> names. The clocks are arguments: each operation
  takes the reading of \<open>time.monotonic\<close> (\<open>now\<close>) and of \<open>time.time\<close> (\<open>wall\<close>) it makes, as
  rational numbers of seconds; \<open>restart\<close> reads both once for each waiting ticket.
\<close>

section \<open>State\<close>

definition HOURS_KEPT :: int where
  "HOURS_KEPT = 24"

record ticket =
  t_arrived :: rat
  t_waiting :: bool
  t_waited_ms :: int
  t_counted :: "nat option"
  t_process :: nat

record bucket =
  b_id :: nat
  b_hour :: int
  b_queued :: int
  b_longest :: int

record queueing =
  q_process :: nat
  q_in_flight :: int
  q_waiting :: "nat list"
  q_hours :: "bucket list"
  q_tickets :: "ticket list"
  q_next_bucket :: nat

definition queueing_init :: queueing where
  "queueing_init = \<lparr>q_process = 0, q_in_flight = 0, q_waiting = [], q_hours = [],
     q_tickets = [], q_next_bucket = 0\<rparr>"

section \<open>Operations\<close>

text \<open>\<open>int(x)\<close> truncates towards zero.\<close>

definition py_int :: "rat \<Rightarrow> int" where
  "py_int x = (if 0 \<le> x then \<lfloor>x\<rfloor> else \<lceil>x\<rceil>)"

definition hour_no :: "rat \<Rightarrow> int" where
  "hour_no wall = \<lfloor>wall / 3600\<rfloor>"

definition update_last :: "('a \<Rightarrow> 'a) \<Rightarrow> 'a list \<Rightarrow> 'a list" where
  "update_last f xs = (if xs = [] then [] else butlast xs @ [f (last xs)])"

text \<open>\<open>_hour\<close>: the current bucket is the last of \<open>q_hours\<close> afterwards.\<close>

definition hour_step :: "rat \<Rightarrow> queueing \<Rightarrow> queueing" where
  "hour_step wall q =
     (let hour = hour_no wall;
          q = (if q_hours q = [] \<or> b_hour (last (q_hours q)) \<noteq> hour
               then q\<lparr>q_hours := q_hours q @
                        [\<lparr>b_id = q_next_bucket q, b_hour = hour, b_queued = 0, b_longest = 0\<rparr>],
                      q_next_bucket := Suc (q_next_bucket q)\<rparr>
               else q)
      in q\<lparr>q_hours := dropWhile (\<lambda>b. b_hour b \<le> hour - HOURS_KEPT) (q_hours q)\<rparr>)"

definition waited :: "rat \<Rightarrow> rat \<Rightarrow> nat \<Rightarrow> queueing \<Rightarrow> queueing" where
  "waited now wall t q =
     (let ms = py_int ((now - t_arrived (q_tickets q ! t)) * 1000);
          q = q\<lparr>q_tickets := (q_tickets q)[t := (q_tickets q ! t)\<lparr>t_waiting := False, t_waited_ms := ms\<rparr>]\<rparr>;
          q = hour_step wall q
      in q\<lparr>q_hours := update_last (\<lambda>b. b\<lparr>b_longest := max (b_longest b) ms\<rparr>) (q_hours q)\<rparr>)"

definition arrive :: "rat \<Rightarrow> rat \<Rightarrow> int \<Rightarrow> queueing \<Rightarrow> nat \<times> queueing" where
  "arrive now wall places q =
     (let waits = (places \<le> q_in_flight q);
          t = length (q_tickets q);
          tk = \<lparr>t_arrived = now, t_waiting = waits, t_waited_ms = 0, t_counted = None,
                t_process = q_process q\<rparr>;
          q = q\<lparr>q_in_flight := q_in_flight q + 1\<rparr>
      in if waits
         then (let q = hour_step wall (q\<lparr>q_waiting := q_waiting q @ [t]\<rparr>);
                   tk = tk\<lparr>t_counted := Some (b_id (last (q_hours q)))\<rparr>
               in (t, q\<lparr>q_hours := update_last (\<lambda>b. b\<lparr>b_queued := b_queued b + 1\<rparr>) (q_hours q),
                        q_tickets := q_tickets q @ [tk]\<rparr>))
         else (t, q\<lparr>q_tickets := q_tickets q @ [tk]\<rparr>))"

definition uncount :: "nat option \<Rightarrow> bucket list \<Rightarrow> bucket list" where
  "uncount c hs = map (\<lambda>b. if c = Some (b_id b) then b\<lparr>b_queued := b_queued b - 1\<rparr> else b) hs"

definition leave :: "rat \<Rightarrow> rat \<Rightarrow> nat \<Rightarrow> bool \<Rightarrow> queueing \<Rightarrow> py_error + queueing" where
  "leave now wall t refused q =
     (let tk = q_tickets q ! t in
      if t_process tk \<noteq> q_process q then Inr q
      else
        let q = q\<lparr>q_in_flight := q_in_flight q - 1\<rparr> in
        if t_waiting tk then
          if t \<notin> set (q_waiting q) then Inl (ValueError ''deque.remove(x): x not in deque'')
          else
            let q = q\<lparr>q_waiting := remove1 t (q_waiting q)\<rparr> in
            if refused
            then Inr (q\<lparr>q_tickets := (q_tickets q)[t := tk\<lparr>t_waiting := False\<rparr>],
                        q_hours := uncount (t_counted tk) (q_hours q)\<rparr>)
            else Inr (waited now wall t q)
        else
          (case q_waiting q of
             [] \<Rightarrow> Inr q
           | w # ws \<Rightarrow> Inr (waited now wall w (q\<lparr>q_waiting := ws\<rparr>))))"

definition waited_ms :: "nat \<Rightarrow> queueing \<Rightarrow> int option" where
  "waited_ms t q =
     (let tk = q_tickets q ! t in if t_waiting tk then None else Some (t_waited_ms tk))"

definition restart :: "(nat \<Rightarrow> rat \<times> rat) \<Rightarrow> queueing \<Rightarrow> queueing" where
  "restart clock q =
     (let q = fold (\<lambda>(i, t) q. waited (fst (clock i)) (snd (clock i)) t q)
                (enumerate 0 (q_waiting q)) q
      in q\<lparr>q_waiting := [], q_in_flight := 0, q_process := q_process q + 1\<rparr>)"

definition last_day :: "rat \<Rightarrow> rat \<Rightarrow> queueing \<Rightarrow> (int \<times> int) \<times> queueing" where
  "last_day now wall q =
     (let q = hour_step wall q;
          queued = sum_list (map b_queued (q_hours q));
          longest = (case map b_longest (q_hours q) of [] \<Rightarrow> 0 | x # xs \<Rightarrow> fold max xs x);
          longest = (case q_waiting q of
                       [] \<Rightarrow> longest
                     | w # ws \<Rightarrow> max longest (py_int ((now - t_arrived (q_tickets q ! w)) * 1000)))
      in ((queued, longest), q))"

section \<open>What the operations leave alone\<close>

lemma hour_step_frame [simp]:
  "q_process (hour_step wall q) = q_process q"
  "q_in_flight (hour_step wall q) = q_in_flight q"
  "q_waiting (hour_step wall q) = q_waiting q"
  "q_tickets (hour_step wall q) = q_tickets q"
  by (simp_all add: hour_step_def Let_def)

lemma dropWhile_keeps_last:
  "hs \<noteq> [] \<Longrightarrow> \<not> P (last hs) \<Longrightarrow> dropWhile P hs \<noteq> [] \<and> last (dropWhile P hs) = last hs"
  by (induction hs) auto

lemma hour_step_current:
  "q_hours (hour_step wall q) \<noteq> [] \<and> b_hour (last (q_hours (hour_step wall q))) = hour_no wall"
proof -
  let ?P = "\<lambda>b. b_hour b \<le> hour_no wall - HOURS_KEPT"
  let ?new = "\<lparr>b_id = q_next_bucket q, b_hour = hour_no wall, b_queued = 0, b_longest = 0\<rparr>"
  show ?thesis
  proof (cases "q_hours q = [] \<or> b_hour (last (q_hours q)) \<noteq> hour_no wall")
    case True
    then show ?thesis
      using dropWhile_keeps_last [of "q_hours q @ [?new]" ?P]
      by (simp add: hour_step_def Let_def HOURS_KEPT_def del: dropWhile_eq_Nil_conv)
  next
    case False
    then show ?thesis
      using dropWhile_keeps_last [of "q_hours q" ?P]
      by (simp add: hour_step_def Let_def HOURS_KEPT_def del: dropWhile_eq_Nil_conv)
  qed
qed

lemma waited_frame [simp]:
  "q_process (waited now wall t q) = q_process q"
  "q_in_flight (waited now wall t q) = q_in_flight q"
  "q_waiting (waited now wall t q) = q_waiting q"
  "length (q_tickets (waited now wall t q)) = length (q_tickets q)"
  by (simp_all add: waited_def Let_def)

lemma waited_ticket:
  "i < length (q_tickets q) \<Longrightarrow> q_tickets (waited now wall t q) ! i =
     (if i = t then (q_tickets q ! t)\<lparr>t_waiting := False,
        t_waited_ms := py_int ((now - t_arrived (q_tickets q ! t)) * 1000)\<rparr>
      else q_tickets q ! i)"
  by (simp add: waited_def Let_def nth_list_update)

lemma fold_waited_frame:
  fixes f :: "nat \<times> nat \<Rightarrow> queueing \<Rightarrow> queueing"
  assumes "f = (\<lambda>(i, t) q. waited (fst (clock i)) (snd (clock i)) t q)"
  shows "q_process (fold f its q) = q_process q \<and>
    length (q_tickets (fold f its q)) = length (q_tickets q) \<and>
    (\<forall>t < length (q_tickets q).
       t_process (q_tickets (fold f its q) ! t) = t_process (q_tickets q ! t) \<and>
       t_counted (q_tickets (fold f its q) ! t) = t_counted (q_tickets q ! t))"
proof (induction its arbitrary: q)
  case Nil
  then show ?case by simp
next
  case (Cons x its)
  obtain i t where x: "x = (i, t)" by fastforce
  show ?case
    using Cons.IH [of "waited (fst (clock i)) (snd (clock i)) t q"]
    by (auto simp: x assms waited_ticket)
qed

section \<open>Runs of the agent over one queue\<close>

text \<open>
  The proxy calls \<open>arrive\<close> once for a request and \<open>leave\<close> once for the ticket it was given; the
  number of places is the deployment's and changes only with the process. \<open>qs_live\<close> holds the
  tickets of requests not yet done, \<open>qs_refused\<close> those that left refused while they waited,
  and \<open>qs_walls\<close> the wall-clock readings, newest first.
\<close>

record qsys =
  qs_q :: queueing
  qs_live :: "nat set"
  qs_places :: int
  qs_refused :: "nat set"
  qs_walls :: "rat list"

definition q_start :: "qsys \<Rightarrow> bool" where
  "q_start s \<longleftrightarrow> qs_q s = queueing_init \<and> qs_live s = {} \<and> 0 < qs_places s \<and> qs_refused s = {}
     \<and> qs_walls s = []"

definition current :: "qsys \<Rightarrow> nat set" where
  "current s = {t \<in> qs_live s. t_process (q_tickets (qs_q s) ! t) = q_process (qs_q s)}"

inductive qstep :: "qsys \<Rightarrow> qsys \<Rightarrow> bool" where
  request_arrives:
    "arrive now wall (qs_places s) (qs_q s) = (t, q') \<Longrightarrow>
     qstep s (s\<lparr>qs_q := q', qs_live := insert t (qs_live s), qs_walls := wall # qs_walls s\<rparr>)"
| request_leaves:
    "t \<in> qs_live s \<Longrightarrow> leave now wall t refused (qs_q s) = Inr q' \<Longrightarrow>
     qstep s (s\<lparr>qs_q := q', qs_live := qs_live s - {t},
       qs_refused := (if refused \<and> t \<in> set (q_waiting (qs_q s)) then insert t (qs_refused s)
                      else qs_refused s),
       qs_walls := wall # qs_walls s\<rparr>)"
| process_restarts:
    "0 < places \<Longrightarrow>
     qstep s (s\<lparr>qs_q := restart clock (qs_q s), qs_places := places,
       qs_walls := rev (map (\<lambda>i. snd (clock i)) [0..<length (q_waiting (qs_q s))]) @ qs_walls s\<rparr>)"
| day_read:
    "last_day now wall (qs_q s) = (r, q') \<Longrightarrow>
     qstep s (s\<lparr>qs_q := q', qs_walls := wall # qs_walls s\<rparr>)"

definition queue_inv :: "qsys \<Rightarrow> bool" where
  "queue_inv s \<longleftrightarrow>
     0 < qs_places s \<and>
     (\<forall>t \<in> qs_live s. t < length (q_tickets (qs_q s))) \<and>
     (\<forall>t < length (q_tickets (qs_q s)). t_process (q_tickets (qs_q s) ! t) \<le> q_process (qs_q s)) \<and>
     q_in_flight (qs_q s) = int (card (current s)) \<and>
     set (q_waiting (qs_q s)) = {t \<in> current s. t_waiting (q_tickets (qs_q s) ! t)} \<and>
     sorted_wrt (<) (q_waiting (qs_q s)) \<and>
     int (length (q_waiting (qs_q s))) = max 0 (q_in_flight (qs_q s) - qs_places s)"

lemma queue_invD:
  assumes "queue_inv s"
  shows "0 < qs_places s" "\<And>t. t \<in> qs_live s \<Longrightarrow> t < length (q_tickets (qs_q s))"
    "q_in_flight (qs_q s) = int (card (current s))"
    "set (q_waiting (qs_q s)) = {t \<in> current s. t_waiting (q_tickets (qs_q s) ! t)}"
    "sorted_wrt (<) (q_waiting (qs_q s))" "distinct (q_waiting (qs_q s))"
    "int (length (q_waiting (qs_q s))) = max 0 (q_in_flight (qs_q s) - qs_places s)"
    "finite (current s)"
proof -
  have "finite (qs_live s)"
    using assms by (intro finite_subset [of "qs_live s" "{..<length (q_tickets (qs_q s))}"])
      (auto simp: queue_inv_def)
  then show "finite (current s)" by (simp add: current_def)
  show "distinct (q_waiting (qs_q s))"
    using assms by (simp add: queue_inv_def strict_sorted_iff)
qed (use assms in \<open>auto simp: queue_inv_def\<close>)

lemma remove1_sorted:
  "sorted_wrt (<) xs \<Longrightarrow> sorted_wrt (<) (remove1 (t :: nat) xs)"
  by (simp add: strict_sorted_iff sorted_remove1)

lemma arrive_inv:
  assumes inv: "queue_inv s" and arr: "arrive now wall (qs_places s) (qs_q s) = (t, q')"
  shows "queue_inv (s\<lparr>qs_q := q', qs_live := insert t (qs_live s), qs_walls := ws\<rparr>)"
proof -
  let ?q = "qs_q s" and ?s' = "s\<lparr>qs_q := q', qs_live := insert t (qs_live s), qs_walls := ws\<rparr>"
  note I = queue_invD [OF inv]
  define waits where "waits \<longleftrightarrow> qs_places s \<le> q_in_flight ?q"
  have t: "t = length (q_tickets ?q)"
    using arr by (auto simp: arrive_def Let_def split: if_splits)
  obtain tk where tk: "q_tickets q' = q_tickets ?q @ [tk]" "t_process tk = q_process ?q"
      "t_waiting tk = waits"
    using arr by (auto simp: arrive_def Let_def waits_def split: if_splits)
  have q': "q_process q' = q_process ?q" "q_in_flight q' = q_in_flight ?q + 1"
      "q_waiting q' = q_waiting ?q @ (if waits then [t] else [])"
    using arr by (auto simp: arrive_def Let_def waits_def split: if_splits)
  have tlive: "t \<notin> qs_live s" using I(2) [of t] t by auto
  have cur: "current ?s' = insert t (current s)"
    using I(2) by (auto simp: current_def tk q' nth_append t)
  have "t \<notin> current s" using tlive by (simp add: current_def)
  with cur I(8) have card: "card (current ?s') = Suc (card (current s))" by simp
  have below: "u < t" if "u \<in> current s" for u using I(2) t that by (auto simp: current_def)
  have "q_tickets q' ! t = tk" by (simp add: tk t)
  moreover have "q_tickets q' ! u = q_tickets ?q ! u" if "u \<in> current s" for u
    using below [OF that] by (simp add: tk nth_append t)
  ultimately have wset: "set (q_waiting q') = {u \<in> current ?s'. t_waiting (q_tickets q' ! u)}"
    using \<open>t \<notin> current s\<close> by (auto simp: q' cur I(4) tk)
  have "\<forall>u \<in> set (q_waiting ?q). u < t" using I(2,4) t by (auto simp: current_def)
  then have wsort: "sorted_wrt (<) (q_waiting q')"
    using I(5) by (auto simp: q' sorted_wrt_append)
  show ?thesis
    unfolding queue_inv_def
    using I(1,2,3,7) card wset wsort inv
    by (auto simp: q' tk t nth_append less_Suc_eq waits_def queue_inv_def)
qed

text \<open>
  The ticket that stops waiting when a ticket leaves: itself while it waits, and otherwise the
  one that has waited longest.
\<close>

definition served :: "nat \<Rightarrow> queueing \<Rightarrow> nat option" where
  "served t q = (if t_waiting (q_tickets q ! t) then Some t
     else case q_waiting q of [] \<Rightarrow> None | w # _ \<Rightarrow> Some w)"

lemma leave_frame:
  assumes lv: "leave now wall t refused q = Inr q'" and cur: "t_process (q_tickets q ! t) = q_process q"
    and len: "t < length (q_tickets q)" "\<forall>w \<in> set (q_waiting q). w < length (q_tickets q)"
  shows "q_process q' = q_process q" "length (q_tickets q') = length (q_tickets q)"
    "q_in_flight q' = q_in_flight q - 1"
    "q_waiting q' = (case served t q of None \<Rightarrow> [] | Some w \<Rightarrow> remove1 w (q_waiting q))"
    "\<And>i. i < length (q_tickets q) \<Longrightarrow>
       t_process (q_tickets q' ! i) = t_process (q_tickets q ! i) \<and>
       t_counted (q_tickets q' ! i) = t_counted (q_tickets q ! i) \<and>
       t_waiting (q_tickets q' ! i) = (served t q \<noteq> Some i \<and> t_waiting (q_tickets q ! i))"
proof -
  consider (gave_up) "t_waiting (q_tickets q ! t)" "t \<in> set (q_waiting q)"
    | (none) "\<not> t_waiting (q_tickets q ! t)" "q_waiting q = []"
    | (next_one) w ws where "\<not> t_waiting (q_tickets q ! t)" "q_waiting q = w # ws"
    using lv cur by (cases "q_waiting q") (auto simp: leave_def Let_def split: if_splits)
  note effect = this
  show "q_process q' = q_process q" "length (q_tickets q') = length (q_tickets q)"
    "q_in_flight q' = q_in_flight q - 1"
    "q_waiting q' = (case served t q of None \<Rightarrow> [] | Some w \<Rightarrow> remove1 w (q_waiting q))"
    using effect by (cases; use lv cur in \<open>force simp: leave_def served_def Let_def split: if_splits\<close>)+
  show "t_process (q_tickets q' ! i) = t_process (q_tickets q ! i) \<and>
       t_counted (q_tickets q' ! i) = t_counted (q_tickets q ! i) \<and>
       t_waiting (q_tickets q' ! i) = (served t q \<noteq> Some i \<and> t_waiting (q_tickets q ! i))"
    if "i < length (q_tickets q)" for i
    using effect
  proof cases
    case gave_up
    then show ?thesis
      using lv cur that
      by (cases "i = t") (auto simp: leave_def served_def Let_def waited_ticket split: if_splits)
  next
    case none
    then show ?thesis using lv cur that by (auto simp: leave_def served_def)
  next
    case next_one
    then show ?thesis
      using lv cur that len by (cases "i = w") (auto simp: leave_def served_def waited_ticket)
  qed
qed

lemma leave_other_process:
  "t_process (q_tickets q ! t) \<noteq> q_process q \<Longrightarrow> leave now wall t refused q = Inr q' \<Longrightarrow> q' = q"
  by (simp add: leave_def)

lemma leave_returns:
  assumes "t_waiting (q_tickets q ! t) \<Longrightarrow> t_process (q_tickets q ! t) = q_process q \<Longrightarrow> t \<in> set (q_waiting q)"
  shows "\<exists>q'. leave now wall t refused q = Inr q'"
proof (cases "t_waiting (q_tickets q ! t)")
  case True
  then show ?thesis using assms by (simp add: leave_def Let_def)
next
  case False
  then show ?thesis by (cases "q_waiting q") (simp_all add: leave_def Let_def)
qed

lemma leave_inv:
  assumes inv: "queue_inv s" and live: "t \<in> qs_live s"
    and lv: "leave now wall t refused (qs_q s) = Inr q'"
  shows "queue_inv (s\<lparr>qs_q := q', qs_live := qs_live s - {t}, qs_refused := rf, qs_walls := ws\<rparr>)"
proof (cases "t_process (q_tickets (qs_q s) ! t) = q_process (qs_q s)")
  case False
  then have "q' = qs_q s" using lv by (rule leave_other_process)
  moreover have "current (s\<lparr>qs_live := qs_live s - {t}, qs_refused := rf, qs_walls := ws\<rparr>) = current s"
    using False by (auto simp: current_def)
  ultimately show ?thesis
    using inv by (auto simp: queue_inv_def)
next
  case True
  let ?q = "qs_q s"
  let ?s' = "s\<lparr>qs_q := q', qs_live := qs_live s - {t}, qs_refused := rf, qs_walls := ws\<rparr>"
  note I = queue_invD [OF inv]
  have clen: "\<forall>u \<in> current s. u < length (q_tickets ?q)" using I(2) by (auto simp: current_def)
  then have wlen: "\<forall>w \<in> set (q_waiting ?q). w < length (q_tickets ?q)" using I(4) by auto
  note F = leave_frame [OF lv True I(2) [OF live] wlen]
  have tcur: "t \<in> current s" using True live by (simp add: current_def)
  have cur: "current ?s' = current s - {t}"
    using I(2) F(5) by (auto simp: current_def F(1))
  have "card (current s) = Suc (card (current s - {t}))"
    using tcur I(8) by (metis card_Suc_Diff1)
  then have card: "int (card (current ?s')) = int (card (current s)) - 1" by (simp add: cur)
  have srv: "served t ?q = None \<longleftrightarrow> q_waiting ?q = []" "\<And>w. served t ?q = Some w \<Longrightarrow> w \<in> set (q_waiting ?q)"
    using tcur I(4) by (auto simp: served_def split: if_splits list.splits)
  have wset: "set (q_waiting q') = {u \<in> current ?s'. t_waiting (q_tickets q' ! u)}"
  proof -
    have "set (q_waiting q') = set (q_waiting ?q) - {w. served t ?q = Some w}"
      using srv by (auto simp: F(4) I(6) set_remove1_eq split: option.splits)
    also have "\<dots> = {u \<in> current s - {t}. t_waiting (q_tickets q' ! u)}"
      using clen F(5) by (auto simp: I(4) served_def)
    finally show ?thesis by (simp add: cur)
  qed
  have "int (length (q_waiting q')) = max 0 (q_in_flight q' - qs_places s)"
  proof (cases "served t ?q")
    case None
    then show ?thesis using srv(1) I(7) by (simp add: F(3,4))
  next
    case (Some w)
    then have "w \<in> set (q_waiting ?q)" by (rule srv(2))
    then have "Suc (length (remove1 w (q_waiting ?q))) = length (q_waiting ?q)"
      by (metis One_nat_def Suc_pred length_pos_if_in_set length_remove1)
    then show ?thesis using I(7) by (auto simp: F(3,4) Some)
  qed
  moreover have "sorted_wrt (<) (q_waiting q')"
    using I(5) by (auto simp: F(4) remove1_sorted split: option.splits)
  ultimately show ?thesis
    unfolding queue_inv_def
    using I(1,2,3) card wset inv F(5) by (simp add: F(1-3) queue_inv_def)
qed

lemma restart_inv:
  assumes inv: "queue_inv s" and places: "0 < places"
  shows "queue_inv (s\<lparr>qs_q := restart clock (qs_q s), qs_places := places, qs_walls := ws\<rparr>)"
proof -
  let ?q = "qs_q s" and ?q' = "restart clock (qs_q s)"
  note F = fold_waited_frame [OF refl, of clock "enumerate 0 (q_waiting ?q)" ?q]
  have q': "q_process ?q' = Suc (q_process ?q)" "length (q_tickets ?q') = length (q_tickets ?q)"
      "q_waiting ?q' = []" "q_in_flight ?q' = 0"
      "\<forall>t < length (q_tickets ?q). t_process (q_tickets ?q' ! t) = t_process (q_tickets ?q ! t)"
    using F by (auto simp: restart_def Let_def)
  have "t_process (q_tickets ?q ! t) \<le> q_process ?q" if "t \<in> qs_live s" for t
    using inv that by (auto simp: queue_inv_def)
  then have "current (s\<lparr>qs_q := ?q', qs_places := places, qs_walls := ws\<rparr>) = {}"
    using queue_invD(2) [OF inv] by (force simp: current_def q')
  then show ?thesis
    using inv places by (auto simp: queue_inv_def q' le_SucI)
qed

lemma last_day_inv:
  assumes "queue_inv s" "last_day now wall (qs_q s) = (r, q')"
  shows "queue_inv (s\<lparr>qs_q := q', qs_walls := ws\<rparr>)"
  using assms by (auto simp: queue_inv_def last_day_def Let_def current_def)

interpretation queue_machine: invariant_of q_start qstep queue_inv
proof
  fix s assume "q_start s"
  then show "queue_inv s"
    by (simp add: q_start_def queue_inv_def queueing_init_def current_def)
next
  fix s t assume inv: "queue_inv s" and st: "qstep s t"
  from st show "queue_inv t"
    using inv
    by cases (simp_all only: arrive_inv leave_inv restart_inv last_day_inv)
qed

section \<open>Exact counts by the hour\<close>

text \<open>
  Every ticket that queued is counted in the bucket it names, and one refused while it waited is
  taken out again, whatever the clocks read.
\<close>

definition queued_in :: "qsys \<Rightarrow> nat \<Rightarrow> nat set" where
  "queued_in s b = {t. t < length (q_tickets (qs_q s)) \<and> t_counted (q_tickets (qs_q s) ! t) = Some b
     \<and> t \<notin> qs_refused s}"

definition hours_ok :: "nat \<Rightarrow> (nat \<Rightarrow> nat set) \<Rightarrow> bucket list \<Rightarrow> bool" where
  "hours_ok n Q hs \<longleftrightarrow> distinct (map b_id hs) \<and>
     (\<forall>b \<in> set hs. b_id b < n \<and> b_queued b = int (card (Q (b_id b))))"

definition hours_inv :: "qsys \<Rightarrow> bool" where
  "hours_inv s \<longleftrightarrow>
     hours_ok (q_next_bucket (qs_q s)) (queued_in s) (q_hours (qs_q s)) \<and>
     (\<forall>t < length (q_tickets (qs_q s)). \<forall>b.
        t_counted (q_tickets (qs_q s) ! t) = Some b \<longrightarrow> b < q_next_bucket (qs_q s)) \<and>
     (\<forall>t \<in> set (q_waiting (qs_q s)). t_counted (q_tickets (qs_q s) ! t) \<noteq> None) \<and>
     qs_refused s \<inter> qs_live s = {} \<and>
     (\<forall>t \<in> qs_refused s. t < length (q_tickets (qs_q s)))"

lemma hours_ok_dropWhile: "hours_ok n Q hs \<Longrightarrow> hours_ok n Q (dropWhile P hs)"
  unfolding hours_ok_def dropWhile_eq_drop
  by (auto simp flip: drop_map dest: in_set_dropD)

lemma hour_step_next: "q_next_bucket q \<le> q_next_bucket (hour_step wall q)"
  by (simp add: hour_step_def Let_def)

lemma hour_step_ok:
  assumes "hours_ok (q_next_bucket q) Q (q_hours q)" "\<And>b. q_next_bucket q \<le> b \<Longrightarrow> Q b = {}"
  shows "hours_ok (q_next_bucket (hour_step wall q)) Q (q_hours (hour_step wall q))"
proof (cases "q_hours q = [] \<or> b_hour (last (q_hours q)) \<noteq> hour_no wall")
  case True
  let ?new = "\<lparr>b_id = q_next_bucket q, b_hour = hour_no wall, b_queued = 0, b_longest = 0\<rparr>"
  have "Q (q_next_bucket q) = {}" using assms(2) by simp
  then have "hours_ok (Suc (q_next_bucket q)) Q (q_hours q @ [?new])"
    using assms(1) by (fastforce simp: hours_ok_def)
  then show ?thesis
    using True by (simp add: hour_step_def Let_def hours_ok_dropWhile)
next
  case False
  with assms(1) show ?thesis
    by (simp add: hour_step_def Let_def hours_ok_dropWhile)
qed

lemma hours_ok_update_last:
  assumes "\<And>b. b_id (f b) = b_id b" "\<And>b. b_queued (f b) = b_queued b"
  shows "hours_ok n Q (update_last f hs) = hours_ok n Q hs"
  by (cases hs rule: rev_cases) (simp_all add: update_last_def hours_ok_def assms)

lemma waited_ok:
  assumes "hours_ok (q_next_bucket q) Q (q_hours q)" "\<And>b. q_next_bucket q \<le> b \<Longrightarrow> Q b = {}"
  shows "hours_ok (q_next_bucket (waited now wall t q)) Q (q_hours (waited now wall t q)) \<and>
    q_next_bucket q \<le> q_next_bucket (waited now wall t q)"
  using hour_step_ok [of "q\<lparr>q_tickets := ts\<rparr>" Q wall for ts] hour_step_next [of "q\<lparr>q_tickets := ts\<rparr>" wall for ts] assms
  by (simp add: waited_def Let_def hours_ok_update_last)

lemma fold_waited_ok:
  assumes "f = (\<lambda>(i, t) q. waited (fst (clock i)) (snd (clock i)) t q)"
    "hours_ok (q_next_bucket q) Q (q_hours q)" "\<And>b. q_next_bucket q \<le> b \<Longrightarrow> Q b = {}"
  shows "hours_ok (q_next_bucket (fold f its q)) Q (q_hours (fold f its q)) \<and>
    q_next_bucket q \<le> q_next_bucket (fold f its q)"
  using assms(2,3)
proof (induction its arbitrary: q)
  case (Cons x its)
  obtain i t where x: "x = (i, t)" by fastforce
  let ?q = "waited (fst (clock i)) (snd (clock i)) t q"
  have W: "hours_ok (q_next_bucket ?q) Q (q_hours ?q)" "q_next_bucket q \<le> q_next_bucket ?q"
    using waited_ok [OF Cons.prems, of "fst (clock i)" "snd (clock i)" t] by simp_all
  have "Q b = {}" if "q_next_bucket ?q \<le> b" for b
    using W(2) that Cons.prems(2) by (meson le_trans)
  from Cons.IH [OF W(1) this] W(2) show ?case by (simp add: x assms(1))
qed simp

lemma hours_ok_queued:
  assumes "hours_ok n Q hs" "hs \<noteq> []" "t \<notin> Q (b_id (last hs))" "finite (Q (b_id (last hs)))"
    "\<And>b. Q' b = (if b = b_id (last hs) then insert t (Q b) else Q b)"
  shows "hours_ok n Q' (update_last (\<lambda>b. b\<lparr>b_queued := b_queued b + 1\<rparr>) hs)"
proof -
  obtain ys y where hs: "hs = ys @ [y]" using assms(2) by (cases hs rule: rev_cases) auto
  have "b_id b \<noteq> b_id y" if "b \<in> set ys" for b
    using assms(1) that by (auto simp: hours_ok_def hs) (metis image_eqI)
  then show ?thesis
    using assms(1,3,4) by (auto simp: hours_ok_def hs update_last_def assms(5))
qed

lemma hours_ok_uncount:
  assumes "hours_ok n Q hs" "t \<in> Q c" "finite (Q c)"
    "\<And>b. Q' b = (if b = c then Q b - {t} else Q b)"
  shows "hours_ok n Q' (uncount (Some c) hs)"
proof -
  have "b_id \<circ> (\<lambda>b. if c = b_id b then b\<lparr>b_queued := b_queued b - 1\<rparr> else b) = b_id"
    by (auto simp: fun_eq_iff)
  then have "map b_id (uncount (Some c) hs) = map b_id hs"
    by (simp add: uncount_def)
  moreover have "card (Q c) = Suc (card (Q c - {t}))"
    using assms(2,3) by (metis card_Suc_Diff1)
  ultimately show ?thesis
    using assms(1) unfolding hours_ok_def assms(4) by (auto simp: uncount_def simp del: map_map)
qed

lemma hours_invD:
  assumes "hours_inv s"
  shows "hours_ok (q_next_bucket (qs_q s)) (queued_in s) (q_hours (qs_q s))"
    "\<And>t b. t < length (q_tickets (qs_q s)) \<Longrightarrow> t_counted (q_tickets (qs_q s) ! t) = Some b \<Longrightarrow>
       b < q_next_bucket (qs_q s)"
    "\<And>t. t \<in> set (q_waiting (qs_q s)) \<Longrightarrow> t_counted (q_tickets (qs_q s) ! t) \<noteq> None"
    "qs_refused s \<inter> qs_live s = {}" "\<And>t. t \<in> qs_refused s \<Longrightarrow> t < length (q_tickets (qs_q s))"
    "\<And>b. q_next_bucket (qs_q s) \<le> b \<Longrightarrow> queued_in s b = {}" "\<And>b. finite (queued_in s b)"
  using assms by (fastforce simp: hours_inv_def queued_in_def)+

lemma arrive_hours:
  assumes h: "hours_inv s" and qi: "queue_inv s"
    and arr: "arrive now wall (qs_places s) (qs_q s) = (t, q')"
  shows "hours_inv (s\<lparr>qs_q := q', qs_live := insert t (qs_live s), qs_walls := ws\<rparr>)"
proof -
  let ?q = "qs_q s" and ?s' = "s\<lparr>qs_q := q', qs_live := insert t (qs_live s), qs_walls := ws\<rparr>"
  note H = hours_invD [OF h]
  have t: "t = length (q_tickets ?q)"
    using arr by (auto simp: arrive_def Let_def split: if_splits)
  then have fresh: "t \<notin> qs_refused s" using H(5) by auto
  have wlt: "w < length (q_tickets ?q)" if "w \<in> set (q_waiting ?q)" for w
    using queue_invD(2,4) [OF qi] that by (auto simp: current_def)
  show ?thesis
  proof (cases "qs_places s \<le> q_in_flight ?q")
    case False
    then have q': "q_hours q' = q_hours ?q" "q_next_bucket q' = q_next_bucket ?q"
        "q_waiting q' = q_waiting ?q"
        "\<exists>tk. q_tickets q' = q_tickets ?q @ [tk] \<and> t_counted tk = None"
      using arr by (auto simp: arrive_def Let_def split: if_splits)
    then obtain tk where tk: "q_tickets q' = q_tickets ?q @ [tk]" "t_counted tk = None" by blast
    have "queued_in ?s' = queued_in s"
      by (auto simp: queued_in_def tk nth_append fun_eq_iff less_Suc_eq)
    then show ?thesis
      using H fresh wlt t by (auto simp: hours_inv_def q'(1-3) tk nth_append less_Suc_eq)
  next
    case True
    let ?h = "hour_step wall (?q\<lparr>q_in_flight := q_in_flight ?q + 1, q_waiting := q_waiting ?q @ [t]\<rparr>)"
    let ?b = "b_id (last (q_hours ?h))"
    have q': "q_hours q' = update_last (\<lambda>b. b\<lparr>b_queued := b_queued b + 1\<rparr>) (q_hours ?h)"
        "q_next_bucket q' = q_next_bucket ?h" "q_waiting q' = q_waiting ?q @ [t]"
        "\<exists>tk. q_tickets q' = q_tickets ?q @ [tk] \<and> t_counted tk = Some ?b"
      using arr True by (auto simp: arrive_def Let_def)
    then obtain tk where tk: "q_tickets q' = q_tickets ?q @ [tk]" "t_counted tk = Some ?b" by blast
    have Q: "queued_in ?s' b = (if b = ?b then insert t (queued_in s b) else queued_in s b)" for b
      using fresh by (auto simp: queued_in_def tk nth_append less_Suc_eq t)
    have "t \<notin> queued_in s b" for b by (simp add: queued_in_def t)
    moreover have ok: "hours_ok (q_next_bucket ?h) (queued_in s) (q_hours ?h)"
      by (rule hour_step_ok) (use H(1,6) in auto)
    moreover note hour_step_current [THEN conjunct1]
    ultimately have "hours_ok (q_next_bucket q') (queued_in ?s') (q_hours q')"
      unfolding q' by (intro hours_ok_queued [where Q = "queued_in s"]) (use H(7) Q in auto)
    moreover have "?b < q_next_bucket q'"
      using ok hour_step_current by (auto simp: hours_ok_def q'(2))
    moreover have "q_next_bucket ?q \<le> q_next_bucket q'"
      using hour_step_next [of "?q\<lparr>q_in_flight := q_in_flight ?q + 1, q_waiting := q_waiting ?q @ [t]\<rparr>" wall]
      by (simp add: q'(2))
    ultimately show ?thesis
      using H fresh wlt t
      by (fastforce simp: hours_inv_def q'(3) tk nth_append less_Suc_eq)
  qed
qed

lemma queued_in_cong:
  assumes "length (q_tickets q') = length (q_tickets (qs_q s))"
    "\<And>i. i < length (q_tickets (qs_q s)) \<Longrightarrow> t_counted (q_tickets q' ! i) = t_counted (q_tickets (qs_q s) ! i)"
    "qs_q s' = q'" "qs_refused s' = qs_refused s"
  shows "queued_in s' = queued_in s"
  using assms by (auto simp: queued_in_def fun_eq_iff)

lemma leave_hours:
  assumes h: "hours_inv s" and qi: "queue_inv s" and live: "t \<in> qs_live s"
    and lv: "leave now wall t refused (qs_q s) = Inr q'"
  shows "hours_inv (s\<lparr>qs_q := q', qs_live := qs_live s - {t},
    qs_refused := (if refused \<and> t \<in> set (q_waiting (qs_q s)) then insert t (qs_refused s) else qs_refused s),
    qs_walls := ws\<rparr>)" (is "hours_inv ?s'")
proof (cases "t_process (q_tickets (qs_q s) ! t) = q_process (qs_q s)")
  case False
  then have "q' = qs_q s" using lv by (rule leave_other_process)
  moreover have "t \<notin> set (q_waiting (qs_q s))"
    using False queue_invD(4) [OF qi] by (auto simp: current_def)
  ultimately show ?thesis
    using h by (auto simp: hours_inv_def queued_in_def [abs_def])
next
  case True
  let ?q = "qs_q s"
  note H = hours_invD [OF h] and I = queue_invD [OF qi]
  have len: "t < length (q_tickets ?q)" using I(2) live by simp
  have wlt: "\<forall>w \<in> set (q_waiting ?q). w < length (q_tickets ?q)"
    using I(2,4) by (auto simp: current_def)
  note F = leave_frame [OF lv True len wlt]
  have wsub: "set (q_waiting q') \<subseteq> set (q_waiting ?q)"
    using F(4) set_remove1_subset by (fastforce split: option.splits)
  have wt: "t_waiting (q_tickets ?q ! t) \<longleftrightarrow> t \<in> set (q_waiting ?q)"
    using I(4) live True by (auto simp: current_def)
  have rest: "hours_inv ?s'"
    if "hours_ok (q_next_bucket q') (queued_in ?s') (q_hours q')" "q_next_bucket ?q \<le> q_next_bucket q'"
  proof -
    have "b < q_next_bucket q'"
      if "i < length (q_tickets ?q)" "t_counted (q_tickets q' ! i) = Some b" for i b
      using H(2) [of i b] F(5) [of i] that \<open>q_next_bucket ?q \<le> q_next_bucket q'\<close> by simp
    moreover have "t_counted (q_tickets q' ! w) \<noteq> None" if "w \<in> set (q_waiting q')" for w
      using H(3) [of w] F(5) [of w] wlt wsub that by auto
    moreover have "qs_refused ?s' \<inter> qs_live ?s' = {}"
      using H(4) by auto
    moreover have "u < length (q_tickets ?q)" if "u \<in> qs_refused ?s'" for u
      using that H(5) len by (auto split: if_splits)
    ultimately show ?thesis
      using that(1) by (simp add: hours_inv_def F(2))
  qed
  show ?thesis
  proof (cases "refused \<and> t_waiting (q_tickets ?q ! t)")
    case True
    then obtain c where c: "t_counted (q_tickets ?q ! t) = Some c" using H(3) wt by auto
    have q': "q_hours q' = uncount (Some c) (q_hours ?q)" "q_next_bucket q' = q_next_bucket ?q"
      using lv True \<open>t_process _ = _\<close> c by (auto simp: leave_def Let_def split: if_splits)
    have "queued_in ?s' b = (if b = c then queued_in s b - {t} else queued_in s b)" for b
      using F(2,5) True wt c by (auto simp: queued_in_def)
    moreover have "t \<in> queued_in s c" using len c live H(4) by (auto simp: queued_in_def)
    ultimately have "hours_ok (q_next_bucket q') (queued_in ?s') (q_hours q')"
      unfolding q' by (intro hours_ok_uncount [OF H(1) _ H(7)])
    then show ?thesis by (rule rest) (simp add: q')
  next
    case False
    have same: "queued_in ?s' = queued_in s"
      by (rule queued_in_cong [where q' = q']) (use F(2,5) False wt in auto)
    have "hours_ok (q_next_bucket q') (queued_in s) (q_hours q') \<and> q_next_bucket ?q \<le> q_next_bucket q'"
      using lv False \<open>t_process _ = _\<close> H(1,6) waited_ok [of "?q\<lparr>q_in_flight := i, q_waiting := w\<rparr>" "queued_in s" for i w]
      by (auto simp: leave_def Let_def split: if_splits list.splits)
    then show ?thesis by (intro rest) (simp_all add: same)
  qed
qed

lemma restart_hours:
  assumes h: "hours_inv s" and qi: "queue_inv s"
  shows "hours_inv (s\<lparr>qs_q := restart clock (qs_q s), qs_places := p, qs_walls := ws\<rparr>)" (is "hours_inv ?s'")
proof -
  let ?q = "qs_q s" and ?q' = "restart clock (qs_q s)"
  note H = hours_invD [OF h]
  note F = fold_waited_frame [OF refl, of clock "enumerate 0 (q_waiting ?q)" ?q]
  have q': "length (q_tickets ?q') = length (q_tickets ?q)" "q_waiting ?q' = []"
      "\<And>t. t < length (q_tickets ?q) \<Longrightarrow> t_counted (q_tickets ?q' ! t) = t_counted (q_tickets ?q ! t)"
    using F by (auto simp: restart_def Let_def)
  have "queued_in ?s' = queued_in s"
    by (rule queued_in_cong [where q' = ?q']) (use q' in auto)
  moreover have "hours_ok (q_next_bucket ?q') (queued_in s) (q_hours ?q') \<and> q_next_bucket ?q \<le> q_next_bucket ?q'"
    using fold_waited_ok [OF refl H(1,6), where its = "enumerate 0 (q_waiting ?q)" and clock = clock] by (simp add: restart_def Let_def)
  ultimately show ?thesis
    using H(2,4,5) by (fastforce simp: hours_inv_def q')
qed

lemma last_day_hours:
  assumes h: "hours_inv s" and ld: "last_day now wall (qs_q s) = (r, q')"
  shows "hours_inv (s\<lparr>qs_q := q', qs_walls := ws\<rparr>)"
proof -
  note H = hours_invD [OF h]
  have q': "q' = hour_step wall (qs_q s)" using ld by (simp add: last_day_def Let_def)
  have "queued_in (s\<lparr>qs_q := q', qs_walls := ws\<rparr>) = queued_in s"
    by (rule queued_in_cong [where q' = q']) (auto simp: q')
  then show ?thesis
    using H(2-5) hour_step_ok [OF H(1,6), of wall] hour_step_next [of "qs_q s" wall]
    by (fastforce simp: hours_inv_def q')
qed

interpretation hours_machine: invariant_of q_start qstep "\<lambda>s. queue_inv s \<and> hours_inv s"
proof
  fix s assume "q_start s"
  then show "queue_inv s \<and> hours_inv s"
    using queue_machine.inv_start [of s]
    by (simp add: q_start_def queueing_init_def hours_inv_def hours_ok_def)
next
  fix s t assume inv: "queue_inv s \<and> hours_inv s" and st: "qstep s t"
  have "hours_inv t"
    using st inv by cases (simp_all only: arrive_hours leave_hours restart_hours last_day_hours)
  with inv st show "queue_inv t \<and> hours_inv t"
    using queue_machine.inv_step by blast
qed

section \<open>The day's window\<close>

text \<open>While the wall clock does not go back, the buckets kept are of distinct hours of one day.\<close>

definition hour_window :: "int \<Rightarrow> bucket list \<Rightarrow> bool" where
  "hour_window h hs \<longleftrightarrow> sorted_wrt (<) (map b_hour hs) \<and>
     (\<forall>b \<in> set hs. h - HOURS_KEPT < b_hour b \<and> b_hour b \<le> h)"

lemma sorted_dropWhile_above:
  assumes "sorted_wrt (<) (map b_hour hs)" "b \<in> set (dropWhile (\<lambda>b. b_hour b \<le> m) hs)"
  shows "m < b_hour b"
  using assms by (induction hs) (auto split: if_splits)

lemma hour_step_window:
  assumes "hour_window h (q_hours q)" "h \<le> hour_no wall"
  shows "hour_window (hour_no wall) (q_hours (hour_step wall q))"
proof -
  let ?h = "hour_no wall"
  let ?new = "\<lparr>b_id = q_next_bucket q, b_hour = ?h, b_queued = 0, b_longest = 0\<rparr>"
  define hs where "hs = (if q_hours q = [] \<or> b_hour (last (q_hours q)) \<noteq> ?h
    then q_hours q @ [?new] else q_hours q)"
  have step: "q_hours (hour_step wall q) = dropWhile (\<lambda>b. b_hour b \<le> ?h - HOURS_KEPT) hs"
    by (simp add: hour_step_def Let_def hs_def)
  have below: "b_hour b < ?h" if "b \<in> set (q_hours q)" "b_hour (last (q_hours q)) \<noteq> ?h" for b
  proof -
    have "q_hours q \<noteq> []" using that(1) by auto
    then obtain ys y where q: "q_hours q = ys @ [y]" using rev_exhaust by blast
    show ?thesis using assms that unfolding q by (auto simp: hour_window_def sorted_wrt_append q)
  qed
  have sorted: "sorted_wrt (<) (map b_hour hs)"
    using assms below by (fastforce simp: hs_def hour_window_def sorted_wrt_append)
  have le: "\<forall>b \<in> set hs. b_hour b \<le> ?h"
    using assms by (auto simp: hs_def hour_window_def)
  have "sorted_wrt (<) (map b_hour (dropWhile (\<lambda>b. b_hour b \<le> ?h - HOURS_KEPT) hs))"
    using sorted unfolding dropWhile_eq_drop by (simp add: sorted_wrt_drop flip: drop_map)
  then show ?thesis
    using sorted_dropWhile_above [OF sorted] le
    unfolding step hour_window_def by (auto dest: set_dropWhileD)
qed

lemma window_update_last:
  "(\<And>b. b_hour (f b) = b_hour b) \<Longrightarrow> hour_window h (update_last f hs) = hour_window h hs"
  by (cases hs rule: rev_cases) (simp_all add: update_last_def hour_window_def)

lemma window_uncount: "hour_window h hs \<Longrightarrow> hour_window h (uncount c hs)"
proof -
  have "b_hour \<circ> (\<lambda>b. if c = Some (b_id b) then b\<lparr>b_queued := b_queued b - 1\<rparr> else b) = b_hour"
    by (auto simp: fun_eq_iff)
  then have "map b_hour (uncount c hs) = map b_hour hs" by (simp add: uncount_def)
  then show "hour_window h hs \<Longrightarrow> hour_window h (uncount c hs)"
    unfolding hour_window_def by (auto simp: uncount_def simp del: map_map)
qed

lemma waited_window:
  "hour_window h (q_hours q) \<Longrightarrow> h \<le> hour_no wall \<Longrightarrow>
   hour_window (hour_no wall) (q_hours (waited now wall t q))"
  using hour_step_window [of h "q\<lparr>q_tickets := ts\<rparr>" wall for ts]
  by (simp add: waited_def Let_def window_update_last)

lemma hour_no_mono: "w \<le> w' \<Longrightarrow> hour_no w \<le> hour_no w'"
  by (simp add: hour_no_def floor_mono divide_right_mono)

lemma fold_waited_window:
  assumes "f = (\<lambda>(i, t) q. waited (fst (clock i)) (snd (clock i)) t q)"
    "hour_window h (q_hours q)" "sorted (map (\<lambda>(i, t). snd (clock i)) its)"
    "\<forall>(i, t) \<in> set its. h \<le> hour_no (snd (clock i))"
  shows "\<exists>h'. hour_window h' (q_hours (fold f its q)) \<and>
    (h' = h \<or> (\<exists>(i, t) \<in> set its. h' = hour_no (snd (clock i))))"
  using assms(2-4)
proof (induction its arbitrary: q h)
  case (Cons x its)
  obtain i t where x: "x = (i, t)" by fastforce
  have "hour_window (hour_no (snd (clock i))) (q_hours (f x q))"
    using Cons.prems by (auto simp: x assms(1) intro: waited_window)
  moreover have "\<forall>(j, u) \<in> set its. hour_no (snd (clock i)) \<le> hour_no (snd (clock j))"
    using Cons.prems(2) by (auto simp: x intro: hour_no_mono)
  ultimately show ?case
    using Cons.IH [of "hour_no (snd (clock i))" "f x q"] Cons.prems(2) by (fastforce simp: x)
qed auto

definition window_inv :: "qsys \<Rightarrow> bool" where
  "window_inv s \<longleftrightarrow> (sorted (rev (qs_walls s)) \<longrightarrow>
     (q_hours (qs_q s) = [] \<or>
      (\<exists>w \<in> set (qs_walls s). hour_window (hour_no w) (q_hours (qs_q s)))))"

lemma window_invI:
  assumes "window_inv s" "qs_walls t = wall # qs_walls s"
    "\<And>h. hour_window h (q_hours (qs_q s)) \<Longrightarrow> h \<le> hour_no wall \<Longrightarrow>
       hour_window h (q_hours (qs_q t)) \<or> hour_window (hour_no wall) (q_hours (qs_q t))"
  shows "window_inv t"
  unfolding window_inv_def
proof (intro impI)
  assume "sorted (rev (qs_walls t))"
  then have srt: "sorted (rev (qs_walls s))" "\<forall>w \<in> set (qs_walls s). w \<le> wall"
    by (auto simp: assms(2) sorted_append)
  from assms(1) srt(1) consider "q_hours (qs_q s) = []"
    | w where "w \<in> set (qs_walls s)" "hour_window (hour_no w) (q_hours (qs_q s))"
    by (auto simp: window_inv_def)
  then show "q_hours (qs_q t) = [] \<or> (\<exists>w \<in> set (qs_walls t). hour_window (hour_no w) (q_hours (qs_q t)))"
  proof cases
    case 1
    then have "hour_window (hour_no wall) (q_hours (qs_q s))" by (simp add: hour_window_def)
    from assms(3) [OF this order_refl] show ?thesis by (auto simp: assms(2))
  next
    case 2
    then have "hour_no w \<le> hour_no wall" using srt(2) by (auto intro: hour_no_mono)
    from assms(3) [OF 2(2) this] 2(1) show ?thesis by (auto simp: assms(2))
  qed
qed

lemma arrive_window:
  assumes "arrive now wall p q = (t, q')" "hour_window h (q_hours q)" "h \<le> hour_no wall"
  shows "hour_window h (q_hours q') \<or> hour_window (hour_no wall) (q_hours q')"
  using assms hour_step_window [of h "q\<lparr>q_in_flight := q_in_flight q + 1, q_waiting := q_waiting q @ [t]\<rparr>" wall]
  by (auto simp: arrive_def Let_def window_update_last split: if_splits)

lemma leave_window:
  assumes "leave now wall t r q = Inr q'" "hour_window h (q_hours q)" "h \<le> hour_no wall"
  shows "hour_window h (q_hours q') \<or> hour_window (hour_no wall) (q_hours q')"
  using assms waited_window [of h "q\<lparr>q_in_flight := i, q_waiting := w\<rparr>" wall for i w]
  by (auto simp: leave_def Let_def window_uncount split: if_splits list.splits)

lemma restart_window:
  assumes "window_inv s"
  shows "window_inv (s\<lparr>qs_q := restart clock (qs_q s), qs_places := p,
    qs_walls := rev (map (\<lambda>i. snd (clock i)) [0..<length (q_waiting (qs_q s))]) @ qs_walls s\<rparr>)"
  (is "window_inv ?t")
  unfolding window_inv_def
proof (intro impI)
  let ?q = "qs_q s" and ?its = "enumerate 0 (q_waiting (qs_q s))"
  have snds: "map (\<lambda>(i, t). snd (clock i)) ?its = map (\<lambda>i. snd (clock i)) [0..<length (q_waiting ?q)]"
  proof -
    have "map (\<lambda>(i, t). snd (clock i)) ?its = map (\<lambda>i. snd (clock i)) (map fst ?its)"
      by (simp add: case_prod_unfold comp_def del: map_fst_enumerate)
    then show ?thesis by (simp only: map_fst_enumerate add_0)
  qed
  assume "sorted (rev (qs_walls ?t))"
  then have srt: "sorted (rev (qs_walls s))" "sorted (map (\<lambda>(i, t). snd (clock i)) ?its)"
      "\<forall>w \<in> set (qs_walls s). \<forall>(i, t) \<in> set ?its. w \<le> snd (clock i)"
    by (auto simp: sorted_append snds in_set_enumerate_eq)
  have hrs: "q_hours (qs_q ?t) = q_hours (fold (\<lambda>(i, t) q. waited (fst (clock i)) (snd (clock i)) t q) ?its ?q)"
    by (simp add: restart_def Let_def)
  have walls: "snd (clock i) \<in> set (qs_walls ?t)" if "(i, t) \<in> set ?its" for i t
    using that by (auto simp: in_set_enumerate_eq)
  show "q_hours (qs_q ?t) = [] \<or> (\<exists>w \<in> set (qs_walls ?t). hour_window (hour_no w) (q_hours (qs_q ?t)))"
  proof (cases "?its")
    case Nil
    then have "q_waiting ?q = []" by (metis length_0_conv length_enumerate)
    then have "q_hours (qs_q ?t) = q_hours ?q" "set (qs_walls ?t) = set (qs_walls s)"
      by (simp_all add: restart_def Let_def)
    then show ?thesis using assms srt(1) by (simp add: window_inv_def)
  next
    case (Cons x rest)
    obtain h where h: "hour_window h (q_hours ?q)" "\<forall>(i, t) \<in> set ?its. h \<le> hour_no (snd (clock i))"
      "h = hour_no (snd (clock (fst x))) \<or> (\<exists>w \<in> set (qs_walls s). h = hour_no w)"
    proof (cases "q_hours ?q = []")
      case True
      then have "hour_window (hour_no (snd (clock (fst x)))) (q_hours ?q)" by (simp add: hour_window_def)
      moreover have "\<forall>(i, t) \<in> set ?its. hour_no (snd (clock (fst x))) \<le> hour_no (snd (clock i))"
        using srt(2) by (auto simp: Cons split: prod.splits intro!: hour_no_mono)
      ultimately show ?thesis using that by blast
    next
      case False
      then obtain w where "w \<in> set (qs_walls s)" "hour_window (hour_no w) (q_hours ?q)"
        using assms srt(1) by (auto simp: window_inv_def)
      then show ?thesis using that [of "hour_no w"] srt(3) by (fastforce intro: hour_no_mono)
    qed
    have "snd (clock (fst x)) \<in> set (qs_walls ?t)"
      using walls [of "fst x" "snd x"] Cons by simp
    then have h': "\<exists>w \<in> set (qs_walls ?t). h = hour_no w"
      using h(3) by auto
    obtain h' where "hour_window h' (q_hours (qs_q ?t))"
        "h' = h \<or> (\<exists>(i, t) \<in> set ?its. h' = hour_no (snd (clock i)))"
      using fold_waited_window [OF refl h(1) srt(2) h(2)] unfolding hrs by blast
    with h' show ?thesis using walls by blast
  qed
qed

interpretation window_machine: invariant_of q_start qstep window_inv
proof
  fix s assume "q_start s"
  then show "window_inv s" by (simp add: q_start_def window_inv_def queueing_init_def)
next
  fix s t assume inv: "window_inv s" and st: "qstep s t"
  from st show "window_inv t"
  proof cases
    case (request_arrives now wall t' q')
    then show ?thesis by (intro window_invI [OF inv]) (auto dest: arrive_window)
  next
    case (request_leaves t' now wall r q')
    then show ?thesis by (intro window_invI [OF inv, of _ wall]) (auto dest: leave_window)
  next
    case (process_restarts p clock)
    then show ?thesis using restart_window [OF inv] by simp
  next
    case (day_read now wall r q')
    then show ?thesis
      by (intro window_invI [OF inv, of _ wall]) (auto simp: last_day_def Let_def intro: hour_step_window)
  qed
qed

lemma window_length:
  assumes "hour_window h hs"
  shows "length hs \<le> 24"
proof -
  have "distinct (map b_hour hs)"
    using assms by (simp add: hour_window_def strict_sorted_iff)
  then have "length hs = card (b_hour ` set hs)"
    by (metis distinct_card length_map set_map)
  also have "\<dots> \<le> card {h - 24 <.. h}"
    using assms by (intro card_mono) (auto simp: hour_window_def HOURS_KEPT_def)
  finally show ?thesis by simp
qed

section \<open>Properties\<close>

text \<open>
  C29. In every state a run of arrivals, departures and restarts reaches, the requests in flight
  are those of the current process, and exactly those beyond the engine's places wait: no
  request waits while a place is free, and no more hold one than there are.
\<close>

theorem waits_only_for_full_engine:
  assumes "q_start s0" and "qstep\<^sup>*\<^sup>* s0 s"
  shows "q_in_flight (qs_q s) = int (card (current s)) \<and>
    int (length (q_waiting (qs_q s))) = max 0 (q_in_flight (qs_q s) - qs_places s) \<and>
    int (card {t \<in> current s. \<not> t_waiting (q_tickets (qs_q s) ! t)}) = min (q_in_flight (qs_q s)) (qs_places s)"
proof -
  have inv: "queue_inv s" using assms by (rule queue_machine.reachable_inv)
  note I = queue_invD [OF inv]
  have "{t \<in> current s. \<not> t_waiting (q_tickets (qs_q s) ! t)} = current s - set (q_waiting (qs_q s))"
    by (auto simp: I(4))
  moreover have "set (q_waiting (qs_q s)) \<subseteq> current s" by (auto simp: I(4))
  ultimately have "int (card {t \<in> current s. \<not> t_waiting (q_tickets (qs_q s) ! t)})
      = int (card (current s)) - int (length (q_waiting (qs_q s)))"
    using I(6,8) card_mono [OF I(8), of "set (q_waiting (qs_q s))"]
    by (simp add: card_Diff_subset distinct_card of_nat_diff)
  then show ?thesis using I(1,3,7) by simp
qed

definition demo_start :: qsys where
  "demo_start = \<lparr>qs_q = queueing_init, qs_live = {}, qs_places = 1, qs_refused = {}, qs_walls = []\<rparr>"

definition demo_two :: qsys where
  "demo_two = \<lparr>qs_q = \<lparr>q_process = 0, q_in_flight = 2, q_waiting = [1],
      q_hours = [\<lparr>b_id = 0, b_hour = 2, b_queued = 1, b_longest = 0\<rparr>],
      q_tickets = [\<lparr>t_arrived = 5, t_waiting = False, t_waited_ms = 0, t_counted = None, t_process = 0\<rparr>,
                   \<lparr>t_arrived = 6, t_waiting = True, t_waited_ms = 0, t_counted = Some 0, t_process = 0\<rparr>],
      q_next_bucket = 1\<rparr>,
    qs_live = {1, 0}, qs_places = 1, qs_refused = {}, qs_walls = [7201, 7200]\<rparr>"

lemma demo_start_ok: "q_start demo_start"
  by (simp add: q_start_def demo_start_def)

lemma demo_hour: "hour_no 7201 = 2"
  by (simp add: hour_no_def floor_eq_iff)

lemma demo_run: "qstep\<^sup>*\<^sup>* demo_start demo_two"
proof -
  have "qstep demo_start (demo_start\<lparr>qs_q := snd (arrive 5 7200 1 queueing_init), qs_live := {0}, qs_walls := [7200]\<rparr>)"
    using qstep.request_arrives [of 5 7200 demo_start 0 "snd (arrive 5 7200 1 queueing_init)"]
    by (simp add: demo_start_def arrive_def queueing_init_def)
  moreover have "qstep (demo_start\<lparr>qs_q := snd (arrive 5 7200 1 queueing_init), qs_live := {0}, qs_walls := [7200]\<rparr>) demo_two"
    using qstep.request_arrives [of 6 7201 "demo_start\<lparr>qs_q := snd (arrive 5 7200 1 queueing_init), qs_live := {0}, qs_walls := [7200]\<rparr>" 1 "qs_q demo_two"]
    by (simp add: demo_start_def demo_two_def arrive_def queueing_init_def hour_step_def Let_def
        demo_hour HOURS_KEPT_def update_last_def)
  ultimately show ?thesis by (meson rtranclp.simps)
qed

theorem waits_only_for_full_engine_witness:
  "q_start demo_start \<and> qstep\<^sup>*\<^sup>* demo_start demo_two \<and> q_in_flight (qs_q demo_two) = int (card (current demo_two))"
  using waits_only_for_full_engine [OF demo_start_ok demo_run] demo_start_ok demo_run by blast

text \<open>
  A request in flight can always leave: \<open>deque.remove\<close> never fails. When it held a place and
  others wait, the place goes to the one that has waited longest, whose waiting time is then
  known; the order of the rest is kept.
\<close>

theorem place_goes_to_longest_waiting:
  assumes "q_start s0" and "qstep\<^sup>*\<^sup>* s0 s" and "t \<in> qs_live s"
  shows "\<exists>q'. leave now wall t refused (qs_q s) = Inr q' \<and>
    (\<forall>w ws. t_process (q_tickets (qs_q s) ! t) = q_process (qs_q s) \<longrightarrow>
       \<not> t_waiting (q_tickets (qs_q s) ! t) \<longrightarrow> q_waiting (qs_q s) = w # ws \<longrightarrow>
       q_waiting q' = ws \<and> (\<forall>u \<in> set ws. w < u) \<and>
       waited_ms w q' = Some (py_int ((now - t_arrived (q_tickets (qs_q s) ! w)) * 1000)))"
proof -
  let ?q = "qs_q s"
  have inv: "queue_inv s" using assms(1,2) by (rule queue_machine.reachable_inv)
  note I = queue_invD [OF inv]
  have wlt: "w < length (q_tickets ?q)" if "w \<in> set (q_waiting ?q)" for w
    using I(2,4) that by (auto simp: current_def)
  have "t \<in> set (q_waiting ?q)"
    if "t_waiting (q_tickets ?q ! t)" "t_process (q_tickets ?q ! t) = q_process ?q"
    using that assms(3) by (auto simp: I(4) current_def)
  then obtain q' where q': "leave now wall t refused ?q = Inr q'"
    using leave_returns by blast
  moreover have "q_waiting q' = ws \<and> (\<forall>u \<in> set ws. w < u) \<and>
      waited_ms w q' = Some (py_int ((now - t_arrived (q_tickets ?q ! w)) * 1000))"
    if "t_process (q_tickets ?q ! t) = q_process ?q" "\<not> t_waiting (q_tickets ?q ! t)"
      "q_waiting ?q = w # ws" for w ws
    using q' that I(5) wlt [of w] by (auto simp: leave_def waited_ms_def waited_ticket)
  ultimately show ?thesis by blast
qed

theorem place_goes_to_longest_waiting_witness:
  "\<exists>q'. leave 8 7202 0 False (qs_q demo_two) = Inr q' \<and> q_waiting q' = [] \<and> waited_ms 1 q' = Some 2000"
  using place_goes_to_longest_waiting [OF demo_start_ok demo_run, of 0 8 7202 False]
  by (fastforce simp: demo_two_def py_int_def)



text \<open>
  While the wall clock does not go back, at most 24 hour buckets are kept, of distinct hours
  in increasing order, none of them older than a day before the newest reading.
\<close>

theorem hours_kept_bounded:
  assumes "q_start s0" and "qstep\<^sup>*\<^sup>* s0 s" and "sorted (rev (qs_walls s))"
  shows "length (q_hours (qs_q s)) \<le> 24 \<and> sorted_wrt (<) (map b_hour (q_hours (qs_q s)))"
proof -
  have "window_inv s" using assms(1,2) by (rule window_machine.reachable_inv)
  with assms(3) have "q_hours (qs_q s) = [] \<or> (\<exists>h. hour_window h (q_hours (qs_q s)))"
    by (auto simp: window_inv_def)
  then show ?thesis
    by (auto intro: window_length simp: hour_window_def)
qed

theorem hours_kept_bounded_witness:
  "sorted (rev (qs_walls demo_two)) \<and> length (q_hours (qs_q demo_two)) \<le> 24"
  using hours_kept_bounded [OF demo_start_ok demo_run] by (simp add: demo_two_def)

end
