(* ===== verification/AgentTransitions.thy ===== *)
theory AgentTransitions
  imports DeploymentCommand Queueing
begin

text \<open>
  \<open>lazarus/agent/deployments.py\<close> and \<open>lazarus/agent/server.py\<close>, the life of deployments: creation,
  replacement, rollback and removal, interleaved over all deployments and with their requests. The
  agent is one event loop: a transition's worker runs from one \<open>await\<close> to the next without
  interruption, so each such stretch is one step, and what it awaited (a drain, a child's end, the
  files' checksums, a child's readiness) ends by an event that carries the outcome. No stretch that
  holds \<open>records_lock\<close> awaits anything, so it is always free when it is asked for; a deployment's own
  lock is held while its worker is in \<open>a_work\<close>.
\<close>

section \<open>Admission\<close>

record admission =
  g_paused :: bool
  g_requests :: int
  g_idle :: bool

definition new_admission :: admission where
  "new_admission = \<lparr>g_paused = False, g_requests = 0, g_idle = True\<rparr>"

definition admission_enter :: "admission \<Rightarrow> admission" where
  "admission_enter g = g\<lparr>g_requests := g_requests g + 1, g_idle := False\<rparr>"

definition admission_leave :: "admission \<Rightarrow> admission" where
  "admission_leave g =
     (let g = g\<lparr>g_requests := g_requests g - 1\<rparr> in
      if g_requests g = 0 then g\<lparr>g_idle := True\<rparr> else g)"

interpretation admission_gate: counted_gate g_requests g_idle admission_enter admission_leave new_admission
  by unfold_locales (auto simp: new_admission_def admission_enter_def admission_leave_def Let_def)

lemma admission_paused [simp]:
  "g_paused (admission_enter g) = g_paused g" "g_paused (admission_leave g) = g_paused g"
  by (simp_all add: admission_enter_def admission_leave_def Let_def)

section \<open>State\<close>

text \<open>
  A child by its number (no two children share one) and the record it was started for, whose port
  it has. A worker: what it was asked for, the record it found (\<open>previous\<close>), its port, its
  candidate, its \<open>Transition\<close>'s flag and what it awaits.
\<close>

record proc =
  p_handle :: nat
  p_rec :: deployment

datatype phase =
    Draining bool
  | Stopping
  | Verifying
  | Readying
  | UndoStopping
  | UndoVerifying
  | UndoReadying

datatype job = Replace | Forget | ForgetOrphan

record work =
  w_job :: job
  w_previous :: "deployment option"
  w_port :: int
  w_candidate :: deployment
  w_abandoned :: bool
  w_phase :: phase

datatype answer =
    Healthy
  | Unhealthy bool
  | Unchanged
  | Stopped
  | Absent
  | Raised py_error

text \<open>
  The agent: its configuration's records in memory and on disk, the registered children, the
  gates (objects by number, with the deployment each was made for), the queue counts, reserved
  ports, workers. \<open>a_alive\<close> holds the children running on the host, \<open>a_flights\<close> the requests being
  answered (each by its gate), \<open>a_answers\<close> what the transitions answered: observations of the run.
\<close>

record agent =
  a_port :: int
  a_config :: "(string, deployment) dict"
  a_disk :: "(string, deployment) dict"
  a_procs :: "(string, proc) dict"
  a_gate :: "(string, nat) dict"
  a_gates :: "(nat, admission) dict"
  a_owner :: "(nat, string) dict"
  a_queueing :: "(string, queueing) dict"
  a_reserved :: "int list"
  a_work :: "(string, work) dict"
  a_stopping :: bool
  a_swept :: bool
  a_alive :: "nat list"
  a_next_child :: nat
  a_next_gate :: nat
  a_flights :: "nat list"
  a_answers :: "(string \<times> answer) list"

section \<open>Steps shared by the handlers\<close>

text \<open>\<open>setdefault(deployment_id, Admission())\<close>, and the gate replaced by a new one.\<close>

definition new_gate :: "string \<Rightarrow> bool \<Rightarrow> agent \<Rightarrow> agent" where
  "new_gate did paused s =
     s\<lparr>a_gate := dict_set did (a_next_gate s) (a_gate s),
       a_gates := dict_set (a_next_gate s) (new_admission\<lparr>g_paused := paused\<rparr>) (a_gates s),
       a_owner := dict_set (a_next_gate s) did (a_owner s),
       a_next_gate := a_next_gate s + 1\<rparr>"

definition default_gate :: "string \<Rightarrow> agent \<Rightarrow> agent" where
  "default_gate did s = (if dict_get (a_gate s) did = None then new_gate did False s else s)"

definition gate_of :: "agent \<Rightarrow> string \<Rightarrow> admission option" where
  "gate_of s did = (case dict_get (a_gate s) did of None \<Rightarrow> None | Some g \<Rightarrow> dict_get (a_gates s) g)"

definition set_paused :: "string \<Rightarrow> bool \<Rightarrow> agent \<Rightarrow> agent" where
  "set_paused did paused s =
     (case (dict_get (a_gate s) did, gate_of s did) of
        (Some g, Some adm) \<Rightarrow> s\<lparr>a_gates := dict_set g (adm\<lparr>g_paused := paused\<rparr>) (a_gates s)\<rparr>
      | _ \<Rightarrow> s)"

definition drop_gate :: "string \<Rightarrow> agent \<Rightarrow> agent" where
  "drop_gate did s = s\<lparr>a_gate := dict_del did (a_gate s)\<rparr>"

definition drop_queueing :: "string \<Rightarrow> agent \<Rightarrow> agent" where
  "drop_queueing did s = s\<lparr>a_queueing := dict_del did (a_queueing s)\<rparr>"

definition set_phase :: "string \<Rightarrow> work \<Rightarrow> phase \<Rightarrow> agent \<Rightarrow> agent" where
  "set_phase did w p s = s\<lparr>a_work := dict_set did (w\<lparr>w_phase := p\<rparr>) (a_work s)\<rparr>"

text \<open>A worker ends: the lock is released, a replacement gives its reservation back.\<close>

definition finish :: "string \<Rightarrow> work \<Rightarrow> answer \<Rightarrow> agent \<Rightarrow> agent" where
  "finish did w a s =
     s\<lparr>a_work := dict_del did (a_work s),
       a_reserved := (if w_job w = Replace then filter (\<lambda>p. p \<noteq> w_port w) (a_reserved s) else a_reserved s),
       a_answers := a_answers s @ [(did, a)]\<rparr>"

definition answered :: "string \<Rightarrow> answer \<Rightarrow> agent \<Rightarrow> agent" where
  "answered did a s = s\<lparr>a_answers := a_answers s @ [(did, a)]\<rparr>"

text \<open>\<open>start_deployment\<close> and the registration after it: refused once the agent is stopping.\<close>

definition start_deployment :: "string \<Rightarrow> deployment \<Rightarrow> bool \<Rightarrow> agent \<Rightarrow> agent option" where
  "start_deployment did d starts s =
     (if a_stopping s \<or> \<not> starts then None
      else Some (s\<lparr>a_procs := dict_set did \<lparr>p_handle = a_next_child s, p_rec = d\<rparr> (a_procs s),
                   a_alive := a_next_child s # a_alive s,
                   a_next_child := a_next_child s + 1\<rparr>))"

definition free_port :: "(int \<Rightarrow> bool) \<Rightarrow> agent \<Rightarrow> int option" where
  "free_port available s =
     (let taken = map (d_port \<circ> snd) (a_config s) @ map (d_port \<circ> p_rec \<circ> snd) (a_procs s)
                  @ a_reserved s @ [a_port s]
      in find (\<lambda>port. port \<notin> set taken \<and> available port) [9110..9199])"

text \<open>\<open>stop_deployment\<close> once the child's end is confirmed: it leaves the registry.\<close>

definition unregister :: "string \<Rightarrow> agent \<Rightarrow> agent" where
  "unregister did s =
     (case dict_get (a_procs s) did of
        None \<Rightarrow> s
      | Some pr \<Rightarrow> s\<lparr>a_procs := dict_del did (a_procs s), a_alive := filter (\<lambda>h. h \<noteq> p_handle pr) (a_alive s)\<rparr>)"

section \<open>Replacement\<close>

text \<open>The rollback, from the failed stretch on.\<close>

definition undo_save :: "string \<Rightarrow> work \<Rightarrow> bool \<Rightarrow> agent \<Rightarrow> agent" where
  "undo_save did w saves s =
     finish did w (Unhealthy saves) (if saves then s\<lparr>a_disk := a_config s\<rparr> else s)"

definition undo_stopped :: "string \<Rightarrow> work \<Rightarrow> bool \<Rightarrow> agent \<Rightarrow> agent" where
  "undo_stopped did w saves s =
     (if w_previous w = None
      then undo_save did w saves (drop_queueing did (drop_gate did s))
      else set_phase did w UndoVerifying s)"

definition undo :: "string \<Rightarrow> work \<Rightarrow> bool \<Rightarrow> agent \<Rightarrow> agent" where
  "undo did w saves s =
     (if dict_get (a_procs s) did = None then undo_stopped did w saves s
      else set_phase did w UndoStopping s)"

text \<open>\<open>replace_on_port\<close> after the drain: a new closed gate, then the old child goes.\<close>

definition after_drain :: "(nat \<Rightarrow> rat \<times> rat) \<Rightarrow> string \<Rightarrow> work \<Rightarrow> agent \<Rightarrow> agent" where
  "after_drain clock did w s =
     (let s = new_gate did True s;
          s = (case dict_get (a_queueing s) did of
                 None \<Rightarrow> s | Some q \<Rightarrow> s\<lparr>a_queueing := dict_set did (Queueing.restart clock q) (a_queueing s)\<rparr>)
      in if dict_get (a_procs s) did = None then set_phase did w Verifying s else set_phase did w Stopping s)"

text \<open>
  \<open>replace_deployment\<close> with the lock held: the port, its reservation, the candidate record and, where
  a record is replaced, the closed gate its drain waits behind. \<open>found\<close> is what the request's files
  resolved to: the weights, the projector, the components.
\<close>

definition begin_replace ::
    "(string \<Rightarrow> string) \<Rightarrow> (nat \<Rightarrow> rat \<times> rat) \<Rightarrow> (int \<Rightarrow> bool) \<Rightarrow> string \<Rightarrow> deployment_request \<Rightarrow>
     string \<times> string option \<times> (string, component) dict \<Rightarrow> bool \<Rightarrow> agent \<Rightarrow> agent option" where
  "begin_replace sha256 clock available did request found abandoned s =
     (if dict_get (a_work s) did \<noteq> None then None
      else if abandoned then Some (answered did Unchanged s)
      else
        let previous = dict_get (a_config s) did in
        case (case previous of Some d \<Rightarrow> Some (d_port d) | None \<Rightarrow> free_port available s) of
          None \<Rightarrow> Some (answered did (Raised (RuntimeError ''no free deployment port'')) s)
        | Some port \<Rightarrow>
            let (model, mmproj, components) = found in
            (case make_deployment sha256 (candidate_of request model mmproj components port) of
               Inl e \<Rightarrow> Some (answered did (Raised e) s)
             | Inr candidate \<Rightarrow>
                 let w = \<lparr>w_job = Replace, w_previous = previous, w_port = port, w_candidate = candidate,
                          w_abandoned = False, w_phase = Verifying\<rparr>;
                     s = s\<lparr>a_reserved := port # a_reserved s\<rparr>
                 in if previous = None then Some (after_drain clock did w s)
                    else let s = default_gate did s;
                             was_paused = (case gate_of s did of Some g \<Rightarrow> g_paused g | None \<Rightarrow> False)
                         in Some (set_phase did w (Draining was_paused) (set_paused did True s))))"

text \<open>The stretch that commits a confirmed candidate, or undoes it.\<close>

definition commit :: "string \<Rightarrow> work \<Rightarrow> bool \<Rightarrow> agent \<Rightarrow> agent" where
  "commit did w saves s =
     (let running = (case dict_get (a_procs s) did of None \<Rightarrow> False | Some pr \<Rightarrow> p_handle pr \<in> set (a_alive s)) in
      if w_abandoned w \<or> \<not> running then undo did w saves s
      else let config = dict_set did (w_candidate w) (a_config s) in
        if \<not> saves then undo did w saves s
        else finish did w Healthy (set_paused did False (s\<lparr>a_config := config, a_disk := config\<rparr>)))"

definition replace_step :: "(nat \<Rightarrow> rat \<times> rat) \<Rightarrow> string \<Rightarrow> work \<Rightarrow> bool \<Rightarrow> bool \<Rightarrow> bool \<Rightarrow> agent \<Rightarrow> agent" where
  "replace_step clock did w ok starts saves s =
     (case w_phase w of
        Draining was_paused \<Rightarrow>
          if w_abandoned w then finish did w Unchanged (set_paused did was_paused s)
          else after_drain clock did w s
      | Stopping \<Rightarrow> if ok then set_phase did w Verifying (unregister did s) else undo did w saves s
      | Verifying \<Rightarrow>
          (case if ok then start_deployment did (w_candidate w) starts s else None of
             None \<Rightarrow> undo did w saves s
           | Some s' \<Rightarrow> set_phase did w Readying s')
      | Readying \<Rightarrow> if ok then commit did w saves s else undo did w saves s
      | UndoStopping \<Rightarrow> if ok then undo_stopped did w saves (unregister did s) else finish did w (Unhealthy False) s
      | UndoVerifying \<Rightarrow>
          (case if ok then start_deployment did (the (w_previous w)) starts s else None of
             None \<Rightarrow> finish did w (Unhealthy False) s
           | Some s' \<Rightarrow> set_phase did w UndoReadying s')
      | UndoReadying \<Rightarrow>
          if ok then undo_save did w saves (set_paused did False s) else finish did w (Unhealthy False) s)"

section \<open>Removal\<close>

definition forget_stopped :: "string \<Rightarrow> work \<Rightarrow> bool \<Rightarrow> agent \<Rightarrow> agent" where
  "forget_stopped did w saves s =
     (let config = dict_del did (a_config s) in
      if saves
      then finish did w Stopped (drop_queueing did (drop_gate did (s\<lparr>a_config := config, a_disk := config\<rparr>)))
      else finish did w (Raised (PersistenceError ''deployment stopped but not forgotten''))
             (s\<lparr>a_config := dict_set did (the (w_previous w)) config\<rparr>))"

definition forget_drained :: "string \<Rightarrow> work \<Rightarrow> bool \<Rightarrow> agent \<Rightarrow> agent" where
  "forget_drained did w saves s =
     (if dict_get (a_procs s) did = None then forget_stopped did w saves s else set_phase did w Stopping s)"

definition begin_forget :: "string \<Rightarrow> bool \<Rightarrow> agent \<Rightarrow> agent option" where
  "begin_forget did abandoned s =
     (if dict_get (a_work s) did \<noteq> None then None
      else if abandoned then Some (answered did Unchanged s)
      else
        let w = \<lparr>w_job = Forget, w_previous = dict_get (a_config s) did, w_port = 0, w_candidate = bare_deployment,
                 w_abandoned = False, w_phase = Stopping\<rparr> in
        if w_previous w = None
        then (if dict_get (a_procs s) did = None then Some (answered did Absent s)
              else Some (set_phase did (w\<lparr>w_job := ForgetOrphan\<rparr>) Stopping s))
        else let s = default_gate did s;
                 was_paused = (case gate_of s did of Some g \<Rightarrow> g_paused g | None \<Rightarrow> False)
             in Some (set_phase did w (Draining was_paused) (set_paused did True s)))"

definition stop_error :: py_error where
  "stop_error = OSError ''the child could not be stopped''"

definition forget_step :: "string \<Rightarrow> work \<Rightarrow> bool \<Rightarrow> bool \<Rightarrow> agent \<Rightarrow> agent" where
  "forget_step did w ok saves s =
     (case w_phase w of
        Draining was_paused \<Rightarrow>
          if w_abandoned w then finish did w Unchanged (set_paused did was_paused s)
          else forget_drained did w saves s
      | _ \<Rightarrow>
          if \<not> ok then finish did w (Raised stop_error) s
          else if w_job w = ForgetOrphan then finish did w Stopped (drop_gate did (unregister did s))
          else forget_stopped did w saves (unregister did s))"


section \<open>The machine\<close>

text \<open>
  What can happen: a request for a transition, the outcome a worker waits for, a client gone, a
  child that exits, a proxied request that looks a deployment up (\<open>Capture\<close>), passes its second
  check and is sent (\<open>Enter\<close>, with the gate and the child it looked up), or is answered (\<open>Leave\<close>);
  the shutdown, and the final sweep once the transitions are joined, which stops \<open>stopped\<close>.
\<close>

datatype event =
    AskReplace "nat \<Rightarrow> rat \<times> rat" "int \<Rightarrow> bool" string deployment_request
      "string \<times> string option \<times> (string, component) dict" bool
  | AskForget string bool
  | Drained "nat \<Rightarrow> rat \<times> rat" string bool bool
  | Outcome string bool bool bool
  | Abandon string
  | ChildExit nat
  | Capture string
  | Enter string nat nat
  | Leave nat
  | Shutdown
  | Sweep "nat list"

definition worker_step :: "(nat \<Rightarrow> rat \<times> rat) \<Rightarrow> string \<Rightarrow> work \<Rightarrow> bool \<Rightarrow> bool \<Rightarrow> bool \<Rightarrow> agent \<Rightarrow> agent" where
  "worker_step clock did w ok starts saves s =
     (if w_job w = Replace then replace_step clock did w ok starts saves s else forget_step did w ok saves s)"

definition draining :: "work \<Rightarrow> bool" where
  "draining w = (case w_phase w of Draining _ \<Rightarrow> True | _ \<Rightarrow> False)"

text \<open>A drain ends when the gate's requests have been answered, the client is gone, or at its time limit.\<close>

definition drain_over :: "agent \<Rightarrow> string \<Rightarrow> work \<Rightarrow> bool \<Rightarrow> bool" where
  "drain_over s did w timeout \<longleftrightarrow>
     timeout \<or> w_abandoned w \<or> (case gate_of s did of Some g \<Rightarrow> g_idle g | None \<Rightarrow> True)"

text \<open>The proxy's checks between reading the body and sending the request on.\<close>

definition may_enter :: "agent \<Rightarrow> string \<Rightarrow> nat \<Rightarrow> nat \<Rightarrow> bool" where
  "may_enter s did g h \<longleftrightarrow>
     (case (dict_get (a_gates s) g, dict_get (a_procs s) did) of
        (Some adm, Some pr) \<Rightarrow> dict_get (a_owner s) g = Some did \<and> \<not> g_paused adm \<and> p_handle pr = h \<and> h \<in> set (a_alive s)
      | _ \<Rightarrow> False)"

definition update_gate :: "(admission \<Rightarrow> admission) \<Rightarrow> nat \<Rightarrow> agent \<Rightarrow> agent" where
  "update_gate f g s =
     (case dict_get (a_gates s) g of None \<Rightarrow> s | Some adm \<Rightarrow> s\<lparr>a_gates := dict_set g (f adm) (a_gates s)\<rparr>)"

definition agent_step :: "(string \<Rightarrow> string) \<Rightarrow> event \<Rightarrow> agent \<Rightarrow> agent option" where
  "agent_step sha256 e s =
     (case e of
        AskReplace clock available did request found abandoned \<Rightarrow>
          begin_replace sha256 clock available did request found abandoned s
      | AskForget did abandoned \<Rightarrow> begin_forget did abandoned s
      | Drained clock did timeout saves \<Rightarrow>
          (case dict_get (a_work s) did of None \<Rightarrow> None
           | Some w \<Rightarrow> if draining w \<and> drain_over s did w timeout
               then Some (worker_step clock did w True True saves s) else None)
      | Outcome did ok starts saves \<Rightarrow>
          (case dict_get (a_work s) did of None \<Rightarrow> None
           | Some w \<Rightarrow> if draining w then None else Some (worker_step (\<lambda>_. (0, 0)) did w ok starts saves s))
      | Abandon did \<Rightarrow>
          (case dict_get (a_work s) did of None \<Rightarrow> None
           | Some w \<Rightarrow> Some (s\<lparr>a_work := dict_set did (w\<lparr>w_abandoned := True\<rparr>) (a_work s)\<rparr>))
      | ChildExit h \<Rightarrow> Some (s\<lparr>a_alive := filter (\<lambda>x. x \<noteq> h) (a_alive s)\<rparr>)
      | Capture did \<Rightarrow> if dict_get (a_config s) did = None then None else Some (default_gate did s)
      | Enter did g h \<Rightarrow>
          if may_enter s did g h then Some (update_gate admission_enter g (s\<lparr>a_flights := g # a_flights s\<rparr>)) else None
      | Leave g \<Rightarrow>
          if g \<in> set (a_flights s)
          then Some (update_gate admission_leave g (s\<lparr>a_flights := remove1 g (a_flights s)\<rparr>)) else None
      | Shutdown \<Rightarrow> Some (s\<lparr>a_stopping := True\<rparr>)
      | Sweep stopped \<Rightarrow>
          if a_stopping s \<and> a_work s = [] \<and> set stopped \<subseteq> (p_handle \<circ> snd) ` set (a_procs s)
          then Some (s\<lparr>a_swept := True, a_alive := filter (\<lambda>h. h \<notin> set stopped) (a_alive s)\<rparr>) else None)"

fun agent_run :: "(string \<Rightarrow> string) \<Rightarrow> event list \<Rightarrow> agent \<Rightarrow> agent option" where
  "agent_run sha256 [] s = Some s"
| "agent_run sha256 (e # es) s =
     (case agent_step sha256 e s of None \<Rightarrow> None | Some s' \<Rightarrow> agent_run sha256 es s')"

text \<open>
  The agent as it starts: the records of \<open>agent.yaml\<close>, at distinct ports none of which is its own,
  each deployment's child started unless its files or its start failed (\<open>Agent.start_deployments\<close>).
\<close>

definition loaded_agent :: "int \<Rightarrow> (string, deployment) dict \<Rightarrow> agent" where
  "loaded_agent port config =
     \<lparr>a_port = port, a_config = config, a_disk = config, a_procs = [], a_gate = [], a_gates = [], a_owner = [],
      a_queueing = [], a_reserved = [], a_work = [], a_stopping = False, a_swept = False, a_alive = [],
      a_next_child = 0, a_next_gate = 0, a_flights = [], a_answers = []\<rparr>"

definition start_deployments :: "(string \<Rightarrow> bool) \<Rightarrow> agent \<Rightarrow> agent" where
  "start_deployments starts s =
     fold (\<lambda>(did, d) s. case start_deployment did d (starts did) s of None \<Rightarrow> s | Some s' \<Rightarrow> s') (a_config s) s"

definition config_ok :: "int \<Rightarrow> (string, deployment) dict \<Rightarrow> bool" where
  "config_ok port config \<longleftrightarrow> distinct (map fst config) \<and> distinct (port # map (d_port \<circ> snd) config)"

inductive agent_trans :: "(string \<Rightarrow> string) \<Rightarrow> agent \<Rightarrow> agent \<Rightarrow> bool" for sha256 where
  event: "agent_step sha256 e s = Some t \<Longrightarrow> agent_trans sha256 s t"

inductive_cases agent_transE: "agent_trans sha256 s t"

definition agent_start :: "agent \<Rightarrow> bool" where
  "agent_start s \<longleftrightarrow> (\<exists>port config starts. config_ok port config \<and> s = start_deployments starts (loaded_agent port config))"

end
