(* ===== verification/Videos.thy ===== *)
theory Videos
  imports DeploymentRecord Json
begin

text \<open>
  \<open>lazarus/agent/videos.py\<close>: the OpenAI videos API over the engine's jobs. A video's id is the
  served name, the engine's job and their signature, in URL-safe base64. Texts that go into an id
  are their UTF-8 bytes, so \<open>encode\<close> is the identity and \<open>decode\<close> the test \<open>utf8_ok\<close>. The HMAC
  (\<open>hmac.new(..., sha256).hexdigest()\<close>) is the argument \<open>hmac_hex\<close> of secret and message, the JSON
  parser the argument \<open>loads\<close>.
\<close>

section \<open>Base64 as the standard library reads and writes it\<close>

definition b64_char :: "nat \<Rightarrow> char" where
  "b64_char n = (if n < 26 then char_of (65 + n) else if n < 52 then char_of (97 + (n - 26))
     else if n < 62 then char_of (48 + (n - 52)) else if n = 62 then CHR ''-'' else CHR ''_'')"

text \<open>\<open>urlsafe_b64decode\<close> first turns \<open>-\<close> and \<open>_\<close> into \<open>+\<close> and \<open>/\<close>, so it reads both spellings.\<close>

definition urlsafe :: "char \<Rightarrow> char" where
  "urlsafe c = (if c = CHR ''-'' then CHR ''+'' else if c = CHR ''_'' then CHR ''/'' else c)"

definition b64_val :: "char \<Rightarrow> nat option" where
  "b64_val c = (if is_upper c then Some (code c - 65) else if is_lower c then Some (code c - 97 + 26)
     else if is_digit c then Some (code c - 48 + 52) else if c = CHR ''+'' then Some 62
     else if c = CHR ''/'' then Some 63 else None)"

text \<open>\<open>urlsafe_b64encode(raw).decode().rstrip("=")\<close>: without the padding.\<close>

fun b64_encode :: "string \<Rightarrow> string" where
  "b64_encode [] = []"
| "b64_encode [a] = [b64_char (code a div 4), b64_char (code a mod 4 * 16)]"
| "b64_encode [a, b] = [b64_char (code a div 4), b64_char (code a mod 4 * 16 + code b div 16),
     b64_char (code b mod 16 * 4)]"
| "b64_encode (a # b # c # rest) = b64_char (code a div 4) # b64_char (code a mod 4 * 16 + code b div 16) #
     b64_char (code b mod 16 * 4 + code c div 64) # b64_char (code c mod 64) # b64_encode rest"

text \<open>
  \<open>binascii.a2b_base64\<close>: the position in the quad, the bits left over, the padding seen. Outside
  strict mode a character of no alphabet is skipped and what follows a full padding is ignored;
  \<open>b64decode(..., validate=True)\<close> is the strict mode. \<open>None\<close> is \<open>binascii.Error\<close>.
\<close>

fun a2b :: "bool \<Rightarrow> nat \<Rightarrow> nat \<Rightarrow> nat \<Rightarrow> bool \<Rightarrow> string \<Rightarrow> string option" where
  "a2b strict quad left pads padded [] = (if quad = 0 then Some [] else None)"
| "a2b strict quad left pads padded (c # cs) =
     (if c = CHR ''='' then
        (if 2 \<le> quad \<and> 4 \<le> quad + Suc pads then (if strict \<and> cs \<noteq> [] then None else Some [])
         else a2b strict quad left (if 2 \<le> quad then Suc pads else pads) True cs)
      else (case b64_val c of
          None \<Rightarrow> if strict then None else a2b strict quad left pads padded cs
        | Some v \<Rightarrow>
            if strict \<and> padded then None
            else if quad = 0 then a2b strict 1 v 0 padded cs
            else if quad = 1 then map_option (Cons (char_of (left * 4 + v div 16))) (a2b strict 2 (v mod 16) 0 padded cs)
            else if quad = 2 then map_option (Cons (char_of (left * 16 + v div 4))) (a2b strict 3 (v mod 4) 0 padded cs)
            else map_option (Cons (char_of (left * 64 + v))) (a2b strict 0 0 0 padded cs)))"

definition b64decode :: "bool \<Rightarrow> string \<Rightarrow> string option" where
  "b64decode strict s =
     (if list_all (\<lambda>c. code c < 128) s \<and> \<not> (strict \<and> s \<noteq> [] \<and> hd s = CHR ''='') then a2b strict 0 0 0 False s
      else None)"

definition urlsafe_b64decode :: "string \<Rightarrow> string option" where
  "urlsafe_b64decode s = b64decode False (map urlsafe s)"

definition padding :: "string \<Rightarrow> string" where
  "padding encoded = replicate (nat ((- int (length encoded)) mod 4)) (CHR ''='')"

text \<open>The bytes \<open>bytes.decode()\<close> accepts as UTF-8.\<close>

definition is_tail :: "char \<Rightarrow> bool" where
  "is_tail c \<longleftrightarrow> 128 \<le> code c \<and> code c < 192"

fun utf8_ok :: "string \<Rightarrow> bool" where
  "utf8_ok [] = True"
| "utf8_ok (c # cs) =
     (if code c < 128 then utf8_ok cs
      else if 194 \<le> code c \<and> code c < 224 then
        (case cs of c1 # cs' \<Rightarrow> is_tail c1 \<and> utf8_ok cs' | _ \<Rightarrow> False)
      else if 224 \<le> code c \<and> code c < 240 then
        (case cs of c1 # c2 # cs' \<Rightarrow> is_tail c1 \<and> is_tail c2 \<and> (code c = 224 \<longrightarrow> 160 \<le> code c1) \<and>
           (code c = 237 \<longrightarrow> code c1 < 160) \<and> utf8_ok cs' | _ \<Rightarrow> False)
      else if 240 \<le> code c \<and> code c < 245 then
        (case cs of c1 # c2 # c3 # cs' \<Rightarrow> is_tail c1 \<and> is_tail c2 \<and> is_tail c3 \<and>
           (code c = 240 \<longrightarrow> 144 \<le> code c1) \<and> (code c = 244 \<longrightarrow> code c1 < 144) \<and> utf8_ok cs' | _ \<Rightarrow> False)
      else False)"

section \<open>Video ids\<close>

text \<open>A \<open>VideoError\<close> with its status, or an exception this module does not turn into one.\<close>

datatype video_error = VideoError int string | Crash py_error

definition MAX_PROMPT :: nat where
  "MAX_PROMPT = 4000"

definition MAX_SECONDS :: int where
  "MAX_SECONDS = 10"

text \<open>\<open>JOB.match\<close>: Python's \<open>$\<close> also matches before a final newline.\<close>

definition job_char :: "char \<Rightarrow> bool" where
  "job_char c \<longleftrightarrow> is_alnum c \<or> c \<in> {CHR ''_'', CHR ''-''}"

definition JOB :: "string \<Rightarrow> bool" where
  "JOB = dollar_match (\<lambda>s. list_all job_char s \<and> 1 \<le> length s \<and> length s \<le> 128)"

definition signature :: "(string \<Rightarrow> string \<Rightarrow> string) \<Rightarrow> string \<Rightarrow> string \<Rightarrow> string \<Rightarrow> string" where
  "signature hmac_hex secret served_model_name job =
     take 32 (hmac_hex secret (served_model_name @ ''/'' @ job))"

definition signed_text :: "(string \<Rightarrow> string \<Rightarrow> string) \<Rightarrow> string \<Rightarrow> string \<Rightarrow> string \<Rightarrow> string" where
  "signed_text hmac_hex secret served_model_name job =
     served_model_name @ ''/'' @ job @ ''/'' @ signature hmac_hex secret served_model_name job"

definition video_id :: "(string \<Rightarrow> string \<Rightarrow> string) \<Rightarrow> string \<Rightarrow> string \<Rightarrow> string \<Rightarrow> string" where
  "video_id hmac_hex secret served_model_name job =
     ''video_'' @ b64_encode (signed_text hmac_hex secret served_model_name job)"

text \<open>\<open>raw.rsplit("/", 2)\<close>: the last two separators cut, where there are two.\<close>

definition rsplit2 :: "string \<Rightarrow> string list" where
  "rsplit2 s = (let ws = split_on (CHR ''/'') s in
     if length ws \<le> 2 then ws
     else [join_with ''/'' (butlast (butlast ws)), last (butlast ws), last ws])"

definition is_ascii :: "string \<Rightarrow> bool" where
  "is_ascii s = list_all (\<lambda>c. code c < 128) s"

text \<open>\<open>hmac.compare_digest\<close> on texts: a \<open>TypeError\<close> unless both are ASCII.\<close>

definition compare_digest :: "string \<Rightarrow> string \<Rightarrow> py_error + bool" where
  "compare_digest a b = (if is_ascii a \<and> is_ascii b then Inr (a = b)
     else Inl (TypeError ''comparing strings with non-ASCII characters is not supported''))"

definition no_such_video :: video_error where
  "no_such_video = VideoError 404 ''no such video''"

definition job_of :: "(string \<Rightarrow> string \<Rightarrow> string) \<Rightarrow> string \<Rightarrow> string \<Rightarrow> string \<Rightarrow> video_error + string" where
  "job_of hmac_hex secret served_model_name identifier =
     (if take 6 identifier \<noteq> ''video_'' then Inl no_such_video
      else let encoded = drop 6 identifier in
        case urlsafe_b64decode (encoded @ padding encoded) of
          None \<Rightarrow> Inl no_such_video
        | Some raw \<Rightarrow>
            if \<not> utf8_ok raw then Inl no_such_video
            else case rsplit2 raw of
                [name, job, signed] \<Rightarrow>
                  if name \<noteq> served_model_name \<or> \<not> JOB job then Inl no_such_video
                  else (case compare_digest signed (signature hmac_hex secret name job) of
                      Inl e \<Rightarrow> Inl (Crash e)
                    | Inr same \<Rightarrow> if same then Inr job else Inl no_such_video)
              | _ \<Rightarrow> Inl no_such_video)"

subsection \<open>Encoding and decoding are inverse\<close>

lemma code_less: "code c < 256"
  by (simp add: code_def)

lemma code_char_of: "n < 256 \<Longrightarrow> code (char_of n) = n"
  by (simp add: code_def)

lemma char_by_code: "c = d \<longleftrightarrow> code c = code d"
  by (simp add: code_def)

lemma b64_char_facts:
  assumes "n < 64"
  shows b64_val_char [simp]: "b64_val (urlsafe (b64_char n)) = Some n"
    and b64_char_pad [simp]: "urlsafe (b64_char n) \<noteq> CHR ''=''"
    and b64_char_ascii: "code (urlsafe (b64_char n)) < 128"
    and b64_char_job: "job_char (b64_char n)"
proof -
  have lit: "code (CHR ''-'') = 45" "code (CHR ''_'') = 95" "code (CHR ''+'') = 43" "code (CHR ''/'') = 47"
    "code (CHR ''='') = 61"
    by (simp_all add: code_def)
  consider "n < 26" | "26 \<le> n" "n < 52" | "52 \<le> n" "n < 62" | "n = 62" | "n = 63"
    using assms by linarith
  note cases = this
  have *: "b64_val (urlsafe (b64_char n)) = Some n \<and> urlsafe (b64_char n) \<noteq> CHR ''='' \<and>
      code (urlsafe (b64_char n)) < 128 \<and> job_char (b64_char n)"
    by (rule cases; auto simp: b64_char_def urlsafe_def b64_val_def job_char_def is_alnum_def is_alpha_def
      is_upper_def is_lower_def is_digit_def char_by_code code_char_of lit)
  then show "b64_val (urlsafe (b64_char n)) = Some n" "urlsafe (b64_char n) \<noteq> CHR ''=''"
    "code (urlsafe (b64_char n)) < 128" "job_char (b64_char n)" by blast+
qed

lemma a2b_char:
  assumes "n < 64"
  shows "a2b strict quad left pads False (urlsafe (b64_char n) # cs) =
    (if quad = 0 then a2b strict 1 n 0 False cs
     else if quad = 1 then map_option (Cons (char_of (left * 4 + n div 16))) (a2b strict 2 (n mod 16) 0 False cs)
     else if quad = 2 then map_option (Cons (char_of (left * 16 + n div 4))) (a2b strict 3 (n mod 4) 0 False cs)
     else map_option (Cons (char_of (left * 64 + n))) (a2b strict 0 0 0 False cs))"
  using assms by simp

declare a2b.simps(2) [simp del]

lemma a2b_pad:
  "a2b False 2 left 0 False ''=='' = Some []" "a2b False 3 left 0 False ''='' = Some []"
  by (simp_all add: a2b.simps(2))

lemma char_code [simp]: "char_of (code c) = c"
  by (simp add: code_def)

lemma pad_length: "padding s = replicate ((4 - length s mod 4) mod 4) (CHR ''='')"
proof -
  have "(- int (length s)) mod 4 = int ((4 - length s mod 4) mod 4)"
  proof (cases "length s mod 4 = 0")
    case True
    then have "int (length s) mod 4 = 0" by (metis of_nat_0 of_nat_mod of_nat_numeral)
    with True show ?thesis by (simp add: zmod_zminus1_eq_if)
  next
    case False
    moreover have "int (length s) mod 4 = int (length s mod 4)" by (simp add: zmod_int)
    ultimately show ?thesis by (simp add: zmod_zminus1_eq_if of_nat_diff)
  qed
  then show ?thesis by (simp add: padding_def)
qed

lemma length_b64: "length (b64_encode raw) = (4 * length raw + 2) div 3"
proof (induction raw rule: b64_encode.induct)
  case (4 a b c rest)
  have "(m + 4 * 3) div 3 = m div 3 + 4" for m :: nat by simp
  from this [of "4 * length rest + 2"] 4 show ?case by (simp add: algebra_simps)
qed simp_all

lemma sextets:
  assumes "x < 256" "y < 256"
  shows "x div 4 < (64::nat)" "x mod 4 * 16 + y div 16 < 64" "y mod 16 * 4 + x div 64 < 64" "x mod 64 < 64"
    "x mod 4 * 16 < 64" "x mod 16 * 4 < 64"
proof -
  have "y div 16 < 16" "x div 64 < 4" "x div 4 < 64" using assms by (simp_all add: less_mult_imp_div_less)
  moreover have "x mod 4 < 4" "x mod 64 < 64" "x mod 16 < 16" "y mod 16 < 16" by simp_all
  ultimately show "x div 4 < (64::nat)" "x mod 4 * 16 + y div 16 < 64" "y mod 16 * 4 + x div 64 < 64"
    "x mod 64 < 64" "x mod 4 * 16 < 64" "x mod 16 * 4 < 64"
    by linarith+
qed

lemma octets:
  assumes "x < 256" "y < 256"
  shows "(x mod 4 * 16 + y div 16) div 16 = (x mod 4 :: nat)" "x div 16 mod 16 = x div 16"
    "(x mod 16 * 4 + y div 64) div 4 = x mod 16" "x div 64 mod 4 = x div 64"
  using assms by (simp_all add: less_mult_imp_div_less)

lemmas byte_sextets = sextets [OF code_less code_less] octets [OF code_less code_less]

lemma b64_alphabet: "list_all (\<lambda>c. code (urlsafe c) < 128 \<and> job_char c) (b64_encode raw)"
  by (induction raw rule: b64_encode.induct) (simp_all add: b64_char_ascii b64_char_job byte_sextets)

lemma b64_decode_encode: "urlsafe_b64decode (b64_encode raw @ padding (b64_encode raw)) = Some raw"
proof -
  have ascii: "list_all (\<lambda>c. code c < 128) (map urlsafe (b64_encode raw))"
    using b64_alphabet [of raw] by (simp add: list_all_iff)
  have pad: "map urlsafe (padding s) = padding s" "list_all (\<lambda>c. code c < 128) (padding s)" for s
    by (simp_all add: pad_length urlsafe_def code_def list_all_iff)
  have step: "padding (a # b # c # d # s) = padding s" for a b c d s
    by (simp add: pad_length)
  have short: "padding [a, b] = ''==''" "padding [a, b, c] = ''=''" "padding [] = []" for a b c
    by (simp_all add: pad_length numeral_2_eq_2)
  have "a2b False 0 0 0 False (map urlsafe (b64_encode raw) @ padding (b64_encode raw)) = Some raw"
  proof (induction raw rule: b64_encode.induct)
    case (4 a b c rest)
    then show ?case by (simp add: a2b_char byte_sextets step)
  qed (simp_all add: a2b_char a2b_pad byte_sextets short)
  then show ?thesis using ascii pad by (simp add: urlsafe_b64decode_def b64decode_def)
qed

subsection \<open>An id leads back to its job, and only a signed one does\<close>

lemma utf8_ascii: "is_ascii s \<Longrightarrow> utf8_ok s"
  by (induction s rule: utf8_ok.induct) (simp_all add: is_ascii_def)

lemma utf8_append: "utf8_ok s \<Longrightarrow> utf8_ok t \<Longrightarrow> utf8_ok (s @ t)"
  by (induction s rule: utf8_ok.induct) (auto split: if_splits list.splits)

lemma JOB_chars:
  assumes "JOB job"
  shows "CHR ''/'' \<notin> set job" "is_ascii job"
proof -
  have c: "job_char c \<or> c = newline" if "c \<in> set job" for c
  proof (cases "list_all job_char job")
    case False
    then have "job \<noteq> []" "last job = newline" "list_all job_char (butlast job)"
      using assms by (auto simp: JOB_def dollar_match_def)
    then have "job = butlast job @ [newline]" by (metis append_butlast_last_id)
    then have "c \<in> set (butlast job) \<or> c = newline"
      using that by (metis Un_iff empty_iff empty_set insert_iff list.simps(15) set_append)
    then show ?thesis using \<open>list_all job_char (butlast job)\<close> by (auto simp: list_all_iff)
  qed (use that in \<open>auto simp: list_all_iff\<close>)
  have j: "code c < 128" "c \<noteq> CHR ''/''" if "job_char c \<or> c = newline" for c
    using that
    by (auto simp: job_char_def is_alnum_def is_alpha_def is_upper_def is_lower_def is_digit_def newline_def
        char_by_code code_def)
  show "CHR ''/'' \<notin> set job" "is_ascii job" using c j by (auto simp: is_ascii_def list_all_iff)
qed

definition hexes :: "(string \<Rightarrow> string \<Rightarrow> string) \<Rightarrow> bool" where
  "hexes hmac_hex \<longleftrightarrow> (\<forall>secret message. list_all is_hex_lower (hmac_hex secret message))"

lemma signature_chars:
  assumes "hexes hmac_hex"
  shows "CHR ''/'' \<notin> set (signature hmac_hex secret name job)" "is_ascii (signature hmac_hex secret name job)"
proof -
  have "is_hex_lower c" if "c \<in> set (signature hmac_hex secret name job)" for c
    using assms that by (auto simp: hexes_def signature_def list_all_iff dest: in_set_takeD)
  moreover have "code c < 128 \<and> c \<noteq> CHR ''/''" if "is_hex_lower c" for c
    using that by (auto simp: is_hex_lower_def is_digit_def char_by_code code_def)
  ultimately show "CHR ''/'' \<notin> set (signature hmac_hex secret name job)" "is_ascii (signature hmac_hex secret name job)"
    by (auto simp: is_ascii_def list_all_iff)
qed

lemma rsplit2_parts:
  assumes "CHR ''/'' \<notin> set job" "CHR ''/'' \<notin> set signed"
  shows "rsplit2 (name @ ''/'' @ job @ ''/'' @ signed) = [name, job, signed]"
proof -
  have "split_on (CHR ''/'') (name @ ''/'' @ job @ ''/'' @ signed) = split_on (CHR ''/'') name @ [job, signed]"
    using assms by (simp add: split_on_app split_on_idem)
  then show ?thesis by (simp add: rsplit2_def butlast_append)
qed

lemma rsplit2_three:
  assumes "rsplit2 raw = [name, job, signed]"
  shows "raw = name @ ''/'' @ job @ ''/'' @ signed"
proof -
  define ws where "ws = split_on (CHR ''/'') raw"
  have len: "2 < length ws" using assms by (auto simp: rsplit2_def ws_def [symmetric] Let_def split: if_splits)
  then have parts: "name = join_with ''/'' (butlast (butlast ws))" "job = last (butlast ws)" "signed = last ws"
    using assms by (simp_all add: rsplit2_def ws_def [symmetric])
  have ne: "butlast (butlast ws) \<noteq> []" using len by (metis length_butlast length_greater_0_conv less_diff_conv
        add.left_neutral diff_diff_left one_add_one)
  have "ws = butlast ws @ [signed]" using len parts by (metis append_butlast_last_id list.size(3) not_less_zero)
  moreover have "butlast ws = butlast (butlast ws) @ [job]"
    using parts ne by (metis append_butlast_last_id butlast.simps(1))
  ultimately have "ws = butlast (butlast ws) @ [job, signed]" by (metis append_Cons append_Nil append_assoc)
  moreover have "join_with ''/'' (xs @ [a, b]) = join_with ''/'' xs @ ''/'' @ a @ ''/'' @ b" if "xs \<noteq> []" for xs a b
    using that by (induction xs rule: list_nonempty_induct) (simp_all add: join_with_Cons)
  ultimately have "join_with ''/'' ws = name @ ''/'' @ job @ ''/'' @ signed" using parts ne by metis
  then show ?thesis by (simp add: ws_def)
qed

lemma job_of_signed_text:
  assumes "hexes hmac_hex" "utf8_ok name" "JOB job" "take 6 identifier = ''video_''"
    and "urlsafe_b64decode (drop 6 identifier @ padding (drop 6 identifier)) = Some (signed_text hmac_hex secret name job)"
  shows "job_of hmac_hex secret name identifier = Inr job"
proof -
  let ?s = "signature hmac_hex secret name job"
  have sig: "CHR ''/'' \<notin> set ?s" "is_ascii ?s" using signature_chars assms(1) by auto
  have "is_ascii (''/'' @ job @ ''/'' @ ?s)"
    using JOB_chars(2) [OF assms(3)] sig(2) by (simp add: is_ascii_def code_def)
  then have utf8: "utf8_ok (signed_text hmac_hex secret name job)"
    unfolding signed_text_def by (intro utf8_append assms(2) utf8_ascii)
  have parts: "rsplit2 (signed_text hmac_hex secret name job) = [name, job, ?s]"
    unfolding signed_text_def using JOB_chars(1) [OF assms(3)] sig(1) by (rule rsplit2_parts)
  show ?thesis using assms(3-5) utf8 parts sig(2) by (simp add: job_of_def Let_def compare_digest_def)
qed

text \<open>
  C20. Only whoever was given an id can use it: a video id leads to a job exactly when it decodes to
  the served name, the job and the deployment's own signature of the two.
\<close>

theorem only_signed_ids_lead_to_jobs:
  assumes "hexes hmac_hex" "utf8_ok name"
  shows "job_of hmac_hex secret name identifier = Inr job \<longleftrightarrow>
    take 6 identifier = ''video_'' \<and> JOB job \<and>
    urlsafe_b64decode (drop 6 identifier @ padding (drop 6 identifier)) =
      Some (name @ ''/'' @ job @ ''/'' @ signature hmac_hex secret name job)"
proof
  assume ok: "job_of hmac_hex secret name identifier = Inr job"
  then obtain raw where raw: "take 6 identifier = ''video_''"
      "urlsafe_b64decode (drop 6 identifier @ padding (drop 6 identifier)) = Some raw"
    by (auto simp: job_of_def Let_def split: if_splits option.splits)
  with ok obtain n j s where parts: "rsplit2 raw = [n, j, s]"
    by (auto simp: job_of_def Let_def split: if_splits list.splits)
  with ok raw have "n = name" "j = job" "JOB job" "s = signature hmac_hex secret name job"
    by (auto simp: job_of_def Let_def compare_digest_def split: if_splits)
  with rsplit2_three [OF parts] raw show "take 6 identifier = ''video_'' \<and> JOB job \<and>
    urlsafe_b64decode (drop 6 identifier @ padding (drop 6 identifier)) =
      Some (name @ ''/'' @ job @ ''/'' @ signature hmac_hex secret name job)" by simp
next
  assume "take 6 identifier = ''video_'' \<and> JOB job \<and>
    urlsafe_b64decode (drop 6 identifier @ padding (drop 6 identifier)) =
      Some (name @ ''/'' @ job @ ''/'' @ signature hmac_hex secret name job)"
  then show "job_of hmac_hex secret name identifier = Inr job"
    using assms by (intro job_of_signed_text) (auto simp: signed_text_def)
qed

lemma job_of_video_id:
  assumes "hexes hmac_hex" "utf8_ok name" "JOB job"
  shows "job_of hmac_hex secret name (video_id hmac_hex secret name job) = Inr job"
  using assms by (intro job_of_signed_text) (simp_all add: video_id_def b64_decode_encode)

lemma video_id_shape:
  "\<exists>encoded. video_id hmac_hex secret name job = ''video_'' @ encoded \<and> list_all job_char encoded \<and>
     length encoded = (4 * length (signed_text hmac_hex secret name job) + 2) div 3"
  using b64_alphabet [of "signed_text hmac_hex secret name job"]
  by (auto simp: video_id_def length_b64 list_all_iff)

section \<open>The clip a request asks for\<close>

text \<open>\<open>int(text)\<close> where the text has been found to be at most three digits, blanks around them.\<close>

definition seconds_of :: "json \<Rightarrow> int \<Rightarrow> video_error + int" where
  "seconds_of v reviewed =
     (if v = JNull then Inr reviewed
      else let refused = VideoError 400 (''seconds is a whole number from 1 to '' @ show_int reviewed);
               text = (case v of JStr s \<Rightarrow> strip s | _ \<Rightarrow> []) in
        case (case v of JInt i \<Rightarrow> Some i
              | _ \<Rightarrow> if text \<noteq> [] \<and> list_all is_digit text \<and> length text \<le> 3 then Some (int (parse_nat text)) else None) of
          None \<Rightarrow> Inl refused
        | Some seconds \<Rightarrow>
            if 1 \<le> seconds \<and> seconds \<le> min reviewed MAX_SECONDS then Inr seconds else Inl refused)"

text \<open>\<open>SIZE.match\<close> and the two numbers of its groups.\<close>

definition size_groups :: "string \<Rightarrow> (int \<times> int) option" where
  "size_groups text =
     (let groups = (\<lambda>s. case split_on (CHR ''x'') s of
          [w, h] \<Rightarrow> if side_match w \<and> side_match h then Some (int (parse_nat w), int (parse_nat h)) else None
        | _ \<Rightarrow> None) in
      case groups text of Some g \<Rightarrow> Some g
      | None \<Rightarrow> if text \<noteq> [] \<and> last text = newline then groups (butlast text) else None)"

definition size_of :: "json \<Rightarrow> string option \<Rightarrow> int \<Rightarrow> video_error + int \<times> int" where
  "size_of v reviewed multiple =
     (let text = (if v = JNull then reviewed else str_of v) in
      case (case text of None \<Rightarrow> None | Some s \<Rightarrow> size_groups s) of
        None \<Rightarrow> Inl (VideoError 400 ''size is WIDTHxHEIGHT'')
      | Some (width, height) \<Rightarrow>
          if width mod multiple \<noteq> 0 \<or> height mod multiple \<noteq> 0
          then Inl (VideoError 400 (''each side of size is a multiple of '' @ show_int multiple))
          else (case reviewed of None \<Rightarrow> Inl (Crash (TypeError ''expected string''))
            | Some r \<Rightarrow> (case size_groups r of
                None \<Rightarrow> Inl (Crash (TypeError ''no match''))
              | Some (w, h) \<Rightarrow> if width * height > w * h
                  then Inl (VideoError 400 (''size is at most '' @ r @ '' in area'')) else Inr (width, height))))"

definition frames_of :: "int \<Rightarrow> int \<Rightarrow> int" where
  "frames_of seconds fps = (let frames = seconds * fps in max (frames - (frames - 1) mod 4) 5)"

text \<open>\<open>os.path.splitext(os.path.basename(path))[0]\<close>.\<close>

definition basename :: "string \<Rightarrow> string" where
  "basename p = last (split_on (CHR ''/'') p)"

definition stem :: "string \<Rightarrow> string" where
  "stem n = (let dots = takeWhile (\<lambda>c. c = CHR ''.'') n; rest = dropWhile (\<lambda>c. c = CHR ''.'') n;
       ws = split_on (CHR ''.'') rest in
     if length ws \<le> 1 then n else dots @ join_with ''.'' (butlast ws))"

definition opt_json :: "('a \<Rightarrow> json) \<Rightarrow> 'a option \<Rightarrow> json" where
  "opt_json f x = (case x of None \<Rightarrow> JNull | Some a \<Rightarrow> f a)"

definition job_fields :: "deployment \<Rightarrow> string \<Rightarrow> int \<Rightarrow> int \<Rightarrow> int \<Rightarrow> int \<Rightarrow> (string, json) dict" where
  "job_fields d prompt seconds fps width height =
     (let params = [(''sample_method'', opt_json JStr (d_sampler d)), (''sample_steps'', opt_json JInt (d_steps d)),
            (''guidance'', JObj [(''txt_cfg'', opt_json JFloat (d_cfg_scale d))])] @
            (case d_flow_shift d of None \<Rightarrow> [] | Some s \<Rightarrow> [(''flow_shift'', JFloat s)]);
          job = [(''prompt'', JStr prompt), (''width'', JInt width), (''height'', JInt height),
            (''video_frames'', JInt (frames_of seconds fps)), (''fps'', JInt fps), (''seed'', JInt (-1)),
            (''sample_params'', JObj params), (''output_format'', JStr ''webm'')] in
      case dict_get (d_components d) ''spatial_upscaler'' of
        None \<Rightarrow> job
      | Some upscaler \<Rightarrow>
          dict_set ''hires'' (JObj ([(''enabled'', JBool True), (''upscaler'', JStr (stem (basename (cp_path upscaler))))] @
              (case d_upscale_sigmas d of None \<Rightarrow> []
               | Some ss \<Rightarrow> if ss = [] then [] else [(''custom_sigmas'', JArr (map JFloat ss))])))
            (dict_set ''height'' (JInt (height div 2)) (dict_set ''width'' (JInt (width div 2)) job)))"

definition job_request :: "(string \<Rightarrow> json option) \<Rightarrow> int \<Rightarrow> string \<Rightarrow> deployment \<Rightarrow>
    video_error + (string, json) dict \<times> (string, json) dict" where
  "job_request loads now body d =
     (case loads (if body = [] then ''{}'' else body) of
        None \<Rightarrow> Inl (VideoError 400 ''the request is not JSON'')
      | Some request \<Rightarrow>
          if \<not> is_obj request then Inl (VideoError 400 ''the request is a JSON object'')
          else case str_of (obj_get request ''prompt'') of
            None \<Rightarrow> Inl (VideoError 400 ''prompt is required'')
          | Some prompt \<Rightarrow>
              if strip prompt = [] then Inl (VideoError 400 ''prompt is required'')
              else if MAX_PROMPT < length prompt
              then Inl (VideoError 400 (''prompt is at most '' @ show_nat MAX_PROMPT @ '' characters''))
              else (case d_seconds d of
                  None \<Rightarrow> Inl (Crash (TypeError ''no reviewed length''))
                | Some reviewed \<Rightarrow>
                    and_then (seconds_of (obj_get request ''seconds'') reviewed) (\<lambda>seconds.
                    and_then (size_of (obj_get request ''size'') (d_size d)
                        (if dict_get (d_components d) ''spatial_upscaler'' \<noteq> None then 64 else 32)) (\<lambda>(width, height).
                    case d_fps d of
                      None \<Rightarrow> Inl (Crash (TypeError ''no frame rate''))
                    | Some fps \<Rightarrow> Inr (job_fields d prompt seconds fps width height,
                        [(''object'', JStr ''video''), (''model'', JStr (d_served_model_name d)),
                         (''status'', JStr ''queued''), (''progress'', JInt 0), (''created_at'', JInt now),
                         (''size'', JStr (show_int width @ ''x'' @ show_int height)),
                         (''seconds'', JStr (show_int seconds))])))))"

section \<open>What the caller is told of a job\<close>

definition STATUSES :: "(string, string) dict" where
  "STATUSES = [(''queued'', ''queued''), (''generating'', ''in_progress''), (''completed'', ''completed'')]"

text \<open>
  \<open>STATUSES.get(value, "failed")\<close>: an unhashable value is a \<open>TypeError\<close>. A field read with
  \<open>get\<close> on what is not an object is an \<open>AttributeError\<close>, which no handler here turns into an answer.
\<close>

definition status_name :: "json \<Rightarrow> py_error + string" where
  "status_name v = (case v of JStr s \<Rightarrow> Inr (case dict_get STATUSES s of Some t \<Rightarrow> t | None \<Rightarrow> ''failed'')
     | JArr _ \<Rightarrow> Inl (TypeError ''unhashable'') | JObj _ \<Rightarrow> Inl (TypeError ''unhashable'') | _ \<Rightarrow> Inr ''failed'')"

definition no_get :: py_error where
  "no_get = TypeError ''no attribute get''"

definition get_or :: "json \<Rightarrow> string \<Rightarrow> json \<Rightarrow> json" where
  "get_or v key fallback = (case v of JObj kvs \<Rightarrow> (case dict_get kvs key of Some x \<Rightarrow> x | None \<Rightarrow> fallback) | _ \<Rightarrow> fallback)"

text \<open>\<open>py_str\<close> is \<open>str\<close> of a value that is not a text, as an f-string writes it.\<close>

definition video_of :: "(string \<Rightarrow> string \<Rightarrow> string) \<Rightarrow> (json \<Rightarrow> string) \<Rightarrow> string \<Rightarrow> string \<Rightarrow> json \<Rightarrow>
    video_error + (string, json) dict" where
  "video_of hmac_hex py_str secret served_model_name job =
     (if \<not> is_obj job then Inl (Crash no_get)
      else case status_name (obj_get job ''status'') of
        Inl e \<Rightarrow> Inl (Crash e)
      | Inr status \<Rightarrow>
          let ident = get_or job ''id'' (JStr []);
              video = [(''id'', JStr (video_id hmac_hex secret served_model_name
                    (case ident of JStr s \<Rightarrow> s | _ \<Rightarrow> py_str ident))),
                (''object'', JStr ''video''), (''model'', JStr served_model_name), (''status'', JStr status),
                (''progress'', JInt (if status = ''completed'' then 100 else 0)), (''created_at'', obj_get job ''created'')] @
                (if truthy (obj_get job ''completed'') \<and> status = ''completed''
                 then [(''completed_at'', obj_get job ''completed'')] else []) in
          if status \<noteq> ''failed'' then Inr video
          else let error = (if truthy (obj_get job ''error'') then obj_get job ''error'' else JObj []) in
            if \<not> is_obj error then Inl (Crash no_get)
            else Inr (video @ [(''error'', JObj [(''code'', get_or error ''code'' (JStr ''generation_failed'')),
              (''message'', get_or error ''message'' (JStr ''the video was not made''))])]))"

definition content_of :: "json \<Rightarrow> video_error + string \<times> json" where
  "content_of job =
     (if \<not> is_obj job then Inl (Crash no_get)
      else if obj_get job ''status'' \<noteq> JStr ''completed'' then Inl (VideoError 409 ''the video is not ready'')
      else let result = (if truthy (obj_get job ''result'') then obj_get job ''result'' else JObj []) in
        if \<not> is_obj result then Inl (Crash no_get)
        else let encoded = (if truthy (obj_get result ''b64_json'') then obj_get result ''b64_json'' else JStr []) in
          case str_of encoded of
            None \<Rightarrow> Inl (Crash (TypeError ''a bytes-like object or ASCII string is required''))
          | Some text \<Rightarrow> (case b64decode True text of
              None \<Rightarrow> Inl (VideoError 502 ''the engine returned an unreadable video'')
            | Some data \<Rightarrow> if data = [] then Inl (VideoError 502 ''the engine returned no video'')
                else Inr (data, if truthy (obj_get result ''mime_type'') then obj_get result ''mime_type''
                  else JStr ''video/webm'')))"

section \<open>The engine is asked for what was reviewed\<close>

lemma frames_shape:
  assumes "1 \<le> seconds" "1 \<le> fps"
  shows "frames_of seconds fps mod 4 = 1" "5 \<le> frames_of seconds fps"
    "frames_of seconds fps \<le> max 5 (seconds * fps)" "seconds * fps < frames_of seconds fps + 4"
proof -
  let ?n = "seconds * fps"
  have "1 * 1 \<le> ?n" using assms by (intro mult_mono) auto
  moreover have "(?n - 1) mod 4 < 4" "0 \<le> (?n - 1) mod 4" by simp_all
  ultimately show "5 \<le> frames_of seconds fps" "frames_of seconds fps \<le> max 5 ?n" "?n < frames_of seconds fps + 4"
    by (auto simp: frames_of_def Let_def max_def)
  have "(?n - (?n - 1) mod 4) mod 4 = 1"
    using mod_diff_right_eq [of ?n "?n - 1" 4] by simp
  then show "frames_of seconds fps mod 4 = 1" by (auto simp: frames_of_def Let_def max_def)
qed

lemma seconds_accepted:
  "seconds_of v reviewed = Inr seconds \<Longrightarrow> 1 \<le> reviewed \<Longrightarrow> 1 \<le> seconds \<and> seconds \<le> reviewed"
  by (auto simp: seconds_of_def Let_def split: if_splits option.splits)

lemma size_groups_nonneg: "size_groups s = Some (w, h) \<Longrightarrow> 0 \<le> w \<and> 0 \<le> h"
  by (auto simp: size_groups_def Let_def split: option.splits list.splits if_splits)

lemma size_accepted:
  assumes "size_of v (Some r) multiple = Inr (width, height)" "size_groups r = Some (w, h)"
  shows "width mod multiple = 0 \<and> height mod multiple = 0 \<and> width * height \<le> w * h \<and> 0 \<le> width \<and> 0 \<le> height"
proof -
  obtain t where "size_groups t = Some (width, height)"
    using assms by (auto simp: size_of_def Let_def split: if_splits option.splits)
  then show ?thesis
    using assms size_groups_nonneg by (auto simp: size_of_def Let_def split: if_splits option.splits)
qed

lemma size_match_groups: "size_match s \<Longrightarrow> \<exists>w h. size_groups s = Some (w, h)"
  by (auto simp: size_match_def size_groups_def split: list.splits)

lemma video_record:
  assumes "make_deployment sha256 d0 = Inr d" "d_kind d = Video"
  shows "\<exists>f s r w h. d_fps d = Some f \<and> 1 \<le> f \<and> d_seconds d = Some s \<and> 1 \<le> s \<and> s \<le> 10 \<and>
    d_size d = Some r \<and> size_groups r = Some (w, h)"
proof -
  obtain e where d: "d = normalized e"
    using assms by (auto simp: make_deployment_def and_then_Inr guarded_Inr kind_options_Inr normalized_def)
  with assms(2) have "d_kind e = Video" by simp
  with d obtain f s r where some: "d_fps d = Some f" "d_seconds d = Some s" "d_size d = Some r"
    by (simp add: fill_defs)
  moreover have "fields_ok d" using make_deployment_checks(6) [OF assms(1)] .
  ultimately have "1 \<le> f" "1 \<le> s" "s \<le> 10" "size_match r"
    by (auto simp: fields_ok_def options_in_range_def opt_in_def)
  with some show ?thesis using size_match_groups [of r] by blast
qed

lemma job_request_parts:
  assumes "job_request loads now body d = Inr (job, video)"
  shows "\<exists>request prompt reviewed seconds width height fps. d_seconds d = Some reviewed \<and> d_fps d = Some fps \<and>
    seconds_of (obj_get request ''seconds'') reviewed = Inr seconds \<and>
    size_of (obj_get request ''size'') (d_size d)
      (if dict_get (d_components d) ''spatial_upscaler'' \<noteq> None then 64 else 32) = Inr (width, height) \<and>
    job = job_fields d prompt seconds fps width height"
  using assms
  by (auto simp: job_request_def and_then_Inr split: option.splits if_splits; blast)

lemma job_fields_get:
  "dict_get (job_fields d prompt seconds fps width height) ''video_frames'' = Some (JInt (frames_of seconds fps))"
  "dict_get (job_fields d prompt seconds fps width height) ''width'' =
     Some (JInt (if dict_get (d_components d) ''spatial_upscaler'' = None then width else width div 2))"
  "dict_get (job_fields d prompt seconds fps width height) ''height'' =
     Some (JInt (if dict_get (d_components d) ''spatial_upscaler'' = None then height else height div 2))"
  by (auto simp: job_fields_def Let_def split: option.splits)

lemma halves:
  fixes a b n :: int
  assumes "0 \<le> a" "0 \<le> b" "a mod 64 = 0" "b mod 64 = 0" "a * b \<le> n"
  shows "a div 2 mod 32 = 0" "b div 2 mod 32 = 0" "a div 2 * (b div 2) \<le> n"
proof -
  show "a div 2 mod 32 = 0" "b div 2 mod 32 = 0" using assms(3,4) by presburger+
  have "a div 2 \<le> a" "b div 2 \<le> b" "0 \<le> b div 2" using assms(1,2) by linarith+
  then have "a div 2 * (b div 2) \<le> a * b" using assms(1) by (intro mult_mono) auto
  with assms(5) show "a div 2 * (b div 2) \<le> n" by simp
qed


definition clip_body :: json where
  "clip_body = JObj [(''prompt'', JStr ''a cat''), (''seconds'', JStr '' 1 ''), (''size'', JStr ''1280x640'')]"

lemma clip_job: "job_request (\<lambda>_. Some clip_body) 7 ''b'' clip_recorded =
    Inr (job_fields clip_recorded ''a cat'' 1 16 1280 640,
     [(''object'', JStr ''video''), (''model'', JStr ''a''), (''status'', JStr ''queued''), (''progress'', JInt 0),
      (''created_at'', JInt 7), (''size'', JStr ''1280x640''), (''seconds'', JStr ''1'')])"
  by code_simp


definition demo_hmac :: "string \<Rightarrow> string \<Rightarrow> string" where
  "demo_hmac secret message = (if secret = message then [] else replicate 64 (CHR ''a''))"

lemma demo_hexes: "hexes demo_hmac"
  by (auto simp: hexes_def demo_hmac_def list_all_iff is_hex_lower_def is_digit_def code_def)

lemma only_signed_ids_lead_to_jobs_witness:
  "job_of demo_hmac ''s'' ''m'' (video_id demo_hmac ''s'' ''m'' ''5'') = Inr ''5'' \<and>
   job_of demo_hmac ''s'' ''m'' ''video_bS81L2I'' \<noteq> Inr ''5''"
proof
  have job: "JOB ''5''" and utf8: "utf8_ok ''m''" by code_simp+
  note iff = only_signed_ids_lead_to_jobs [OF demo_hexes utf8]
  show "job_of demo_hmac ''s'' ''m'' (video_id demo_hmac ''s'' ''m'' ''5'') = Inr ''5''"
    unfolding iff using job b64_decode_encode [of "signed_text demo_hmac ''s'' ''m'' ''5''"]
    by (simp add: video_id_def signed_text_def)
  have "urlsafe_b64decode (drop 6 ''video_bS81L2I'' @ padding (drop 6 ''video_bS81L2I'')) = Some ''m/5/b''"
    by code_simp
  moreover have "length (signature demo_hmac ''s'' ''m'' ''5'') = 32"
    by (simp add: signature_def demo_hmac_def)
  ultimately show "job_of demo_hmac ''s'' ''m'' ''video_bS81L2I'' \<noteq> Inr ''5''"
    unfolding iff by (auto dest: arg_cong [of _ _ length])
qed

end
