(* ===== verification/ManagedFiles.thy ===== *)
theory ManagedFiles
  imports DeploymentCommand Json
begin

text \<open>
  The files deployments are made of: \<open>lazarus/agent/config.py\<close>'s native model identities and retired
  keys, \<open>lazarus/agent/server.py\<close>'s resolution of artifacts inside the managed model directory, and
  \<open>lazarus/agent/deployments.py\<close>'s checks before a child is started and when one is asked for. Texts
  are their UTF-8 bytes. SHA-256's hex digest is the argument \<open>sha256\<close>.
\<close>

section \<open>Identities\<close>

definition MAX_NATIVE_MODEL_IDENTITY_BYTES :: nat where
  "MAX_NATIVE_MODEL_IDENTITY_BYTES = 512"

text \<open>A control character: below 32, 127, or one of U+0080 to U+009F, which UTF-8 writes after \<open>0xC2\<close>.\<close>

fun has_control :: "string \<Rightarrow> bool" where
  "has_control [] = False"
| "has_control (c # cs) =
     (code c < 32 \<or> code c = 127 \<or>
      (code c = 194 \<and> (case cs of d # _ \<Rightarrow> 128 \<le> code d \<and> code d \<le> 159 | [] \<Rightarrow> False)) \<or> has_control cs)"

definition valid_native_model_identity :: "string \<Rightarrow> bool" where
  "valid_native_model_identity v \<longleftrightarrow>
     prefix ''/models/'' v \<and> length v \<le> MAX_NATIVE_MODEL_IDENTITY_BYTES \<and> \<not> has_control v \<and>
     list_all (\<lambda>w. w \<notin> {[], ''.'', ''..''} \<and> length w \<le> 255) (split_on slash (drop 8 v))"

definition RETIRED_KEYS :: "string list" where
  "RETIRED_KEYS = [''roles'', ''embeddinggemma'', ''slimserve_generation'', ''runtime_instance_id'', ''deployment_id'']"

definition drop_retired_keys :: "json \<Rightarrow> json" where
  "drop_retired_keys data =
     (case data of JObj kvs \<Rightarrow> if \<exists>key \<in> set RETIRED_KEYS. dict_get kvs key \<noteq> None
        then JObj (filter (\<lambda>kv. fst kv \<notin> set RETIRED_KEYS) kvs) else data
      | _ \<Rightarrow> data)"

section \<open>The host's files\<close>

text \<open>
  The nodes a path leads to without passing a link, by the components below \<open>/\<close>, and what reading a
  path returns, links followed (\<open>None\<close>: an \<open>OSError\<close>). Reading a regular file gives its bytes.
\<close>

datatype fnode = Regular string | Folder | Symlink

record host =
  h_node :: "(string list, fnode) dict"
  h_read :: "string list \<Rightarrow> string option"

definition host_ok :: "host \<Rightarrow> bool" where
  "host_ok h \<longleftrightarrow> distinct (map fst (h_node h)) \<and>
     (\<forall>(p, n) \<in> set (h_node h). (case n of Regular c \<Rightarrow> h_read h p = Some c | _ \<Rightarrow> True) \<and> list_all plain_component p)"

definition path_text :: "string list \<Rightarrow> string" where
  "path_text p = slash # join_with [slash] p"

fun links_on_way :: "host \<Rightarrow> string list \<Rightarrow> string list \<Rightarrow> bool" where
  "links_on_way h current [] = False"
| "links_on_way h current (w # ws) =
     (dict_get (h_node h) (current @ [w]) = Some Symlink \<or> links_on_way h (current @ [w]) ws)"

definition resolve_managed_path :: "host \<Rightarrow> string list \<Rightarrow> string list \<Rightarrow> py_error + string list" where
  "resolve_managed_path h mroot relative =
     guarded (check (links_on_way h mroot relative) (ValueError ''managed model paths cannot contain symlinks''))
     (guarded (check (dict_get (h_node h) (mroot @ relative) = None) (OSError ''no such file or directory''))
     (guarded (check (''..'' \<in> set relative) (ValueError ''model must use its exact managed local path''))
     (Inr (mroot @ relative))))"

definition is_file :: "host \<Rightarrow> string list \<Rightarrow> bool" where
  "is_file h p = (case dict_get (h_node h) p of Some (Regular _) \<Rightarrow> True | _ \<Rightarrow> False)"

text \<open>\<open>Path.suffix\<close>.\<close>

definition path_suffix :: "string \<Rightarrow> string" where
  "path_suffix n =
     (let ws = split_on (CHR ''.'') n in
      if 2 \<le> length ws \<and> last ws \<noteq> [] \<and> length (last ws) + 1 < length n then CHR ''.'' # last ws else [])"

definition digest_of :: "(string \<Rightarrow> string) \<Rightarrow> host \<Rightarrow> string list \<Rightarrow> py_error + string" where
  "digest_of sha256 h p = (case h_read h p of None \<Rightarrow> Inl (OSError ''cannot be read'') | Some c \<Rightarrow> Inr (sha256 c))"

definition not_canonical :: py_error where
  "not_canonical = ValueError ''artifact must use a bounded canonical relative native model path''"

definition resolve_model ::
    "(string \<Rightarrow> string) \<Rightarrow> host \<Rightarrow> string list \<Rightarrow> string \<Rightarrow> string \<Rightarrow> string list \<Rightarrow> py_error + string list" where
  "resolve_model sha256 h mroot artifact expected allowed =
     guarded (check (\<not> valid_native_model_identity (''/models/'' @ artifact)) not_canonical)
     (and_then (resolve_managed_path h mroot (path_parts artifact)) (\<lambda>model.
     guarded (check (\<not> is_file h model)
       (ValueError ''artifact must resolve to a model file within the managed model directory''))
     (guarded (check (lower (path_suffix (last model)) \<notin> set allowed)
       (ValueError (''Metal artifacts must be '' @ join_with '' or '' allowed @ '' files'')))
     (and_then (digest_of sha256 h model) (\<lambda>digest.
     guarded (check (digest \<noteq> lower expected) (ValueError ''artifact checksum does not match sha256''))
     (Inr model))))))"

text \<open>\<open>directory.rglob("*")\<close>: everything below it, links reported and not followed.\<close>

definition below :: "string list \<Rightarrow> string list \<Rightarrow> bool" where
  "below d p \<longleftrightarrow> prefix d p \<and> p \<noteq> d"

definition snapshot_holds_its_pins :: "host \<Rightarrow> string list \<Rightarrow> (string, string) dict \<Rightarrow> py_error option" where
  "snapshot_holds_its_pins h d files =
     (let found = filter (\<lambda>(p, n). below d p) (h_node h);
          present = map (\<lambda>(p, n). join_with [slash] (drop (length d) p))
            (filter (\<lambda>(p, n). (case n of Regular _ \<Rightarrow> True | _ \<Rightarrow> False)) found) in
      run_checks [
        check (\<exists>(p, n) \<in> set found. n = Symlink) (ValueError ''an MLX snapshot holds its files themselves''),
        check (set present \<noteq> set (map fst files)) (ValueError ''the MLX snapshot does not hold its pins alone'')])"

fun pins_resolved ::
    "(string \<Rightarrow> string) \<Rightarrow> host \<Rightarrow> string list \<Rightarrow> string list \<Rightarrow> (string, string) dict \<Rightarrow> py_error option" where
  "pins_resolved sha256 h mroot artifact [] = None"
| "pins_resolved sha256 h mroot artifact ((name, expected) # rest) =
     (case resolve_managed_path h mroot (artifact @ path_parts name) of
        Inl e \<Rightarrow> Some e
      | Inr f \<Rightarrow>
          if \<not> is_file h f then Some (ValueError (name @ '' is not in the snapshot''))
          else (case digest_of sha256 h f of
              Inl e \<Rightarrow> Some e
            | Inr digest \<Rightarrow> if digest \<noteq> lower expected then Some (ValueError (name @ '' does not match its sha256''))
                else pins_resolved sha256 h mroot artifact rest))"

definition resolve_snapshot ::
    "(string \<Rightarrow> string) \<Rightarrow> host \<Rightarrow> string list \<Rightarrow> string \<Rightarrow> (string, string) dict \<Rightarrow> py_error + string list" where
  "resolve_snapshot sha256 h mroot artifact files =
     guarded (check (\<not> valid_native_model_identity (''/models/'' @ artifact)) not_canonical)
     (and_then (resolve_managed_path h mroot (path_parts artifact)) (\<lambda>d.
     guarded (check (dict_get (h_node h) d \<noteq> Some Folder)
       (ValueError ''an MLX artifact must resolve to a snapshot directory within the managed model directory''))
     (guarded (snapshot_holds_its_pins h d files)
     (guarded (pins_resolved sha256 h mroot (path_parts artifact) files)
     (Inr d)))))"

definition observed_model :: "host \<Rightarrow> string list \<Rightarrow> string \<Rightarrow> bool \<Rightarrow> py_error + string" where
  "observed_model h mroot model_path directory =
     guarded (check (\<not> is_absolute model_path \<or> path_str model_path \<noteq> model_path \<or> ''..'' \<in> set (path_parts model_path))
       (ValueError ''observed model must use a canonical absolute path''))
     (guarded (check (path_root model_path \<noteq> [slash] \<or> \<not> prefix mroot (path_tail model_path))
       (ValueError ''not in the subpath of the model directory''))
     (let relative = drop (length mroot) (path_tail model_path);
          identity = ''/models/'' @ (if relative = [] then ''.'' else join_with [slash] relative) in
      guarded (check (\<not> valid_native_model_identity identity)
        (ValueError ''native model identity must use at most 512 UTF-8 bytes and canonical path components''))
      (and_then (resolve_managed_path h mroot relative) (\<lambda>p.
      guarded (check (\<not> (if directory then dict_get (h_node h) p = Some Folder else is_file h p))
        (ValueError ''observed model must be a managed local file, or an MLX snapshot's directory''))
      (Inr identity)))))"

section \<open>The files of a request, and of a record\<close>

definition WEIGHT_SUFFIXES :: "string list" where
  "WEIGHT_SUFFIXES = [''.gguf'', ''.safetensors'']"

definition weight_suffixes :: "kind \<Rightarrow> string list" where
  "weight_suffixes k = (case k of Image \<Rightarrow> WEIGHT_SUFFIXES | Video \<Rightarrow> WEIGHT_SUFFIXES | Transcription \<Rightarrow> [''.bin'']
     | Speech \<Rightarrow> [''.onnx''] | _ \<Rightarrow> [''.gguf''])"

definition component_suffixes :: "kind \<Rightarrow> string list" where
  "component_suffixes k = (if k = Speech then [''.json''] else weight_suffixes k)"

fun resolve_components ::
    "(string \<Rightarrow> string) \<Rightarrow> host \<Rightarrow> string list \<Rightarrow> string list \<Rightarrow> (string, component_request) dict \<Rightarrow>
     py_error + (string, component) dict" where
  "resolve_components sha256 h mroot allowed [] = Inr []"
| "resolve_components sha256 h mroot allowed (nc # rest) =
     and_then (resolve_model sha256 h mroot (cr_artifact (snd nc)) (cr_sha256 (snd nc)) allowed) (\<lambda>p.
     and_then (resolve_components sha256 h mroot allowed rest) (\<lambda>cs. Inr (component_of nc (path_text p) # cs)))"

text \<open>\<open>apply_deployment\<close> up to the transition; \<open>mlx_installed\<close> is whether \<open>mlx_engine()\<close> finds mlx-lm.\<close>

definition apply_deployment ::
    "(string \<Rightarrow> string) \<Rightarrow> host \<Rightarrow> string list \<Rightarrow> agent_config \<Rightarrow> bool \<Rightarrow> deployment_request \<Rightarrow>
     py_error + string \<times> string option \<times> (string, component) dict" where
  "apply_deployment sha256 h mroot cfg mlx_installed r =
     guarded (run_checks [
       check (r_slimserve r \<noteq> None \<and> ac_slimserve cfg = []) (ValueError ''SlimServe is not installed on this host''),
       check (r_engine r = Some EMBEDDINGGEMMA \<and> ac_embeddinggemma_server cfg = [])
         (ValueError ''embeddinggemma.c is not installed on this host''),
       check (r_mlx r \<noteq> None \<and> \<not> mlx_installed) (ValueError ''mlx-lm is not installed on this host'')])
     (let allowed = weight_suffixes (r_kind r) in
      and_then (case r_mlx r of Some m \<Rightarrow> resolve_snapshot sha256 h mroot (r_artifact r) (mx_files m)
         | None \<Rightarrow> resolve_model sha256 h mroot (r_artifact r) (r_sha256 r) allowed) (\<lambda>model.
      and_then (case r_mmproj r of
           None \<Rightarrow> Inr None
         | Some a \<Rightarrow> if a = [] then Inr None
             else (case r_mmproj_sha256 r of None \<Rightarrow> Inl (TypeError ''no checksum to compare'')
               | Some s \<Rightarrow> and_then (resolve_model sha256 h mroot a s allowed) (\<lambda>p. Inr (Some (path_text p))))) (\<lambda>mmproj.
      and_then (resolve_components sha256 h mroot (component_suffixes (r_kind r)) (r_components r)) (\<lambda>components.
      Inr (path_text model, mmproj, components)))))"

definition file_digest :: "(string \<Rightarrow> string) \<Rightarrow> host \<Rightarrow> string \<Rightarrow> py_error + string" where
  "file_digest sha256 h text = digest_of sha256 h (path_tail text)"

text \<open>One file against its recorded checksum.\<close>

definition matches :: "(string \<Rightarrow> string) \<Rightarrow> host \<Rightarrow> string \<Rightarrow> string \<Rightarrow> py_error option" where
  "matches sha256 h text expected =
     (case file_digest sha256 h text of Inl e \<Rightarrow> Some e
      | Inr digest \<Rightarrow> check (digest \<noteq> expected) (ValueError (text @ '' no longer matches its recorded checksum'')))"

definition verify_deployment_files :: "(string \<Rightarrow> string) \<Rightarrow> host \<Rightarrow> deployment \<Rightarrow> py_error option" where
  "verify_deployment_files sha256 h d =
     (case d_mlx d of
        Some m \<Rightarrow> run_checks (snapshot_holds_its_pins h (path_tail (d_model_path d)) (mx_files m) #
          map (\<lambda>(name, digest). matches sha256 h (d_model_path d @ ''/'' @ name) digest) (mx_files m))
      | None \<Rightarrow> run_checks ([
          matches sha256 h (d_model_path d) (lower (d_sha256 d)),
          (case (d_mmproj_path d, d_mmproj_sha256 d) of
             (Some p, Some s) \<Rightarrow> if p \<noteq> [] \<and> s \<noteq> [] then matches sha256 h p (lower s) else None
           | _ \<Rightarrow> None)] @
          map (\<lambda>(name, c). matches sha256 h (cp_path c) (lower (cp_sha256 c))) (d_components d)))"

section \<open>What resolution promises\<close>

lemma path_tail_text:
  assumes "list_all plain_component p"
  shows "path_tail (path_text p) = p"
proof -
  have p: "\<forall>w \<in> set p. plain_component w" using assms by (simp add: list_all_iff)
  have head: "join_with [slash] p = [] \<or> hd (join_with [slash] p) \<noteq> slash"
    using plain_head [OF p] by (cases "p = []") auto
  have "path_root (path_text p) = [slash]" using root_single [OF head] by (simp add: path_text_def)
  then show ?thesis
    using plain_tail [OF p] by (cases "p = []") (simp_all add: path_tail_def path_text_def)
qed

lemma host_regular:
  assumes "host_ok h" "is_file h p"
  shows "\<exists>c. dict_get (h_node h) p = Some (Regular c) \<and> h_read h p = Some c \<and> list_all plain_component p"
  using assms by (force simp: host_ok_def is_file_def split: option.splits fnode.splits dest: map_of_SomeD)

lemma host_plain:
  "host_ok h \<Longrightarrow> dict_get (h_node h) p = Some n \<Longrightarrow> list_all plain_component p"
  by (force simp: host_ok_def dest: map_of_SomeD)

lemma resolve_managed_Inr:
  "resolve_managed_path h mroot relative = Inr p \<longleftrightarrow>
     \<not> links_on_way h mroot relative \<and> dict_get (h_node h) p \<noteq> None \<and> ''..'' \<notin> set relative \<and> p = mroot @ relative"
  by (auto simp: resolve_managed_path_def guarded_Inr check_None)

lemma resolve_model_Inr:
  assumes "host_ok h" "resolve_model sha256 h mroot artifact expected allowed = Inr p"
  shows "\<exists>c. p = mroot @ path_parts artifact \<and> dict_get (h_node h) p = Some (Regular c) \<and> h_read h p = Some c \<and>
    sha256 c = lower expected \<and> list_all plain_component p \<and> \<not> links_on_way h mroot (path_parts artifact) \<and>
    lower (path_suffix (last p)) \<in> set allowed"
proof -
  have "is_file h p" and d: "digest_of sha256 h p = Inr (lower expected)"
    and "p = mroot @ path_parts artifact" "\<not> links_on_way h mroot (path_parts artifact)"
      "lower (path_suffix (last p)) \<in> set allowed"
    using assms(2)
    by (auto simp: resolve_model_def guarded_Inr check_None and_then_Inr resolve_managed_Inr)
  moreover from host_regular [OF assms(1) this(1)] obtain c where
      "dict_get (h_node h) p = Some (Regular c)" "h_read h p = Some c" "list_all plain_component p" by blast
  ultimately show ?thesis by (simp add: digest_of_def)
qed

lemma matches_read:
  "list_all plain_component p \<Longrightarrow> h_read h p = Some c \<Longrightarrow> sha256 c = expected \<Longrightarrow>
   matches sha256 h (path_text p) expected = None"
  by (simp add: matches_def file_digest_def path_tail_text digest_of_def check_None)

lemma resolved_model_matches:
  assumes "host_ok h" "resolve_model sha256 h mroot artifact expected allowed = Inr p"
  shows "matches sha256 h (path_text p) (lower expected) = None"
  using resolve_model_Inr [OF assms] matches_read by metis

lemma components_match:
  assumes "host_ok h"
  shows "resolve_components sha256 h mroot allowed ncs = Inr components \<Longrightarrow> (name, c) \<in> set components \<Longrightarrow>
    matches sha256 h (cp_path c) (lower (cp_sha256 c)) = None"
proof (induction ncs arbitrary: components)
  case (Cons nc ncs)
  then obtain p cs where p: "resolve_model sha256 h mroot (cr_artifact (snd nc)) (cr_sha256 (snd nc)) allowed = Inr p"
      and cs: "resolve_components sha256 h mroot allowed ncs = Inr cs"
      and "components = component_of nc (path_text p) # cs"
    by (auto simp: and_then_Inr)
  then show ?case
    using Cons.IH [OF cs] Cons.prems(2) resolved_model_matches [OF assms p]
    by (auto simp: component_of_def lower_idem)
qed simp

lemma parts_join:
  assumes "\<forall>w \<in> set ws. plain_component w" "ws \<noteq> []"
  shows "path_parts (join_with [slash] ws) = ws"
proof -
  have "path_root (join_with [slash] ws) = []"
    using plain_head [OF assms] by (intro root_relative) simp
  then show ?thesis using plain_tail [OF assms] by (simp add: path_parts_def path_tail_def)
qed

lemma identity_parts:
  assumes "valid_native_model_identity (''/models/'' @ artifact)"
  shows "path_parts artifact = split_on slash artifact" "\<forall>w \<in> set (split_on slash artifact). plain_component w"
proof -
  show p: "\<forall>w \<in> set (split_on slash artifact). plain_component w"
    using assms split_on_no_sep [of _ slash artifact]
    by (auto simp: valid_native_model_identity_def list_all_iff plain_component_def)
  show "path_parts artifact = split_on slash artifact"
    using parts_join [OF p] by simp
qed

lemma join_append:
  "xs \<noteq> [] \<Longrightarrow> ys \<noteq> [] \<Longrightarrow> join_with sep (xs @ ys) = join_with sep xs @ sep @ join_with sep ys"
  by (induction xs rule: list_nonempty_induct) (simp_all add: join_with_Cons)

lemma text_below:
  assumes "d \<noteq> []" "ws \<noteq> []"
  shows "path_text d @ ''/'' @ join_with [slash] ws = path_text (d @ ws)"
  using join_append [OF assms, of "[slash]"] by (simp add: path_text_def slash_def)

lemma pins_match:
  assumes ok: "host_ok h" and d: "artifact \<noteq> []"
  shows "pins_resolved sha256 h mroot artifact files = None \<Longrightarrow> \<forall>(name, x) \<in> set files. canonical_relative name \<Longrightarrow>
    \<forall>(name, expected) \<in> set files.
      matches sha256 h (path_text (mroot @ artifact) @ ''/'' @ name) (lower expected) = None"
proof (induction files)
  case (Cons f files)
  obtain name expected where f: "f = (name, expected)" by fastforce
  let ?p = "mroot @ artifact @ path_parts name"
  have there: "is_file h ?p" and digest: "digest_of sha256 h ?p = Inr (lower expected)"
    and rest: "pins_resolved sha256 h mroot artifact files = None"
    using Cons.prems(1) by (auto simp: f resolve_managed_Inr split: sum.splits if_splits)
  obtain c where c: "h_read h ?p = Some c" "list_all plain_component ?p"
    using host_regular [OF ok there] by blast
  obtain ws where ws: "ws \<noteq> []" "\<forall>w \<in> set ws. plain_component w" "name = join_with [slash] ws"
    using Cons.prems(2) by (auto simp: f canonical_relative_iff)
  have "path_text (mroot @ artifact) @ ''/'' @ name = path_text ?p"
    using text_below [of "mroot @ artifact" ws] d ws parts_join [OF ws(2,1)] by simp
  then have "matches sha256 h (path_text (mroot @ artifact) @ ''/'' @ name) (lower expected) = None"
    using c digest matches_read [of ?p h c sha256 "lower expected"] by (simp add: digest_of_def)
  then show ?case using Cons.IH [OF rest] Cons.prems(2) by (auto simp: f)
qed simp

lemma request_pins:
  assumes "read_request sha256 r0 = Inr r" "r_mlx r = Some m"
  shows "\<forall>(name, x) \<in> set (mx_files m). canonical_relative name \<and> lower x = x"
proof -
  obtain m0 where "pinned_files m0 = Inr (mx_files m)"
    using assms by (auto simp: read_request_def read_mlx_def and_then_Inr guarded_Inr Let_def split: option.splits)
  then show ?thesis by (auto simp: pinned_files_Inr pin_check_def run_checks_None check_None lower_idem)
qed

text \<open>
  C21. Only managed files are served: what an artifact resolves to is the file of that name inside the
  managed model directory, a regular file no link leads through, of a suffix its loader takes, whose
  bytes have the requested checksum.
\<close>

theorem artifact_is_managed_file:
  assumes "host_ok h" "resolve_model sha256 h mroot artifact expected allowed = Inr p"
  shows "p = mroot @ split_on slash artifact \<and> (\<forall>w \<in> set (split_on slash artifact). plain_component w) \<and>
    \<not> links_on_way h mroot (split_on slash artifact) \<and> lower (path_suffix (last p)) \<in> set allowed \<and>
    (\<exists>content. dict_get (h_node h) p = Some (Regular content) \<and> sha256 content = lower expected)"
proof -
  have "valid_native_model_identity (''/models/'' @ artifact)"
    using assms(2) by (simp add: resolve_model_def guarded_Inr check_None)
  from identity_parts [OF this] show ?thesis using resolve_model_Inr [OF assms] by auto
qed

text \<open>
  A replacement is not started with files other than those it was asked for: when a request's
  files resolve, the candidate made of them passes the verification its child is started behind, as
  long as the files stay as they are.
\<close>

theorem resolved_files_verify:
  assumes "host_ok h" "read_request sha r0 = Inr r"
    and "apply_deployment sha256 h mroot cfg installed r = Inr (model, mmproj, components)"
  shows "verify_deployment_files sha256 h (candidate_of r model mmproj components port) = None"
proof -
  note ok = assms(1)
  have comps: "\<forall>(name, c) \<in> set components. matches sha256 h (cp_path c) (lower (cp_sha256 c)) = None"
  proof -
    obtain allowed where "resolve_components sha256 h mroot allowed (r_components r) = Inr components"
      using assms(3) by (auto simp: apply_deployment_def guarded_Inr and_then_Inr Let_def)
    then show ?thesis using components_match [OF ok] by blast
  qed
  show ?thesis
  proof (cases "r_mlx r")
    case None
    then obtain p where p: "resolve_model sha256 h mroot (r_artifact r) (r_sha256 r) (weight_suffixes (r_kind r)) = Inr p"
        "model = path_text p"
      using assms(3) by (auto simp: apply_deployment_def guarded_Inr and_then_Inr Let_def)
    have mm: "matches sha256 h q (lower s) = None" if "mmproj = Some q" "r_mmproj_sha256 r = Some s" for q s
      using assms(3) that resolved_model_matches [OF ok]
      by (auto simp: apply_deployment_def guarded_Inr and_then_Inr Let_def split: option.splits if_splits)
    show ?thesis
      using resolved_model_matches [OF ok p(1)] mm comps None
      by (auto simp: verify_deployment_files_def run_checks_None candidate_of_def p(2) lower_idem split: option.splits)
  next
    case (Some m)
    then obtain p where p: "resolve_snapshot sha256 h mroot (r_artifact r) (mx_files m) = Inr p" "model = path_text p"
      using assms(3) by (auto simp: apply_deployment_def guarded_Inr and_then_Inr Let_def)
    have valid: "valid_native_model_identity (''/models/'' @ r_artifact r)" and holds: "snapshot_holds_its_pins h p (mx_files m) = None"
      and pins: "pins_resolved sha256 h mroot (path_parts (r_artifact r)) (mx_files m) = None"
      and dir: "p = mroot @ path_parts (r_artifact r)" "dict_get (h_node h) p = Some Folder"
      using p(1) by (auto simp: resolve_snapshot_def guarded_Inr check_None and_then_Inr resolve_managed_Inr)
    have "path_parts (r_artifact r) \<noteq> []" using identity_parts(1) [OF valid] by simp
    note m = pins_match [OF ok this pins] and names = request_pins [OF assms(2) Some]
    have "path_tail model = p" using path_tail_text [OF host_plain [OF ok dir(2)]] by (simp add: p(2))
    moreover have "\<forall>(name, x) \<in> set (mx_files m). matches sha256 h (model @ ''/'' @ name) x = None"
      using m names by (fastforce simp: p(2) dir(1))
    ultimately show ?thesis
      using holds Some by (auto simp: verify_deployment_files_def run_checks_None candidate_of_def)
  qed
qed

definition demo_digest :: "string \<Rightarrow> string" where
  "demo_digest c = (if c = ''weights'' then replicate 64 (CHR ''a'') else [])"

definition demo_host :: host where
  "demo_host = \<lparr>h_node = [([], Folder), ([''m''], Folder), ([''m'', ''a.gguf''], Regular ''weights''), ([''m'', ''l.gguf''], Symlink)],
     h_read = (\<lambda>p. if p \<in> {[''m'', ''a.gguf''], [''m'', ''l.gguf'']} then Some ''weights'' else None)\<rparr>"

lemma demo_host_ok: "host_ok demo_host"
  by code_simp

lemma demo_resolved: "resolve_model demo_digest demo_host [''m''] ''a.gguf'' (replicate 64 (CHR ''A'')) [''.gguf''] = Inr [''m'', ''a.gguf'']"
  by code_simp

lemma artifact_is_managed_file_witness:
  "\<not> links_on_way demo_host [''m''] [''a.gguf''] \<and>
   (\<exists>content. dict_get (h_node demo_host) [''m'', ''a.gguf''] = Some (Regular content)) \<and>
   (\<exists>e. resolve_model demo_digest demo_host [''m''] ''l.gguf'' (replicate 64 (CHR ''A'')) [''.gguf''] = Inl e)"
proof -
  have "\<exists>e. resolve_model demo_digest demo_host [''m''] ''l.gguf'' (replicate 64 (CHR ''A'')) [''.gguf''] = Inl e"
  proof (cases "resolve_model demo_digest demo_host [''m''] ''l.gguf'' (replicate 64 (CHR ''A'')) [''.gguf'']")
    case (Inr p)
    have "links_on_way demo_host [''m''] (split_on slash ''l.gguf'')" by code_simp
    with artifact_is_managed_file [OF demo_host_ok Inr] show ?thesis by blast
  qed blast
  moreover have "split_on slash ''a.gguf'' = [''a.gguf'']" by code_simp
  ultimately show ?thesis using artifact_is_managed_file [OF demo_host_ok demo_resolved] by auto
qed

lemma resolved_files_verify_witness:
  "verify_deployment_files demo_digest demo_host
     (candidate_of bare_request ''/m/a.gguf'' None [] 9110) = None"
proof -
  have "read_request (\<lambda>_. []) bare_request = Inr bare_request" by code_simp
  moreover have "apply_deployment demo_digest demo_host [''m''] default_config False bare_request = Inr (''/m/a.gguf'', None, [])"
    by code_simp
  ultimately show ?thesis by (rule resolved_files_verify [OF demo_host_ok])
qed

end
