(* ===== verification/PyRegex.thy ===== *)
theory PyRegex
  imports Complex_Main Json
begin

text \<open>
  Python's \<open>re\<close>, as far as the program uses it: what an expression matches at a place, in the order
  the backtracking matcher tries it, and \<open>search\<close> and \<open>sub\<close> over a text. Repetition is only ever of
  one character of a class, so an expression's matches are a finite list. Texts are code points below
  256: \<open>is_space\<close> is \<open>\s\<close>, \<open>is_word\<close> is \<open>\w\<close> there, \<open>is_digit\<close> is \<open>\d\<close>.
\<close>

section \<open>Expressions\<close>

text \<open>
  \<open>Chars greedy p lo hi\<close> is \<open>[p]{lo,hi}\<close>, with \<open>?\<close> after it when not greedy; \<open>Keep n\<close> a numbered
  group and \<open>Again caseless n\<close> a reference to one; \<open>Behind\<close> and \<open>Ahead\<close> test the character before a
  place (none at the start) and the text after it: anchors, lookbehinds and lookaheads.
\<close>

datatype re =
    Chars bool "char \<Rightarrow> bool" nat "nat option"
  | Seq "re list"
  | Alt "re list"
  | Keep nat re
  | Again bool nat
  | Behind "char option \<Rightarrow> bool"
  | Ahead "string \<Rightarrow> bool"

record place =
  pl_prev :: "char option"
  pl_rest :: string
  pl_groups :: "(nat, string) dict"

definition place_at :: "char option \<Rightarrow> string \<Rightarrow> place" where
  "place_at prev rest = \<lparr>pl_prev = prev, pl_rest = rest, pl_groups = []\<rparr>"

definition advance :: "nat \<Rightarrow> place \<Rightarrow> place" where
  "advance k p =
     (if k = 0 then p else p\<lparr>pl_prev := Some (pl_rest p ! (k - 1)), pl_rest := drop k (pl_rest p)\<rparr>)"

text \<open>How many characters a repetition takes, in the order they are tried.\<close>

definition counts :: "bool \<Rightarrow> (char \<Rightarrow> bool) \<Rightarrow> nat \<Rightarrow> nat option \<Rightarrow> string \<Rightarrow> nat list" where
  "counts greedy p lo hi rest =
     (let n = length (takeWhile p rest);
          ks = [lo ..< Suc (case hi of None \<Rightarrow> n | Some h \<Rightarrow> min n h)]
      in if greedy then rev ks else ks)"

definition same_text :: "bool \<Rightarrow> string \<Rightarrow> string \<Rightarrow> bool" where
  "same_text caseless s t = (if caseless then lower s = lower t else s = t)"

definition between :: "place \<Rightarrow> place \<Rightarrow> string" where
  "between p q = take (length (pl_rest p) - length (pl_rest q)) (pl_rest p)"

fun run :: "re \<Rightarrow> place \<Rightarrow> place list" where
  "run (Chars greedy c lo hi) p = map (\<lambda>k. advance k p) (counts greedy c lo hi (pl_rest p))"
| "run (Seq []) p = [p]"
| "run (Seq (r # rs)) p = concat (map (run (Seq rs)) (run r p))"
| "run (Alt []) p = []"
| "run (Alt (r # rs)) p = run r p @ run (Alt rs) p"
| "run (Keep n r) p = map (\<lambda>q. q\<lparr>pl_groups := dict_set n (between p q) (pl_groups q)\<rparr>) (run r p)"
| "run (Again caseless n) p =
     (case dict_get (pl_groups p) n of
        None \<Rightarrow> []
      | Some s \<Rightarrow>
          if length s \<le> length (pl_rest p) \<and> same_text caseless s (take (length s) (pl_rest p))
          then [advance (length s) p] else [])"
| "run (Behind t) p = (if t (pl_prev p) then [p] else [])"
| "run (Ahead t) p = (if t (pl_rest p) then [p] else [])"

definition match_at :: "re \<Rightarrow> place \<Rightarrow> place option" where
  "match_at r p = (case run r p of [] \<Rightarrow> None | q # _ \<Rightarrow> Some q)"

section \<open>Search and substitution\<close>

text \<open>\<open>re.search\<close>: the leftmost match, as the place it ends at.\<close>

fun re_search :: "re \<Rightarrow> char option \<Rightarrow> string \<Rightarrow> place option" where
  "re_search r prev rest =
     (case match_at r (place_at prev rest) of
        Some q \<Rightarrow> Some q
      | None \<Rightarrow> (case rest of [] \<Rightarrow> None | c # cs \<Rightarrow> re_search r (Some c) cs))"

text \<open>
  \<open>re.sub\<close> for an expression that never matches the empty text: what a match leaves (\<open>f\<close> of the place it
  ends at) replaces it, and the scan goes on behind it.
\<close>

function sub_from :: "re \<Rightarrow> (place \<Rightarrow> string) \<Rightarrow> char option \<Rightarrow> string \<Rightarrow> string" where
  "sub_from r f prev [] = []"
| "sub_from r f prev (c # cs) =
     (case match_at r (place_at prev (c # cs)) of
        None \<Rightarrow> c # sub_from r f (Some c) cs
      | Some q \<Rightarrow>
          if length (pl_rest q) < length (c # cs) then f q @ sub_from r f (pl_prev q) (pl_rest q)
          else c # sub_from r f (Some c) cs)"
  by pat_completeness auto
termination by (relation "measure (\<lambda>(r, f, prev, rest). length rest)") auto

definition re_sub :: "re \<times> (place \<Rightarrow> string) \<Rightarrow> string \<Rightarrow> string" where
  "re_sub rule text = sub_from (fst rule) (snd rule) None text"

text \<open>Replacement texts: a constant, and a group of the match.\<close>

definition text_of :: "string \<Rightarrow> place \<Rightarrow> string" where
  "text_of s q = s"

definition group_of :: "nat \<Rightarrow> place \<Rightarrow> string" where
  "group_of n q = (case dict_get (pl_groups q) n of None \<Rightarrow> [] | Some s \<Rightarrow> s)"

section \<open>Classes and shorthands\<close>

definition single :: "(char \<Rightarrow> bool) \<Rightarrow> re" where
  "single p = Chars True p 1 (Some 1)"

definition many :: "(char \<Rightarrow> bool) \<Rightarrow> re" where
  "many p = Chars True p 0 None"

definition many1 :: "(char \<Rightarrow> bool) \<Rightarrow> re" where
  "many1 p = Chars True p 1 None"

definition lit :: "string \<Rightarrow> re" where
  "lit s = Seq (map (\<lambda>c. single (\<lambda>d. d = c)) s)"

definition caseless_lit :: "string \<Rightarrow> re" where
  "caseless_lit s = Seq (map (\<lambda>c. single (\<lambda>d. lower_char d = c)) s)"

definition is_blank :: "char \<Rightarrow> bool" where
  "is_blank c \<longleftrightarrow> c = CHR '' '' \<or> code c = 9"

text \<open>\<open>\w\<close>: \<open>str.isalnum\<close> of the code points below 256, and the underscore.\<close>

definition is_word :: "char \<Rightarrow> bool" where
  "is_word c \<longleftrightarrow> is_alnum c \<or> c = CHR ''_'' \<or> code c \<in> {170, 178, 179, 181, 185, 186, 188, 189, 190} \<or>
     (192 \<le> code c \<and> code c \<noteq> 215 \<and> code c \<noteq> 247)"

text \<open>\<open>^\<close> and \<open>$\<close>, in the multiline mode by \<open>line_\<close>.\<close>

definition text_start :: re where
  "text_start = Behind (\<lambda>c. c = None)"

definition line_start :: re where
  "line_start = Behind (\<lambda>c. c = None \<or> c = Some newline)"

definition text_end :: re where
  "text_end = Ahead (\<lambda>rest. rest = [] \<or> rest = [newline])"

definition line_stop :: re where
  "line_stop = Ahead (\<lambda>rest. rest = [] \<or> hd rest = newline)"

lemmas re_shorthands = single_def many_def many1_def lit_def caseless_lit_def text_start_def line_start_def
  text_end_def line_stop_def

section \<open>What an expression can do\<close>

lemma advance_rest [simp]: "pl_rest (advance k p) = drop k (pl_rest p)"
  by (simp add: advance_def)

lemma counts_bound: "k \<in> set (counts greedy c lo hi rest) \<Longrightarrow> lo \<le> k \<and> k \<le> length (takeWhile c rest)"
  by (auto simp: counts_def Let_def split: if_splits option.splits)

text \<open>A match ends at a suffix of the text it began at.\<close>

lemma run_suffix: "q \<in> set (run r p) \<Longrightarrow> \<exists>k. pl_rest q = drop k (pl_rest p)"
proof (induction r p arbitrary: q rule: run.induct)
  case (3 r rs p)
  then obtain q' where q: "q' \<in> set (run r p)" "q \<in> set (run (Seq rs) q')" by auto
  from "3.IH"(1) [OF q(1)] "3.IH"(2) [OF q] show ?case by auto
qed (auto simp: advance_rest split: option.splits if_splits intro: exI [of _ 0])

text \<open>
  An expression that needs a character outside a class finds nothing in a text of that class: \<open>needs\<close>
  looks for the repetition that would take it.
\<close>

fun needs :: "(char \<Rightarrow> bool) \<Rightarrow> re \<Rightarrow> bool" where
  "needs plain (Chars greedy c lo hi) = (0 < lo \<and> (\<forall>x. plain x \<longrightarrow> \<not> c x))"
| "needs plain (Seq rs) = (\<exists>r \<in> set rs. needs plain r)"
| "needs plain (Alt rs) = (\<forall>r \<in> set rs. needs plain r)"
| "needs plain (Keep n r) = needs plain r"
| "needs plain (Again caseless n) = False"
| "needs plain (Behind t) = False"
| "needs plain (Ahead t) = False"

lemma needs_finds_nothing: "needs plain r \<Longrightarrow> list_all plain (pl_rest p) \<Longrightarrow> run r p = []"
proof (induction r p rule: run.induct)
  case (1 greedy c lo hi p)
  have "takeWhile c (pl_rest p) = []" using 1 by (cases "pl_rest p") auto
  then show ?case using 1 by (auto simp: counts_def Let_def split: option.splits)
next
  case (3 r rs p)
  show ?case
  proof (cases "needs plain r")
    case True
    then show ?thesis using 3 by simp
  next
    case False
    have "run (Seq rs) q = []" if "q \<in> set (run r p)" for q
    proof -
      note q = that
      obtain k where "pl_rest q = drop k (pl_rest p)" using run_suffix [OF q] by blast
      then have "list_all plain (pl_rest q)" using "3.prems"(2) by (auto simp: list_all_iff dest: in_set_dropD)
      then show ?thesis using "3.IH"(2) [OF q] "3.prems"(1) False by simp
    qed
    then show ?thesis by simp
  qed
qed auto

lemma sub_unchanged: "needs plain r \<Longrightarrow> list_all plain s \<Longrightarrow> sub_from r f prev s = s"
proof (induction s arbitrary: prev)
  case (Cons c cs)
  have "match_at r (place_at prev (c # cs)) = None"
    using needs_finds_nothing [of plain r "place_at prev (c # cs)"] Cons.prems
    by (simp add: match_at_def place_at_def)
  then show ?case using Cons by simp
qed simp

text \<open>An expression anchored at the start finds nothing behind it.\<close>

lemma anchored_finds_nothing: "match_at (Seq (text_start # rs)) (place_at (Some c) rest) = None"
  by (simp add: match_at_def place_at_def text_start_def)

lemma sub_anchored: "sub_from (Seq (text_start # rs)) f (Some c) s = s"
proof (induction s arbitrary: c)
  case (Cons a s)
  then show ?case using anchored_finds_nothing [of rs c "a # s"] by simp
qed simp

text \<open>What the shorthands match, in closed form.\<close>

lemma run_single: "run (single t) p = (case pl_rest p of [] \<Rightarrow> [] | c # cs \<Rightarrow> if t c then [advance 1 p] else [])"
  by (auto simp: single_def counts_def split: list.split)

lemma advance_more: "0 < length (pl_rest p) \<Longrightarrow> advance k (advance 1 p) = advance (Suc k) p"
  by (cases "pl_rest p") (auto simp: advance_def nth_Cons' split: if_splits)

lemma advance_advance: "j + k \<le> length (pl_rest p) \<Longrightarrow> advance k (advance j p) = advance (j + k) p"
  by (cases j; cases k) (auto simp: advance_def add.commute)

lemma advance_groups [simp]: "pl_groups (advance k p) = pl_groups p"
  by (simp add: advance_def)

definition spells :: "(char \<Rightarrow> char) \<Rightarrow> string \<Rightarrow> string \<Rightarrow> bool" where
  "spells f s rest \<longleftrightarrow> length s \<le> length rest \<and> map f (take (length s) rest) = s"

lemma spells_prefix: "spells f s rest \<longleftrightarrow> prefix s (map f rest)"
proof
  assume "spells f s rest"
  then show "prefix s (map f rest)" unfolding spells_def by (metis take_is_prefix take_map)
next
  assume p: "prefix s (map f rest)"
  then have "take (length s) (map f rest) = s" by (auto simp: prefix_def)
  then show "spells f s rest" using prefix_length_le [OF p] by (simp add: spells_def take_map)
qed

lemma run_spelled:
  "run (Seq (map (\<lambda>c. single (\<lambda>d. f d = c)) s)) p = (if spells f s (pl_rest p) then [advance (length s) p] else [])"
proof (induction s arbitrary: p)
  case (Cons c s)
  show ?case
  proof (cases "pl_rest p")
    case (Cons d ds)
    then show ?thesis using Cons.IH [of "advance 1 p"] advance_more [of p "length s"] by (auto simp: run_single spells_def)
  qed (simp add: run_single spells_def)
qed (simp add: spells_def advance_def)

lemma run_lit: "run (lit s) p = (if prefix s (pl_rest p) then [advance (length s) p] else [])"
  using run_spelled [of "\<lambda>d. d" s p] unfolding lit_def spells_def prefix_def
  by (auto) (metis append_take_drop_id)

lemma run_caseless: "run (caseless_lit s) p = (if spells lower_char s (pl_rest p) then [advance (length s) p] else [])"
  unfolding caseless_lit_def by (rule run_spelled)

text \<open>The first candidate that leads on decides a match.\<close>

lemma hd_concat_first:
  "k < length xs \<Longrightarrow> (\<And>j. j < k \<Longrightarrow> f (xs ! j) = []) \<Longrightarrow> f (xs ! k) = y # ys \<Longrightarrow>
   \<exists>zs. concat (map f xs) = y # zs"
proof (induction xs arbitrary: k)
  case (Cons x xs)
  show ?case
  proof (cases k)
    case (Suc k')
    have "f x = []" using Cons.prems(2) [of 0] Suc by simp
    moreover have "\<exists>zs. concat (map f xs) = y # zs"
      using Cons.IH [of k'] Cons.prems Suc by (metis Suc_less_eq length_Cons nth_Cons_Suc)
    ultimately show ?thesis by simp
  qed (use Cons.prems in simp)
qed simp

lemma run_many_first:
  assumes "run (Seq rs) (advance (length (takeWhile t (pl_rest p))) p) = q # qs"
  shows "match_at (Seq (many t # rs)) p = Some q"
proof -
  show ?thesis using assms by (simp add: match_at_def many_def counts_def Let_def)
qed

end
