(* ===== verification/SpokenText.thy ===== *)
theory SpokenText
  imports PyRegex
begin

text \<open>
  \<open>lazarus/agent/deployments.py\<close>, \<open>spoken_text\<close>: what a voice reads aloud of an answer, with the
  expressions as the module compiles them.
\<close>

definition any_char :: "char \<Rightarrow> bool" where
  "any_char c \<longleftrightarrow> True"

definition ink :: "char \<Rightarrow> bool" where
  "ink c \<longleftrightarrow> \<not> is_space c"

definition thinking_tag :: re where
  "thinking_tag = Keep 1 (Alt [caseless_lit ''think'', caseless_lit ''thought'', caseless_lit ''reasoning''])"

definition THINKING :: re where
  "THINKING = Seq [text_start, many is_space, lit ''<'', thinking_tag, lit ''>'', Chars False any_char 0 None,
     lit ''</'', Again True 1, lit ''>'', many is_space]"

definition UNFINISHED_THINKING :: re where
  "UNFINISHED_THINKING = Seq [text_start, many is_space, lit ''<'', thinking_tag, lit ''>'', many any_char, text_end]"

text \<open>\<open>MARKDOWN\<close>, in its order. \<open>before\<close> and \<open>after\<close> are the single characters a lookaround sees.\<close>

definition before :: "(char \<Rightarrow> bool) \<Rightarrow> re" where
  "before t = Behind (\<lambda>prev. case prev of None \<Rightarrow> False | Some c \<Rightarrow> t c)"

definition not_before :: "(char \<Rightarrow> bool) \<Rightarrow> re" where
  "not_before t = Behind (\<lambda>prev. case prev of None \<Rightarrow> True | Some c \<Rightarrow> \<not> t c)"

definition after :: "(char \<Rightarrow> bool) \<Rightarrow> re" where
  "after t = Ahead (\<lambda>rest. rest \<noteq> [] \<and> t (hd rest))"

definition not_after :: "(char \<Rightarrow> bool) \<Rightarrow> re" where
  "not_after t = Ahead (\<lambda>rest. rest = [] \<or> \<not> t (hd rest))"

definition starred :: "char \<Rightarrow> bool" where
  "starred c \<longleftrightarrow> is_word c \<or> c = CHR ''*''"

definition MARKDOWN :: "(re \<times> (place \<Rightarrow> string)) list" where
  "MARKDOWN =
     [(Seq [lit ''```'', Chars False any_char 0 None, lit ''```''], text_of '' ''),
      (Seq [lit ''`'', Keep 1 (many (\<lambda>c. c \<noteq> CHR ''`'' \<and> c \<noteq> newline)), lit ''`''], group_of 1),
      (Seq [lit ''!['', many (\<lambda>c. c \<noteq> CHR '']''), lit ''](''  , many (\<lambda>c. c \<noteq> CHR '')''), lit '')''], text_of '' ''),
      (Seq [lit ''['', Keep 1 (many1 (\<lambda>c. c \<noteq> CHR '']'')), lit ''](''  , many (\<lambda>c. c \<noteq> CHR '')''), lit '')''], group_of 1),
      (Seq [line_start, Chars True is_blank 0 (Some 3), Chars True (\<lambda>c. c = CHR ''#'') 1 (Some 6), many1 is_blank],
       text_of ''''),
      (Seq [line_start, many is_blank,
            Alt [single (\<lambda>c. c \<in> {CHR ''-'', CHR ''*'', CHR ''+''}),
                 Seq [many1 is_digit, single (\<lambda>c. c = CHR ''.'' \<or> c = CHR '')'')]],
            many1 is_blank], text_of ''''),
      (Seq [line_start, many is_blank, lit ''>'', Chars True is_blank 0 (Some 1)], text_of ''''),
      (Seq [Keep 1 (Alt [lit ''**'', lit ''__'', lit ''~~'']), after ink, Keep 2 (Chars False any_char 1 None), before ink,
            Again False 1], group_of 2),
      (Seq [not_before starred, lit ''*'', after ink,
            Keep 1 (Chars False (\<lambda>c. c \<noteq> CHR ''*'' \<and> c \<noteq> newline) 1 None), before ink, lit ''*'', not_after starred],
       group_of 1),
      (Seq [not_before is_word, lit ''_'', after ink,
            Keep 1 (Chars False (\<lambda>c. c \<noteq> CHR ''_'' \<and> c \<noteq> newline) 1 None), before ink, lit ''_'', not_after is_word],
       group_of 1),
      (Seq [line_start, many is_blank, Chars True (\<lambda>c. c \<in> {CHR ''-'', CHR ''*'', CHR ''_''}) 3 None, many is_blank,
            line_stop], text_of ''''),
      (many1 is_blank, text_of '' ''),
      (Chars True (\<lambda>c. c = newline) 3 None, text_of [newline, newline])]"

definition without_thinking :: "string \<Rightarrow> string" where
  "without_thinking text = re_sub (UNFINISHED_THINKING, text_of '''') (re_sub (THINKING, text_of '''') text)"

definition without_markdown :: "string \<Rightarrow> string" where
  "without_markdown text = fold re_sub MARKDOWN text"

definition spoken_text :: "string \<Rightarrow> string" where
  "spoken_text text = strip (without_markdown (without_thinking text))"

section \<open>Thinking is not read aloud\<close>

definition TAGS :: "string list" where
  "TAGS = [''think'', ''thought'', ''reasoning'']"

text \<open>Where a tag's thinking ends: at the first closing tag of the same name, whatever its case.\<close>

definition closes :: "string \<Rightarrow> string \<Rightarrow> bool" where
  "closes tag s \<longleftrightarrow> prefix ''</'' s \<and> length tag \<le> length (drop 2 s) \<and>
     lower tag = lower (take (length tag) (drop 2 s)) \<and> prefix ''>'' (drop (length tag) (drop 2 s))"

definition thought_end :: "string \<Rightarrow> string \<Rightarrow> nat option" where
  "thought_end tag s = find (\<lambda>k. closes tag (drop k s)) [0..<Suc (length s)]"

definition tagged :: "string \<Rightarrow> place \<Rightarrow> place" where
  "tagged tag p = p\<lparr>pl_groups := [(1, tag)]\<rparr>"

lemma tagged_simps [simp]:
  "pl_rest (tagged tag p) = pl_rest p" "pl_prev (tagged tag p) = pl_prev p" "pl_groups (tagged tag p) = [(1, tag)]"
  by (simp_all add: tagged_def)

lemma run_Seq_one: "run r p = [q] \<Longrightarrow> run (Seq (r # rs)) p = run (Seq rs) q"
  by simp

lemma run_Seq_none: "run r p = [] \<Longrightarrow> run (Seq (r # rs)) p = []"
  by simp

lemma spells_tag:
  assumes "lower tag = v" "v \<in> set TAGS" "w \<in> set TAGS"
  shows "spells lower_char w (tag @ s) \<longleftrightarrow> w = v"
proof
  assume "spells lower_char w (tag @ s)"
  then have "prefix w (v @ lower s)" using assms(1) by (simp add: spells_prefix lower_def)
  then have "prefix w v \<or> prefix v w" by (metis prefix_same_cases prefixI)
  then show "w = v" using assms(2,3) by (auto simp: TAGS_def)
qed (use assms(1) in \<open>auto simp: spells_prefix lower_def\<close>)

lemma run_tag:
  assumes "lower tag \<in> set TAGS" "pl_rest p = tag @ s" "pl_groups p = []"
  shows "run thinking_tag p = [tagged tag (advance (length tag) p)]"
proof -
  have t: "w \<in> set TAGS \<Longrightarrow> run (caseless_lit w) p = (if w = lower tag then [advance (length w) p] else [])" for w
    using spells_tag [of tag "lower tag" w s] assms by (simp add: run_caseless)
  have l: "length (lower tag) = length tag" by (simp add: lower_def)
  have "run (Alt [caseless_lit ''think'', caseless_lit ''thought'', caseless_lit ''reasoning'']) p = [advance (length tag) p]"
  proof -
    have in_tags: "''think'' \<in> set TAGS" "''thought'' \<in> set TAGS" "''reasoning'' \<in> set TAGS" by (simp_all add: TAGS_def)
    consider "lower tag = ''think''" | "lower tag = ''thought''" | "lower tag = ''reasoning''"
      using assms(1) by (auto simp: TAGS_def)
    then show ?thesis using t [OF in_tags(1)] t [OF in_tags(2)] t [OF in_tags(3)] l by cases simp_all
  qed
  then show ?thesis using assms by (simp add: thinking_tag_def tagged_def between_def)
qed

text \<open>The opening tag, and what the rest of the expression then sees.\<close>

lemma run_opening:
  assumes "lower tag \<in> set TAGS" "pl_rest p = ''<'' @ tag @ ''>'' @ s" "pl_groups p = []"
  shows "run (Seq (lit ''<'' # thinking_tag # lit ''>'' # rs)) p = run (Seq rs) (tagged tag (advance (length tag + 2) p))"
proof -
  have "run (lit ''<'') p = [advance 1 p]" using assms(2) by (simp add: run_lit)
  moreover have "run thinking_tag (advance 1 p) = [tagged tag (advance (length tag + 1) p)]"
    using run_tag [OF assms(1), of "advance 1 p" "''>'' @ s"] assms(2,3) advance_advance [of 1 "length tag" p] by simp
  moreover have "run (lit ''>'') (tagged tag (advance (length tag + 1) p)) = [tagged tag (advance (length tag + 2) p)]"
    using assms(2) advance_advance [of "length tag + 1" 1 p]
    by (simp add: run_lit) (simp add: tagged_def advance_def)
  ultimately show ?thesis by (simp only: run_Seq_one)
qed

text \<open>The closing tag, with the spaces behind it, greedily.\<close>

lemma run_closing:
  assumes "pl_groups q = [(1, tag)]"
  shows "run (Seq [lit ''</'', Again True 1, lit ''>'', many is_space]) q =
    (if closes tag (pl_rest q)
     then map (\<lambda>k. advance k (advance (length tag + 3) q))
       (rev [0..<Suc (length (takeWhile is_space (drop (length tag + 3) (pl_rest q))))])
     else [])"
proof (cases "closes tag (pl_rest q)")
  case True
  have a: "run (lit ''</'') q = [advance 2 q]" using True by (simp add: run_lit closes_def numeral_2_eq_2)
  have b: "run (Again True 1) (advance 2 q) = [advance (length tag) (advance 2 q)]"
    using True assms by (simp add: closes_def same_text_def)
  have c: "run (lit ''>'') (advance (length tag) (advance 2 q)) = [advance 1 (advance (length tag) (advance 2 q))]"
    using True by (simp add: run_lit closes_def add.commute)
  have d: "advance 1 (advance (length tag) (advance 2 q)) = advance (length tag + 3) q"
    using True by (auto simp: closes_def prefix_def advance_advance numeral_3_eq_3 dest!: arg_cong [of _ _ length])
  have e: "run (Seq [many is_space]) p = map (\<lambda>k. advance k p) (rev [0..<Suc (length (takeWhile is_space (pl_rest p)))])" for p
    by (simp add: many_def counts_def Let_def comp_def)
  show ?thesis using True by (simp only: run_Seq_one [OF a] run_Seq_one [OF b] run_Seq_one [OF c] d e if_True advance_rest)
next
  case False
  have "run (lit ''</'') q = [] \<or> run (lit ''</'') q = [advance 2 q] \<and>
      (run (Again True 1) (advance 2 q) = [] \<or> run (Again True 1) (advance 2 q) = [advance (length tag) (advance 2 q)] \<and>
        run (lit ''>'') (advance (length tag) (advance 2 q)) = [])"
    using False assms by (auto simp: run_lit closes_def same_text_def add.commute numeral_2_eq_2)
  then have "run (Seq [lit ''</'', Again True 1, lit ''>'', many is_space]) q = []"
    by (elim disjE conjE) (simp_all only: run_Seq_none run_Seq_one)
  then show ?thesis by (simp only: False if_False)
qed

text \<open>A whole pattern that begins like these two, at the start of a text: the spaces lead to the tag or nowhere.\<close>

definition opened :: "re list \<Rightarrow> re" where
  "opened rs = Seq (text_start # many is_space # lit ''<'' # thinking_tag # lit ''>'' # rs)"

lemma thinking_opened:
  "THINKING = opened [Chars False any_char 0 None, lit ''</'', Again True 1, lit ''>'', many is_space]"
  "UNFINISHED_THINKING = opened [many any_char, text_end]"
  by (simp_all add: opened_def THINKING_def UNFINISHED_THINKING_def)

lemma run_opened:
  "run (opened rs) (place_at None s) =
     concat (map (\<lambda>k. run (Seq (lit ''<'' # thinking_tag # lit ''>'' # rs)) (advance k (place_at None s)))
       (rev [0..<Suc (length (takeWhile is_space s))]))"
proof -
  have a: "run text_start (place_at None s) = [place_at None s]" by (simp add: text_start_def place_at_def)
  show ?thesis unfolding opened_def run_Seq_one [OF a]
    by (simp add: many_def counts_def Let_def comp_def place_at_def del: upt_Suc)
qed

lemma opened_lit_fails: "\<not> prefix ''<'' (pl_rest p) \<Longrightarrow> run (Seq (lit ''<'' # rs)) p = []"
  by (simp add: run_lit)

lemma opened_elsewhere:
  assumes "list_all is_space lead" "k < length lead"
  shows "run (Seq (lit ''<'' # rs)) (advance k (place_at None (lead @ s))) = []"
proof -
  have "is_space (lead ! k)" using assms by (simp add: list_all_length)
  then have "lead ! k \<noteq> CHR ''<''" by (auto simp: is_space_def code_def)
  moreover have "drop k (lead @ s) = lead ! k # drop (Suc k) (lead @ s)"
    using assms(2) by (metis Cons_nth_drop_Suc length_append nth_append trans_less_add1)
  ultimately show ?thesis by (intro opened_lit_fails) (simp add: place_at_def)
qed

text \<open>A text that opens with thinking: what is tried is the rest of the pattern behind the tag.\<close>

definition behind_tag :: "string \<Rightarrow> string \<Rightarrow> string \<Rightarrow> place" where
  "behind_tag lead tag s = tagged tag (advance (length lead + length tag + 2) (place_at None (lead @ ''<'' @ tag @ ''>'' @ s)))"

lemma behind_rest [simp]: "pl_rest (behind_tag lead tag s) = s" "pl_groups (behind_tag lead tag s) = [(1, tag)]"
  by (simp_all add: behind_tag_def place_at_def)

lemma run_opened_tag:
  assumes "list_all is_space lead" "lower tag \<in> set TAGS"
  shows "run (opened rs) (place_at None (lead @ ''<'' @ tag @ ''>'' @ s)) = run (Seq rs) (behind_tag lead tag s)"
proof -
  let ?p = "place_at None (lead @ ''<'' @ tag @ ''>'' @ s)"
  let ?f = "\<lambda>k. run (Seq (lit ''<'' # thinking_tag # lit ''>'' # rs)) (advance k ?p)"
  have "takeWhile is_space (lead @ ''<'' @ tag @ ''>'' @ s) = lead"
    using assms(1) by (simp add: takeWhile_tail list_all_iff) (simp add: takeWhile_append is_space_def code_def)
  then have "run (opened rs) ?p = concat (map ?f (rev [0..<Suc (length lead)]))" by (simp only: run_opened)
  also have "\<dots> = ?f (length lead) @ concat (map ?f (rev [0..<length lead]))" by simp
  also have "concat (map ?f (rev [0..<length lead])) = []"
  proof -
    have "?f k = []" if "k < length lead" for k by (rule opened_elsewhere [OF assms(1) that])
    then have "map ?f (rev [0..<length lead]) = map (\<lambda>k. []) (rev [0..<length lead])" by (intro map_cong) auto
    then show ?thesis by (simp only: concat_eq_Nil_conv) auto
  qed
  also have "?f (length lead) = run (Seq rs) (behind_tag lead tag s)"
    using run_opening [OF assms(2), of "advance (length lead) ?p" s rs] advance_advance [of "length lead" "length tag + 2" ?p]
    by (simp add: place_at_def behind_tag_def add.assoc)
  finally show ?thesis by simp
qed

lemma take_all_chars: "takeWhile any_char = (\<lambda>s. s)"
  by (rule ext) (simp add: any_char_def)

lemma match_thinking:
  assumes "list_all is_space lead" "lower tag \<in> set TAGS"
  shows "match_at THINKING (place_at None (lead @ ''<'' @ tag @ ''>'' @ s)) =
    (case thought_end tag s of None \<Rightarrow> None
     | Some k \<Rightarrow> let n = k + length tag + 3 in
         Some (advance (length (takeWhile is_space (drop n s))) (advance (length tag + 3) (advance k (behind_tag lead tag s)))))"
proof -
  let ?q = "behind_tag lead tag s"
  let ?close = "[lit ''</'', Again True 1, lit ''>'', many is_space]"
  let ?f = "\<lambda>k. run (Seq ?close) (advance k ?q)"
  have "run (Seq (Chars False any_char 0 None # ?close)) ?q = concat (map ?f [0..<Suc (length s)])"
    by (simp add: counts_def comp_def take_all_chars del: upt_Suc)
  moreover have "run THINKING (place_at None (lead @ ''<'' @ tag @ ''>'' @ s)) = run (Seq (Chars False any_char 0 None # ?close)) ?q"
    unfolding thinking_opened by (rule run_opened_tag [OF assms])
  ultimately have all: "run THINKING (place_at None (lead @ ''<'' @ tag @ ''>'' @ s)) = concat (map ?f [0..<Suc (length s)])"
    by simp
  have f: "?f k = (if closes tag (drop k s)
     then map (\<lambda>j. advance j (advance (length tag + 3) (advance k ?q)))
       (rev [0..<Suc (length (takeWhile is_space (drop (k + length tag + 3) s)))]) else [])" for k
    using run_closing [of "advance k ?q" tag] by (simp add: ac_simps)
  show ?thesis
  proof (cases "thought_end tag s")
    case None
    then have "\<not> closes tag (drop k s)" if "k \<in> set [0..<Suc (length s)]" for k
      using that by (auto simp: thought_end_def find_None_iff)
    then have "map ?f [0..<Suc (length s)] = map (\<lambda>k. []) [0..<Suc (length s)]" using f by (intro map_cong) auto
    then have "concat (map ?f [0..<Suc (length s)]) = []" by (simp only: concat_eq_Nil_conv) auto
    then show ?thesis using None by (simp only: match_at_def all list.case option.case)
  next
    case (Some k)
    then obtain i where i: "i < length [0..<Suc (length s)]" "closes tag (drop k s)" "k = [0..<Suc (length s)] ! i"
      "\<forall>j<i. \<not> closes tag (drop ([0..<Suc (length s)] ! j) s)"
      by (auto simp: thought_end_def find_Some_iff simp del: upt_Suc)
    have "?f ([0..<Suc (length s)] ! j) = []" if "j < i" for j using i(4) that f by simp
    moreover have "\<exists>ys. ?f ([0..<Suc (length s)] ! i) =
        advance (length (takeWhile is_space (drop (k + length tag + 3) s))) (advance (length tag + 3) (advance k ?q)) # ys"
      using i(2,3) f [of k] by simp
    ultimately show ?thesis using hd_concat_first [OF i(1), of ?f] Some all by (auto simp: match_at_def Let_def)
  qed
qed

lemma match_unfinished:
  assumes "list_all is_space lead" "lower tag \<in> set TAGS"
  shows "match_at UNFINISHED_THINKING (place_at None (lead @ ''<'' @ tag @ ''>'' @ s)) =
    Some (advance (length s) (behind_tag lead tag s))"
proof -
  let ?q = "behind_tag lead tag s"
  have "run UNFINISHED_THINKING (place_at None (lead @ ''<'' @ tag @ ''>'' @ s)) = run (Seq [many any_char, text_end]) ?q"
    unfolding thinking_opened by (rule run_opened_tag [OF assms])
  moreover have "run (Seq [text_end]) (advance (length s) ?q) = [advance (length s) ?q]" by (simp add: text_end_def)
  ultimately show ?thesis by (simp add: match_at_def many_def counts_def take_all_chars Let_def)
qed

text \<open>Neither expression finds anything in a text that begins with something else.\<close>

lemma opened_unmatched:
  assumes "s \<noteq> []" "\<not> is_space (hd s)" "hd s \<noteq> CHR ''<''"
  shows "sub_from (opened rs) f None s = s"
proof -
  obtain c cs where s: "s = c # cs" using assms(1) by (cases s) auto
  have "takeWhile is_space s = []" using assms s by simp
  then have "run (opened rs) (place_at None s) = run (Seq (lit ''<'' # thinking_tag # lit ''>'' # rs)) (advance 0 (place_at None s))"
    unfolding run_opened by simp
  also have "\<dots> = []" using assms s by (intro opened_lit_fails) (simp add: place_at_def)
  finally have "match_at (opened rs) (place_at None (c # cs)) = None" by (simp add: match_at_def s)
  then show ?thesis using s by (simp add: opened_def sub_anchored)
qed

lemma plain_start_kept: "s = [] \<or> (\<not> is_space (hd s) \<and> hd s \<noteq> CHR ''<'') \<Longrightarrow> sub_from (opened rs) f None s = s"
  by (cases "s = []") (simp_all add: opened_unmatched)

lemma advanced_prev: "0 < n \<Longrightarrow> \<exists>c. pl_prev (advance j (advance n p)) = Some c"
  by (cases j) (simp_all add: advance_def)

lemma sub_behind: "sub_from (opened rs) f (Some c) s = s"
  unfolding opened_def by (rule sub_anchored)



text \<open>Two blocks of thinking in a row: the second, closed as it is, goes as if it were cut off, with the answer.\<close>

lemma second_thinking_silences: "spoken_text ''<think>a</think><think>b</think>x'' = []"
  by code_simp

end
