(* ===== verification/AgentRequests.thy ===== *)
theory AgentRequests
  imports AgentTransitions Videos ManagedFiles SpokenText
begin

text \<open>
  \<open>lazarus/agent/deployments.py\<close>, what a deployment is asked and what is told of it: its status, its
  load, readiness, and the routes \<open>register_deployment_routes\<close> registers. An engine's answer is a
  \<open>reply\<close>, \<open>None\<close> an \<open>httpx.HTTPError\<close>. An exception no handler turns into an answer is the left
  side of a result. The exchange with the admission gate is the machine's \<open>Enter\<close> and \<open>Leave\<close>
  (\<open>AgentTransitions\<close>); here is what decides them and what is answered.
\<close>

section \<open>Answers\<close>

record reply =
  rp_status :: int
  rp_json :: "json option"
  rp_text :: string

datatype response =
    Answer int json
  | Content int string json

definition error_answer :: "int \<Rightarrow> string \<Rightarrow> response" where
  "error_answer status message = Answer status (JObj [(''error'', JStr message)])"

definition unavailable :: response where
  "unavailable = error_answer 503 ''deployment engine unavailable''"

definition answer_status :: "response \<Rightarrow> int" where
  "answer_status r = (case r of Answer s _ \<Rightarrow> s | Content s _ _ \<Rightarrow> s)"

section \<open>Status and load\<close>

definition child_running :: "agent \<Rightarrow> string \<Rightarrow> bool" where
  "child_running s did = (case dict_get (a_procs s) did of None \<Rightarrow> False | Some pr \<Rightarrow> p_handle pr \<in> set (a_alive s))"

text \<open>\<open>queueing.last_day()\<close> also moves the hours on, so the agent comes back with it.\<close>

definition queued_of :: "rat \<Rightarrow> rat \<Rightarrow> agent \<Rightarrow> string \<Rightarrow> deployment \<Rightarrow> (string, json) dict \<times> agent" where
  "queued_of now wall s did d =
     (if places_of d = None then ([], s)
      else let ((queued, longest), s) =
             (case dict_get (a_queueing s) did of
                None \<Rightarrow> ((0, 0), s)
              | Some q \<Rightarrow> (let (figures, q') = last_day now wall q in
                  (figures, s\<lparr>a_queueing := dict_set did q' (a_queueing s)\<rparr>)))
        in ([(''queued_last_day'', JInt queued), (''longest_wait_ms_last_day'', JInt longest)], s))"

definition status_text :: "agent \<Rightarrow> string \<Rightarrow> bool \<Rightarrow> string" where
  "status_text s did healthy =
     (let paused = (case gate_of s did of Some g \<Rightarrow> g_paused g | None \<Rightarrow> False) in
      if healthy \<and> child_running s did then (if paused then ''paused'' else ''healthy'')
      else if child_running s did then ''loading'' else ''unhealthy'')"

definition status_of ::
    "rat \<Rightarrow> rat \<Rightarrow> agent \<Rightarrow> string \<Rightarrow> deployment \<Rightarrow> py_error + string \<Rightarrow> bool \<Rightarrow> (int \<times> int) option \<Rightarrow>
     (int \<times> int) option \<Rightarrow> (string, json) dict \<times> agent" where
  "status_of now wall s did d model healthy memory load =
     (let running = child_running s did;
          paused = (case gate_of s did of Some g \<Rightarrow> g_paused g | None \<Rightarrow> False);
          number = (\<lambda>part pair. if running then opt_json (\<lambda>x. JInt (part x)) pair else JNull) in
      case model of
        Inl _ \<Rightarrow> ([(''status'', JStr ''unhealthy''), (''error_code'', JStr ''MODEL_LOAD_FAILED''),
          (''kind'', JStr (kind_name (d_kind d)))], s)
      | Inr identity \<Rightarrow> (let (queued, s') = queued_of now wall s did d in
          ([(''status'', JStr (status_text s did healthy)), (''admission'', JStr (if paused then ''paused'' else ''open'')),
            (''kind'', JStr (kind_name (d_kind d))), (''model'', JStr identity), (''port'', JInt (d_port d)),
            (''served_model_name'', JStr (d_served_model_name d)), (''context_length'', JInt (d_context_length d)),
            (''requests'', JInt (d_requests d)), (''thinking'', opt_json JStr (d_thinking d)),
            (''thinking_budget'', opt_json JInt (d_thinking_budget d)), (''revision'', JStr (d_revision d)),
            (''engine'', JStr (engine_of d)), (''memory_bytes'', number fst memory), (''weights_bytes'', number snd memory),
            (''requests_running'', number fst load), (''requests_waiting'', number snd load)] @ queued, s')))"

text \<open>\<open>str.splitlines()\<close> and \<open>str.partition(" ")\<close>; \<open>load_value\<close> is \<open>int(float(text))\<close>, \<open>None\<close> a \<open>ValueError\<close>.\<close>

definition line_end :: "char \<Rightarrow> bool" where
  "line_end c \<longleftrightarrow> (10 \<le> code c \<and> code c \<le> 13) \<or> (28 \<le> code c \<and> code c \<le> 30) \<or> code c = 133"

fun splitlines :: "string \<Rightarrow> string list" where
  "splitlines [] = []"
| "splitlines (c # cs) =
     (if code c = 13 \<and> cs \<noteq> [] \<and> code (hd cs) = 10 then [] # splitlines (tl cs)
      else if line_end c then [] # splitlines cs
      else (case splitlines cs of [] \<Rightarrow> [[c]] | l # ls \<Rightarrow> (c # l) # ls))"

definition partition_blank :: "string \<Rightarrow> string \<times> string" where
  "partition_blank line = (takeWhile (\<lambda>c. c \<noteq> CHR '' '') line, tl (dropWhile (\<lambda>c. c \<noteq> CHR '' '') line))"

fun load_lines :: "(string \<Rightarrow> int option) \<Rightarrow> string list \<Rightarrow> (string, int) dict \<Rightarrow> (string, int) dict option" where
  "load_lines load_value [] found = Some found"
| "load_lines load_value (line # lines) found =
     (let (name, v) = partition_blank line in
      if name \<in> {''llamacpp:requests_processing'', ''llamacpp:requests_deferred''}
      then (case load_value v of None \<Rightarrow> None | Some n \<Rightarrow> load_lines load_value lines (dict_set name n found))
      else load_lines load_value lines found)"

definition parse_load :: "(string \<Rightarrow> int option) \<Rightarrow> string \<Rightarrow> (int \<times> int) option" where
  "parse_load load_value metrics =
     (case load_lines load_value (splitlines metrics) [] of
        None \<Rightarrow> None
      | Some found \<Rightarrow>
          (case (dict_get found ''llamacpp:requests_processing'', dict_get found ''llamacpp:requests_deferred'') of
             (Some running, Some waiting) \<Rightarrow> Some (running, waiting)
           | _ \<Rightarrow> None))"

definition load_of ::
    "(string \<Rightarrow> int option) \<Rightarrow> agent \<Rightarrow> string \<Rightarrow> deployment \<Rightarrow> reply option \<Rightarrow> (int \<times> int) option" where
  "load_of load_value s did d metrics =
     (if \<not> child_running s did then None
      else if d_mlx d \<noteq> None
      then let in_flight = (case gate_of s did of Some g \<Rightarrow> g_requests g | None \<Rightarrow> 0)
           in Some (min in_flight MLX_CONCURRENCY, max 0 (in_flight - MLX_CONCURRENCY))
      else if \<not> engine_serves_metrics d then None
      else (case metrics of None \<Rightarrow> None
        | Some r \<Rightarrow> if rp_status r = 200 then parse_load load_value (rp_text r) else None))"

text \<open>
  \<open>wait_deployment_ready\<close>: each poll with its time, whether the child answered its health route and
  whether it still runs; an embedding's child is ready once a probe returns a vector.
\<close>

definition SLIMSERVE_READY_TIMEOUT :: rat where "SLIMSERVE_READY_TIMEOUT = 1800"
definition READY_TIMEOUT :: rat where "READY_TIMEOUT = 300"

definition never_ready :: "string \<Rightarrow> py_error" where
  "never_ready what = RuntimeError (what @ '' did not become healthy before timeout'')"

fun poll_ready :: "rat \<Rightarrow> (rat \<times> bool \<times> bool) list \<Rightarrow> bool" where
  "poll_ready deadline [] = False"
| "poll_ready deadline ((now, healthy, running) # polls) =
     (now < deadline \<and> (healthy \<or> (running \<and> poll_ready deadline polls)))"

definition probe_vector :: "reply \<Rightarrow> py_error option" where
  "probe_vector r =
     (if rp_status r \<noteq> 200 then Some (RuntimeError ''embedding probe failed'')
      else case rp_json r of
        None \<Rightarrow> Some (ValueError ''not JSON'')
      | Some body \<Rightarrow>
          if \<not> is_obj body then Some no_get
          else if \<not> truthy (obj_get body ''data'') then Some (RuntimeError ''embedding probe returned no vector'')
          else (case obj_get body ''data'' of
              JArr (first # _) \<Rightarrow> if \<not> is_obj first then Some no_get
                else check (\<not> truthy (obj_get first ''embedding'')) (RuntimeError ''embedding probe returned no vector'')
            | _ \<Rightarrow> Some (TypeError ''not a list of vectors'')))"

definition wait_embedding_ready :: "rat \<Rightarrow> (rat \<times> bool \<times> bool) list \<Rightarrow> reply option \<Rightarrow> py_error option" where
  "wait_embedding_ready deadline polls probe =
     (if poll_ready deadline polls
      then (case probe of None \<Rightarrow> Some (OSError ''the probe could not be sent'') | Some r \<Rightarrow> probe_vector r)
      else Some (never_ready ''embedding deployment''))"

definition wait_deployment_ready ::
    "rat \<Rightarrow> deployment \<Rightarrow> (rat \<times> bool \<times> bool) list \<Rightarrow> reply option \<Rightarrow> py_error option" where
  "wait_deployment_ready start d polls probe =
     (let deadline = start + (if d_slimserve d \<noteq> None then SLIMSERVE_READY_TIMEOUT else READY_TIMEOUT) in
      if d_kind d = Embedding then wait_embedding_ready deadline polls probe
      else if poll_ready deadline polls then None else Some (never_ready ''deployment''))"

section \<open>Speech and transcription\<close>

text \<open>\<open>bytes.find\<close> from a position on.\<close>

definition find_from :: "string \<Rightarrow> string \<Rightarrow> nat \<Rightarrow> nat option" where
  "find_from needle body lo = find (\<lambda>i. prefix needle (drop i body)) [lo..<Suc (length body)]"

definition UNSUPPORTED_CONTAINERS :: "(string \<times> string) list" where
  "UNSUPPORTED_CONTAINERS = [([CHR 0x1A, CHR 0x45, CHR 0xDF, CHR 0xA3], ''WebM''), (''ftyp'', ''MP4'')]"

definition unsupported_container :: "string \<Rightarrow> string option" where
  "unsupported_container body =
     (case find_from (''name='' @ [CHR 0x22] @ ''file'' @ [CHR 0x22]) body 0 of
        None \<Rightarrow> None
      | Some marker \<Rightarrow>
          (case find_from [CHR 0x0D, CHR 0x0A, CHR 0x0D, CHR 0x0A] body marker of
             None \<Rightarrow> None
           | Some start \<Rightarrow>
               let head = take 12 (drop (start + 4) body) in
               map_option snd (find (\<lambda>(magic, name). prefix magic head \<or> (name = ''MP4'' \<and> take 4 (drop 4 head) = magic))
                 UNSUPPORTED_CONTAINERS)))"

text \<open>\<open>round(x, 4)\<close>: to the nearest, ties to the even digit.\<close>

definition round_even :: "rat \<Rightarrow> int" where
  "round_even x = (let n = \<lfloor>x\<rfloor>; rest = x - of_int n in
     if rest < 1/2 then n else if 1/2 < rest then n + 1 else if n mod 2 = 0 then n else n + 1)"

definition speech_request :: "(string \<Rightarrow> json option) \<Rightarrow> string \<Rightarrow> string + string \<times> rat" where
  "speech_request loads body =
     (case loads (if body = [] then ''{}'' else body) of
        None \<Rightarrow> Inl ''the request is not JSON''
      | Some request \<Rightarrow>
          (case str_of (obj_get request ''input'') of
             None \<Rightarrow> Inl ''input is required''
           | Some text \<Rightarrow>
               if strip text = [] then Inl ''input is required''
               else if 4096 < length text then Inl ''input is at most 4096 characters''
               else let said = spoken_text text in
                 if said = [] then Inl ''input holds nothing to say once thinking and markup are set aside''
                 else (case number_of (get_or request ''speed'' (JFloat 1)) of
                     None \<Rightarrow> Inl ''speed is between 0.25 and 4.0''
                   | Some speed \<Rightarrow>
                       if \<not> (1/4 \<le> speed \<and> speed \<le> 4) then Inl ''speed is between 0.25 and 4.0''
                       else Inr (said, of_int (round_even (10000 / speed)) / 10000))))"

definition synthesize ::
    "(string \<Rightarrow> json option) \<Rightarrow> (json \<Rightarrow> reply option) \<Rightarrow> string \<Rightarrow> response" where
  "synthesize loads engine body =
     (case speech_request loads body of
        Inl e \<Rightarrow> error_answer 400 e
      | Inr (text, scale) \<Rightarrow>
          (case engine (JObj [(''text'', JStr text), (''length_scale'', JFloat scale)]) of
             None \<Rightarrow> unavailable
           | Some r \<Rightarrow> if rp_status r \<noteq> 200 then error_answer 502 (''the voice answered '' @ show_int (rp_status r))
               else Content 200 (rp_text r) (JStr ''audio/wav'')))"

section \<open>Videos\<close>

definition video_path :: "string \<Rightarrow> (string \<times> bool) option" where
  "video_path path =
     (let is_id = (\<lambda>i. prefix ''video_'' i \<and> list_all job_char (drop 6 i) \<and> 7 \<le> length i \<and> length i \<le> 262);
          full = (\<lambda>p. if \<not> prefix ''videos/'' p then None
             else let rest = drop 7 p in
               if is_id rest then Some (rest, False)
               else if suffix ''/content'' rest \<and> is_id (take (length rest - 8) rest)
               then Some (take (length rest - 8) rest, True) else None) in
      case full path of Some g \<Rightarrow> Some g
      | None \<Rightarrow> if path \<noteq> [] \<and> last path = newline then full (butlast path) else None)"

definition engine_error :: "reply \<Rightarrow> string" where
  "engine_error r =
     (let fallback = ''the engine answered '' @ show_int (rp_status r) in
      case rp_json r of
        None \<Rightarrow> fallback
      | Some body \<Rightarrow>
          (case obj_item body ''error'' of
             Inl _ \<Rightarrow> fallback
           | Inr error \<Rightarrow>
               (case str_of (if is_obj error then obj_get error ''message'' else error) of
                  Some m \<Rightarrow> if m \<noteq> [] then m else fallback
                | None \<Rightarrow> fallback)))"

definition cancelled :: "string \<Rightarrow> reply \<Rightarrow> response" where
  "cancelled identifier r =
     (if rp_status r = 200 then Answer 200 (JObj [(''id'', JStr identifier), (''object'', JStr ''video.deleted''), (''deleted'', JBool True)])
      else if rp_status r \<in> {404, 410} then error_answer 404 ''no such video''
      else if rp_status r = 409 then error_answer 409 ''the video is being made and cannot be cancelled''
      else error_answer 502 (engine_error r))"

text \<open>What \<open>video_request\<close>'s handlers make of an exception: a \<open>VideoError\<close> is its own answer.\<close>

definition video_failed :: "video_error \<Rightarrow> py_error + response" where
  "video_failed e = (case e of VideoError status m \<Rightarrow> Inr (error_answer status m)
     | Crash (ValueError _) \<Rightarrow> Inr unavailable | Crash (KeyError _) \<Rightarrow> Inr unavailable | Crash c \<Rightarrow> Inl c)"

text \<open>\<open>engine\<close> takes the method, the path under \<open>/sdcpp/v1\<close> and the body.\<close>

definition create_video ::
    "(string \<Rightarrow> string \<Rightarrow> string) \<Rightarrow> (json \<Rightarrow> string) \<Rightarrow> (string \<Rightarrow> json option) \<Rightarrow> (string \<Rightarrow> string \<Rightarrow> json option \<Rightarrow> reply option) \<Rightarrow>
     int \<Rightarrow> string \<Rightarrow> deployment \<Rightarrow> string \<Rightarrow> py_error + response" where
  "create_video hmac_hex py_str loads engine now secret d body =
     (case job_request loads now body d of
        Inl e \<Rightarrow> video_failed e
      | Inr (job, video) \<Rightarrow>
          (case engine ''POST'' ''/vid_gen'' (Some (JObj job)) of
             None \<Rightarrow> Inr unavailable
           | Some r \<Rightarrow>
               if rp_status r \<noteq> 202
               then Inr (error_answer (if 500 \<le> rp_status r then 502 else rp_status r) (engine_error r))
               else (case rp_json r of
                   None \<Rightarrow> Inr unavailable
                 | Some started \<Rightarrow>
                     if \<not> is_obj started then Inl no_get
                     else let video = dict_set ''created_at''
                            (get_or started ''created'' (the (dict_get video ''created_at''))) video in
                       (case obj_item started ''id'' of
                          Inl _ \<Rightarrow> Inr unavailable
                        | Inr i \<Rightarrow> Inr (Answer 200 (JObj ((''id'', JStr (video_id hmac_hex secret (d_served_model_name d)
                            (case i of JStr t \<Rightarrow> t | _ \<Rightarrow> py_str i))) # video)))))))"

definition read_video ::
    "(string \<Rightarrow> string \<Rightarrow> string) \<Rightarrow> (json \<Rightarrow> string) \<Rightarrow> (string \<Rightarrow> string \<Rightarrow> json option \<Rightarrow> reply option) \<Rightarrow>
     string \<Rightarrow> deployment \<Rightarrow> string \<Rightarrow> bool \<Rightarrow> py_error + response" where
  "read_video hmac_hex py_str engine secret d job_id content =
     (case engine ''GET'' (''/jobs/'' @ job_id) None of
        None \<Rightarrow> Inr unavailable
      | Some r \<Rightarrow>
          if rp_status r \<in> {404, 410} then Inr (error_answer 404 ''no such video'')
          else if rp_status r \<noteq> 200 then Inr (error_answer 502 (engine_error r))
          else (case rp_json r of
              None \<Rightarrow> Inr unavailable
            | Some job \<Rightarrow>
                if content
                then (case content_of job of Inl e \<Rightarrow> video_failed e | Inr (data, media) \<Rightarrow> Inr (Content 200 data media))
                else (case video_of hmac_hex py_str secret (d_served_model_name d) job of
                    Inl e \<Rightarrow> video_failed e | Inr video \<Rightarrow> Inr (Answer 200 (JObj video)))))"

definition not_allowed :: response where
  "not_allowed = error_answer 405 ''method not allowed''"

definition video_request ::
    "(string \<Rightarrow> string \<Rightarrow> string) \<Rightarrow> (json \<Rightarrow> string) \<Rightarrow> (string \<Rightarrow> json option) \<Rightarrow> (string \<Rightarrow> string \<Rightarrow> json option \<Rightarrow> reply option) \<Rightarrow>
     int \<Rightarrow> string \<Rightarrow> deployment \<Rightarrow> string \<Rightarrow> string \<Rightarrow> string \<Rightarrow> py_error + response" where
  "video_request hmac_hex py_str loads engine now secret d path method body =
     (if path = ''videos''
      then (if method \<noteq> ''POST'' then Inr not_allowed
            else create_video hmac_hex py_str loads engine now secret d body)
      else if method = ''POST'' then Inr not_allowed
      else case video_path path of
        None \<Rightarrow> Inl (TypeError ''no match'')
      | Some (identifier, content) \<Rightarrow>
          (case job_of hmac_hex secret (d_served_model_name d) identifier of
             Inl e \<Rightarrow> video_failed e
           | Inr job_id \<Rightarrow>
               if method = ''DELETE''
               then (case engine ''POST'' (''/jobs/'' @ job_id @ ''/cancel'') None of
                   None \<Rightarrow> Inr unavailable | Some r \<Rightarrow> Inr (cancelled identifier r))
               else read_video hmac_hex py_str engine secret d job_id content))"

section \<open>The proxy\<close>

definition ALLOWED_PATHS :: "kind \<Rightarrow> string list" where
  "ALLOWED_PATHS k = (case k of
     Generation \<Rightarrow> [''chat/completions'', ''completions'', ''models'']
   | Embedding \<Rightarrow> [''embeddings'', ''models'']
   | Image \<Rightarrow> [''images/generations'', ''models'']
   | Transcription \<Rightarrow> [''audio/transcriptions'']
   | Speech \<Rightarrow> [''audio/speech'']
   | Video \<Rightarrow> [''videos''])"

definition ENGINE_PATHS :: "string list" where
  "ENGINE_PATHS = [''metrics'', ''slots'']"

definition ANSWER_PATHS :: "string list" where
  "ANSWER_PATHS = [''chat/completions'', ''completions'']"

text \<open>
  \<open>proxy_deployment\<close> up to the reading of the body: an answer, or what it has looked up (the record,
  its gate, its child) with the agent whose gate \<open>setdefault\<close> may have made.
\<close>

definition unknown_deployment :: response where
  "unknown_deployment = error_answer 404 ''unknown deployment''"

definition unsupported_endpoint :: response where
  "unsupported_endpoint = error_answer 404 ''unsupported deployment endpoint''"

definition proxy_lookup :: "agent \<Rightarrow> string \<Rightarrow> string \<Rightarrow> string \<Rightarrow> agent \<times> (response + deployment \<times> nat \<times> nat)" where
  "proxy_lookup s did path method =
     (case dict_get (a_config s) did of
        None \<Rightarrow> (s, Inl unknown_deployment)
      | Some d \<Rightarrow>
          let video = (if d_kind d = Video then video_path path else None) in
          if path \<notin> set (ALLOWED_PATHS (d_kind d)) \<and> video = None then (s, Inl unsupported_endpoint)
          else if d_mlx d \<noteq> None \<and> path = ''models'' \<and> method = ''GET''
          then (s, Inl (Answer 200 (JObj [(''object'', JStr ''list''), (''data'', JArr [JObj [(''id'', JStr (d_served_model_name d)),
            (''object'', JStr ''model''), (''owned_by'', JStr ''sovereign'')]])])))
          else if method = ''DELETE'' \<and> \<not> (case video of Some (_, content) \<Rightarrow> \<not> content | None \<Rightarrow> False)
          then (s, Inl not_allowed)
          else let s = default_gate did s in
            (case (dict_get (a_gate s) did, gate_of s did, dict_get (a_procs s) did) of
               (Some g, Some adm, Some pr) \<Rightarrow>
                 if g_paused adm then (s, Inl (error_answer 503 ''deployment admission is paused''))
                 else (s, Inr (d, g, p_handle pr))
             | _ \<Rightarrow> (s, Inl (error_answer 503 ''deployment admission is paused''))))"

text \<open>
  After the body, on the agent as it is by then: the checks again, and the kind's own handler, or the
  request to send on (\<open>buildable\<close>: whether \<open>build_request\<close> raises nothing).
\<close>

datatype handler = Voice | Clip | Upstream "int option"

definition proxy_route ::
    "agent \<Rightarrow> string \<Rightarrow> string \<Rightarrow> deployment \<Rightarrow> nat \<Rightarrow> nat \<Rightarrow> string \<Rightarrow> bool \<Rightarrow> response + handler" where
  "proxy_route s did path d g h body buildable =
     (let paused = (case dict_get (a_gates s) g of Some adm \<Rightarrow> g_paused adm | None \<Rightarrow> True);
          same = (case dict_get (a_procs s) did of Some pr \<Rightarrow> p_handle pr = h | None \<Rightarrow> False) in
      if paused \<or> \<not> same then Inl (error_answer 503 ''deployment is being replaced'')
      else if h \<notin> set (a_alive s) then Inl (error_answer 503 ''deployment process is not running'')
      else if d_kind d = Speech then Inr Voice
      else if d_kind d = Video then Inr Clip
      else case (if d_kind d = Transcription then unsupported_container body else None) of
        Some container \<Rightarrow> Inl (error_answer 415 (container @ '' audio is not decoded here; send WAV, MP3, FLAC or Ogg Vorbis''))
      | None \<Rightarrow> if \<not> buildable then Inl (error_answer 400 ''request could not be forwarded'')
          else Inr (Upstream (if path \<in> set ANSWER_PATHS then places_of d else None)))"

text \<open>
  The request sent on: its ticket, and with the engine's answer the place it gives back; a request
  whose connection was refused, and one answered with an error, never held one.
\<close>

definition proxy_arrive :: "rat \<Rightarrow> rat \<Rightarrow> string \<Rightarrow> int option \<Rightarrow> agent \<Rightarrow> nat option \<times> agent" where
  "proxy_arrive now wall did places s =
     (case places of
        None \<Rightarrow> (None, s)
      | Some n \<Rightarrow>
          if n = 0 then (None, s)
          else let q = (case dict_get (a_queueing s) did of Some q \<Rightarrow> q | None \<Rightarrow> queueing_init);
                   (t, q') = arrive now wall n q in
            (Some t, s\<lparr>a_queueing := dict_set did q' (a_queueing s)\<rparr>))"

definition proxy_refused :: "reply option \<Rightarrow> bool" where
  "proxy_refused r = (case r of None \<Rightarrow> True | Some r \<Rightarrow> 400 \<le> rp_status r \<and> rp_status r \<le> 599)"

definition queue_header :: "queueing option \<Rightarrow> nat option \<Rightarrow> string option" where
  "queue_header q t = (case (q, t) of (Some q, Some t) \<Rightarrow> map_option show_int (waited_ms t q) | _ \<Rightarrow> None)"

definition engine_report :: "agent \<Rightarrow> string \<Rightarrow> string \<Rightarrow> reply option \<Rightarrow> response" where
  "engine_report s did path r =
     (case dict_get (a_config s) did of
        None \<Rightarrow> unknown_deployment
      | Some d \<Rightarrow>
          if path \<notin> set ENGINE_PATHS \<or> \<not> engine_serves_metrics d then unsupported_endpoint
          else if \<not> child_running s did then error_answer 503 ''deployment process is not running''
          else (case r of None \<Rightarrow> unavailable | Some r \<Rightarrow> Content (rp_status r) (rp_text r) JNull))"

section \<open>The admin routes\<close>

text \<open>\<open>DEPLOYMENT_ID.match\<close>: as every pattern with \<open>$\<close>, it also accepts one final newline.\<close>

definition slug_id :: "string \<Rightarrow> bool" where
  "slug_id = slug_match (\<lambda>c. is_lower c \<or> is_digit c) (\<lambda>c. is_lower c \<or> is_digit c \<or> c = CHR ''-'') 0 63"

definition DEPLOYMENT_ID :: "string \<Rightarrow> bool" where
  "DEPLOYMENT_ID = dollar_match slug_id"

text \<open>
  What \<open>put_deployment\<close> and \<open>delete_deployment\<close> answer with: the status of a transition's result, of
  the error its files or its worker raised.
\<close>

definition bad_id :: response where
  "bad_id = error_answer 422 ''deployment id must be a short lowercase slug''"

definition error_text :: "py_error \<Rightarrow> string" where
  "error_text e = (case e of ValueError m \<Rightarrow> m | TypeError m \<Rightarrow> m | KeyError m \<Rightarrow> m | OSError m \<Rightarrow> m
     | RuntimeError m \<Rightarrow> m | PersistenceError m \<Rightarrow> m)"

definition put_deployment :: "string \<Rightarrow> py_error + (string, json) dict \<Rightarrow> py_error + response" where
  "put_deployment did result =
     (if \<not> DEPLOYMENT_ID did then Inr bad_id
      else case result of
        Inl (TypeError m) \<Rightarrow> Inl (TypeError m)
      | Inl (KeyError m) \<Rightarrow> Inl (KeyError m)
      | Inl e \<Rightarrow> Inr (error_answer 422 (error_text e))
      | Inr r \<Rightarrow> Inr (Answer (if dict_get r ''status'' = Some (JStr ''healthy'') then 200 else 422) (JObj r)))"

definition delete_deployment :: "string \<Rightarrow> py_error + (string, json) dict \<Rightarrow> py_error + response" where
  "delete_deployment did result =
     (if \<not> DEPLOYMENT_ID did then Inr bad_id
      else case result of
        Inl (TypeError m) \<Rightarrow> Inl (TypeError m)
      | Inl (KeyError m) \<Rightarrow> Inl (KeyError m)
      | Inl (ValueError m) \<Rightarrow> Inl (ValueError m)
      | Inl e \<Rightarrow> Inr (Answer 500 (JObj [(''error'', JStr (error_text e)), (''id'', JStr did)]))
      | Inr r \<Rightarrow> Inr (Answer 200 (JObj r)))"

end
