(* ===== verification/AgentInvariant.thy ===== *)
theory AgentInvariant
  imports AgentTransitions
begin

text \<open>
  What every stretch of every transition keeps (\<open>agent_inv\<close>), whatever the other deployments do in
  between: ports and children belong to one deployment each, the file agrees with the records in
  memory, each gate counts the requests behind it, and each worker's phase fits its deployment. A
  stretch is followed with the invariant open at its own deployment (\<open>inv_open\<close>) and closed at its end.
\<close>

section \<open>The invariant\<close>

definition owns :: "agent \<Rightarrow> string \<Rightarrow> int \<Rightarrow> bool" where
  "owns s i p \<longleftrightarrow>
     (\<exists>d. dict_get (a_config s) i = Some d \<and> d_port d = p) \<or>
     (\<exists>pr. dict_get (a_procs s) i = Some pr \<and> d_port (p_rec pr) = p) \<or>
     (\<exists>w. dict_get (a_work s) i = Some w \<and> w_job w = Replace \<and> w_port w = p)"

text \<open>A registered child runs the deployment's record.\<close>

definition serves :: "agent \<Rightarrow> string \<Rightarrow> bool" where
  "serves s i \<longleftrightarrow> (\<forall>pr. dict_get (a_procs s) i = Some pr \<longrightarrow> dict_get (a_config s) i = Some (p_rec pr))"

definition gate_shut :: "agent \<Rightarrow> string \<Rightarrow> bool" where
  "gate_shut s i \<longleftrightarrow> (\<exists>g. gate_of s i = Some g \<and> g_paused g)"

definition runs :: "agent \<Rightarrow> string \<Rightarrow> deployment \<Rightarrow> bool" where
  "runs s i d \<longleftrightarrow> (\<exists>pr. dict_get (a_procs s) i = Some pr \<and> p_rec pr = d)"

definition phase_ok :: "agent \<Rightarrow> string \<Rightarrow> work \<Rightarrow> bool" where
  "phase_ok s i w \<longleftrightarrow>
     (case w_phase w of
        Draining was_paused \<Rightarrow> w_previous w \<noteq> None \<and> (\<not> was_paused \<longrightarrow> serves s i)
      | Stopping \<Rightarrow> dict_get (a_procs s) i \<noteq> None
      | Verifying \<Rightarrow> dict_get (a_procs s) i = None
      | Readying \<Rightarrow> runs s i (w_candidate w)
      | UndoStopping \<Rightarrow> dict_get (a_procs s) i \<noteq> None
      | UndoVerifying \<Rightarrow> dict_get (a_procs s) i = None \<and> w_previous w \<noteq> None
      | UndoReadying \<Rightarrow> w_previous w \<noteq> None \<and> runs s i (the (w_previous w)))"

definition work_ok :: "agent \<Rightarrow> string \<Rightarrow> work \<Rightarrow> bool" where
  "work_ok s i w \<longleftrightarrow>
     w_previous w = dict_get (a_config s) i \<and>
     (w_job w = Replace \<longrightarrow> d_port (w_candidate w) = w_port w \<and> w_port w \<in> set (a_reserved s) \<and>
        (\<forall>d. w_previous w = Some d \<longrightarrow> d_port d = w_port w)) \<and>
     (w_job w = Forget \<longrightarrow> w_previous w \<noteq> None \<and> (draining w \<or> w_phase w = Stopping)) \<and>
     (w_job w = ForgetOrphan \<longrightarrow> w_previous w = None \<and> w_phase w = Stopping) \<and>
     (w_job w \<noteq> ForgetOrphan \<longrightarrow> gate_shut s i) \<and>
     phase_ok s i w"

definition slot_ok :: "agent \<Rightarrow> string \<Rightarrow> bool" where
  "slot_ok s i \<longleftrightarrow>
     (\<forall>w. dict_get (a_work s) i = Some w \<longrightarrow> work_ok s i w) \<and>
     (\<not> gate_shut s i \<longrightarrow> serves s i) \<and>
     (\<forall>g. gate_of s i = Some g \<and> \<not> g_paused g \<longrightarrow> dict_get (a_config s) i \<noteq> None)"

definition gate_object_ok :: "agent \<Rightarrow> nat \<Rightarrow> admission \<Rightarrow> bool" where
  "gate_object_ok s g adm \<longleftrightarrow>
     admission_gate.gate_ok adm \<and> g_requests adm = int (count_list (a_flights s) g) \<and> g < a_next_gate s \<and>
     (\<forall>i. dict_get (a_owner s) g = Some i \<and> \<not> g_paused adm \<longrightarrow> dict_get (a_gate s) i = Some g)"

definition gates_ok :: "agent \<Rightarrow> bool" where
  "gates_ok s \<longleftrightarrow>
     (\<forall>g adm. dict_get (a_gates s) g = Some adm \<longrightarrow> gate_object_ok s g adm) \<and>
     (\<forall>g \<in> set (a_flights s). dict_get (a_gates s) g \<noteq> None) \<and>
     (\<forall>i g. dict_get (a_gate s) i = Some g \<longrightarrow> dict_get (a_gates s) g \<noteq> None \<and> dict_get (a_owner s) g = Some i)"

definition children_ok :: "agent \<Rightarrow> bool" where
  "children_ok s \<longleftrightarrow>
     (\<forall>i pr. dict_get (a_procs s) i = Some pr \<longrightarrow> p_handle pr < a_next_child s) \<and>
     (\<forall>i j pr qr. dict_get (a_procs s) i = Some pr \<and> dict_get (a_procs s) j = Some qr \<and> p_handle pr = p_handle qr \<longrightarrow> i = j) \<and>
     (\<forall>h \<in> set (a_alive s). \<exists>i pr. dict_get (a_procs s) i = Some pr \<and> p_handle pr = h)"

definition ports_ok :: "agent \<Rightarrow> bool" where
  "ports_ok s \<longleftrightarrow>
     (\<forall>i j p. owns s i p \<and> owns s j p \<longrightarrow> i = j) \<and> (\<forall>i. \<not> owns s i (a_port s))"

definition agent_inv :: "agent \<Rightarrow> bool" where
  "agent_inv s \<longleftrightarrow>
     (\<forall>i. slot_ok s i) \<and> gates_ok s \<and> children_ok s \<and> ports_ok s \<and> dict_get (a_disk s) = dict_get (a_config s)"

text \<open>Which deployments a stretch leaves alone.\<close>

definition same_slot :: "agent \<Rightarrow> agent \<Rightarrow> string \<Rightarrow> bool" where
  "same_slot s t j \<longleftrightarrow>
     dict_get (a_config t) j = dict_get (a_config s) j \<and> dict_get (a_procs t) j = dict_get (a_procs s) j \<and>
     dict_get (a_work t) j = dict_get (a_work s) j \<and> gate_of t j = gate_of s j \<and>
     (\<forall>w. dict_get (a_work s) j = Some w \<and> w_job w = Replace \<longrightarrow> w_port w \<in> set (a_reserved t))"

lemma same_slot_views:
  assumes "same_slot s t j"
  shows "serves t j = serves s j" "gate_shut t j = gate_shut s j" "runs t j d = runs s j d" "phase_ok t j w = phase_ok s j w"
proof -
  show v: "serves t j = serves s j" "gate_shut t j = gate_shut s j" "\<And>d. runs t j d = runs s j d"
    using assms by (simp_all add: same_slot_def serves_def gate_shut_def runs_def)
  then show "phase_ok t j w = phase_ok s j w"
    using assms by (simp add: phase_ok_def same_slot_def split: phase.split)
qed

lemma same_slot_ok:
  assumes "same_slot s t j" "slot_ok s j"
  shows "slot_ok t j"
proof -
  note v = same_slot_views [OF assms(1)]
  have "work_ok t j w" if "dict_get (a_work t) j = Some w" for w
  proof -
    have w: "dict_get (a_work s) j = Some w" using that assms(1) by (simp add: same_slot_def)
    then have "work_ok s j w" using assms(2) by (simp add: slot_ok_def)
    moreover have "w_job w = Replace \<longrightarrow> w_port w \<in> set (a_reserved t)" "dict_get (a_config t) j = dict_get (a_config s) j"
      using assms(1) w by (simp_all add: same_slot_def)
    ultimately show ?thesis unfolding work_ok_def v by metis
  qed
  then show ?thesis using assms by (simp add: slot_ok_def v same_slot_def)
qed

lemma same_slot_owns: "same_slot s t j \<Longrightarrow> owns t j p = owns s j p"
  by (simp add: same_slot_def owns_def)

lemma inv_local:
  assumes inv: "agent_inv s"
    and frame: "\<And>j. j \<noteq> i \<Longrightarrow> same_slot s t j"
    and slot: "slot_ok t i" and gates: "gates_ok t" and disk: "dict_get (a_disk t) = dict_get (a_config t)"
    and ports: "a_port t = a_port s"
      "\<And>p. owns t i p \<Longrightarrow> owns s i p \<or> (p \<noteq> a_port s \<and> (\<forall>j. \<not> owns s j p))"
    and next': "a_next_child s \<le> a_next_child t"
    and child: "\<And>pr. dict_get (a_procs t) i = Some pr \<Longrightarrow>
      (\<exists>qr. dict_get (a_procs s) i = Some qr \<and> p_handle qr = p_handle pr) \<or>
      (a_next_child s \<le> p_handle pr \<and> p_handle pr < a_next_child t)"
    and alive: "\<And>h. h \<in> set (a_alive t) \<Longrightarrow>
      (\<exists>pr. dict_get (a_procs t) i = Some pr \<and> p_handle pr = h) \<or>
      (h \<in> set (a_alive s) \<and> (\<forall>pr. dict_get (a_procs s) i = Some pr \<longrightarrow> p_handle pr \<noteq> h))"
  shows "agent_inv t"
proof -
  have old: "\<And>j. slot_ok s j" "children_ok s" "ports_ok s" using inv by (simp_all add: agent_inv_def)
  have "slot_ok t j" for j
    using slot same_slot_ok [OF frame old(1)] by (cases "j = i") auto
  moreover have "ports_ok t"
    unfolding ports_ok_def
  proof (intro conjI allI impI; (elim conjE)?)
    fix j k p assume "owns t j p" "owns t k p"
    then show "j = k"
      using same_slot_owns [OF frame] ports(2) old(3) unfolding ports_ok_def by metis
  next
    fix j show "\<not> owns t j (a_port t)"
      using same_slot_owns [OF frame, of j] ports old(3) unfolding ports_ok_def by metis
  qed
  moreover have "children_ok t"
  proof -
    have other: "dict_get (a_procs t) j = dict_get (a_procs s) j" if "j \<noteq> i" for j
      using frame [OF that] by (simp add: same_slot_def)
    have less: "p_handle pr < a_next_child s" if "dict_get (a_procs s) j = Some pr" for j pr
      using old(2) that by (simp add: children_ok_def)
    have uniq: "j = k" if "dict_get (a_procs s) j = Some pr" "dict_get (a_procs s) k = Some qr" "p_handle pr = p_handle qr" for j k pr qr
      using old(2) that unfolding children_ok_def by blast
    show ?thesis
      unfolding children_ok_def
    proof (intro conjI allI impI ballI; (elim conjE)?)
      fix j pr assume a: "dict_get (a_procs t) j = Some pr"
      show "p_handle pr < a_next_child t"
      proof (cases "j = i")
        case True
        then show ?thesis using child [of pr] a less [of i] next' by fastforce
      next
        case False
        then show ?thesis using other a less [of j pr] next' by auto
      qed
    next
      fix j k pr qr
      assume a: "dict_get (a_procs t) j = Some pr" "dict_get (a_procs t) k = Some qr" "p_handle pr = p_handle qr"
      have clash: False if "j' \<noteq> i" "dict_get (a_procs t) j' = Some pr'" "dict_get (a_procs t) i = Some qr'" "p_handle pr' = p_handle qr'"
        for j' pr' qr'
        using child [OF that(3)] other [OF that(1)] that uniq less [of j' pr'] by (metis leD)
      show "j = k"
        using a clash [of j pr qr] clash [of k qr pr] other uniq [of j pr k qr] by metis
    next
      fix h assume h: "h \<in> set (a_alive t)"
      from alive [OF h] show "\<exists>j pr. dict_get (a_procs t) j = Some pr \<and> p_handle pr = h"
      proof
        assume "h \<in> set (a_alive s) \<and> (\<forall>pr. dict_get (a_procs s) i = Some pr \<longrightarrow> p_handle pr \<noteq> h)"
        moreover then obtain j pr where "dict_get (a_procs s) j = Some pr" "p_handle pr = h"
          using old(2) unfolding children_ok_def by blast
        ultimately show ?thesis using other by (metis)
      qed auto
    qed
  qed
  ultimately show ?thesis using gates disk by (simp add: agent_inv_def)
qed


section \<open>What the shared steps keep\<close>

lemma gate_of_cong: "a_gate t = a_gate s \<Longrightarrow> a_gates t = a_gates s \<Longrightarrow> gate_of t = gate_of s"
  by (simp add: gate_of_def fun_eq_iff cong: option.case_cong)

lemma new_gate_fields [simp]:
  "a_port (new_gate i b s) = a_port s" "a_config (new_gate i b s) = a_config s" "a_disk (new_gate i b s) = a_disk s"
  "a_procs (new_gate i b s) = a_procs s" "a_reserved (new_gate i b s) = a_reserved s" "a_work (new_gate i b s) = a_work s"
  "a_stopping (new_gate i b s) = a_stopping s" "a_alive (new_gate i b s) = a_alive s"
  "a_next_child (new_gate i b s) = a_next_child s" "a_queueing (new_gate i b s) = a_queueing s"
  "a_flights (new_gate i b s) = a_flights s" "a_answers (new_gate i b s) = a_answers s" "a_swept (new_gate i b s) = a_swept s"
  by (simp_all add: new_gate_def)

lemma set_paused_fields [simp]:
  "a_port (set_paused i b s) = a_port s" "a_config (set_paused i b s) = a_config s" "a_disk (set_paused i b s) = a_disk s"
  "a_procs (set_paused i b s) = a_procs s" "a_reserved (set_paused i b s) = a_reserved s" "a_work (set_paused i b s) = a_work s"
  "a_stopping (set_paused i b s) = a_stopping s" "a_alive (set_paused i b s) = a_alive s"
  "a_next_child (set_paused i b s) = a_next_child s" "a_queueing (set_paused i b s) = a_queueing s"
  "a_flights (set_paused i b s) = a_flights s" "a_answers (set_paused i b s) = a_answers s" "a_swept (set_paused i b s) = a_swept s"
  by (simp_all add: set_paused_def split: option.splits)

lemma default_gate_fields [simp]:
  "a_port (default_gate i s) = a_port s" "a_config (default_gate i s) = a_config s" "a_disk (default_gate i s) = a_disk s"
  "a_procs (default_gate i s) = a_procs s" "a_reserved (default_gate i s) = a_reserved s" "a_work (default_gate i s) = a_work s"
  "a_stopping (default_gate i s) = a_stopping s" "a_alive (default_gate i s) = a_alive s"
  "a_next_child (default_gate i s) = a_next_child s" "a_flights (default_gate i s) = a_flights s"
  "a_answers (default_gate i s) = a_answers s" "a_swept (default_gate i s) = a_swept s"
  by (simp_all add: default_gate_def)

lemma drop_fields [simp]:
  "a_port (drop_gate i s) = a_port s" "a_config (drop_gate i s) = a_config s" "a_disk (drop_gate i s) = a_disk s"
  "a_procs (drop_gate i s) = a_procs s" "a_reserved (drop_gate i s) = a_reserved s" "a_work (drop_gate i s) = a_work s"
  "a_stopping (drop_gate i s) = a_stopping s" "a_alive (drop_gate i s) = a_alive s" "a_next_child (drop_gate i s) = a_next_child s"
  "a_flights (drop_gate i s) = a_flights s" "a_answers (drop_gate i s) = a_answers s" "a_swept (drop_gate i s) = a_swept s"
  by (simp_all add: drop_gate_def)

lemma drop_queueing_fields [simp]:
  "a_port (drop_queueing i s) = a_port s" "a_config (drop_queueing i s) = a_config s" "a_disk (drop_queueing i s) = a_disk s"
  "a_procs (drop_queueing i s) = a_procs s" "a_reserved (drop_queueing i s) = a_reserved s" "a_work (drop_queueing i s) = a_work s"
  "a_stopping (drop_queueing i s) = a_stopping s" "a_alive (drop_queueing i s) = a_alive s"
  "a_next_child (drop_queueing i s) = a_next_child s" 
  "a_flights (drop_queueing i s) = a_flights s" "a_answers (drop_queueing i s) = a_answers s" "a_swept (drop_queueing i s) = a_swept s"
  by (simp_all add: drop_queueing_def)

lemma unregister_fields [simp]:
  "a_port (unregister i s) = a_port s" "a_config (unregister i s) = a_config s" "a_disk (unregister i s) = a_disk s"
  "dict_get (a_procs (unregister i s)) = (dict_get (a_procs s))(i := None)"
  "a_reserved (unregister i s) = a_reserved s" "a_work (unregister i s) = a_work s"
  "a_stopping (unregister i s) = a_stopping s" "a_next_child (unregister i s) = a_next_child s"
  "a_answers (unregister i s) = a_answers s" "a_swept (unregister i s) = a_swept s"
  by (auto simp: unregister_def fun_eq_iff split: option.splits)

lemma finish_fields [simp]:
  "a_port (finish i w a s) = a_port s" "a_config (finish i w a s) = a_config s" "a_disk (finish i w a s) = a_disk s"
  "a_procs (finish i w a s) = a_procs s" "a_work (finish i w a s) = dict_del i (a_work s)"
  "a_stopping (finish i w a s) = a_stopping s" "a_alive (finish i w a s) = a_alive s"
  "a_next_child (finish i w a s) = a_next_child s" 
  "a_answers (finish i w a s) = a_answers s @ [(i, a)]" "a_swept (finish i w a s) = a_swept s"
  by (simp_all add: finish_def)

lemma set_phase_fields [simp]:
  "a_port (set_phase i w p s) = a_port s" "a_config (set_phase i w p s) = a_config s" "a_disk (set_phase i w p s) = a_disk s"
  "a_procs (set_phase i w p s) = a_procs s" "a_work (set_phase i w p s) = dict_set i (w\<lparr>w_phase := p\<rparr>) (a_work s)"
  "a_reserved (set_phase i w p s) = a_reserved s"
  "a_stopping (set_phase i w p s) = a_stopping s" "a_alive (set_phase i w p s) = a_alive s"
  "a_next_child (set_phase i w p s) = a_next_child s" 
  "a_answers (set_phase i w p s) = a_answers s" "a_swept (set_phase i w p s) = a_swept s"
  by (simp_all add: set_phase_def)

lemma gate_of_frames [simp]:
  "gate_of (drop_queueing i s) = gate_of s" "gate_of (unregister i s) = gate_of s"
  "gate_of (finish i w a s) = gate_of s" "gate_of (set_phase i w p s) = gate_of s"
  by (rule gate_of_cong; simp add: drop_queueing_def unregister_def finish_def set_phase_def split: option.split)+

lemma gate_fresh: "gates_ok s \<Longrightarrow> dict_get (a_gate s) j \<noteq> Some (a_next_gate s)"
  unfolding gates_ok_def gate_object_ok_def by (metis less_irrefl not_None_eq)

lemma gate_unique: "gates_ok s \<Longrightarrow> dict_get (a_gate s) i = Some g \<Longrightarrow> dict_get (a_gate s) j = Some g \<Longrightarrow> i = j"
  unfolding gates_ok_def by (metis option.inject)

lemma gate_of_None: "gates_ok s \<Longrightarrow> gate_of s i = None \<longleftrightarrow> dict_get (a_gate s) i = None"
  by (auto simp: gate_of_def gates_ok_def split: option.splits)

lemma gate_of_new: "gates_ok s \<Longrightarrow> gate_of (new_gate i b s) = (gate_of s)(i \<mapsto> new_admission\<lparr>g_paused := b\<rparr>)"
  using gate_fresh [of s] by (auto simp: gate_of_def new_gate_def fun_eq_iff split: option.splits)

lemma gate_of_paused:
  "gates_ok s \<Longrightarrow> gate_of (set_paused i b s) = (gate_of s)(i := map_option (\<lambda>g. g\<lparr>g_paused := b\<rparr>) (gate_of s i))"
  using gate_unique [of s] by (fastforce simp: gate_of_def set_paused_def fun_eq_iff split: option.splits)

lemma gate_of_drop: "gate_of (drop_gate i s) = (gate_of s)(i := None)"
  by (auto simp: gate_of_def drop_gate_def fun_eq_iff split: option.split)

lemma gate_of_default:
  "gates_ok s \<Longrightarrow> gate_of (default_gate i s) = (gate_of s)(i := Some (case gate_of s i of None \<Rightarrow> new_admission | Some g \<Rightarrow> g))"
proof -
  assume g: "gates_ok s"
  have "new_admission\<lparr>g_paused := False\<rparr> = new_admission" by (simp add: new_admission_def)
  then show ?thesis
    using gate_of_None [OF g, of i] by (auto simp: default_gate_def gate_of_new [OF g] fun_eq_iff split: option.splits)
qed

lemma gates_ok_cong:
  "a_gate t = a_gate s \<Longrightarrow> a_gates t = a_gates s \<Longrightarrow> a_owner t = a_owner s \<Longrightarrow> a_flights t = a_flights s \<Longrightarrow>
   a_next_gate t = a_next_gate s \<Longrightarrow> gates_ok t = gates_ok s"
  by (simp add: gates_ok_def gate_object_ok_def)

lemma gates_ok_frames [simp]:
  "gates_ok (finish i w a s) = gates_ok s" "gates_ok (set_phase i w p s) = gates_ok s"
  "gates_ok (drop_queueing i s) = gates_ok s" "gates_ok (unregister i s) = gates_ok s"
  by (rule gates_ok_cong; simp add: finish_def set_phase_def drop_queueing_def unregister_def split: option.splits)+

lemma gate_ok_paused [simp]: "admission_gate.gate_ok (adm\<lparr>g_paused := b\<rparr>) = admission_gate.gate_ok adm"
  by (simp add: admission_gate.gate_ok_def)

lemma gates_okI:
  assumes "\<And>g adm. dict_get (a_gates s) g = Some adm \<Longrightarrow> gate_object_ok s g adm"
    and "\<And>g. g \<in> set (a_flights s) \<Longrightarrow> dict_get (a_gates s) g \<noteq> None"
    and "\<And>i g. dict_get (a_gate s) i = Some g \<Longrightarrow> dict_get (a_gates s) g \<noteq> None \<and> dict_get (a_owner s) g = Some i"
  shows "gates_ok s"
  using assms by (auto simp: gates_ok_def)

lemma gates_okD:
  assumes "gates_ok s"
  shows "dict_get (a_gates s) g = Some adm \<Longrightarrow> gate_object_ok s g adm"
    "g \<in> set (a_flights s) \<Longrightarrow> dict_get (a_gates s) g \<noteq> None"
    "dict_get (a_gate s) i = Some g \<Longrightarrow> dict_get (a_gates s) g \<noteq> None"
    "dict_get (a_gate s) i = Some g \<Longrightarrow> dict_get (a_owner s) g = Some i"
  using assms by (auto simp: gates_ok_def)

lemma gates_ok_new:
  assumes g: "gates_ok s" and old: "gate_of s i = None \<or> gate_shut s i"
  shows "gates_ok (new_gate i b s)"
proof (rule gates_okI)
  have fresh: "dict_get (a_gates s) (a_next_gate s) = None" "a_next_gate s \<notin> set (a_flights s)"
    using gates_okD(1,2) [OF g, of "a_next_gate s"]
    by (cases "dict_get (a_gates s) (a_next_gate s)"; auto simp: gate_object_ok_def)+
  then have zero: "count_list (a_flights s) (a_next_gate s) = 0" by (simp add: count_list_0_iff)
  fix h adm assume h: "dict_get (a_gates (new_gate i b s)) h = Some adm"
  show "gate_object_ok (new_gate i b s) h adm"
  proof (cases "h = a_next_gate s")
    case True
    then show ?thesis using h zero admission_gate.gate_ok_fresh
      by (auto simp: gate_object_ok_def new_gate_def admission_gate.count_fresh)
  next
    case False
    then have h': "dict_get (a_gates s) h = Some adm" using h by (simp add: new_gate_def)
    have "g_paused adm" if "dict_get (a_gate s) i = Some h"
      using old that h' by (auto simp: gate_of_def gate_shut_def)
    then show ?thesis using gates_okD(1) [OF g h'] False by (auto simp: gate_object_ok_def new_gate_def)
  qed
next
  fix h assume "h \<in> set (a_flights (new_gate i b s))"
  then show "dict_get (a_gates (new_gate i b s)) h \<noteq> None"
    using gates_okD(2) [OF g, of h] by (simp add: new_gate_def)
next
  fix j h assume "dict_get (a_gate (new_gate i b s)) j = Some h"
  moreover have "dict_get (a_gate s) j \<noteq> Some (a_next_gate s)" by (rule gate_fresh [OF g])
  ultimately show "dict_get (a_gates (new_gate i b s)) h \<noteq> None \<and> dict_get (a_owner (new_gate i b s)) h = Some j"
    using gates_okD(3,4) [OF g, of j h] by (auto simp: new_gate_def split: if_splits)
qed

lemma gates_ok_set_paused:
  assumes g: "gates_ok s"
  shows "gates_ok (set_paused i b s)"
proof (cases "dict_get (a_gate s) i")
  case None
  then show ?thesis using g by (simp add: set_paused_def)
next
  case (Some k)
  then obtain adm where a: "dict_get (a_gates s) k = Some adm" using gates_okD(3) [OF g] by blast
  have eq: "set_paused i b s = s\<lparr>a_gates := dict_set k (adm\<lparr>g_paused := b\<rparr>) (a_gates s)\<rparr>"
    using Some a by (simp add: set_paused_def gate_of_def)
  show ?thesis
  proof (rule gates_okI)
    fix h adm' assume h: "dict_get (a_gates (set_paused i b s)) h = Some adm'"
    show "gate_object_ok (set_paused i b s) h adm'"
    proof (cases "h = k")
      case True
      then show ?thesis using h gates_okD(1) [OF g a] gates_okD(4) [OF g Some] Some
        by (auto simp: eq gate_object_ok_def)
    next
      case False
      then show ?thesis using h gates_okD(1) [OF g, of h adm'] by (simp add: eq gate_object_ok_def)
    qed
  next
    fix h assume "h \<in> set (a_flights (set_paused i b s))"
    then show "dict_get (a_gates (set_paused i b s)) h \<noteq> None" using gates_okD(2) [OF g, of h] by (simp add: eq)
  next
    fix j h assume "dict_get (a_gate (set_paused i b s)) j = Some h"
    then show "dict_get (a_gates (set_paused i b s)) h \<noteq> None \<and> dict_get (a_owner (set_paused i b s)) h = Some j"
      using gates_okD(3,4) [OF g, of j h] by (simp add: eq)
  qed
qed

lemma gates_ok_drop:
  assumes g: "gates_ok s" and old: "gate_of s i = None \<or> gate_shut s i"
  shows "gates_ok (drop_gate i s)"
proof (rule gates_okI)
  fix h adm assume h: "dict_get (a_gates (drop_gate i s)) h = Some adm"
  then have h': "dict_get (a_gates s) h = Some adm" by (simp add: drop_gate_def)
  have "g_paused adm" if "dict_get (a_gate s) i = Some h"
    using old that h' by (auto simp: gate_of_def gate_shut_def)
  then show "gate_object_ok (drop_gate i s) h adm"
    using gates_okD(1) [OF g h'] by (auto simp: gate_object_ok_def drop_gate_def)
next
  fix h assume "h \<in> set (a_flights (drop_gate i s))"
  then show "dict_get (a_gates (drop_gate i s)) h \<noteq> None"
    using gates_okD(2) [OF g, of h] by (simp add: drop_gate_def)
next
  fix j h assume "dict_get (a_gate (drop_gate i s)) j = Some h"
  then show "dict_get (a_gates (drop_gate i s)) h \<noteq> None \<and> dict_get (a_owner (drop_gate i s)) h = Some j"
    using gates_okD(3,4) [OF g, of j h] by (simp add: drop_gate_def split: if_splits)
qed

lemma gates_ok_default: "gates_ok s \<Longrightarrow> gates_ok (default_gate i s)"
  using gates_ok_new [of s i False] gate_of_None [of s i] by (auto simp: default_gate_def)


section \<open>An invariant open at one deployment\<close>

text \<open>
  Inside a stretch of the worker \<open>w\<close> of deployment \<open>i\<close> everything but that deployment's own slot is
  in order, and the worker's port is its own.
\<close>

definition inv_open :: "agent \<Rightarrow> string \<Rightarrow> work \<Rightarrow> bool" where
  "inv_open s i w \<longleftrightarrow>
     (\<forall>j. j \<noteq> i \<longrightarrow> slot_ok s j) \<and> gates_ok s \<and> children_ok s \<and> ports_ok s \<and>
     dict_get (a_disk s) = dict_get (a_config s) \<and>
     (w_job w = Replace \<longrightarrow> w_port w \<in> set (a_reserved s) \<and> w_port w \<noteq> a_port s \<and> (\<forall>j. j \<noteq> i \<longrightarrow> \<not> owns s j (w_port w)))"

lemma inv_openD:
  assumes "inv_open s i w"
  shows "j \<noteq> i \<Longrightarrow> slot_ok s j" "gates_ok s" "children_ok s" "ports_ok s" "dict_get (a_disk s) = dict_get (a_config s)"
    "w_job w = Replace \<Longrightarrow> w_port w \<in> set (a_reserved s)" "w_job w = Replace \<Longrightarrow> w_port w \<noteq> a_port s"
    "w_job w = Replace \<Longrightarrow> j \<noteq> i \<Longrightarrow> \<not> owns s j (w_port w)"
  using assms by (auto simp: inv_open_def)

lemma open_worker:
  assumes inv: "agent_inv s" and w: "dict_get (a_work s) i = Some w"
  shows "inv_open s i w" "work_ok s i w"
proof -
  show "work_ok s i w" using inv w by (auto simp: agent_inv_def slot_ok_def)
  moreover have "owns s i (w_port w)" if "w_job w = Replace" using w that by (auto simp: owns_def)
  ultimately show "inv_open s i w"
    using inv unfolding inv_open_def agent_inv_def work_ok_def ports_ok_def by metis
qed

text \<open>Updates that keep what other deployments see.\<close>

lemma open_frame:
  assumes o: "inv_open s i w"
    and same: "\<And>j. j \<noteq> i \<Longrightarrow> same_slot s t j" and gates: "gates_ok t" and kids: "children_ok t"
    and disk: "dict_get (a_disk t) = dict_get (a_config t)" and port: "a_port t = a_port s"
    and res: "set (a_reserved s) \<subseteq> set (a_reserved t)"
    and own: "\<And>p. owns t i p \<Longrightarrow> owns s i p \<or> (w_job w = Replace \<and> p = w_port w)"
  shows "inv_open t i w"
proof -
  have other: "owns t j p = owns s j p" if "j \<noteq> i" for j p using same_slot_owns [OF same [OF that]] .
  have excl: "j = k" if "owns s j p" "owns s k p" for j k p
    using inv_openD(4) [OF o] that unfolding ports_ok_def by blast
  have mine: False if "owns t i p" "owns s j p" "j \<noteq> i" for j p
    using own [OF that(1)] inv_openD(8) [OF o _ that(3)] excl [of i p j] that by metis
  have "ports_ok t"
    unfolding ports_ok_def
  proof (intro conjI allI impI; (elim conjE)?)
    fix j k p assume a: "owns t j p" "owns t k p"
    show "j = k"
      using a other [of j p] other [of k p] mine [of p j] mine [of p k] excl [of j p k] by metis
  next
    fix j show "\<not> owns t j (a_port t)"
      using other [of j] own inv_openD(4,7) [OF o] port unfolding ports_ok_def by metis
  qed
  moreover have "slot_ok t j" if "j \<noteq> i" for j using same_slot_ok [OF same [OF that] inv_openD(1) [OF o that]] .
  ultimately show ?thesis
    using gates kids disk inv_openD(6,7,8) [OF o] res other port unfolding inv_open_def by auto
qed

lemma same_slotI:
  "dict_get (a_config t) j = dict_get (a_config s) j \<Longrightarrow> dict_get (a_procs t) j = dict_get (a_procs s) j \<Longrightarrow>
   dict_get (a_work t) j = dict_get (a_work s) j \<Longrightarrow> gate_of t j = gate_of s j \<Longrightarrow>
   (\<And>w. dict_get (a_work s) j = Some w \<Longrightarrow> w_job w = Replace \<Longrightarrow> w_port w \<in> set (a_reserved t)) \<Longrightarrow> same_slot s t j"
  by (simp add: same_slot_def)

lemma reserved_other:
  "slot_ok s j \<Longrightarrow> dict_get (a_work s) j = Some w \<Longrightarrow> w_job w = Replace \<Longrightarrow> w_port w \<in> set (a_reserved s)"
  by (simp add: slot_ok_def work_ok_def)

lemma owns_cong:
  "dict_get (a_config t) i = dict_get (a_config s) i \<Longrightarrow> dict_get (a_procs t) i = dict_get (a_procs s) i \<Longrightarrow>
   dict_get (a_work t) i = dict_get (a_work s) i \<Longrightarrow> owns t i p = owns s i p"
  by (simp add: owns_def)

lemma children_cong:
  "dict_get (a_procs t) = dict_get (a_procs s) \<Longrightarrow> a_alive t = a_alive s \<Longrightarrow> a_next_child t = a_next_child s \<Longrightarrow>
   children_ok t = children_ok s"
  by (simp add: children_ok_def)

lemma open_gate_update:
  assumes o: "inv_open s i w" and g: "gates_ok t" "\<And>j. j \<noteq> i \<Longrightarrow> gate_of t j = gate_of s j"
    and same: "a_port t = a_port s" "a_config t = a_config s" "a_disk t = a_disk s" "a_procs t = a_procs s"
      "a_work t = a_work s" "a_reserved t = a_reserved s" "a_alive t = a_alive s" "a_next_child t = a_next_child s"
  shows "inv_open t i w"
proof (rule open_frame [OF o])
  fix j assume "j \<noteq> i"
  then show "same_slot s t j" using g(2) same reserved_other [OF inv_openD(1) [OF o]] by (intro same_slotI) auto
next
  show "children_ok t" using inv_openD(3) [OF o] same children_cong [of t s] by simp
  fix p show "owns t i p \<Longrightarrow> owns s i p \<or> (w_job w = Replace \<and> p = w_port w)"
    using same owns_cong [of t i s p] by simp
qed (use g same inv_openD [OF o] in auto)

lemma open_new_gate:
  assumes o: "inv_open s i w" and old: "gate_of s i = None \<or> gate_shut s i"
  shows "inv_open (new_gate i b s) i w"
  by (rule open_gate_update [OF o gates_ok_new [OF inv_openD(2) [OF o] old]])
    (simp_all add: gate_of_new [OF inv_openD(2) [OF o]])

lemma open_set_paused:
  assumes o: "inv_open s i w"
  shows "inv_open (set_paused i b s) i w"
  by (rule open_gate_update [OF o gates_ok_set_paused [OF inv_openD(2) [OF o]]])
    (simp_all add: gate_of_paused [OF inv_openD(2) [OF o]])

lemma open_default_gate:
  assumes o: "inv_open s i w"
  shows "inv_open (default_gate i s) i w"
  by (rule open_gate_update [OF o gates_ok_default [OF inv_openD(2) [OF o]]])
    (simp_all add: gate_of_default [OF inv_openD(2) [OF o]])

lemma open_drop_gate:
  assumes o: "inv_open s i w" and old: "gate_of s i = None \<or> gate_shut s i"
  shows "inv_open (drop_gate i s) i w"
  by (rule open_gate_update [OF o gates_ok_drop [OF inv_openD(2) [OF o] old]]) (simp_all add: gate_of_drop)

lemma open_drop_queueing:
  assumes o: "inv_open s i w"
  shows "inv_open (drop_queueing i s) i w"
  by (rule open_gate_update [OF o]) (simp_all add: inv_openD(2) [OF o])

lemma open_unregister:
  assumes o: "inv_open s i w"
  shows "inv_open (unregister i s) i w"
proof (rule open_frame [OF o])
  fix j assume "j \<noteq> i"
  then show "same_slot s (unregister i s) j" using reserved_other [OF inv_openD(1) [OF o]] by (intro same_slotI) auto
next
  have kids: "children_ok s" by (rule inv_openD(3) [OF o])
  have alive: "set (a_alive (unregister i s)) = {h \<in> set (a_alive s). \<forall>pr. dict_get (a_procs s) i = Some pr \<longrightarrow> p_handle pr \<noteq> h}"
    by (auto simp: unregister_def split: option.split)
  show "children_ok (unregister i s)"
    using kids unfolding children_ok_def alive unregister_fields by (auto simp: fun_upd_apply split: if_splits) metis+
  fix p show "owns (unregister i s) i p \<Longrightarrow> owns s i p \<or> (w_job w = Replace \<and> p = w_port w)"
    by (auto simp: owns_def)
qed (use inv_openD [OF o] in auto)

lemma open_start:
  assumes o: "inv_open s i w" and st: "start_deployment i d starts s = Some t"
    and port: "w_job w = Replace" "d_port d = w_port w" and none: "dict_get (a_procs s) i = None"
  shows "inv_open t i w"
proof (rule open_frame [OF o])
  have t: "t = s\<lparr>a_procs := dict_set i \<lparr>p_handle = a_next_child s, p_rec = d\<rparr> (a_procs s),
                   a_alive := a_next_child s # a_alive s, a_next_child := a_next_child s + 1\<rparr>"
    using st by (simp add: start_deployment_def split: if_splits)
  have g: "gate_of t = gate_of s" by (rule gate_of_cong) (simp_all add: t)
  fix j assume "j \<noteq> i"
  then show "same_slot s t j" using g reserved_other [OF inv_openD(1) [OF o]] by (intro same_slotI) (auto simp: t)
next
  have t: "t = s\<lparr>a_procs := dict_set i \<lparr>p_handle = a_next_child s, p_rec = d\<rparr> (a_procs s),
                   a_alive := a_next_child s # a_alive s, a_next_child := a_next_child s + 1\<rparr>"
    using st by (simp add: start_deployment_def split: if_splits)
  show "gates_ok t" using gates_ok_cong [of t s] inv_openD(2) [OF o] by (simp add: t)
  have kids: "children_ok s" by (rule inv_openD(3) [OF o])
  then have less: "p_handle pr < a_next_child s" if "dict_get (a_procs s) j = Some pr" for j pr
    using that by (auto simp: children_ok_def)
  have at: "dict_get (a_procs t) j = (if j = i then Some \<lparr>p_handle = a_next_child s, p_rec = d\<rparr> else dict_get (a_procs s) j)" for j
    by (simp add: t)
  show "children_ok t"
    unfolding children_ok_def
  proof (intro conjI allI impI ballI; (elim conjE)?)
    fix j pr assume "dict_get (a_procs t) j = Some pr"
    then show "p_handle pr < a_next_child t" using less [of j pr] by (auto simp: t split: if_splits)
  next
    fix j k pr qr assume a: "dict_get (a_procs t) j = Some pr" "dict_get (a_procs t) k = Some qr" "p_handle pr = p_handle qr"
    have new: "p_handle pr' = a_next_child s" if "dict_get (a_procs t) i = Some pr'" for pr' using that by (auto simp: at)
    have old: "p_handle pr' < a_next_child s" if "dict_get (a_procs t) j' = Some pr'" "j' \<noteq> i" for j' pr'
      using that less [of j' pr'] by (simp add: at)
    have "j = k" if "j \<noteq> i" "k \<noteq> i"
      using a that kids unfolding children_ok_def at by (metis (full_types))
    then show "j = k" using a new [of pr] new [of qr] old [of j pr] old [of k qr] by fastforce
  next
    fix h assume h: "h \<in> set (a_alive t)"
    show "\<exists>j pr. dict_get (a_procs t) j = Some pr \<and> p_handle pr = h"
    proof (cases "h = a_next_child s")
      case True
      then show ?thesis by (intro exI [of _ i] exI [of _ "\<lparr>p_handle = a_next_child s, p_rec = d\<rparr>"]) (simp add: t)
    next
      case False
      then have "h \<in> set (a_alive s)" using h by (simp add: t)
      then obtain j pr where "dict_get (a_procs s) j = Some pr" "p_handle pr = h"
        using kids unfolding children_ok_def by blast
      moreover have "j \<noteq> i" using calculation none by auto
      ultimately show ?thesis by (intro exI [of _ j] exI [of _ pr]) (simp add: t)
    qed
  qed
  fix p show "owns t i p \<Longrightarrow> owns s i p \<or> (w_job w = Replace \<and> p = w_port w)"
    using port by (auto simp: owns_def t)
  show "dict_get (a_disk t) = dict_get (a_config t)" "a_port t = a_port s" "set (a_reserved s) \<subseteq> set (a_reserved t)"
    using inv_openD(5) [OF o] by (simp_all add: t)
qed


lemma inv_close: "inv_open t i w \<Longrightarrow> slot_ok t i \<Longrightarrow> agent_inv t"
  unfolding agent_inv_def inv_open_def by metis

definition slot_free :: "agent \<Rightarrow> string \<Rightarrow> bool" where
  "slot_free s i \<longleftrightarrow> (\<not> gate_shut s i \<longrightarrow> serves s i) \<and>
     (\<forall>g. gate_of s i = Some g \<and> \<not> g_paused g \<longrightarrow> dict_get (a_config s) i \<noteq> None)"

lemma slot_free_shut: "gate_shut s i \<Longrightarrow> slot_free s i"
  by (auto simp: slot_free_def gate_shut_def)

lemma open_set_phase:
  assumes o: "inv_open s i w"
  shows "inv_open (set_phase i w p s) i w"
proof (rule open_frame [OF o])
  fix j assume "j \<noteq> i"
  then show "same_slot s (set_phase i w p s) j" using reserved_other [OF inv_openD(1) [OF o]] by (intro same_slotI) auto
next
  show "children_ok (set_phase i w p s)" using inv_openD(3) [OF o] by (simp add: children_ok_def)
  fix q show "owns (set_phase i w p s) i q \<Longrightarrow> owns s i q \<or> (w_job w = Replace \<and> q = w_port w)"
    by (auto simp: owns_def)
qed (use inv_openD [OF o] in auto)

lemma set_phase_inv:
  assumes "inv_open s i w" "work_ok s i (w\<lparr>w_phase := p\<rparr>)" "slot_free s i"
  shows "agent_inv (set_phase i w p s)"
proof (rule inv_close [OF open_set_phase [OF assms(1)]])
  have "serves (set_phase i w p s) i = serves s i" "gate_shut (set_phase i w p s) i = gate_shut s i"
    "runs (set_phase i w p s) i = runs s i"
    by (simp_all add: serves_def gate_shut_def runs_def fun_eq_iff)
  moreover from this have "phase_ok (set_phase i w p s) i v = phase_ok s i v" for v
    by (simp add: phase_ok_def split: phase.split)
  ultimately have "work_ok (set_phase i w p s) i (w\<lparr>w_phase := p\<rparr>)"
    using assms(2) unfolding work_ok_def set_phase_fields by metis
  then show "slot_ok (set_phase i w p s) i"
    using assms(3) \<open>serves (set_phase i w p s) i = serves s i\<close> \<open>gate_shut (set_phase i w p s) i = gate_shut s i\<close>
    by (simp add: slot_ok_def slot_free_def)
qed

lemma finish_inv:
  assumes o: "inv_open s i w" and f: "slot_free s i"
  shows "agent_inv (finish i w a s)"
proof -
  let ?t = "finish i w a s"
  have res: "set (a_reserved ?t) = (if w_job w = Replace then set (a_reserved s) - {w_port w} else set (a_reserved s))"
    by (auto simp: finish_def)
  have same: "same_slot s ?t j" if "j \<noteq> i" for j
  proof (rule same_slotI)
    fix v assume v: "dict_get (a_work s) j = Some v" "w_job v = Replace"
    then have "owns s j (w_port v)" by (auto simp: owns_def)
    then show "w_port v \<in> set (a_reserved ?t)"
      using reserved_other [OF inv_openD(1) [OF o that] v] inv_openD(8) [OF o _ that] unfolding res by auto
  qed (use that in auto)
  have "slot_ok ?t i" using f by (simp add: slot_ok_def slot_free_def serves_def gate_shut_def)
  moreover have "slot_ok ?t j" if "j \<noteq> i" for j using same_slot_ok [OF same [OF that] inv_openD(1) [OF o that]] .
  moreover have "owns ?t j p \<Longrightarrow> owns s j p" for j p
    using same_slot_owns [OF same] by (cases "j = i") (auto simp: owns_def)
  then have "ports_ok ?t" using inv_openD(4) [OF o] unfolding ports_ok_def finish_fields by blast
  moreover have "children_ok ?t" using inv_openD(3) [OF o] by (simp add: children_ok_def)
  ultimately show ?thesis
    using inv_openD(2,5) [OF o] unfolding agent_inv_def by (metis finish_fields(2,3) gates_ok_frames(1))
qed

text \<open>What a replacement keeps at hand from its first stretch to its last.\<close>

definition rep_ok :: "agent \<Rightarrow> string \<Rightarrow> work \<Rightarrow> bool" where
  "rep_ok s i w \<longleftrightarrow>
     w_job w = Replace \<and> w_previous w = dict_get (a_config s) i \<and> d_port (w_candidate w) = w_port w \<and>
     (\<forall>d. w_previous w = Some d \<longrightarrow> d_port d = w_port w) \<and> w_port w \<in> set (a_reserved s)"

lemma rep_work:
  "rep_ok s i w \<Longrightarrow> gate_shut s i \<Longrightarrow> phase_ok s i (w\<lparr>w_phase := p\<rparr>) \<Longrightarrow> work_ok s i (w\<lparr>w_phase := p\<rparr>)"
  by (simp add: rep_ok_def work_ok_def)

lemma rep_phase_inv:
  "inv_open s i w \<Longrightarrow> rep_ok s i w \<Longrightarrow> gate_shut s i \<Longrightarrow> phase_ok s i (w\<lparr>w_phase := p\<rparr>) \<Longrightarrow> agent_inv (set_phase i w p s)"
  by (rule set_phase_inv) (auto intro: rep_work slot_free_shut)

lemma open_disk:
  assumes o: "inv_open s i w"
  shows "inv_open (s\<lparr>a_disk := a_config s\<rparr>) i w"
proof (rule open_frame [OF o])
  have g: "gate_of (s\<lparr>a_disk := a_config s\<rparr>) = gate_of s" by (rule gate_of_cong) simp_all
  fix j assume "j \<noteq> i"
  then show "same_slot s (s\<lparr>a_disk := a_config s\<rparr>) j"
    using g reserved_other [OF inv_openD(1) [OF o]] by (intro same_slotI) auto
next
  show "gates_ok (s\<lparr>a_disk := a_config s\<rparr>)" using gates_ok_cong [of "s\<lparr>a_disk := a_config s\<rparr>" s] inv_openD(2) [OF o] by simp
  show "children_ok (s\<lparr>a_disk := a_config s\<rparr>)" using inv_openD(3) [OF o] by (simp add: children_ok_def)
  fix q show "owns (s\<lparr>a_disk := a_config s\<rparr>) i q \<Longrightarrow> owns s i q \<or> (w_job w = Replace \<and> q = w_port w)"
    by (auto simp: owns_def)
qed simp_all

lemma undo_save_inv:
  assumes "inv_open s i w" "slot_free s i"
  shows "agent_inv (undo_save i w saves s)"
proof -
  have g: "gate_of (s\<lparr>a_disk := a_config s\<rparr>) = gate_of s" by (rule gate_of_cong) simp_all
  then have "slot_free (s\<lparr>a_disk := a_config s\<rparr>) i"
    using assms(2) by (simp add: slot_free_def serves_def gate_shut_def)
  then show ?thesis unfolding undo_save_def using finish_inv assms open_disk by auto
qed

lemma undo_stopped_inv:
  assumes o: "inv_open s i w" and r: "rep_ok s i w" and shut: "gate_shut s i" and none: "dict_get (a_procs s) i = None"
  shows "agent_inv (undo_stopped i w saves s)"
proof (cases "w_previous w = None")
  case True
  have o': "inv_open (drop_queueing i (drop_gate i s)) i w"
    using open_drop_queueing open_drop_gate [OF o] shut by blast
  have "slot_free (drop_queueing i (drop_gate i s)) i"
    using none by (simp add: slot_free_def serves_def gate_of_drop)
  then show ?thesis using undo_save_inv [OF o'] True by (simp add: undo_stopped_def)
next
  case False
  then have "phase_ok s i (w\<lparr>w_phase := UndoVerifying\<rparr>)" using none by (simp add: phase_ok_def)
  then show ?thesis using rep_phase_inv [OF o r shut] False by (auto simp: undo_stopped_def)
qed

lemma undo_inv:
  assumes o: "inv_open s i w" and r: "rep_ok s i w" and shut: "gate_shut s i"
  shows "agent_inv (undo i w saves s)"
proof (cases "dict_get (a_procs s) i = None")
  case True
  then show ?thesis using undo_stopped_inv [OF o r shut] by (simp add: undo_def)
next
  case False
  then have "phase_ok s i (w\<lparr>w_phase := UndoStopping\<rparr>)" by (simp add: phase_ok_def)
  then show ?thesis using rep_phase_inv [OF o r shut] False by (auto simp: undo_def)
qed

lemma after_drain_inv:
  assumes o: "inv_open s i w" and r: "rep_ok s i w" and old: "gate_of s i = None \<or> gate_shut s i"
  shows "agent_inv (after_drain clock i w s)"
proof -
  define t where "t = new_gate i True s"
  define u where "u = (case dict_get (a_queueing t) i of
                 None \<Rightarrow> t | Some q \<Rightarrow> t\<lparr>a_queueing := dict_set i (Queueing.restart clock q) (a_queueing t)\<rparr>)"
  have ot: "inv_open t i w" unfolding t_def by (rule open_new_gate [OF o old])
  have gu: "gate_of u = gate_of t" by (rule gate_of_cong) (simp_all add: u_def split: option.split)
  have same: "a_port u = a_port t" "a_config u = a_config t" "a_disk u = a_disk t" "a_procs u = a_procs t"
    "a_work u = a_work t" "a_reserved u = a_reserved t" "a_alive u = a_alive t" "a_next_child u = a_next_child t"
    by (simp_all add: u_def split: option.split)
  have "gates_ok u"
    using inv_openD(2) [OF ot] gates_ok_cong [of u t] by (simp add: u_def split: option.splits)
  then have ou: "inv_open u i w" using open_gate_update [OF ot _ _ same] gu by simp
  have shut: "gate_shut u i" by (simp add: gate_shut_def gu t_def gate_of_new [OF inv_openD(2) [OF o]])
  have ru: "rep_ok u i w" using r same by (simp add: rep_ok_def t_def)
  have "after_drain clock i w s = (if dict_get (a_procs u) i = None then set_phase i w Verifying u else set_phase i w Stopping u)"
    unfolding after_drain_def Let_def u_def t_def by (rule refl)
  moreover have "agent_inv (set_phase i w Verifying u)" if "dict_get (a_procs u) i = None"
    using that by (intro rep_phase_inv [OF ou ru shut]) (simp add: phase_ok_def)
  moreover have "agent_inv (set_phase i w Stopping u)" if "dict_get (a_procs u) i \<noteq> None"
    using that by (intro rep_phase_inv [OF ou ru shut]) (simp add: phase_ok_def)
  ultimately show ?thesis by simp
qed


lemma rep_fields:
  "rep_ok s i w \<Longrightarrow> dict_get (a_config t) i = dict_get (a_config s) i \<Longrightarrow> a_reserved t = a_reserved s \<Longrightarrow> rep_ok t i w"
  by (simp add: rep_ok_def)

lemma started:
  assumes "start_deployment i d starts s = Some t"
  shows "runs t i d" "gate_of t = gate_of s" "a_config t = a_config s" "a_reserved t = a_reserved s" "a_work t = a_work s"
    "\<not> a_stopping s" "a_disk t = a_disk s" "a_port t = a_port s"
proof -
  have t: "t = s\<lparr>a_procs := dict_set i \<lparr>p_handle = a_next_child s, p_rec = d\<rparr> (a_procs s),
                   a_alive := a_next_child s # a_alive s, a_next_child := a_next_child s + 1\<rparr>"
    "\<not> a_stopping s"
    using assms by (simp_all add: start_deployment_def split: if_splits)
  show "gate_of t = gate_of s" by (rule gate_of_cong) (simp_all add: t)
  show "runs t i d" "a_config t = a_config s" "a_reserved t = a_reserved s" "a_work t = a_work s" "\<not> a_stopping s"
    "a_disk t = a_disk s" "a_port t = a_port s"
    using t(2) by (simp_all add: t(1) runs_def)
qed

lemma open_commit:
  assumes o: "inv_open s i w" and r: "rep_ok s i w"
  shows "inv_open (s\<lparr>a_config := dict_set i (w_candidate w) (a_config s), a_disk := dict_set i (w_candidate w) (a_config s)\<rparr>) i w"
    (is "inv_open ?t i w")
proof (rule open_frame [OF o])
  have g: "gate_of ?t = gate_of s" by (rule gate_of_cong) simp_all
  fix j assume "j \<noteq> i"
  then show "same_slot s ?t j"
    using g reserved_other [OF inv_openD(1) [OF o]] by (intro same_slotI) auto
next
  show "gates_ok ?t" using gates_ok_cong [of ?t s] inv_openD(2) [OF o] by simp
  show "children_ok ?t" using inv_openD(3) [OF o] by (simp add: children_ok_def)
  fix q show "owns ?t i q \<Longrightarrow> owns s i q \<or> (w_job w = Replace \<and> q = w_port w)"
    using r by (auto simp: owns_def rep_ok_def)
qed simp_all

lemma commit_inv:
  assumes o: "inv_open s i w" and r: "rep_ok s i w" and shut: "gate_shut s i" and run: "runs s i (w_candidate w)"
  shows "agent_inv (commit i w saves s)"
proof (cases "w_abandoned w \<or> \<not> (case dict_get (a_procs s) i of None \<Rightarrow> False | Some pr \<Rightarrow> p_handle pr \<in> set (a_alive s)) \<or> \<not> saves")
  case True
  then show ?thesis using undo_inv [OF o r shut] unfolding commit_def Let_def by (simp only: if_True if_False split: if_split) blast
next
  case False
  let ?t = "s\<lparr>a_config := dict_set i (w_candidate w) (a_config s), a_disk := dict_set i (w_candidate w) (a_config s)\<rparr>"
  have g: "gate_of ?t = gate_of s" by (rule gate_of_cong) simp_all
  have o': "inv_open (set_paused i False ?t) i w" by (rule open_set_paused [OF open_commit [OF o r]])
  have "serves (set_paused i False ?t) i" using run by (auto simp: serves_def runs_def)
  then have "slot_free (set_paused i False ?t) i" by (simp add: slot_free_def)
  then show ?thesis using finish_inv [OF o'] False by (simp add: commit_def Let_def)
qed

lemma replace_step_inv:
  assumes inv: "agent_inv s" and w: "dict_get (a_work s) i = Some w" and job: "w_job w = Replace"
  shows "agent_inv (replace_step clock i w ok starts saves s)"
proof -
  have o: "inv_open s i w" and wk: "work_ok s i w" using open_worker [OF inv w] by blast+
  have shut: "gate_shut s i" and ph: "phase_ok s i w" using wk job by (simp_all add: work_ok_def)
  have r: "rep_ok s i w" using wk job by (auto simp: work_ok_def rep_ok_def)
  note undo = undo_inv [OF o r shut]
  have fin: "agent_inv (finish i w a s)" for a using finish_inv [OF o slot_free_shut [OF shut]] .
  have un: "inv_open (unregister i s) i w" "rep_ok (unregister i s) i w" "gate_shut (unregister i s) i"
      "dict_get (a_procs (unregister i s)) i = None"
    using open_unregister [OF o] rep_fields [OF r] shut by (simp_all add: gate_shut_def)
  have start: "agent_inv (set_phase i w p t)"
    if st: "start_deployment i d starts s = Some t" and none: "dict_get (a_procs s) i = None"
      and port: "d_port d = w_port w" and pok: "\<And>t'. runs t' i d \<Longrightarrow> phase_ok t' i (w\<lparr>w_phase := p\<rparr>)" for d p t
  proof -
    note S = started [OF st]
    have "inv_open t i w" by (rule open_start [OF o st job port none])
    moreover have "rep_ok t i w" using rep_fields [OF r] S by simp
    moreover have "gate_shut t i" using shut S(2) by (simp add: gate_shut_def)
    ultimately show ?thesis using rep_phase_inv pok [OF S(1)] by blast
  qed
  show ?thesis
  proof (cases "w_phase w")
    case (Draining was)
    show ?thesis
    proof (cases "w_abandoned w")
      case True
      have "slot_free (set_paused i was s) i"
      proof (cases was)
        case True
        then show ?thesis
          using shut by (intro slot_free_shut) (auto simp: gate_shut_def gate_of_paused [OF inv_openD(2) [OF o]])
      next
        case False
        then have "serves s i" "dict_get (a_config s) i \<noteq> None"
          using ph Draining wk by (auto simp: phase_ok_def work_ok_def)
        then show ?thesis by (simp add: slot_free_def serves_def)
      qed
      then show ?thesis using finish_inv [OF open_set_paused [OF o]] True Draining by (simp add: replace_step_def)
    next
      case False
      then show ?thesis using after_drain_inv [OF o r] shut Draining by (simp add: replace_step_def)
    qed
  next
    case Stopping
    have "agent_inv (set_phase i w Verifying (unregister i s))"
      by (rule rep_phase_inv [OF un(1-3)]) (simp add: phase_ok_def)
    then show ?thesis using undo Stopping by (simp add: replace_step_def)
  next
    case Verifying
    then have none: "dict_get (a_procs s) i = None" using ph by (simp add: phase_ok_def)
    have "agent_inv (set_phase i w Readying t)" if "start_deployment i (w_candidate w) starts s = Some t" for t
      by (rule start [OF that none]) (use r in \<open>simp_all add: rep_ok_def phase_ok_def\<close>)
    then show ?thesis using undo Verifying by (auto simp: replace_step_def split: option.split)
  next
    case Readying
    then have "runs s i (w_candidate w)" using ph by (simp add: phase_ok_def)
    then show ?thesis using undo commit_inv [OF o r shut] Readying by (simp add: replace_step_def)
  next
    case UndoStopping
    then show ?thesis using undo_stopped_inv [OF un] fin by (simp add: replace_step_def)
  next
    case UndoVerifying
    then have none: "dict_get (a_procs s) i = None" and prev: "w_previous w \<noteq> None" using ph by (simp_all add: phase_ok_def)
    have "agent_inv (set_phase i w UndoReadying t)" if "start_deployment i (the (w_previous w)) starts s = Some t" for t
      by (rule start [OF that none]) (use r prev in \<open>auto simp: rep_ok_def phase_ok_def\<close>)
    then show ?thesis using fin UndoVerifying by (auto simp: replace_step_def split: option.split)
  next
    case UndoReadying
    then have "runs s i (the (w_previous w))" "w_previous w \<noteq> None" using ph by (simp_all add: phase_ok_def)
    then have "serves s i" "dict_get (a_config s) i \<noteq> None" using r by (auto simp: serves_def runs_def rep_ok_def)
    then have "slot_free (set_paused i False s) i" by (simp add: slot_free_def serves_def)
    then show ?thesis using undo_save_inv [OF open_set_paused [OF o]] fin UndoReadying by (simp add: replace_step_def)
  qed
qed


section \<open>Every event keeps the invariant\<close>

lemma open_config:
  assumes o: "inv_open s i w" and keep: "\<And>j. j \<noteq> i \<Longrightarrow> dict_get cfg j = dict_get (a_config s) j"
    and disk: "dict_get dsk = dict_get cfg"
    and own: "\<And>d. dict_get cfg i = Some d \<Longrightarrow> dict_get (a_config s) i = Some d"
  shows "inv_open (s\<lparr>a_config := cfg, a_disk := dsk\<rparr>) i w" (is "inv_open ?t i w")
proof (rule open_frame [OF o])
  have g: "gate_of ?t = gate_of s" by (rule gate_of_cong) simp_all
  fix j assume "j \<noteq> i"
  then show "same_slot s ?t j"
    using g keep reserved_other [OF inv_openD(1) [OF o]] by (intro same_slotI) auto
next
  show "gates_ok ?t" using gates_ok_cong [of ?t s] inv_openD(2) [OF o] by simp
  show "children_ok ?t" using inv_openD(3) [OF o] by (simp add: children_ok_def)
  fix q show "owns ?t i q \<Longrightarrow> owns s i q \<or> (w_job w = Replace \<and> q = w_port w)"
    using own by (auto simp: owns_def)
qed (simp_all add: disk)

lemma forget_stopped_inv:
  assumes o: "inv_open s i w" and shut: "gate_shut s i" and prev: "w_previous w = dict_get (a_config s) i" "w_previous w \<noteq> None"
    and none: "dict_get (a_procs s) i = None"
  shows "agent_inv (forget_stopped i w saves s)"
proof (cases saves)
  case True
  let ?t = "s\<lparr>a_config := dict_del i (a_config s), a_disk := dict_del i (a_config s)\<rparr>"
  have g: "gate_of ?t = gate_of s" by (rule gate_of_cong) simp_all
  have "inv_open ?t i w" by (rule open_config [OF o]) auto
  moreover have "gate_shut ?t i" using shut by (simp add: gate_shut_def g)
  ultimately have "inv_open (drop_queueing i (drop_gate i ?t)) i w"
    by (blast intro: open_drop_queueing open_drop_gate)
  moreover have "slot_free (drop_queueing i (drop_gate i ?t)) i"
    using none by (simp add: slot_free_def serves_def gate_of_drop)
  ultimately show ?thesis using finish_inv True by (simp add: forget_stopped_def Let_def)
next
  case False
  let ?t = "s\<lparr>a_config := dict_set i (the (w_previous w)) (dict_del i (a_config s))\<rparr>"
  have g: "gate_of ?t = gate_of s" by (rule gate_of_cong) simp_all
  have "dict_get (dict_set i (the (w_previous w)) (dict_del i (a_config s))) = dict_get (a_config s)"
    using pydict.restore_removed prev by (metis option.collapse)
  then have "inv_open (s\<lparr>a_config := dict_set i (the (w_previous w)) (dict_del i (a_config s)), a_disk := a_disk s\<rparr>) i w"
    using inv_openD(5) [OF o] by (intro open_config [OF o]) (simp_all del: map_of_dict_set map_of_dict_del)
  then have "inv_open ?t i w" by simp
  moreover have "slot_free ?t i" using shut by (intro slot_free_shut) (simp add: gate_shut_def g)
  ultimately show ?thesis using finish_inv False by (simp add: forget_stopped_def Let_def)
qed

lemma forget_step_inv:
  assumes inv: "agent_inv s" and w: "dict_get (a_work s) i = Some w" and job: "w_job w \<noteq> Replace"
  shows "agent_inv (forget_step i w ok saves s)"
proof -
  have o: "inv_open s i w" and wk: "work_ok s i w" using open_worker [OF inv w] by blast+
  have un: "inv_open (unregister i s) i w" "dict_get (a_procs (unregister i s)) i = None"
    using open_unregister [OF o] by simp_all
  have free: "slot_free s i" using inv by (auto simp: agent_inv_def slot_ok_def slot_free_def)
  show ?thesis
  proof (cases "w_job w = ForgetOrphan")
    case True
    then have ph: "w_phase w = Stopping" and prev: "dict_get (a_config s) i = None" using wk by (auto simp: work_ok_def)
    have "gate_of (unregister i s) i = None \<or> gate_shut (unregister i s) i"
      using free prev by (cases "gate_of s i") (auto simp: slot_free_def gate_shut_def)
    then have "inv_open (drop_gate i (unregister i s)) i w" using open_drop_gate un(1) by blast
    moreover have "slot_free (drop_gate i (unregister i s)) i"
      by (simp add: slot_free_def serves_def gate_of_drop)
    ultimately show ?thesis using finish_inv finish_inv [OF o free] True ph by (simp add: forget_step_def)
  next
    case False
    then have fj: "w_job w = Forget" using job by (cases "w_job w") auto
    have not_orphan: "w_job w \<noteq> ForgetOrphan" using fj by simp
    have prev: "w_previous w = dict_get (a_config s) i" "w_previous w \<noteq> None" and shut: "gate_shut s i"
      and ph: "draining w \<or> w_phase w = Stopping" "phase_ok s i w"
      using wk fj not_orphan unfolding work_ok_def by blast+
    show ?thesis
    proof (cases "draining w")
      case True
      then obtain was where was: "w_phase w = Draining was" by (auto simp: draining_def split: phase.splits)
      have "slot_free (set_paused i was s) i"
        using shut ph(2) was prev
        by (cases was) (auto simp: slot_free_def gate_shut_def gate_of_paused [OF inv_openD(2) [OF o]] phase_ok_def serves_def)
      then have fin: "agent_inv (finish i w Unchanged (set_paused i was s))" by (rule finish_inv [OF open_set_paused [OF o]])
      have "agent_inv (forget_drained i w saves s)"
      proof (cases "dict_get (a_procs s) i = None")
        case True
        then show ?thesis using forget_stopped_inv [OF o shut prev] by (simp add: forget_drained_def)
      next
        case False
        then have "work_ok s i (w\<lparr>w_phase := Stopping\<rparr>)" using wk fj by (auto simp: work_ok_def phase_ok_def dest: sym)
        then show ?thesis using set_phase_inv [OF o _ free] False by (auto simp: forget_drained_def)
      qed
      then show ?thesis using fin was by (simp add: forget_step_def)
    next
      case False
      then have "w_phase w = Stopping" using ph by simp
      moreover have "agent_inv (forget_stopped i w saves (unregister i s))"
        using un prev shut by (intro forget_stopped_inv) (simp_all add: gate_shut_def)
      ultimately show ?thesis using finish_inv [OF o free] fj by (simp add: forget_step_def)
    qed
  qed
qed


lemma inv_quiet:
  assumes inv: "agent_inv s" and g: "gates_ok t" "gate_of t = gate_of s"
    and same: "a_port t = a_port s" "a_config t = a_config s" "a_disk t = a_disk s" "a_procs t = a_procs s"
      "a_reserved t = a_reserved s" "a_next_child t = a_next_child s"
    and work: "\<And>j. dict_get (a_work t) j = dict_get (a_work s) j" and alive: "set (a_alive t) \<subseteq> set (a_alive s)"
  shows "agent_inv t"
proof -
  have slots: "slot_ok s j" for j using inv by (simp add: agent_inv_def)
  have ss: "same_slot s t j" for j
    using g same work reserved_other [OF slots] by (intro same_slotI) auto
  have "slot_ok t j" for j using same_slot_ok [OF ss slots] .
  moreover have po: "ports_ok s" and kids: "children_ok s" using inv by (simp_all only: agent_inv_def)
  have "ports_ok t" using po unfolding ports_ok_def same_slot_owns [OF ss] same(1) .
  moreover have "children_ok t"
    using kids alive unfolding children_ok_def same(4) same(6) by blast
  ultimately show ?thesis using inv same g by (simp add: agent_inv_def)
qed

lemma shut_paused: "gates_ok s \<Longrightarrow> gate_of s i \<noteq> None \<Longrightarrow> gate_shut (set_paused i True s) i"
  by (auto simp: gate_shut_def gate_of_paused)

text \<open>The closed gate and the drain a transition begins with.\<close>

lemma begin_drain_inv:
  assumes o: "inv_open s i w" and free: "slot_free s i" and prev: "w_previous w \<noteq> None" "w_previous w = dict_get (a_config s) i"
    and job: "w_job w = Replace \<and> rep_ok s i w \<or> w_job w = Forget"
    and was: "was = (case gate_of (default_gate i s) i of Some g \<Rightarrow> g_paused g | None \<Rightarrow> False)"
  shows "agent_inv (set_phase i w (Draining was) (set_paused i True (default_gate i s)))"
proof -
  let ?d = "default_gate i s" and ?p = "set_paused i True (default_gate i s)"
  have od: "inv_open ?d i w" by (rule open_default_gate [OF o])
  have gd: "gates_ok ?d" by (rule inv_openD(2) [OF od])
  have op: "inv_open ?p i w" by (rule open_set_paused [OF od])
  have some: "gate_of ?d i \<noteq> None" by (simp add: gate_of_default [OF inv_openD(2) [OF o]])
  have shut: "gate_shut ?p i" by (rule shut_paused [OF gd some])
  have "serves s i" if "\<not> was"
  proof -
    have "\<not> gate_shut s i"
      using that was by (auto simp: gate_shut_def gate_of_default [OF inv_openD(2) [OF o]] split: option.splits)
    then show ?thesis using free by (simp add: slot_free_def)
  qed
  then have "phase_ok ?p i (w\<lparr>w_phase := Draining was\<rparr>)" using prev(1) by (simp add: phase_ok_def serves_def)
  then have "work_ok ?p i (w\<lparr>w_phase := Draining was\<rparr>)"
    using job prev shut by (auto simp: work_ok_def rep_ok_def draining_def)
  then show ?thesis by (rule set_phase_inv [OF op _ slot_free_shut [OF shut]])
qed

lemma find_holds: "find P xs = Some x \<Longrightarrow> P x"
  by (induction xs) (auto split: if_splits)

lemma free_port_rest: "free_port available s = Some p \<Longrightarrow> p \<notin> set (a_reserved s) \<and> p \<noteq> a_port s \<and>
     (\<forall>d. dict_get (a_config s) i = Some d \<longrightarrow> d_port d \<noteq> p) \<and>
     (\<forall>pr. dict_get (a_procs s) i = Some pr \<longrightarrow> d_port (p_rec pr) \<noteq> p)"
proof -
  assume "free_port available s = Some p"
  then have "p \<notin> set (map (d_port \<circ> snd) (a_config s) @ map (d_port \<circ> p_rec \<circ> snd) (a_procs s) @ a_reserved s @ [a_port s])"
    unfolding free_port_def Let_def by (blast dest: find_holds)
  then show ?thesis by (force dest: map_of_SomeD)
qed

lemma free_port_unowned:
  assumes "agent_inv s" "free_port available s = Some p"
  shows "\<not> owns s i p"
  using assms reserved_other [of s i] free_port_rest [OF assms(2), of i]
  by (auto simp: owns_def agent_inv_def)


lemma gate_of_reserved [simp]: "gate_of (s\<lparr>a_reserved := ps\<rparr>) = gate_of s"
  by (rule gate_of_cong) simp_all

lemma inv_reserve:
  assumes inv: "agent_inv s"
  shows "agent_inv (s\<lparr>a_reserved := p # a_reserved s\<rparr>)" (is "agent_inv ?t")
proof -
  have ss: "same_slot s ?t j" for j
    using reserved_other [of s j] inv by (intro same_slotI) (auto simp: agent_inv_def)
  have "slot_ok ?t j" for j using same_slot_ok [OF ss] inv by (simp add: agent_inv_def)
  moreover have "gates_ok ?t" using gates_ok_cong [of ?t s] inv by (simp add: agent_inv_def)
  moreover have po: "ports_ok s" and kids: "children_ok s" using inv by (simp_all only: agent_inv_def)
  have "ports_ok ?t" using po unfolding ports_ok_def same_slot_owns [OF ss] by simp
  moreover have "children_ok ?t" using kids by (simp add: children_ok_def)
  ultimately show ?thesis using inv by (simp add: agent_inv_def)
qed

lemma open_new:
  assumes inv: "agent_inv s"
    and port: "w_job w = Replace \<Longrightarrow> w_port w \<in> set (a_reserved s) \<and> w_port w \<noteq> a_port s \<and> (\<forall>j. j \<noteq> i \<longrightarrow> \<not> owns s j (w_port w))"
  shows "inv_open s i w"
  using inv port unfolding inv_open_def agent_inv_def by blast

lemma slot_of_inv: "agent_inv s \<Longrightarrow> slot_free s i"
  by (auto simp: agent_inv_def slot_ok_def slot_free_def)

lemma answered_inv: "agent_inv s \<Longrightarrow> agent_inv (answered i a s)"
proof -
  assume inv: "agent_inv s"
  have "gate_of (answered i a s) = gate_of s" by (rule gate_of_cong) (simp_all add: answered_def)
  moreover have "gates_ok (answered i a s)"
    using gates_ok_cong [of "answered i a s" s] inv by (simp add: answered_def agent_inv_def)
  ultimately show ?thesis by (intro inv_quiet [OF inv]) (simp_all add: answered_def)
qed

lemma kind_options_port: "kind_options sha256 d = Inr d' \<Longrightarrow> d_port d' = d_port d"
  by (auto simp: kind_options_Inr normalized_frame simp flip: normalized_def)

lemma make_deployment_port: "make_deployment sha256 d = Inr d' \<Longrightarrow> d_port d' = d_port d"
  by (auto simp: make_deployment_def and_then_Inr guarded_Inr dest!: kind_options_port)

lemma begin_replace_inv:
  assumes inv: "agent_inv s" and step: "begin_replace sha256 clock available i request found abandoned s = Some t"
  shows "agent_inv t"
proof (cases "abandoned")
  case True
  then show ?thesis using step answered_inv [OF inv] by (auto simp: begin_replace_def split: if_splits)
next
  case na: False
  define previous where "previous = dict_get (a_config s) i"
  define chosen where "chosen = (case previous of Some d \<Rightarrow> Some (d_port d) | None \<Rightarrow> free_port available s)"
  have idle: "dict_get (a_work s) i = None" using step by (auto simp: begin_replace_def split: if_splits)
  obtain model mmproj comps where found: "found = (model, mmproj, comps)" by (cases found)
  show ?thesis
  proof (cases chosen)
    case None
    then show ?thesis using step answered_inv [OF inv] na idle
      by (auto simp: begin_replace_def Let_def chosen_def previous_def)
  next
    case (Some port)
    define made where "made = make_deployment sha256 (candidate_of request model mmproj comps port)"
    show ?thesis
    proof (cases made)
      case (Inl e)
      then show ?thesis using step answered_inv [OF inv] na idle Some
        by (auto simp: begin_replace_def Let_def chosen_def previous_def found made_def)
    next
      case (Inr candidate)
      define w where "w = \<lparr>w_job = Replace, w_previous = previous, w_port = port, w_candidate = candidate,
          w_abandoned = False, w_phase = Verifying\<rparr>"
      define r where "r = s\<lparr>a_reserved := port # a_reserved s\<rparr>"
      have t: "t = (if previous = None then after_drain clock i w r
          else set_phase i w (Draining (case gate_of (default_gate i r) i of Some g \<Rightarrow> g_paused g | None \<Rightarrow> False))
                 (set_paused i True (default_gate i r)))"
        using step na idle Some Inr
        by (auto simp: begin_replace_def Let_def chosen_def previous_def found made_def w_def r_def split: if_splits)
      have ir: "agent_inv r" unfolding r_def by (rule inv_reserve [OF inv])
      have ports: "ports_ok s" using inv by (simp add: agent_inv_def)
      have free: "port \<noteq> a_port s \<and> (\<forall>j. j \<noteq> i \<longrightarrow> \<not> owns s j port)"
      proof (cases previous)
        case None
        then show ?thesis using Some free_port_unowned [OF inv] free_port_rest [of available s port] by (auto simp: chosen_def)
      next
        case (Some d)
        then have "owns s i port" using \<open>chosen = Some port\<close> by (auto simp: owns_def chosen_def previous_def)
        then show ?thesis using ports unfolding ports_ok_def by blast
      qed
      have o: "inv_open r i w"
        by (rule open_new [OF ir]) (use free in \<open>simp add: w_def r_def owns_def\<close>)
      have "d_port candidate = port"
        using make_deployment_port Inr unfolding made_def by (fastforce simp: candidate_of_def)
      then have rep: "rep_ok r i w"
        using Some by (auto simp: rep_ok_def w_def r_def previous_def chosen_def)
      show ?thesis
      proof (cases previous)
        case None
        then have "gate_of r i = None \<or> gate_shut r i"
          using slot_of_inv [OF ir, of i] by (cases "gate_of r i") (auto simp: slot_free_def gate_shut_def previous_def r_def)
        then show ?thesis using after_drain_inv [OF o rep] None t by simp
      next
        case (Some d)
        have "agent_inv (set_phase i w (Draining (case gate_of (default_gate i r) i of Some g \<Rightarrow> g_paused g | None \<Rightarrow> False))
                 (set_paused i True (default_gate i r)))"
          by (rule begin_drain_inv [OF o slot_of_inv [OF ir] _ _ _ refl])
            (use Some rep in \<open>simp_all add: w_def previous_def r_def\<close>)
        then show ?thesis using t Some by simp
      qed
    qed
  qed
qed

lemma begin_forget_inv:
  assumes inv: "agent_inv s" and step: "begin_forget i abandoned s = Some t"
  shows "agent_inv t"
proof -
  have idle: "dict_get (a_work s) i = None" using step by (auto simp: begin_forget_def split: if_splits)
  define w where "w = \<lparr>w_job = Forget, w_previous = dict_get (a_config s) i, w_port = 0, w_candidate = bare_deployment,
                 w_abandoned = False, w_phase = Stopping\<rparr>"
  have o: "inv_open s i w" "inv_open s i (w\<lparr>w_job := ForgetOrphan\<rparr>)"
    by (rule open_new [OF inv]; simp add: w_def)+
  note free = slot_of_inv [OF inv, of i]
  consider (gone) "abandoned" | (absent) "\<not> abandoned" "w_previous w = None" "dict_get (a_procs s) i = None"
    | (orphan) "\<not> abandoned" "w_previous w = None" "dict_get (a_procs s) i \<noteq> None"
    | (drain) "\<not> abandoned" "w_previous w \<noteq> None"
    by blast
  then show ?thesis
  proof cases
    case gone
    then show ?thesis using step answered_inv [OF inv] by (auto simp: begin_forget_def split: if_splits)
  next
    case absent
    then show ?thesis using step answered_inv [OF inv] by (auto simp: begin_forget_def Let_def w_def split: if_splits)
  next
    case orphan
    then have "t = set_phase i (w\<lparr>w_job := ForgetOrphan\<rparr>) Stopping s"
      using step idle by (auto simp: begin_forget_def Let_def w_def split: if_splits)
    moreover have "work_ok s i (w\<lparr>w_job := ForgetOrphan, w_phase := Stopping\<rparr>)"
      using orphan by (simp add: work_ok_def w_def phase_ok_def)
    ultimately show ?thesis using set_phase_inv [OF o(2) _ free] by simp
  next
    case drain
    then have "t = set_phase i w (Draining (case gate_of (default_gate i s) i of Some g \<Rightarrow> g_paused g | None \<Rightarrow> False))
                 (set_paused i True (default_gate i s))"
      using step idle by (auto simp: begin_forget_def Let_def w_def split: if_splits)
    moreover have "agent_inv (set_phase i w (Draining (case gate_of (default_gate i s) i of Some g \<Rightarrow> g_paused g | None \<Rightarrow> False))
                 (set_paused i True (default_gate i s)))"
      by (rule begin_drain_inv [OF o(1) free _ _ _ refl]) (use drain in \<open>simp_all add: w_def\<close>)
    ultimately show ?thesis by simp
  qed
qed


lemma worker_step_inv:
  assumes "agent_inv s" "dict_get (a_work s) i = Some w"
  shows "agent_inv (worker_step clock i w ok starts saves s)"
  using replace_step_inv [OF assms] forget_step_inv [OF assms] by (simp add: worker_step_def)

lemma w_fields:
  "w_previous (w\<lparr>w_abandoned := True\<rparr>) = w_previous w" "w_job (w\<lparr>w_abandoned := True\<rparr>) = w_job w"
  "w_port (w\<lparr>w_abandoned := True\<rparr>) = w_port w" "w_candidate (w\<lparr>w_abandoned := True\<rparr>) = w_candidate w"
  "w_phase (w\<lparr>w_abandoned := True\<rparr>) = w_phase w"
  "a_config (s\<lparr>a_work := x\<rparr>) = a_config s" "a_reserved (s\<lparr>a_work := x\<rparr>) = a_reserved s"
  by simp_all

lemma abandon_inv:
  assumes inv: "agent_inv s" and w: "dict_get (a_work s) i = Some w"
  shows "agent_inv (s\<lparr>a_work := dict_set i (w\<lparr>w_abandoned := True\<rparr>) (a_work s)\<rparr>)" (is "agent_inv ?t")
proof -
  have o: "inv_open s i w" and wk: "work_ok s i w" using open_worker [OF inv w] by blast+
  have g: "gate_of ?t = gate_of s" by (rule gate_of_cong) simp_all
  have "inv_open ?t i w"
  proof (rule open_frame [OF o])
    fix j assume "j \<noteq> i"
    then show "same_slot s ?t j" using g reserved_other [OF inv_openD(1) [OF o]] by (intro same_slotI) auto
  next
    show "gates_ok ?t" using gates_ok_cong [of ?t s] inv_openD(2) [OF o] by simp
    show "children_ok ?t" using inv_openD(3) [OF o] by (simp add: children_ok_def)
    fix q show "owns ?t i q \<Longrightarrow> owns s i q \<or> (w_job w = Replace \<and> q = w_port w)" by (auto simp: owns_def)
  qed (use inv_openD(5) [OF o] in simp_all)
  moreover have "slot_ok ?t i"
  proof -
    have v: "serves ?t i = serves s i" "gate_shut ?t i = gate_shut s i" "runs ?t i = runs s i"
      by (simp_all add: serves_def gate_shut_def runs_def g fun_eq_iff)
    have ph: "phase_ok ?t i (w\<lparr>w_abandoned := True\<rparr>) = phase_ok s i w"
      using v by (simp add: phase_ok_def split: phase.split)
    have dr: "draining (w\<lparr>w_abandoned := True\<rparr>) = draining w" by (simp add: draining_def)
    have "work_ok ?t i (w\<lparr>w_abandoned := True\<rparr>)"
      using wk unfolding work_ok_def v(2) ph dr w_fields by blast
    then show ?thesis using inv v g by (simp add: slot_ok_def agent_inv_def)
  qed
  ultimately show ?thesis by (rule inv_close)
qed

lemma default_gate_inv:
  assumes inv: "agent_inv s" and cfg: "dict_get (a_config s) i \<noteq> None"
  shows "agent_inv (default_gate i s)"
proof (cases "dict_get (a_gate s) i = None")
  case False
  then have "default_gate i s = s" by (auto simp: default_gate_def)
  then show ?thesis using inv by simp
next
  case True
  define w where "w = \<lparr>w_job = Forget, w_previous = None, w_port = 0, w_candidate = bare_deployment,
                 w_abandoned = False, w_phase = Stopping\<rparr>"
  have o: "inv_open s i w" by (rule open_new [OF inv]) (simp add: w_def)
  have g: "gates_ok s" and slot: "slot_ok s i" using inv by (simp_all add: agent_inv_def)
  have none: "gate_of s i = None" using True gate_of_None [OF g] by simp
  have gi: "gate_of (default_gate i s) i = Some new_admission" using none by (simp add: gate_of_default [OF g])
  have np: "\<not> g_paused new_admission" by (simp add: new_admission_def)
  have sv: "serves (default_gate i s) i = serves s i" by (simp add: serves_def)
  have ns: "\<not> gate_shut s i" using none by (simp add: gate_shut_def)
  then have "serves s i" using slot by (simp add: slot_ok_def)
  moreover have "w_job v = ForgetOrphan" if "dict_get (a_work s) i = Some v" for v
    using slot ns that by (auto simp: slot_ok_def work_ok_def)
  then have "dict_get (a_work s) i = None"
    using slot cfg by (cases "dict_get (a_work s) i") (auto simp: slot_ok_def work_ok_def)
  ultimately have "slot_ok (default_gate i s) i" using cfg by (simp add: slot_ok_def sv)
  then show ?thesis by (rule inv_close [OF open_default_gate [OF o]])
qed

lemma gates_ok_flight:
  assumes g: "gates_ok s" and a: "dict_get (a_gates s) k = Some adm"
    and f: "admission_gate.gate_ok (f adm)" "g_paused (f adm) = g_paused adm" "g_requests (f adm) = int (count_list fl k)"
    and fl: "\<And>h. h \<noteq> k \<Longrightarrow> count_list fl h = count_list (a_flights s) h" "set fl \<subseteq> insert k (set (a_flights s))"
  shows "gates_ok (update_gate f k (s\<lparr>a_flights := fl\<rparr>))"
proof -
  have u: "update_gate f k (s\<lparr>a_flights := fl\<rparr>) = s\<lparr>a_flights := fl, a_gates := dict_set k (f adm) (a_gates s)\<rparr>"
    using a by (simp add: update_gate_def)
  show ?thesis
    unfolding u
  proof (rule gates_okI)
    fix h adm' assume h: "dict_get (a_gates (s\<lparr>a_flights := fl, a_gates := dict_set k (f adm) (a_gates s)\<rparr>)) h = Some adm'"
    show "gate_object_ok (s\<lparr>a_flights := fl, a_gates := dict_set k (f adm) (a_gates s)\<rparr>) h adm'"
      using h gates_okD(1) [OF g, of h adm'] gates_okD(1) [OF g a] f fl(1) [of h]
      by (cases "h = k") (auto simp: gate_object_ok_def)
  next
    fix h assume "h \<in> set (a_flights (s\<lparr>a_flights := fl, a_gates := dict_set k (f adm) (a_gates s)\<rparr>))"
    then show "dict_get (a_gates (s\<lparr>a_flights := fl, a_gates := dict_set k (f adm) (a_gates s)\<rparr>)) h \<noteq> None"
      using gates_okD(2) [OF g, of h] fl(2) by auto
  next
    fix j h assume "dict_get (a_gate (s\<lparr>a_flights := fl, a_gates := dict_set k (f adm) (a_gates s)\<rparr>)) j = Some h"
    then show "dict_get (a_gates (s\<lparr>a_flights := fl, a_gates := dict_set k (f adm) (a_gates s)\<rparr>)) h \<noteq> None \<and>
        dict_get (a_owner (s\<lparr>a_flights := fl, a_gates := dict_set k (f adm) (a_gates s)\<rparr>)) h = Some j"
      using gates_okD(3,4) [OF g, of j h] by simp
  qed
qed

text \<open>A request in flight changes the count of its gate and nothing a deployment's slot depends on.\<close>

lemma same_paused_slot:
  assumes "dict_get (a_config t) i = dict_get (a_config s) i" "dict_get (a_procs t) i = dict_get (a_procs s) i"
    "dict_get (a_work t) i = dict_get (a_work s) i" "a_reserved t = a_reserved s"
    and p: "map_option g_paused (gate_of t i) = map_option g_paused (gate_of s i)"
    and ok: "slot_ok s i"
  shows "slot_ok t i"
proof -
  have v: "serves t i = serves s i" "runs t i = runs s i"
    using assms(2,1) by (simp_all add: serves_def runs_def fun_eq_iff)
  have sh: "gate_shut t i = gate_shut s i"
    using p by (cases "gate_of s i"; cases "gate_of t i") (auto simp: gate_shut_def)
  have op: "(\<exists>g. gate_of t i = Some g \<and> \<not> g_paused g) = (\<exists>g. gate_of s i = Some g \<and> \<not> g_paused g)"
    using p by (cases "gate_of s i"; cases "gate_of t i") auto
  have ph: "phase_ok t i w = phase_ok s i w" for w using v assms(2) by (simp add: phase_ok_def split: phase.split)
  have "work_ok t i w = work_ok s i w" for w unfolding work_ok_def ph sh assms(1,4) ..
  then show ?thesis using ok v sh op assms(1,3) unfolding slot_ok_def by metis
qed

lemma flight_inv:
  assumes inv: "agent_inv s" and a: "dict_get (a_gates s) k = Some adm"
    and f: "admission_gate.gate_ok (f adm)" "g_paused (f adm) = g_paused adm" "g_requests (f adm) = int (count_list fl k)"
    and fl: "\<And>h. h \<noteq> k \<Longrightarrow> count_list fl h = count_list (a_flights s) h" "set fl \<subseteq> insert k (set (a_flights s))"
  shows "agent_inv (update_gate f k (s\<lparr>a_flights := fl\<rparr>))" (is "agent_inv ?t")
proof -
  have t: "?t = s\<lparr>a_flights := fl, a_gates := dict_set k (f adm) (a_gates s)\<rparr>"
    using a by (simp add: update_gate_def)
  have g: "gates_ok s" using inv by (simp add: agent_inv_def)
  have gt: "gates_ok ?t" by (rule gates_ok_flight [where f = f and fl = fl, OF g a]) (use f fl in auto)
  have p: "map_option g_paused (gate_of ?t i) = map_option g_paused (gate_of s i)" for i
    using a f(2) by (auto simp: t gate_of_def split: option.splits)
  have "slot_ok ?t i" for i
    by (rule same_paused_slot [OF _ _ _ _ p]) (use inv in \<open>simp_all add: t agent_inv_def\<close>)
  moreover have "owns ?t i q = owns s i q" for i q by (simp add: t owns_def)
  then have "ports_ok ?t" using inv by (simp add: t agent_inv_def ports_ok_def owns_def)
  moreover have "children_ok ?t" using inv by (simp add: t agent_inv_def children_ok_def)
  ultimately show ?thesis using inv gt by (simp add: t agent_inv_def)
qed

lemma count_remove1: "count_list (remove1 x xs) y = count_list xs y - (if x = y then 1 else 0)"
  by (induction xs) auto

lemma agent_step_inv:
  assumes inv: "agent_inv s" and step: "agent_step sha256 e s = Some t"
  shows "agent_inv t"
proof -
  have g: "gates_ok s" using inv by (simp add: agent_inv_def)
  have quiet: "agent_inv t'" if "a_gate t' = a_gate s" "a_gates t' = a_gates s" "a_owner t' = a_owner s" "a_flights t' = a_flights s"
      "a_next_gate t' = a_next_gate s" "a_port t' = a_port s" "a_config t' = a_config s" "a_disk t' = a_disk s" "a_procs t' = a_procs s"
      "a_reserved t' = a_reserved s" "a_next_child t' = a_next_child s" "a_work t' = a_work s" "set (a_alive t') \<subseteq> set (a_alive s)" for t'
    using that gates_ok_cong [of t' s] g gate_of_cong [of t' s] by (intro inv_quiet [OF inv]) simp_all
  show ?thesis
  proof (cases e)
    case (AskReplace clock available did request found abandoned)
    then show ?thesis using step begin_replace_inv [OF inv] by (simp add: agent_step_def)
  next
    case (AskForget did abandoned)
    then show ?thesis using step begin_forget_inv [OF inv] by (simp add: agent_step_def)
  next
    case (Drained clock did timeout saves)
    then show ?thesis using step worker_step_inv [OF inv]
      by (auto simp: agent_step_def split: option.splits if_splits)
  next
    case (Outcome did ok starts saves)
    then show ?thesis using step worker_step_inv [OF inv]
      by (auto simp: agent_step_def split: option.splits if_splits)
  next
    case (Abandon did)
    then show ?thesis using step abandon_inv [OF inv] by (auto simp: agent_step_def split: option.splits)
  next
    case (ChildExit h)
    then show ?thesis using step by (auto simp: agent_step_def intro!: quiet)
  next
    case (Capture did)
    then show ?thesis using step default_gate_inv [OF inv] by (auto simp: agent_step_def split: if_splits)
  next
    case (Enter did k h)
    then obtain adm where a: "dict_get (a_gates s) k = Some adm" and t: "t = update_gate admission_enter k (s\<lparr>a_flights := k # a_flights s\<rparr>)"
      using step by (auto simp: agent_step_def may_enter_def split: option.splits if_splits)
    have "gate_object_ok s k adm" by (rule gates_okD(1) [OF g a])
    then show ?thesis
      unfolding t
      by (intro flight_inv [OF inv a]) (auto simp: gate_object_ok_def admission_gate.gate_ok_enter admission_gate.count_enter)
  next
    case (Leave k)
    then have k: "k \<in> set (a_flights s)" and t: "t = update_gate admission_leave k (s\<lparr>a_flights := remove1 k (a_flights s)\<rparr>)"
      using step by (auto simp: agent_step_def split: if_splits)
    obtain adm where a: "dict_get (a_gates s) k = Some adm" using gates_okD(2) [OF g k] by auto
    have ok: "gate_object_ok s k adm" by (rule gates_okD(1) [OF g a])
    have pos: "0 < count_list (a_flights s) k" using k by (meson count_notin gr0I count_list_0_iff)
    then have "0 < g_requests adm" using ok by (simp add: gate_object_ok_def)
    then show ?thesis
      unfolding t using ok pos
      by (intro flight_inv [OF inv a])
        (auto simp: gate_object_ok_def admission_gate.gate_ok_leave admission_gate.count_leave count_remove1 of_nat_diff
          dest: in_set_remove1 [THEN iffD1] notin_set_remove1 intro: set_remove1_subset [THEN subsetD])
  next
    case Shutdown
    then show ?thesis using step by (auto simp: agent_step_def intro!: quiet)
  next
    case (Sweep stopped)
    then show ?thesis using step by (auto simp: agent_step_def split: if_splits intro!: quiet)
  qed
qed


section \<open>The agent as it starts\<close>

lemma loaded_inv:
  assumes "config_ok port config"
  shows "agent_inv (loaded_agent port config)"
proof -
  have port: "d_port d \<noteq> port" if "dict_get config i = Some d" for i d
    using assms that by (force simp: config_ok_def dest: map_of_SomeD)
  have same: "i = j" if "dict_get config i = Some d" "dict_get config j = Some e" "d_port d = d_port e" for i j d e
  proof -
    have "inj_on (d_port \<circ> snd) (set config)" using assms by (simp add: config_ok_def distinct_map)
    moreover have "(i, d) \<in> set config" "(j, e) \<in> set config" using that by (auto dest: map_of_SomeD)
    ultimately have "(i, d) = (j, e)" using that(3) by (intro inj_onD [of "d_port \<circ> snd" "set config"]) simp_all
    then show ?thesis by simp
  qed
  have o: "owns (loaded_agent port config) i p \<longleftrightarrow> (\<exists>d. dict_get config i = Some d \<and> d_port d = p)" for i p
    by (simp add: owns_def loaded_agent_def)
  have "ports_ok (loaded_agent port config)"
    unfolding ports_ok_def o using same port by (auto simp: loaded_agent_def)
  moreover have "slot_ok (loaded_agent port config) i" for i
    by (simp add: slot_ok_def loaded_agent_def gate_of_def serves_def)
  ultimately show ?thesis by (simp add: agent_inv_def gates_ok_def children_ok_def loaded_agent_def)
qed

lemma boot_inv:
  assumes inv: "agent_inv s" and cfg: "dict_get (a_config s) i = Some d" and none: "dict_get (a_procs s) i = None"
    and idle: "a_work s = []" and st: "start_deployment i d starts s = Some t"
  shows "agent_inv t"
proof -
  have t: "t = s\<lparr>a_procs := dict_set i \<lparr>p_handle = a_next_child s, p_rec = d\<rparr> (a_procs s),
                   a_alive := a_next_child s # a_alive s, a_next_child := a_next_child s + 1\<rparr>"
    using st by (simp add: start_deployment_def split: if_splits)
  have g: "gate_of t = gate_of s" by (rule gate_of_cong) (simp_all add: t)
  show ?thesis
  proof (rule inv_local [OF inv])
    fix j assume "j \<noteq> i"
    then show "same_slot s t j" using g idle by (intro same_slotI) (auto simp: t)
  next
    have "serves t i" using cfg by (simp add: serves_def t)
    then show "slot_ok t i" using idle cfg by (simp add: slot_ok_def t)
    show "gates_ok t" using gates_ok_cong [of t s] inv by (simp add: t agent_inv_def)
    show "dict_get (a_disk t) = dict_get (a_config t)" using inv by (simp add: t agent_inv_def)
    fix p show "owns t i p \<Longrightarrow> owns s i p \<or> (p \<noteq> a_port s \<and> (\<forall>j. \<not> owns s j p))"
      using cfg idle by (auto simp: owns_def t)
  next
    fix h assume "h \<in> set (a_alive t)"
    then show "(\<exists>pr. dict_get (a_procs t) i = Some pr \<and> p_handle pr = h) \<or>
      (h \<in> set (a_alive s) \<and> (\<forall>pr. dict_get (a_procs s) i = Some pr \<longrightarrow> p_handle pr \<noteq> h))"
      using none by (auto simp: t)
  qed (auto simp: t)
qed

lemma boot_all:
  assumes "agent_inv s" "a_work s = []" "distinct (map fst ds)"
    and "\<And>i d. (i, d) \<in> set ds \<Longrightarrow> dict_get (a_config s) i = Some d \<and> dict_get (a_procs s) i = None"
  shows "agent_inv (fold (\<lambda>(did, d) s. case start_deployment did d (starts did) s of None \<Rightarrow> s | Some s' \<Rightarrow> s') ds s)"
  using assms
proof (induction ds arbitrary: s)
  case (Cons id ds)
  obtain i d where id: "id = (i, d)" by (cases id)
  show ?case
  proof (cases "start_deployment i d (starts i) s")
    case None
    have "agent_inv (fold (\<lambda>(did, d) s. case start_deployment did d (starts did) s of None \<Rightarrow> s | Some s' \<Rightarrow> s') ds s)"
      using Cons.prems by (intro Cons.IH) auto
    then show ?thesis using None id by simp
  next
    case (Some t)
    have "agent_inv t" using boot_inv [OF Cons.prems(1) _ _ Cons.prems(2) Some] Cons.prems(4) [of i d] id by simp
    moreover have "a_work t = []" "a_config t = a_config s" "dict_get (a_procs t) = (dict_get (a_procs s))(i \<mapsto> \<lparr>p_handle = a_next_child s, p_rec = d\<rparr>)"
      using Some Cons.prems(2) by (auto simp: start_deployment_def split: if_splits)
    moreover have "j \<noteq> i" if "(j, e) \<in> set ds" for j e using Cons.prems(3) that id by force
    ultimately have "agent_inv (fold (\<lambda>(did, d) s. case start_deployment did d (starts did) s of None \<Rightarrow> s | Some s' \<Rightarrow> s') ds t)"
      using Cons.prems(3,4) id by (intro Cons.IH) auto
    then show ?thesis using Some id by simp
  qed
qed simp

lemma start_inv: "agent_start s \<Longrightarrow> agent_inv s"
proof -
  assume "agent_start s"
  then obtain port config starts where c: "config_ok port config" and s: "s = start_deployments starts (loaded_agent port config)"
    by (auto simp: agent_start_def)
  have "distinct (map fst config)" using c by (simp add: config_ok_def)
  then show "agent_inv s"
    unfolding s start_deployments_def
    by (intro boot_all loaded_inv c) (auto simp: loaded_agent_def)
qed

lemma trans_inv: "agent_inv s \<Longrightarrow> agent_trans sha256 s t \<Longrightarrow> agent_inv t"
  by (auto elim!: agent_transE intro: agent_step_inv)

interpretation agent_machine: invariant_of agent_start "agent_trans sha256" agent_inv for sha256
  by unfold_locales (auto intro: start_inv trans_inv)

definition agent_reachable :: "(string \<Rightarrow> string) \<Rightarrow> agent \<Rightarrow> bool" where
  "agent_reachable sha256 s \<longleftrightarrow> (\<exists>s0. agent_start s0 \<and> (agent_trans sha256)\<^sup>*\<^sup>* s0 s)"

lemma reachable_agent_inv: "agent_reachable sha256 s \<Longrightarrow> agent_inv s"
  unfolding agent_reachable_def using agent_machine.reachable_inv by blast

lemma run_reachable: "agent_start s0 \<Longrightarrow> agent_run sha256 es s0 = Some s \<Longrightarrow> agent_reachable sha256 s"
proof -
  have "agent_run sha256 es s = Some t \<Longrightarrow> (agent_trans sha256)\<^sup>*\<^sup>* s t" for s t
    by (induction es arbitrary: s)
      (auto split: option.splits intro: agent_trans.intros converse_rtranclp_into_rtranclp)
  then show "agent_start s0 \<Longrightarrow> agent_run sha256 es s0 = Some s \<Longrightarrow> agent_reachable sha256 s"
    unfolding agent_reachable_def by blast
qed

end
