(* ===== verification/AgentSafety.thy ===== *)
theory AgentSafety
  imports AgentInvariant
begin

text \<open>
  What the agent promises of its deployments in every state it can reach, over all interleavings of
  transitions, requests, exits and the shutdown: stated over the machine of \<open>AgentTransitions\<close>, from
  the invariant of \<open>AgentInvariant\<close>.
\<close>

section \<open>A run to evaluate\<close>

text \<open>
  An agent with one deployment, a request in flight to it, and its replacement: the drain, the old
  child's end, the new one's start and the commit.
\<close>

definition demo_config :: "(string, deployment) dict" where
  "demo_config = [(''a'', bare_deployment)]"

definition demo_agent :: agent where
  "demo_agent = start_deployments (\<lambda>_. True) (loaded_agent 9100 demo_config)"

definition demo_found :: "string \<times> string option \<times> (string, component) dict" where
  "demo_found = (''/m/b.gguf'', None, [])"

definition demo_ask :: event where
  "demo_ask = AskReplace (\<lambda>_. (0, 0)) (\<lambda>_. True) ''a'' bare_request demo_found False"

definition demo_candidate :: deployment where
  "demo_candidate = candidate_of bare_request ''/m/b.gguf'' None [] 9110"

definition demo_events :: "event list" where
  "demo_events = [Capture ''a'', Enter ''a'' 0 0, demo_ask, Leave 0, Drained (\<lambda>_. (0, 0)) ''a'' False True,
     Outcome ''a'' True True True, Outcome ''a'' True True True, Outcome ''a'' True True True]"

lemma demo_start: "agent_start demo_agent"
proof -
  have "config_ok 9100 demo_config" by (simp add: config_ok_def demo_config_def bare_deployment_def)
  then show ?thesis unfolding agent_start_def demo_agent_def by blast
qed

lemma deploy_run:
  "agent_run (\<lambda>_. []) demo_events demo_agent \<noteq> None"
  by code_simp


definition demo_state :: "nat \<Rightarrow> agent" where
  "demo_state n = (case agent_run (\<lambda>_. []) (take n demo_events) demo_agent of Some s \<Rightarrow> s | None \<Rightarrow> demo_agent)"

lemma run_prefix: "agent_run sha256 (es @ fs) s \<noteq> None \<Longrightarrow> agent_run sha256 es s \<noteq> None"
  by (induction es arbitrary: s) (auto split: option.splits)

lemma demo_reachable: "agent_reachable (\<lambda>_. []) (demo_state n)"
proof -
  have "agent_run (\<lambda>_. []) (take n demo_events) demo_agent \<noteq> None"
    using run_prefix [of _ "take n demo_events" "drop n demo_events"] deploy_run by simp
  then obtain s where s: "agent_run (\<lambda>_. []) (take n demo_events) demo_agent = Some s" by blast
  then show ?thesis using run_reachable [OF demo_start s] by (simp add: demo_state_def)
qed

section \<open>Ports, children, records\<close>

text \<open>
  C2. No two deployments ever share a port, and none takes the agent's own: the port of a record,
  of a registered child and of a transition under way belong to one deployment, in every reachable
  state.
\<close>

theorem ports_never_shared:
  assumes "agent_reachable sha256 s" "owns s i p" "owns s j p"
  shows "i = j \<and> p \<noteq> a_port s"
  using reachable_agent_inv [OF assms(1)] assms(2,3) by (auto simp: agent_inv_def ports_ok_def)

lemma ports_never_shared_witness: "owns (demo_state 3) ''a'' 9110 \<and> 9110 \<noteq> a_port (demo_state 3)"
proof -
  have "map_option d_port (dict_get (a_config (demo_state 3)) ''a'') = Some 9110" by code_simp
  then have "owns (demo_state 3) ''a'' 9110" by (auto simp: owns_def)
  then show ?thesis using ports_never_shared [OF demo_reachable] by blast
qed

text \<open>
  C3. Every child running on the host is registered, under one deployment: a handle is never
  overwritten while its child runs, whatever fails, so a stop that failed can be tried again and the
  shutdown finds every child. A deployment has at most one running child.
\<close>

theorem every_child_registered:
  assumes "agent_reachable sha256 s" "h \<in> set (a_alive s)"
  shows "\<exists>!i. \<exists>pr. dict_get (a_procs s) i = Some pr \<and> p_handle pr = h"
  using reachable_agent_inv [OF assms(1)] assms(2) unfolding agent_inv_def children_ok_def by blast

lemma every_child_registered_witness:
  "\<exists>!i. \<exists>pr. dict_get (a_procs (demo_state 7)) i = Some pr \<and> p_handle pr = 1"
proof -
  have "1 \<in> set (a_alive (demo_state 7))" by code_simp
  then show ?thesis by (rule every_child_registered [OF demo_reachable])
qed

text \<open>
  C4. What the configuration file records is what the agent holds in memory, at every point where
  the event loop can be elsewhere: a candidate that could not be saved, or a removal that could not,
  is in neither.
\<close>

theorem records_kept_on_disk:
  assumes "agent_reachable sha256 s"
  shows "dict_get (a_disk s) = dict_get (a_config s)"
  using reachable_agent_inv [OF assms] by (simp add: agent_inv_def)

lemma records_kept_on_disk_witness:
  "map_option d_model_path (dict_get (a_disk (demo_state 8)) ''a'') = Some ''/m/b.gguf''"
proof -
  have "map_option d_model_path (dict_get (a_config (demo_state 8)) ''a'') = Some ''/m/b.gguf''" by code_simp
  then show ?thesis using records_kept_on_disk [OF demo_reachable] by simp
qed

section \<open>Requests\<close>

lemma may_enter_serves:
  assumes "agent_reachable sha256 s" "may_enter s i g h"
  shows "\<exists>pr. dict_get (a_procs s) i = Some pr \<and> p_handle pr = h \<and> h \<in> set (a_alive s) \<and>
    dict_get (a_config s) i = Some (p_rec pr) \<and> dict_get (a_gate s) i = Some g \<and> dict_get (a_work s) i = None"
proof -
  have inv: "agent_inv s" by (rule reachable_agent_inv [OF assms(1)])
  then have g: "gates_ok s" and slot: "slot_ok s i" by (simp_all add: agent_inv_def)
  obtain adm pr where a: "dict_get (a_gates s) g = Some adm" and pr: "dict_get (a_procs s) i = Some pr"
    and m: "dict_get (a_owner s) g = Some i" "\<not> g_paused adm" "p_handle pr = h" "h \<in> set (a_alive s)"
    using assms(2) by (auto simp: may_enter_def split: option.splits)
  have now: "dict_get (a_gate s) i = Some g" using gates_okD(1) [OF g a] m(1,2) by (simp add: gate_object_ok_def)
  have gi: "gate_of s i = Some adm" using now a by (simp add: gate_of_def)
  then have ns: "\<not> gate_shut s i" using m(2) by (simp add: gate_shut_def)
  have cfg: "dict_get (a_config s) i \<noteq> None" using slot gi m(2) by (auto simp: slot_ok_def)
  have "dict_get (a_work s) i = None"
  proof (rule ccontr)
    assume "dict_get (a_work s) i \<noteq> None"
    then obtain w where "work_ok s i w" using slot by (auto simp: slot_ok_def)
    then show False using ns cfg by (auto simp: work_ok_def)
  qed
  moreover have "dict_get (a_config s) i = Some (p_rec pr)" using slot ns pr by (auto simp: slot_ok_def serves_def)
  ultimately show ?thesis using pr m now by blast
qed



text \<open>
  A gate counts exactly the requests being answered behind it, and its drain wakes exactly when
  there are none: a count is never leaked and never freed twice, whatever replaced the gate
  meanwhile.
\<close>

theorem drain_wakes_with_the_last_request:
  assumes "agent_reachable sha256 s" "dict_get (a_gates s) g = Some adm"
  shows "g_requests adm = int (count_list (a_flights s) g) \<and> (g_idle adm \<longleftrightarrow> g \<notin> set (a_flights s))"
proof -
  have "gate_object_ok s g adm"
    using reachable_agent_inv [OF assms(1)] gates_okD(1) [OF _ assms(2)] by (simp add: agent_inv_def)
  then show ?thesis by (auto simp: gate_object_ok_def admission_gate.drained count_list_0_iff)
qed

lemma drain_wakes_with_the_last_request_witness:
  "\<exists>adm. dict_get (a_gates (demo_state 2)) 0 = Some adm \<and> g_requests adm = 1 \<and> \<not> g_idle adm"
proof -
  have f: "a_flights (demo_state 2) = [0]" "dict_get (a_gates (demo_state 2)) 0 \<noteq> None" by code_simp+
  then obtain adm where a: "dict_get (a_gates (demo_state 2)) 0 = Some adm" by blast
  show ?thesis using drain_wakes_with_the_last_request [OF demo_reachable a] a f by auto
qed

section \<open>The shutdown\<close>

lemma started_not_stopping: "start_deployment i d starts s = Some t \<Longrightarrow> \<not> a_stopping s"
  by (simp add: start_deployment_def split: if_splits)

definition wound_down :: "agent \<Rightarrow> bool" where
  "wound_down s \<longleftrightarrow> a_stopping s \<and> a_alive s = []"

lemma wound_down_simps [simp]:
  "wound_down (new_gate i b s) = wound_down s" "wound_down (set_paused i b s) = wound_down s"
  "wound_down (default_gate i s) = wound_down s" "wound_down (drop_gate i s) = wound_down s"
  "wound_down (drop_queueing i s) = wound_down s" "wound_down (finish i w a s) = wound_down s"
  "wound_down (set_phase i w p s) = wound_down s" "wound_down (answered i a s) = wound_down s"
  "wound_down (s\<lparr>a_disk := c\<rparr>) = wound_down s" "wound_down (s\<lparr>a_config := c\<rparr>) = wound_down s"
  "wound_down (s\<lparr>a_reserved := r\<rparr>) = wound_down s" "wound_down (s\<lparr>a_work := x\<rparr>) = wound_down s"
  "wound_down (s\<lparr>a_queueing := q\<rparr>) = wound_down s" "wound_down (s\<lparr>a_flights := fl\<rparr>) = wound_down s"
  by (simp_all add: wound_down_def answered_def)

lemma wound_down_unregister: "wound_down s \<Longrightarrow> wound_down (unregister i s)"
  by (auto simp: wound_down_def unregister_def split: option.split)

lemma wound_down_start: "wound_down s \<Longrightarrow> start_deployment i d starts s = None"
  by (simp add: wound_down_def start_deployment_def)

lemma wound_down_undo:
  "wound_down s \<Longrightarrow> wound_down (undo_save i w saves s)" "wound_down s \<Longrightarrow> wound_down (undo_stopped i w saves s)"
  "wound_down s \<Longrightarrow> wound_down (undo i w saves s)"
  by (simp_all add: undo_save_def undo_stopped_def undo_def)

lemma wound_down_after_drain: "wound_down s \<Longrightarrow> wound_down (after_drain clock i w s)"
  by (simp add: after_drain_def Let_def split: option.split)

lemma wound_down_worker: "wound_down s \<Longrightarrow> wound_down (worker_step clock i w ok starts saves s)"
  unfolding worker_step_def
  by (auto simp: replace_step_def forget_step_def wound_down_unregister wound_down_start wound_down_undo wound_down_after_drain
      commit_def Let_def forget_drained_def forget_stopped_def split: phase.split)

lemma wound_down_step:
  assumes "wound_down s" "agent_step sha256 e s = Some t"
  shows "wound_down t"
proof (cases e)
  case (AskReplace clock available did request found abandoned)
  then show ?thesis using assms wound_down_after_drain
    by (auto simp: agent_step_def begin_replace_def Let_def split: if_splits option.splits prod.splits sum.splits)
next
  case (AskForget did abandoned)
  then show ?thesis using assms by (auto simp: agent_step_def begin_forget_def Let_def split: if_splits)
next
  case (Enter did g h)
  then show ?thesis using assms by (auto simp: agent_step_def may_enter_def wound_down_def split: if_splits option.splits)
next
  case (Leave g)
  then show ?thesis using assms
    by (auto simp: agent_step_def update_gate_def wound_down_def split: if_splits option.splits)
qed (use assms wound_down_worker in \<open>auto simp: agent_step_def wound_down_def split: if_splits option.splits\<close>)

text \<open>
  C11. Once the agent has begun to stop, joined its transitions and stopped every registered child,
  no child runs on the host, and none runs ever after, whatever still happens: no request, no
  transition started late and no rollback can start one.
\<close>

theorem shutdown_leaves_no_child:
  assumes "agent_reachable sha256 s" "agent_step sha256 (Sweep stopped) s = Some t"
    and "p_handle ` snd ` set (a_procs s) \<subseteq> set stopped" "(agent_trans sha256)\<^sup>*\<^sup>* t u"
  shows "a_alive u = []"
proof -
  have kids: "children_ok s" using reachable_agent_inv [OF assms(1)] by (simp add: agent_inv_def)
  have t: "a_stopping s" "t = s\<lparr>a_swept := True, a_alive := filter (\<lambda>h. h \<notin> set stopped) (a_alive s)\<rparr>"
    using assms(2) by (auto simp: agent_step_def split: if_splits)
  have "h \<in> set stopped" if "h \<in> set (a_alive s)" for h
  proof -
    obtain i pr where "dict_get (a_procs s) i = Some pr" "p_handle pr = h"
      using kids \<open>h \<in> set (a_alive s)\<close> unfolding children_ok_def by blast
    then have "h \<in> p_handle ` snd ` set (a_procs s)" by (force dest: map_of_SomeD)
    then show ?thesis using assms(3) by blast
  qed
  then have "wound_down t" using t by (auto simp: wound_down_def filter_empty_conv)
  with assms(4) have "wound_down u"
    by (induction rule: rtranclp_induct) (auto elim!: agent_transE intro: wound_down_step)
  then show ?thesis by (simp add: wound_down_def)
qed


definition demo_stopping :: agent where
  "demo_stopping = demo_agent\<lparr>a_stopping := True\<rparr>"

lemma shutdown_leaves_no_child_witness:
  "\<exists>t. agent_step (\<lambda>_. []) (Sweep [0]) demo_stopping = Some t \<and> a_alive t = []"
proof -
  have "agent_run (\<lambda>_. []) [Shutdown] demo_agent = Some demo_stopping"
    by (simp add: agent_step_def demo_stopping_def)
  then have r: "agent_reachable (\<lambda>_. []) demo_stopping" by (rule run_reachable [OF demo_start])
  have "agent_step (\<lambda>_. []) (Sweep [0]) demo_stopping \<noteq> None" "map (p_handle \<circ> snd) (a_procs demo_stopping) = [0]"
    by code_simp+
  then obtain t where t: "agent_step (\<lambda>_. []) (Sweep [0]) demo_stopping = Some t"
    and "p_handle ` snd ` set (a_procs demo_stopping) \<subseteq> set [0]"
    by (auto simp: image_image simp flip: set_map)
  then show ?thesis using shutdown_leaves_no_child [OF r t] by blast
qed

section \<open>Transitions end\<close>

definition stretches_left :: "phase \<Rightarrow> nat" where
  "stretches_left p = (case p of Draining _ \<Rightarrow> 7 | Stopping \<Rightarrow> 6 | Verifying \<Rightarrow> 5 | Readying \<Rightarrow> 4
     | UndoStopping \<Rightarrow> 3 | UndoVerifying \<Rightarrow> 2 | UndoReadying \<Rightarrow> 1)"

definition left_of :: "agent \<Rightarrow> string \<Rightarrow> nat" where
  "left_of s i = (case dict_get (a_work s) i of None \<Rightarrow> 0 | Some w \<Rightarrow> stretches_left (w_phase w))"

text \<open>The outcomes a worker waits for.\<close>

definition outcome_of :: "string \<Rightarrow> event \<Rightarrow> bool" where
  "outcome_of i e = (case e of Drained _ j _ _ \<Rightarrow> j = i | Outcome j _ _ _ \<Rightarrow> j = i | _ \<Rightarrow> False)"

lemma left_of_simps [simp]:
  "left_of (set_phase i w p s) i = stretches_left p" "left_of (finish i w a s) i = 0"
  "left_of (set_paused i b s) i = left_of s i"
  by (simp_all add: left_of_def)

lemma stretches_simps [simp]:
  "stretches_left (Draining b) = 7" "stretches_left Stopping = 6" "stretches_left Verifying = 5" "stretches_left Readying = 4"
  "stretches_left UndoStopping = 3" "stretches_left UndoVerifying = 2" "stretches_left UndoReadying = 1"
  by (simp_all add: stretches_left_def)

lemma undo_left: "left_of (undo_save i w saves s) i = 0" "left_of (undo_stopped i w saves s) i \<le> 2" "left_of (undo i w saves s) i \<le> 3"
  by (simp_all add: undo_save_def undo_stopped_def undo_def)

lemma worker_left:
  assumes w: "dict_get (a_work s) i = Some w" and job: "w_job w \<noteq> Replace \<Longrightarrow> draining w \<or> w_phase w = Stopping"
  shows "left_of (worker_step clock i w ok starts saves s) i < left_of s i"
proof -
  have l: "left_of s i = stretches_left (w_phase w)" using w by (simp add: left_of_def)
  have u: "left_of (undo i w v t) i < 4" "left_of (undo_stopped i w v t) i < 3" for t v
    using undo_left(2,3) [of i w v t] by simp_all
  have c: "left_of (commit i w saves s) i < 4" using u by (simp add: commit_def Let_def)
  have d: "left_of (after_drain clock i w s) i < 7" by (simp add: after_drain_def Let_def)
  have f: "left_of (forget_stopped i w saves t) i = 0" "left_of (forget_drained i w saves s) i < 7" for t
    by (simp_all add: forget_stopped_def forget_drained_def Let_def)
  show ?thesis
  proof (cases "w_job w = Replace")
    case True
    have "left_of (replace_step clock i w ok starts saves s) i < stretches_left (w_phase w)"
      using u c d undo_left(1) less_trans [OF u(1)]
      by (cases "w_phase w") (auto simp: replace_step_def split: option.split)
    then show ?thesis using True l by (simp add: worker_step_def)
  next
    case False
    then show ?thesis using job f l
      by (cases "w_phase w") (auto simp: worker_step_def forget_step_def draining_def)
  qed
qed

lemma work_other:
  assumes "j \<noteq> i"
  shows "dict_get (a_work (undo_save i w saves s)) j = dict_get (a_work s) j"
    "dict_get (a_work (undo_stopped i w saves s)) j = dict_get (a_work s) j"
    "dict_get (a_work (undo i w saves s)) j = dict_get (a_work s) j"
    "dict_get (a_work (after_drain clock i w s)) j = dict_get (a_work s) j"
    "dict_get (a_work (forget_stopped i w saves s)) j = dict_get (a_work s) j"
    "dict_get (a_work (forget_drained i w saves s)) j = dict_get (a_work s) j"
  using assms by (auto simp: undo_save_def undo_stopped_def undo_def after_drain_def forget_stopped_def forget_drained_def Let_def
      split: option.split)

lemma start_work: "start_deployment i d starts s = Some t \<Longrightarrow> a_work t = a_work s"
  by (rule started(5))

lemma commit_other: "j \<noteq> i \<Longrightarrow> dict_get (a_work (commit i w saves s)) j = dict_get (a_work s) j"
  by (simp add: commit_def Let_def work_other)

lemma worker_other:
  assumes "j \<noteq> i"
  shows "dict_get (a_work (worker_step clock i w ok starts saves s)) j = dict_get (a_work s) j"
proof -
  have "dict_get (a_work (replace_step clock i w ok starts saves s)) j = dict_get (a_work s) j"
    using assms by (cases "w_phase w") (auto simp: replace_step_def work_other commit_other dest: start_work split: option.split)
  moreover have "dict_get (a_work (forget_step i w ok saves s)) j = dict_get (a_work s) j"
    using assms by (cases "w_phase w") (auto simp: forget_step_def work_other)
  ultimately show ?thesis by (simp add: worker_step_def)
qed

lemma ask_other:
  assumes "dict_get (a_work s) i \<noteq> None"
  shows "begin_replace sha256 clock available j request found abandoned s = Some t \<Longrightarrow> dict_get (a_work t) i = dict_get (a_work s) i"
    "begin_forget j abandoned s = Some t \<Longrightarrow> dict_get (a_work t) i = dict_get (a_work s) i"
proof -
  assume b: "begin_replace sha256 clock available j request found abandoned s = Some t"
  then have "i \<noteq> j" using assms by (auto simp: begin_replace_def)
  then show "dict_get (a_work t) i = dict_get (a_work s) i"
    using b work_other(4) [of i j]
    by (auto simp: begin_replace_def answered_def Let_def split: if_splits option.splits prod.splits sum.splits)
next
  assume b: "begin_forget j abandoned s = Some t"
  then have "i \<noteq> j" using assms by (auto simp: begin_forget_def)
  then show "dict_get (a_work t) i = dict_get (a_work s) i"
    using b by (auto simp: begin_forget_def answered_def Let_def split: if_splits)
qed

lemma update_gate_work [simp]: "a_work (update_gate f g s) = a_work s"
  by (simp add: update_gate_def split: option.split)

lemma worker_can:
  assumes w: "dict_get (a_work s) i = Some w"
  shows "\<exists>e t. outcome_of i e \<and> agent_step sha256 e s = Some t"
proof (cases "draining w")
  case True
  then have "agent_step sha256 (Drained (\<lambda>_. (0, 0)) i True True) s \<noteq> None"
    using w by (simp add: agent_step_def drain_over_def)
  then show ?thesis by (intro exI [of _ "Drained (\<lambda>_. (0, 0)) i True True"]) (auto simp: outcome_of_def)
next
  case False
  then have "agent_step sha256 (Outcome i True True True) s \<noteq> None" using w by (simp add: agent_step_def)
  then show ?thesis by (intro exI [of _ "Outcome i True True True"]) (auto simp: outcome_of_def)
qed

lemma others_left:
  assumes "dict_get (a_work s) i \<noteq> None" "agent_step sha256 e s = Some t" "\<not> outcome_of i e"
  shows "left_of t i = left_of s i"
proof (cases e)
  case (AskReplace clock available did request found abandoned)
  then show ?thesis using assms(2) ask_other(1) [OF assms(1)] by (simp add: agent_step_def left_of_def)
next
  case (AskForget did abandoned)
  then show ?thesis using assms(2) ask_other(2) [OF assms(1)] by (simp add: agent_step_def left_of_def)
next
  case (Drained clock did timeout saves)
  then have "i \<noteq> did" using assms(3) by (auto simp: outcome_of_def)
  then show ?thesis using assms(2) Drained worker_other [of i did]
    by (auto simp: agent_step_def left_of_def split: option.splits if_splits)
next
  case (Outcome did ok starts saves)
  then have "i \<noteq> did" using assms(3) by (auto simp: outcome_of_def)
  then show ?thesis using assms(2) Outcome worker_other [of i did]
    by (auto simp: agent_step_def left_of_def split: option.splits if_splits)
next
  case (Abandon did)
  then show ?thesis using assms(1,2) by (cases "did = i") (auto simp: agent_step_def left_of_def split: option.splits)
qed (use assms(2) in \<open>auto simp: agent_step_def left_of_def split: if_splits\<close>)

text \<open>
  C10. Every transition ends: whenever one is under way some outcome it waits for can come (a drain
  at the latest at its time limit), each outcome brings it nearer its end, and nothing else sets it
  back; so it answers after at most seven outcomes, whether each is a success or a failure.
\<close>

theorem transitions_end:
  assumes "agent_reachable sha256 s" "dict_get (a_work s) i \<noteq> None"
  shows "left_of s i \<le> 7 \<and> (\<exists>e t. outcome_of i e \<and> agent_step sha256 e s = Some t) \<and>
    (\<forall>e t. agent_step sha256 e s = Some t \<longrightarrow>
       (if outcome_of i e then left_of t i < left_of s i else left_of t i = left_of s i))"
proof -
  obtain w where w: "dict_get (a_work s) i = Some w" using assms(2) by blast
  have "work_ok s i w" using reachable_agent_inv [OF assms(1)] w by (auto simp: agent_inv_def slot_ok_def)
  then have job: "w_job w \<noteq> Replace \<Longrightarrow> draining w \<or> w_phase w = Stopping"
    by (cases "w_job w") (auto simp: work_ok_def)
  note down = worker_left [OF w job]
  have "if outcome_of i e then left_of t i < left_of s i else left_of t i = left_of s i"
    if "agent_step sha256 e s = Some t" for e t
    using that down w others_left [OF assms(2) that]
    by (cases e) (auto simp: outcome_of_def agent_step_def split: if_splits)
  moreover have "left_of s i \<le> 7" using w by (cases "w_phase w") (simp_all add: left_of_def)
  ultimately show ?thesis using worker_can [OF w] by blast
qed

lemma transitions_end_witness:
  "\<exists>e t. outcome_of ''a'' e \<and> agent_step (\<lambda>_. []) e (demo_state 3) = Some t"
proof -
  have "dict_get (a_work (demo_state 3)) ''a'' \<noteq> None" by code_simp
  then show ?thesis using transitions_end [OF demo_reachable] by blast
qed


section \<open>What a transition answers\<close>

definition gate_open :: "agent \<Rightarrow> string \<Rightarrow> bool" where
  "gate_open s i \<longleftrightarrow> (\<exists>g. gate_of s i = Some g \<and> \<not> g_paused g)"

text \<open>What an answer says of the deployment, between the state before the stretch that gave it and after.\<close>

definition answer_true :: "agent \<Rightarrow> string \<Rightarrow> answer \<Rightarrow> agent \<Rightarrow> bool" where
  "answer_true s i a t \<longleftrightarrow>
     (case a of
        Healthy \<Rightarrow> \<exists>pr. dict_get (a_procs t) i = Some pr \<and> p_handle pr \<in> set (a_alive t) \<and>
          dict_get (a_config t) i = Some (p_rec pr) \<and> gate_open t i
      | Unhealthy rolled_back \<Rightarrow> dict_get (a_config t) i = dict_get (a_config s) i \<and>
          (rolled_back \<longrightarrow> (case dict_get (a_config s) i of
             None \<Rightarrow> dict_get (a_procs t) i = None \<and> gate_of t i = None
           | Some d \<Rightarrow> runs t i d \<and> gate_open t i))
      | Unchanged \<Rightarrow> dict_get (a_config t) i = dict_get (a_config s) i \<and>
          dict_get (a_procs t) i = dict_get (a_procs s) i \<and> a_alive t = a_alive s
      | Stopped \<Rightarrow> dict_get (a_config t) i = None \<and> dict_get (a_procs t) i = None \<and> gate_of t i = None
      | Absent \<Rightarrow> dict_get (a_config t) i = None \<and> dict_get (a_procs t) i = None
      | Raised _ \<Rightarrow> dict_get (a_config t) i = dict_get (a_config s) i)"

definition spoke :: "agent \<Rightarrow> string \<Rightarrow> agent \<Rightarrow> bool" where
  "spoke s i t \<longleftrightarrow>
     a_answers t = a_answers s \<or> (\<exists>a. a_answers t = a_answers s @ [(i, a)] \<and> answer_true s i a t)"

lemma spoke_silent: "a_answers t = a_answers s \<Longrightarrow> spoke s i t"
  by (simp add: spoke_def)

lemma spoke_finish: "a_answers t = a_answers s \<Longrightarrow> answer_true s i a (finish i w a t) \<Longrightarrow> spoke s i (finish i w a t)"
  by (auto simp: spoke_def)

lemma finish_views [simp]:
  "runs (finish i w a t) j d = runs t j d" "gate_open (finish i w a t) j = gate_open t j"
  by (simp_all add: runs_def gate_open_def)

lemma disk_views [simp]:
  "gate_of (s\<lparr>a_disk := c\<rparr>) = gate_of s" "gate_of (s\<lparr>a_config := c\<rparr>) = gate_of s"
  by (rule gate_of_cong; simp)+

lemma undo_save_spoke:
  assumes "a_answers t = a_answers s" "dict_get (a_config t) i = dict_get (a_config s) i"
    and "case dict_get (a_config s) i of None \<Rightarrow> dict_get (a_procs t) i = None \<and> gate_of t i = None
         | Some d \<Rightarrow> runs t i d \<and> gate_open t i"
  shows "spoke s i (undo_save i w saves t)"
proof -
  have "runs (t\<lparr>a_disk := c\<rparr>) i d = runs t i d" "gate_open (t\<lparr>a_disk := c\<rparr>) i = gate_open t i" for c d
    by (simp_all add: runs_def gate_open_def)
  then show ?thesis using assms
    unfolding undo_save_def by (intro spoke_finish) (auto simp: answer_true_def split: option.splits)
qed

lemma undo_stopped_spoke:
  assumes "a_answers t = a_answers s" "dict_get (a_config t) i = dict_get (a_config s) i"
    and "w_previous w = dict_get (a_config s) i" "dict_get (a_procs t) i = None"
  shows "spoke s i (undo_stopped i w saves t)"
proof (cases "w_previous w")
  case None
  then show ?thesis using assms unfolding undo_stopped_def
    by (auto simp: gate_of_drop intro!: undo_save_spoke split: option.splits)
next
  case (Some d)
  then show ?thesis using assms by (auto simp: undo_stopped_def intro: spoke_silent)
qed

lemma undo_spoke:
  assumes "a_answers t = a_answers s" "dict_get (a_config t) i = dict_get (a_config s) i" "w_previous w = dict_get (a_config s) i"
  shows "spoke s i (undo i w saves t)"
  using undo_stopped_spoke [OF assms] assms(1) by (simp add: undo_def spoke_silent)

lemma after_drain_answers: "a_answers (after_drain clock i w s) = a_answers s"
  by (simp add: after_drain_def Let_def split: option.split)

lemma start_answers: "start_deployment i d starts s = Some t \<Longrightarrow> a_answers t = a_answers s"
  by (auto simp: start_deployment_def split: if_splits)

lemma unregister_spoken: "a_answers (unregister i s) = a_answers s"
  by simp

lemma open_unpaused: "gates_ok t \<Longrightarrow> gate_of t i \<noteq> None \<Longrightarrow> gate_open (set_paused i False t) i"
  by (auto simp: gate_open_def gate_of_paused)

lemma commit_spoke:
  assumes o: "inv_open s i w" and r: "rep_ok s i w" and shut: "gate_shut s i" and run: "runs s i (w_candidate w)"
  shows "spoke s i (commit i w saves s)"
proof -
  have u: "spoke s i (undo i w v s)" for v using r by (intro undo_spoke) (simp_all add: rep_ok_def)
  define t where "t = s\<lparr>a_config := dict_set i (w_candidate w) (a_config s), a_disk := dict_set i (w_candidate w) (a_config s)\<rparr>"
  have g: "gates_ok t" "gate_of t = gate_of s"
    using inv_openD(2) [OF o] gates_ok_cong [of t s] by (simp_all add: t_def)
  have op: "gate_open (set_paused i False t) i"
    using shut g by (intro open_unpaused) (auto simp: gate_shut_def)
  obtain pr where pr: "dict_get (a_procs s) i = Some pr" "p_rec pr = w_candidate w" using run by (auto simp: runs_def)
  have "spoke s i (finish i w Healthy (set_paused i False t))" if "p_handle pr \<in> set (a_alive s)"
    using that pr op by (intro spoke_finish) (simp_all add: t_def answer_true_def)
  then show ?thesis using u pr by (simp add: commit_def Let_def t_def)
qed

lemma replace_spoke:
  assumes inv: "agent_inv s" and w: "dict_get (a_work s) i = Some w" and job: "w_job w = Replace"
  shows "spoke s i (replace_step clock i w ok starts saves s)"
proof -
  have o: "inv_open s i w" and wk: "work_ok s i w" using open_worker [OF inv w] by blast+
  have shut: "gate_shut s i" and ph: "phase_ok s i w" using wk job by (simp_all add: work_ok_def)
  have r: "rep_ok s i w" using wk job by (auto simp: work_ok_def rep_ok_def)
  have prev: "w_previous w = dict_get (a_config s) i" using wk by (simp add: work_ok_def)
  have u: "spoke s i (undo i w v s)" for v by (rule undo_spoke) (simp_all add: prev)
  have un: "spoke s i (undo_stopped i w v (unregister i s))" for v by (rule undo_stopped_spoke) (simp_all add: prev)
  have bad: "spoke s i (finish i w (Unhealthy False) s)" by (rule spoke_finish) (simp_all add: answer_true_def)
  show ?thesis
  proof (cases "w_phase w")
    case (Draining was)
    have "spoke s i (finish i w Unchanged (set_paused i was s))"
      by (rule spoke_finish) (simp_all add: answer_true_def)
    then show ?thesis using Draining spoke_silent [OF after_drain_answers] by (simp add: replace_step_def)
  next
    case Stopping
    then show ?thesis using u by (simp add: replace_step_def spoke_silent)
  next
    case Verifying
    then show ?thesis using u by (auto simp: replace_step_def intro!: spoke_silent dest: start_answers split: option.split)
  next
    case Readying
    then have "runs s i (w_candidate w)" using ph by (simp add: phase_ok_def)
    then show ?thesis using Readying u commit_spoke [OF o r shut] by (simp add: replace_step_def)
  next
    case UndoStopping
    then show ?thesis using un bad by (simp add: replace_step_def)
  next
    case UndoVerifying
    then show ?thesis using bad by (auto simp: replace_step_def intro!: spoke_silent dest: start_answers split: option.split)
  next
    case UndoReadying
    then obtain d where d: "w_previous w = Some d" "runs s i d" using ph by (auto simp: phase_ok_def)
    have "gate_open (set_paused i False s) i"
      using shut inv_openD(2) [OF o] by (intro open_unpaused) (auto simp: gate_shut_def)
    moreover have "runs (set_paused i False s) i d" using d(2) by (simp add: runs_def)
    moreover have "dict_get (a_config s) i = Some d" using d(1) prev by simp
    ultimately have "spoke s i (undo_save i w saves (set_paused i False s))"
      by (intro undo_save_spoke) simp_all
    then show ?thesis using UndoReadying bad by (simp add: replace_step_def)
  qed
qed

lemma forget_stopped_spoke:
  assumes "a_answers t = a_answers s" "dict_get (a_config t) = dict_get (a_config s)" "dict_get (a_procs t) i = None"
    and "w_previous w = dict_get (a_config s) i" "w_previous w \<noteq> None"
  shows "spoke s i (forget_stopped i w saves t)"
proof (cases saves)
  case True
  then show ?thesis using assms unfolding forget_stopped_def Let_def
    by (auto simp: answer_true_def gate_of_drop intro!: spoke_finish)
next
  case False
  then show ?thesis using assms unfolding forget_stopped_def Let_def
    by (auto simp: answer_true_def intro!: spoke_finish)
qed

lemma forget_spoke:
  assumes inv: "agent_inv s" and w: "dict_get (a_work s) i = Some w" and job: "w_job w \<noteq> Replace"
  shows "spoke s i (forget_step i w ok saves s)"
proof -
  have wk: "work_ok s i w" using open_worker [OF inv w] by blast
  have prev: "w_previous w = dict_get (a_config s) i" using wk by (simp add: work_ok_def)
  have raised: "spoke s i (finish i w (Raised e) s)" for e by (rule spoke_finish) (simp_all add: answer_true_def)
  show ?thesis
  proof (cases "w_job w = ForgetOrphan")
    case True
    then have "w_phase w = Stopping" "w_previous w = None" using wk unfolding work_ok_def by blast+
    moreover have "spoke s i (finish i w Stopped (drop_gate i (unregister i s)))" if "w_previous w = None"
      using that prev by (intro spoke_finish) (simp_all add: answer_true_def gate_of_drop)
    ultimately show ?thesis using True raised by (simp add: forget_step_def)
  next
    case False
    then have fj: "w_job w = Forget" using job by (cases "w_job w") auto
    then have some: "w_previous w \<noteq> None" using wk unfolding work_ok_def by blast
    have st: "spoke s i (forget_stopped i w saves (unregister i s))"
      using prev some by (intro forget_stopped_spoke) simp_all
    have dr: "spoke s i (forget_drained i w saves s)"
      using forget_stopped_spoke [OF refl refl _ prev some] by (auto simp: forget_drained_def intro: spoke_silent)
    have un: "spoke s i (finish i w Unchanged (set_paused i was s))" for was
      by (rule spoke_finish) (simp_all add: answer_true_def)
    show ?thesis using st dr un raised fj by (cases "w_phase w") (simp_all add: forget_step_def)
  qed
qed


lemma worker_spoke:
  "agent_inv s \<Longrightarrow> dict_get (a_work s) i = Some w \<Longrightarrow> spoke s i (worker_step clock i w ok starts saves s)"
  using replace_spoke forget_spoke by (simp add: worker_step_def)

lemma answered_spoke: "answer_true s i a (answered i a s) \<Longrightarrow> spoke s i (answered i a s)"
  by (auto simp: spoke_def answered_def)

lemma ask_spoke:
  "begin_replace sha256 clock available i request found abandoned s = Some t \<Longrightarrow> spoke s i t"
  "begin_forget i abandoned s = Some t \<Longrightarrow> spoke s i t"
proof -
  have still: "spoke s i (answered i a s)"
    if "a = Unchanged \<or> (\<exists>e. a = Raised e) \<or> (a = Absent \<and> dict_get (a_config s) i = None \<and> dict_get (a_procs s) i = None)" for a
    using that by (intro answered_spoke) (auto simp: answer_true_def answered_def)
  show "begin_replace sha256 clock available i request found abandoned s = Some t \<Longrightarrow> spoke s i t"
    by (auto simp: begin_replace_def Let_def after_drain_answers spoke_silent intro!: still
        split: if_splits option.splits prod.splits sum.splits)
  show "begin_forget i abandoned s = Some t \<Longrightarrow> spoke s i t"
    by (auto simp: begin_forget_def Let_def spoke_silent intro!: still split: if_splits)
qed



end
