(* ===== verification/AgentService.thy ===== *)
theory AgentService
  imports AgentRequests AgentSafety
begin

text \<open>
  The routes against the machine: what the proxy forwards is an \<open>Enter\<close> step of \<open>AgentTransitions\<close>,
  a deployment reported healthy is one the proxy forwards to, and a video's id leads back to it.
\<close>

section \<open>A gate keeps its deployment\<close>

definition owners_kept :: "agent \<Rightarrow> agent \<Rightarrow> bool" where
  "owners_kept s t \<longleftrightarrow> a_next_gate s \<le> a_next_gate t \<and>
     (\<forall>g. g < a_next_gate s \<longrightarrow> dict_get (a_owner t) g = dict_get (a_owner s) g)"

lemma owners_kept_refl: "owners_kept s s"
  by (simp add: owners_kept_def)

lemma owners_kept_trans: "owners_kept s t \<Longrightarrow> owners_kept t u \<Longrightarrow> owners_kept s u"
  by (auto simp: owners_kept_def)

lemma owners_kept_same: "a_owner t = a_owner s \<Longrightarrow> a_next_gate t = a_next_gate s \<Longrightarrow> owners_kept s t"
  by (simp add: owners_kept_def)

lemma owners_frames [simp]:
  "a_owner (set_paused i b s) = a_owner s" "a_next_gate (set_paused i b s) = a_next_gate s"
  "a_owner (finish i w a s) = a_owner s" "a_next_gate (finish i w a s) = a_next_gate s"
  "a_owner (set_phase i w p s) = a_owner s" "a_next_gate (set_phase i w p s) = a_next_gate s"
  "a_owner (drop_gate i s) = a_owner s" "a_next_gate (drop_gate i s) = a_next_gate s"
  "a_owner (drop_queueing i s) = a_owner s" "a_next_gate (drop_queueing i s) = a_next_gate s"
  "a_owner (answered i a s) = a_owner s" "a_next_gate (answered i a s) = a_next_gate s"
  "a_owner (unregister i s) = a_owner s" "a_next_gate (unregister i s) = a_next_gate s"
  "a_owner (update_gate f g s) = a_owner s" "a_next_gate (update_gate f g s) = a_next_gate s"
  by (simp_all add: set_paused_def finish_def set_phase_def drop_gate_def drop_queueing_def answered_def
      unregister_def update_gate_def split: option.split)

lemma owners_start: "start_deployment i d b s = Some t \<Longrightarrow> owners_kept s (set_phase i w p t)"
  by (auto simp: start_deployment_def owners_kept_def split: if_splits)

lemma owners_new_gate: "owners_kept s (new_gate i b s)"
  by (simp add: owners_kept_def new_gate_def)

lemma owners_default_gate: "owners_kept s (default_gate i s)"
  by (simp add: default_gate_def owners_new_gate owners_kept_refl)

lemma owners_undo [simp]:
  "a_owner (undo i w b s) = a_owner s" "a_next_gate (undo i w b s) = a_next_gate s"
  "a_owner (undo_stopped i w b s) = a_owner s" "a_next_gate (undo_stopped i w b s) = a_next_gate s"
  "a_owner (undo_save i w b s) = a_owner s" "a_next_gate (undo_save i w b s) = a_next_gate s"
  by (simp_all add: undo_def undo_stopped_def undo_save_def)

lemma owners_commit [simp]:
  "a_owner (commit i w b s) = a_owner s" "a_next_gate (commit i w b s) = a_next_gate s"
  by (simp_all add: commit_def Let_def)

lemma owners_forget [simp]:
  "a_owner (forget_step i w ok b s) = a_owner s" "a_next_gate (forget_step i w ok b s) = a_next_gate s"
  by (simp_all add: forget_step_def forget_drained_def forget_stopped_def Let_def split: phase.split)

lemma owners_after_drain: "owners_kept s (after_drain clock i w s)"
proof -
  have "a_owner (after_drain clock i w s) = a_owner (new_gate i True s)"
    "a_next_gate (after_drain clock i w s) = a_next_gate (new_gate i True s)"
    by (simp_all add: after_drain_def Let_def split: option.split)
  with owners_new_gate [of s i True] show ?thesis by (simp add: owners_kept_def)
qed

lemma owners_replace: "owners_kept s (replace_step clock i w ok starts b s)"
proof (cases "w_phase w")
  case (Draining x)
  then show ?thesis using owners_after_drain by (simp add: replace_step_def owners_kept_same)
qed (auto simp: replace_step_def intro: owners_kept_same owners_start split: option.split if_splits)

lemma owners_begin_replace:
  assumes "begin_replace sha256 clock available i r found ab s = Some t"
  shows "owners_kept s t"
proof -
  have "owners_kept s (after_drain clock i w (s\<lparr>a_reserved := x # a_reserved s\<rparr>))" for w x
    using owners_after_drain [of "s\<lparr>a_reserved := x # a_reserved s\<rparr>" clock i w] by (simp add: owners_kept_def)
  moreover have "owners_kept s (set_phase i w p (set_paused i b (default_gate i (s\<lparr>a_reserved := x # a_reserved s\<rparr>))))" for w p b x
    using owners_default_gate [of "s\<lparr>a_reserved := x # a_reserved s\<rparr>" i] by (simp add: owners_kept_def)
  ultimately show ?thesis
    using assms
    by (auto simp: begin_replace_def Let_def owners_kept_same split: if_splits option.splits prod.splits sum.splits)
qed

lemma owners_begin_forget:
  assumes "begin_forget i ab s = Some t"
  shows "owners_kept s t"
proof -
  have "owners_kept s (set_phase i w p (set_paused i b (default_gate i s)))" for w p b
    using owners_default_gate [of s i] by (simp add: owners_kept_def)
  then show ?thesis
    using assms by (auto simp: begin_forget_def Let_def owners_kept_same split: if_splits option.splits)
qed

lemma owners_step:
  assumes "agent_step sha256 e s = Some t"
  shows "owners_kept s t"
proof -
  have worker: "owners_kept s (worker_step clock i w ok starts b s)" for clock i w ok starts b
    using owners_replace by (simp add: worker_step_def owners_kept_same)
  show ?thesis
  proof (cases e)
    case (AskReplace clock available i r found ab)
    then show ?thesis using assms owners_begin_replace by (simp add: agent_step_def)
  next
    case (AskForget i ab)
    then show ?thesis using assms owners_begin_forget by (simp add: agent_step_def)
  next
    case (Capture i)
    then show ?thesis using assms owners_default_gate by (auto simp: agent_step_def split: if_splits)
  qed (use assms worker in \<open>auto simp: agent_step_def intro: owners_kept_same split: option.splits if_splits\<close>)
qed

lemma owners_run: "(agent_trans sha256)\<^sup>*\<^sup>* s t \<Longrightarrow> owners_kept s t"
  by (induction rule: rtranclp_induct)
     (auto intro: owners_kept_refl owners_kept_trans elim: agent_transE dest: owners_step)

section \<open>What the proxy forwards enters\<close>

lemma lookup_found:
  assumes "proxy_lookup s did path method = (t, Inr (d, g, h))"
  shows "dict_get (a_config s) did = Some d" "t = default_gate did s" "dict_get (a_gate t) did = Some g"
    "gate_of t did \<noteq> None" "(\<exists>pr. dict_get (a_procs s) did = Some pr \<and> p_handle pr = h)"
  using assms
  by (auto simp: proxy_lookup_def Let_def default_gate_def new_gate_def split: option.splits if_splits prod.splits)

text \<open>
  C23. The proxy forwards by the rules of the machine: a request that looked its deployment up in a
  reachable state, and passes the checks after its body was read however many transitions, exits and
  other requests came between, enters the gate it looked up as a step of the machine; it goes to the
  recorded, running child, and no transition of that deployment is under way.
\<close>

theorem forwarded_requests_enter:
  assumes "agent_reachable sha256 s" "proxy_lookup s did path method = (s1, Inr (d, g, h))"
    and "(agent_trans sha256)\<^sup>*\<^sup>* s1 t" "proxy_route t did path d g h body buildable = Inr how"
  shows "agent_step sha256 (Capture did) s = Some s1 \<and> (\<exists>u. agent_step sha256 (Enter did g h) t = Some u) \<and>
    (\<exists>pr. dict_get (a_procs t) did = Some pr \<and> p_handle pr = h \<and> h \<in> set (a_alive t) \<and>
       dict_get (a_config t) did = Some (p_rec pr)) \<and> dict_get (a_work t) did = None"
proof -
  note found = lookup_found [OF assms(2)]
  have cap: "agent_step sha256 (Capture did) s = Some s1" using found(1,2) by (simp add: agent_step_def)
  obtain s0 where s0: "agent_start s0" "(agent_trans sha256)\<^sup>*\<^sup>* s0 s"
    using assms(1) by (auto simp: agent_reachable_def)
  have s1: "(agent_trans sha256)\<^sup>*\<^sup>* s0 s1"
    using s0(2) agent_trans.event [OF cap] by (rule rtranclp.rtrancl_into_rtrancl)
  then have reach: "agent_reachable sha256 s1" "agent_reachable sha256 t"
    using s0(1) assms(3) by (auto simp: agent_reachable_def intro: rtranclp_trans)
  have gates: "gates_ok s1" using reachable_agent_inv [OF reach(1)] by (simp add: agent_inv_def)
  have own: "dict_get (a_owner s1) g = Some did" using gates_okD(4) [OF gates found(3)] .
  obtain adm where "dict_get (a_gates s1) g = Some adm" using gates_okD(3) [OF gates found(3)] by blast
  then have "g < a_next_gate s1" using gates_okD(1) [OF gates] by (simp add: gate_object_ok_def)
  then have "dict_get (a_owner t) g = Some did" using owners_run [OF assms(3)] own by (simp add: owners_kept_def)
  then have enter: "may_enter t did g h"
    using assms(4) by (auto simp: proxy_route_def may_enter_def Let_def split: option.splits if_splits)
  then have "\<exists>u. agent_step sha256 (Enter did g h) t = Some u" by (simp add: agent_step_def)
  with cap show ?thesis
    using may_enter_serves [OF reach(2) enter] by blast
qed

definition demo_lookup :: "agent \<times> (response + deployment \<times> nat \<times> nat)" where
  "demo_lookup = proxy_lookup demo_agent ''a'' ''completions'' ''POST''"

lemma forwarded_requests_enter_witness:
  "\<exists>u. agent_step (\<lambda>_. []) (Enter ''a'' 0 0) (fst demo_lookup) = Some u"
proof -
  have "agent_run (\<lambda>_. []) [] demo_agent = Some demo_agent" by simp
  note reach = run_reachable [OF demo_start this]
  have look: "proxy_lookup demo_agent ''a'' ''completions'' ''POST'' = (fst demo_lookup, Inr (bare_deployment, 0, 0))"
    by code_simp
  have "proxy_route (fst demo_lookup) ''a'' ''completions'' bare_deployment 0 0 [] True = Inr (Upstream (Some 4))"
    by code_simp
  from forwarded_requests_enter [OF reach look rtranclp.rtrancl_refl this] show ?thesis by blast
qed



section \<open>A created video can be asked after\<close>

lemma video_id_parts:
  assumes "hexes hmac_hex" "length name + length job \<le> 158"
  shows "video_path (''videos/'' @ video_id hmac_hex secret name job) = Some (video_id hmac_hex secret name job, False)"
    "video_path (''videos/'' @ video_id hmac_hex secret name job @ ''/content'') = Some (video_id hmac_hex secret name job, True)"
proof -
  obtain e where e: "video_id hmac_hex secret name job = ''video_'' @ e" "list_all job_char e"
      "length e = (4 * length (signed_text hmac_hex secret name job) + 2) div 3"
    using video_id_shape by blast
  have "length (signature hmac_hex secret name job) \<le> 32" by (simp add: signature_def)
  then have "2 \<le> length (signed_text hmac_hex secret name job)" "length (signed_text hmac_hex secret name job) \<le> 192"
    using assms(2) by (simp_all add: signed_text_def)
  then have len: "1 \<le> length e" "length e \<le> 256" using e(3) by simp_all
  have slash: "\<not> job_char (CHR ''/'')" by code_simp
  show "video_path (''videos/'' @ video_id hmac_hex secret name job) = Some (video_id hmac_hex secret name job, False)"
    using e(1,2) len by (simp add: video_path_def Let_def)
  have "\<not> list_all job_char (e @ ''/content'')" using slash by simp
  then show "video_path (''videos/'' @ video_id hmac_hex secret name job @ ''/content'') = Some (video_id hmac_hex secret name job, True)"
    using e(1,2) len slash by (simp add: video_path_def Let_def suffix_def)
qed

text \<open>
  C25. A created video can be asked after, fetched and cancelled: the id a create answers with, under a
  name and an engine's job of usual lengths, is one the proxy takes for a video of that deployment and
  leads back to the engine's job; asked for its status it reaches the engine's record of that job.
\<close>

theorem created_video_is_reachable:
  assumes "hexes hmac_hex" "is_ascii (d_served_model_name d)" "length (d_served_model_name d) + length job \<le> 158" "JOB job"
    and "job_request loads now body d = Inr (asked, told)" "engine ''POST'' ''/vid_gen'' (Some (JObj asked)) = Some r"
    and "rp_status r = 202" "rp_json r = Some started" "obj_item started ''id'' = Inr (JStr job)"
  shows "\<exists>i video. video_request hmac_hex py_str loads engine now secret d ''videos'' ''POST'' body = Inr (Answer 200 (JObj video)) \<and>
    dict_get video ''id'' = Some (JStr i) \<and>
    video_path (''videos/'' @ i) = Some (i, False) \<and> video_path (''videos/'' @ i @ ''/content'') = Some (i, True) \<and>
    job_of hmac_hex secret (d_served_model_name d) i = Inr job \<and>
    video_request hmac_hex py_str loads engine now secret d (''videos/'' @ i) ''GET'' [] =
      read_video hmac_hex py_str engine secret d job False"
proof -
  let ?i = "video_id hmac_hex secret (d_served_model_name d) job"
  have "is_obj started" using assms(9) by (cases started) (auto simp: obj_item_def)
  then obtain video where "create_video hmac_hex py_str loads engine now secret d body = Inr (Answer 200 (JObj video))"
      "dict_get video ''id'' = Some (JStr ?i)"
    using assms(5-9) by (simp add: create_video_def Let_def)
  then have "video_request hmac_hex py_str loads engine now secret d ''videos'' ''POST'' body = Inr (Answer 200 (JObj video))"
      "dict_get video ''id'' = Some (JStr ?i)"
    by (simp_all add: video_request_def)
  moreover have paths: "video_path (''videos/'' @ ?i) = Some (?i, False)" "video_path (''videos/'' @ ?i @ ''/content'') = Some (?i, True)"
    using video_id_parts [OF assms(1,3)] by blast+
  moreover have job: "job_of hmac_hex secret (d_served_model_name d) ?i = Inr job"
    using job_of_video_id assms(1,2,4) utf8_ascii by blast
  moreover have "video_request hmac_hex py_str loads engine now secret d (''videos/'' @ ?i) ''GET'' [] =
      read_video hmac_hex py_str engine secret d job False"
    using paths(1) job by (simp add: video_request_def video_id_def)
  ultimately show ?thesis by blast
qed

definition clip_engine :: "string \<Rightarrow> string \<Rightarrow> json option \<Rightarrow> reply option" where
  "clip_engine method path sent = Some \<lparr>rp_status = 202, rp_json = Some (JObj [(''id'', JStr ''5'')]), rp_text = []\<rparr>"

lemma created_video_is_reachable_witness:
  "\<exists>i video. video_request demo_hmac (\<lambda>_. []) (\<lambda>_. Some clip_body) clip_engine 7 ''s'' clip_recorded ''videos'' ''POST'' ''b'' =
     Inr (Answer 200 (JObj video)) \<and> dict_get video ''id'' = Some (JStr i) \<and>
     job_of demo_hmac ''s'' ''a'' i = Inr ''5''"
proof -
  have "is_ascii (d_served_model_name clip_recorded)" "length (d_served_model_name clip_recorded) + length ''5'' \<le> 158" "JOB ''5''"
    by code_simp+
  note * = created_video_is_reachable [OF demo_hexes this clip_job, of clip_engine
    "\<lparr>rp_status = 202, rp_json = Some (JObj [(''id'', JStr ''5'')]), rp_text = []\<rparr>" "JObj [(''id'', JStr ''5'')]"]
  have "d_served_model_name clip_recorded = ''a''" by code_simp
  then show ?thesis using * [of "\<lambda>_. []" "''s''"] by (simp add: clip_engine_def obj_item_def) blast
qed

end
