(* ===== verification/HostMemory.thy ===== *)
theory HostMemory
  imports Prelude
begin

text \<open>
  \<open>lazarus/agent/memory.py\<close>: what a process and all it started hold in memory, and of that the weights
  they map, each stretch of a file counted once. The host is an argument: its kind, the memory and the
  children it gives of a process, the regions a process maps. The cache of those regions is kept.
\<close>

datatype platform = Darwin | Linux | OtherPlatform

section \<open>The bytes a file's mappings cover\<close>

definition cover_step :: "int \<times> int \<Rightarrow> int \<times> int \<Rightarrow> int \<times> int" where
  "cover_step extent acc =
     (case (extent, acc) of ((first, last_byte), (covered, reached)) \<Rightarrow>
        let first = max first reached in
        if first < last_byte then (covered + (last_byte - first), last_byte) else (covered, reached))"

lemma cover_step_simp: "cover_step (f, l) (covered, reached) =
    (if max f reached < l then (covered + (l - max f reached), l) else (covered, reached))"
  by (simp add: cover_step_def Let_def)

definition extent_le :: "int \<times> int \<Rightarrow> int \<times> int \<Rightarrow> bool" where
  "extent_le a b \<longleftrightarrow> fst a < fst b \<or> fst a = fst b \<and> snd a \<le> snd b"

text \<open>\<open>sorted\<close> on pairs, by insertion: the order of equal ones does not show.\<close>

fun insert_extent :: "int \<times> int \<Rightarrow> (int \<times> int) list \<Rightarrow> (int \<times> int) list" where
  "insert_extent e [] = [e]"
| "insert_extent e (x # xs) = (if extent_le e x then e # x # xs else x # insert_extent e xs)"

definition sort_extents :: "(int \<times> int) list \<Rightarrow> (int \<times> int) list" where
  "sort_extents es = foldr insert_extent es []"

definition covered_bytes :: "(int \<times> int) list \<Rightarrow> int" where
  "covered_bytes extents = fst (fold cover_step (sort_extents extents) (0, 0))"

section \<open>The family of a process\<close>

partial_function (option) descend :: "(nat \<Rightarrow> nat list) \<Rightarrow> nat list \<Rightarrow> nat list \<Rightarrow> nat list option" where
  "descend children found pending =
     (if pending = [] then Some found
      else descend children (found @ children (last pending)) (butlast pending @ children (last pending)))"

declare descend.simps [code]

definition descendants :: "(nat \<Rightarrow> nat list) \<Rightarrow> nat \<Rightarrow> nat list option" where
  "descendants children pid = descend children [] [pid]"

section \<open>The host\<close>

text \<open>
  The line of \<open>/proc/<pid>/status\<close> that tells the resident set, in kilobytes; the kernel always writes a
  number after the name.
\<close>

definition words_of :: "string \<Rightarrow> string list" where
  "words_of s = filter (\<lambda>w. w \<noteq> []) (split_on (CHR '' '') (map (\<lambda>c. if c = CHR 0x09 then CHR '' '' else c) s))"

fun resident_of :: "string list \<Rightarrow> int option" where
  "resident_of [] = None"
| "resident_of (l # ls) =
     (if take 6 l = ''VmRSS:'' then (case words_of l of name # kb # rest \<Rightarrow> Some (int (parse_nat kb) * 1024) | _ \<Rightarrow> None) else resident_of ls)"

text \<open>
  A region: the file it maps, its offset and size there, and the file's size. \<open>hm_started\<close> tells when a
  process started, which its id alone does not.
\<close>

record region =
  rg_path :: string
  rg_offset :: int
  rg_bytes :: int
  rg_file_bytes :: int

record memory_host =
  hm_platform :: platform
  hm_own :: "nat \<Rightarrow> int option"
  hm_children :: "nat \<Rightarrow> nat list"
  hm_started :: "nat \<Rightarrow> int option"
  hm_regions :: "nat \<Rightarrow> region list"
  hm_now :: int

type_synonym extents = "(string, (int \<times> int) list) dict"

type_synonym mapped_cache = "(nat \<times> int \<times> string, int \<times> extents) dict"

definition UNMAPPED_RECHECK_SECONDS :: int where
  "UNMAPPED_RECHECK_SECONDS = 30"

definition add_extents :: "string \<Rightarrow> (int \<times> int) list \<Rightarrow> extents \<Rightarrow> extents" where
  "add_extents path es d = dict_set path ((case dict_get d path of None \<Rightarrow> [] | Some xs \<Rightarrow> xs) @ es) d"

definition add_region :: "string \<Rightarrow> region \<Rightarrow> extents \<Rightarrow> extents" where
  "add_region root_path g found =
     (if prefix root_path (rg_path g)
      then add_extents (rg_path g) [(rg_offset g, min (rg_offset g + rg_bytes g) (rg_file_bytes g))] found
      else found)"

definition weights_prefix :: "string \<Rightarrow> string" where
  "weights_prefix root_path = rev (dropWhile (\<lambda>c. c = CHR ''/'') (rev root_path)) @ ''/''"

definition mapped_weights :: "memory_host \<Rightarrow> nat \<Rightarrow> string \<Rightarrow> mapped_cache \<Rightarrow> extents \<times> mapped_cache" where
  "mapped_weights h pid root_path cache =
     (case hm_started h pid of
        None \<Rightarrow> ([], cache)
      | Some started \<Rightarrow>
          let process = (pid, started, weights_prefix root_path);
              found = fold (add_region (weights_prefix root_path)) (hm_regions h pid) [];
              walked = (found, dict_set process (hm_now h, found) (if 256 < length cache then [] else cache)) in
          (case dict_get cache process of
             Some (seen, kept) \<Rightarrow> if kept \<noteq> [] \<or> hm_now h - seen < UNMAPPED_RECHECK_SECONDS then (kept, cache) else walked
           | None \<Rightarrow> walked))"

fun family_extents :: "memory_host \<Rightarrow> string \<Rightarrow> nat list \<Rightarrow> extents \<times> mapped_cache \<Rightarrow> extents \<times> mapped_cache" where
  "family_extents h root_path [] acc = acc"
| "family_extents h root_path (p # ps) (mapped, cache) =
     (case mapped_weights h p root_path cache of
        (found, cache) \<Rightarrow> family_extents h root_path ps (fold (\<lambda>(path, es). add_extents path es) found mapped, cache))"

definition weights_of :: "extents \<Rightarrow> int" where
  "weights_of mapped = sum_list (map (covered_bytes \<circ> snd) mapped)"

text \<open>\<open>memory_held\<close>: \<open>None\<close> outside is a walk of the family that does not end, inside a host that cannot say.\<close>

definition memory_held :: "memory_host \<Rightarrow> nat \<Rightarrow> string option \<Rightarrow> mapped_cache \<Rightarrow> ((int \<times> int) option \<times> mapped_cache) option" where
  "memory_held h pid root_path cache =
     (case hm_own h pid of
        None \<Rightarrow> Some (None, cache)
      | Some own \<Rightarrow> (case descendants (hm_children h) pid of
          None \<Rightarrow> None
        | Some family \<Rightarrow>
            let held = own + sum_list (map (\<lambda>c. case hm_own h c of None \<Rightarrow> 0 | Some b \<Rightarrow> b) family) in
            (case root_path of
               Some r \<Rightarrow>
                 if hm_platform h = Darwin
                 then (case family_extents h r (pid # family) ([], cache) of
                     (mapped, cache) \<Rightarrow> Some (Some (held + weights_of mapped, weights_of mapped), cache))
                 else Some (Some (held, 0), cache)
             | None \<Rightarrow> Some (Some (held, 0), cache))))"

section \<open>A stretch mapped twice counts once\<close>

lemma set_insert_extent: "set (insert_extent e xs) = insert e (set xs)"
  by (induction xs) auto

lemma set_sort_extents: "set (sort_extents es) = set es"
  by (induction es) (auto simp: sort_extents_def set_insert_extent)

definition in_order :: "(int \<times> int) list \<Rightarrow> bool" where
  "in_order es \<longleftrightarrow> sorted (map fst es)"

lemma insert_in_order: "in_order xs \<Longrightarrow> in_order (insert_extent e xs)"
  by (induction xs) (auto simp: in_order_def extent_le_def set_insert_extent)

lemma sort_in_order: "in_order (sort_extents es)"
  by (induction es) (auto simp: sort_extents_def insert_in_order in_order_def [of "[]"])

definition bytes_of :: "(int \<times> int) list \<Rightarrow> int set" where
  "bytes_of es = (\<Union>(first, last_byte) \<in> set es. {first..<last_byte})"

lemma finite_bytes: "finite (bytes_of es)"
  by (auto simp: bytes_of_def)

text \<open>What the loop has covered is counted; what is left starts no earlier than the extents behind it.\<close>

lemma cover_counts:
  assumes "in_order es" "\<forall>(first, last_byte) \<in> set es. 0 \<le> first" "0 \<le> reached"
  shows "fst (fold cover_step es (covered, reached)) = covered + int (card (bytes_of es \<inter> {reached..}))"
  using assms
proof (induction es arbitrary: covered reached)
  case (Cons e es)
  obtain f l where e: "e = (f, l)" by fastforce
  have order: "in_order es" "\<forall>(first, last_byte) \<in> set es. 0 \<le> first" "\<forall>(first, last_byte) \<in> set es. f \<le> first"
    using Cons.prems by (auto simp: in_order_def e)
  let ?m = "max f reached"
  show ?case
  proof (cases "?m < l")
    case True
    have split: "bytes_of (e # es) \<inter> {reached..} = {?m..<l} \<union> (bytes_of es \<inter> {l..})"
    proof (rule set_eqI)
      fix x
      show "x \<in> bytes_of (e # es) \<inter> {reached..} \<longleftrightarrow> x \<in> {?m..<l} \<union> (bytes_of es \<inter> {l..})"
        using order(3) True Cons.prems(3) by (fastforce simp: bytes_of_def e)
    qed
    have "card (bytes_of (e # es) \<inter> {reached..}) = card {?m..<l} + card (bytes_of es \<inter> {l..})"
      unfolding split by (rule card_Un_disjoint) (auto simp: finite_bytes)
    moreover have "fst (fold cover_step es (covered + (l - ?m), l)) = covered + (l - ?m) + int (card (bytes_of es \<inter> {l..}))"
      using Cons.IH [OF order(1,2)] True Cons.prems(3) by simp
    ultimately show ?thesis using True by (simp add: e cover_step_simp)
  next
    case False
    then have "bytes_of (e # es) \<inter> {reached..} = bytes_of es \<inter> {reached..}"
      by (auto simp: bytes_of_def e)
    then show ?thesis using Cons.IH [OF order(1,2) Cons.prems(3)] False by (auto simp: e cover_step_simp)
  qed
qed (simp add: bytes_of_def)

text \<open>
  C31. The bytes counted of a file are exactly the bytes that some mapping of it covers, whatever the
  order of the mappings, however they overlap.
\<close>

theorem covered_bytes_exact:
  assumes "\<forall>(first, last_byte) \<in> set extents. 0 \<le> first"
  shows "covered_bytes extents = int (card (\<Union>(first, last_byte) \<in> set extents. {first..<last_byte}))"
proof -
  have "bytes_of (sort_extents extents) \<inter> {0..} = bytes_of extents"
    using assms by (force simp: bytes_of_def set_sort_extents)
  then show ?thesis
    using cover_counts [OF sort_in_order, of extents 0 0] assms by (simp add: covered_bytes_def set_sort_extents bytes_of_def)
qed

lemma covered_bytes_exact_witness:
  "covered_bytes [(4, 8), (0, 6), (5, 7)] = int (card (\<Union>(first, last_byte) \<in> set [(4, 8), (0, 6), (5, 7)]. {first..<last_byte::int})) \<and>
   covered_bytes [(4, 8), (0, 6), (5, 7)] = 8"
proof -
  have "covered_bytes [(4, 8), (0, 6), (5, 7)] = 8" by code_simp
  then show ?thesis using covered_bytes_exact [of "[(4, 8), (0, 6), (5, 7)]"] by simp
qed

section \<open>The walk of the family ends\<close>

definition child_of :: "(nat \<Rightarrow> nat list) \<Rightarrow> nat \<Rightarrow> nat \<Rightarrow> bool" where
  "child_of children p c \<longleftrightarrow> c \<in> set (children p)"

lemma descend_all:
  assumes "\<forall>p \<in> set ps. \<exists>d. (\<forall>found pending. descend ch found (pending @ [p]) = descend ch (found @ d) pending) \<and>
      set d = {c. (child_of ch)\<^sup>+\<^sup>+ p c}"
  shows "\<exists>d. (\<forall>found pending. descend ch found (pending @ ps) = descend ch (found @ d) pending) \<and>
      set d = {c. \<exists>p \<in> set ps. (child_of ch)\<^sup>+\<^sup>+ p c}"
  using assms
proof (induction ps rule: rev_induct)
  case (snoc p ps)
  obtain d where d: "\<forall>found pending. descend ch found (pending @ [p]) = descend ch (found @ d) pending" "set d = {c. (child_of ch)\<^sup>+\<^sup>+ p c}"
    using snoc.prems by auto
  obtain ds where ds: "\<forall>found pending. descend ch found (pending @ ps) = descend ch (found @ ds) pending"
    "set ds = {c. \<exists>p \<in> set ps. (child_of ch)\<^sup>+\<^sup>+ p c}"
    using snoc by auto
  have "descend ch found (pending @ ps @ [p]) = descend ch (found @ d @ ds) pending" for found pending
    using d(1) [rule_format, of found "pending @ ps"] ds(1) by simp
  then show ?case using d(2) ds(2) by (intro exI [of _ "d @ ds"]) auto
qed (intro exI [of _ "[]"], simp)

lemma descend_one:
  fixes depth :: "nat \<Rightarrow> nat"
  assumes "\<forall>p. \<forall>c \<in> set (ch p). depth c < depth p"
  shows "\<exists>d. (\<forall>found pending. descend ch found (pending @ [p]) = descend ch (found @ d) pending) \<and>
      set d = {c. (child_of ch)\<^sup>+\<^sup>+ p c}"
proof (induction "depth p" arbitrary: p rule: less_induct)
  case less
  have "\<forall>c \<in> set (ch p). \<exists>d. (\<forall>found pending. descend ch found (pending @ [c]) = descend ch (found @ d) pending) \<and>
      set d = {x. (child_of ch)\<^sup>+\<^sup>+ c x}"
    using less assms by blast
  from descend_all [OF this] obtain d where d: "\<forall>found pending. descend ch found (pending @ ch p) = descend ch (found @ d) pending"
    "set d = {x. \<exists>c \<in> set (ch p). (child_of ch)\<^sup>+\<^sup>+ c x}" by blast
  have "descend ch found (pending @ [p]) = descend ch (found @ ch p @ d) pending" for found pending
    using d(1) by (subst descend.simps) simp
  moreover have "set (ch p @ d) = {x. (child_of ch)\<^sup>+\<^sup>+ p x}"
    unfolding set_append d(2)
    by (auto simp: child_of_def intro: tranclp_into_tranclp2 dest: tranclpD)
      (metis child_of_def rtranclpD tranclpD)
  ultimately show ?case by (intro exI [of _ "ch p @ d"]) simp
qed

text \<open>
  The walk over a process's family ends, where no process descends from itself, and finds exactly the
  processes it started, and they started.
\<close>

theorem family_is_found:
  fixes depth :: "nat \<Rightarrow> nat"
  assumes "\<forall>p. \<forall>c \<in> set (children p). depth c < depth p"
  shows "\<exists>family. descendants children pid = Some family \<and> set family = {c. (child_of children)\<^sup>+\<^sup>+ pid c}"
proof -
  obtain d where d: "\<forall>found pending. descend children found (pending @ [pid]) = descend children (found @ d) pending"
    "set d = {c. (child_of children)\<^sup>+\<^sup>+ pid c}" using descend_one [OF assms] by blast
  have "descend children [] [pid] = descend children d []" using d(1) [rule_format, of "[]" "[]"] by simp
  also have "\<dots> = Some d" by (subst descend.simps) simp
  finally show ?thesis using d(2) by (simp add: descendants_def)
qed

definition demo_children :: "nat \<Rightarrow> nat list" where
  "demo_children p = (if p = 1 then [2, 3] else if p = 3 then [4] else [])"

lemma family_is_found_witness:
  "\<exists>family. descendants demo_children 1 = Some family \<and> set family = {c. (child_of demo_children)\<^sup>+\<^sup>+ 1 c}"
  by (rule family_is_found [of demo_children "\<lambda>p. 10 - p"]) (auto simp: demo_children_def)

end
