(* ===== verification/AgentServer.thy ===== *)
theory AgentServer
  imports AgentService PyRegex HostMemory LogLevel "HOL-Library.Char_ord" "HOL-Library.List_Lexorder"
begin

text \<open>
  \<open>lazarus/agent/server.py\<close> around the machine of \<open>AgentTransitions\<close>: the engines it finds installed, a
  child's health and its stop, the readiness watched after a start, the saved configuration, what is
  observed of all deployments, the agent's token and the web server's lifespan. What the host answers
  (a file's test, a process that ends in time, a reply) is an argument.
\<close>

section \<open>Installed engines\<close>

definition engine_entry :: "string \<Rightarrow> string \<Rightarrow> json" where
  "engine_entry name version =
     JObj [(''name'', JStr name), (''version'', JStr version), (''adapter'', JStr ''metal-host-agent''),
           (''variants'', JArr [JStr ''metal-arm64''])]"

definition removeprefix :: "string \<Rightarrow> string \<Rightarrow> string" where
  "removeprefix p s = (if prefix p s then drop (length p) s else s)"

definition removesuffix :: "string \<Rightarrow> string \<Rightarrow> string" where
  "removesuffix p s = (if p \<noteq> [] \<and> suffix p s then take (length s - length p) s else s)"

text \<open>\<open>records\<close>: the parts of what the glob finds beside the command; paths compare part by part.\<close>

definition slimserve_engine :: "(string \<Rightarrow> bool) \<Rightarrow> (string \<Rightarrow> string list list) \<Rightarrow> string \<Rightarrow> json option" where
  "slimserve_engine executable records command =
     (if command = [] \<or> \<not> executable command then None
      else let found = sort (records command);
               version = (if found = [] then ''unknown''
                 else removesuffix ''.dist-info'' (removeprefix ''vllm-'' (last (last found))))
           in Some (engine_entry ''slimserve'' version))"

definition mlx_engine :: "bool \<Rightarrow> string option \<Rightarrow> json option" where
  "mlx_engine importable version = (if \<not> importable then None else map_option (engine_entry ''mlx-lm'') version)"

definition embeddinggemma_engine :: "(string \<Rightarrow> bool) \<Rightarrow> (string \<Rightarrow> string option) \<Rightarrow> string \<Rightarrow> json option" where
  "embeddinggemma_engine executable text_at command =
     (if command = [] \<or> \<not> executable command then None
      else Some (engine_entry ''embeddinggemma.c''
        (case text_at (command @ ''.version'') of None \<Rightarrow> ''unknown'' | Some text \<Rightarrow> strip text)))"

text \<open>The expression \<open>llama-server --version\<close> is read with: its two forms keep groups 1, 2 and 3, 4.\<close>

definition build_number :: re where
  "build_number = Chars True is_digit 1 (Some 8)"

definition commit_name :: re where
  "commit_name = Chars True is_hex_lower 7 (Some 40)"

definition VERSION_LINE :: re where
  "VERSION_LINE = Seq [line_start, lit ''version: '',
     Alt [Seq [Keep 1 build_number, lit '' ('', Keep 2 commit_name, lit '')''],
          Seq [many1 (\<lambda>c. is_digit c \<or> c = CHR ''.''), Alt [Seq [lit ''-'', many1 is_lower], Seq []],
               lit '' (build '', Keep 3 build_number, lit '', commit '', Keep 4 commit_name, lit '')'']],
     Chars True (\<lambda>c. code c = 13) 0 (Some 1), line_stop]"

definition llama_version :: "string \<Rightarrow> string option" where
  "llama_version output =
     (case re_search VERSION_LINE None output of
        None \<Rightarrow> None
      | Some q \<Rightarrow> let group = (\<lambda>n m. if group_of n q \<noteq> [] then group_of n q else group_of m q)
          in Some (''b'' @ group 1 3 @ ''-'' @ group 2 4))"

definition path_name :: "string \<Rightarrow> string" where
  "path_name s = (if path_tail s = [] then [] else last (path_tail s))"

definition llama_binary :: "(string \<Rightarrow> string option) \<Rightarrow> string \<Rightarrow> string option" where
  "llama_binary which binary =
     (if binary = ''llama-server'' then which binary
      else if \<not> is_absolute binary \<or> path_name binary \<noteq> ''llama-server'' then None
      else Some binary)"

text \<open>What came of asking the binary: an \<open>OSError\<close> or a timeout, or what was read and the exit code.\<close>

datatype version_call = NoAnswer | Answered string int

definition discover_engines ::
    "json option \<Rightarrow> json option \<Rightarrow> json option \<Rightarrow> (string \<Rightarrow> string option) \<Rightarrow> (string \<Rightarrow> bool) \<Rightarrow> (string \<Rightarrow> version_call) \<Rightarrow>
     string \<Rightarrow> json list" where
  "discover_engines slimserve mlx embeddinggemma which runnable ask llama_server =
     List.map_filter id [slimserve, mlx, embeddinggemma] @
     (case llama_binary which llama_server of
        None \<Rightarrow> []
      | Some binary \<Rightarrow>
          if binary = [] \<or> \<not> runnable binary then []
          else case ask binary of
            NoAnswer \<Rightarrow> []
          | Answered output returncode \<Rightarrow>
              if 4096 < length output \<or> returncode \<noteq> 0 then []
              else case llama_version output of None \<Rightarrow> [] | Some v \<Rightarrow> [engine_entry ''llama.cpp'' v])"

lemma version_lines:
  "llama_version ''version: 9960 (a935fbffe)'' = Some ''b9960-a935fbffe''"
  "llama_version (''ready'' @ [newline] @ ''version: 0.6.0-dev (build 11459, commit f498f864f)'') = Some ''b11459-f498f864f''"
  "llama_version ''version: 9960 (a935)'' = None"
  by code_simp+

section \<open>A child\<close>

definition headers :: "string option \<Rightarrow> (string, string) dict" where
  "headers api_key = (case api_key of None \<Rightarrow> [] | Some k \<Rightarrow> if k = [] then [] else [(''Authorization'', ''Bearer '' @ k)])"

definition child_healthy :: "bool \<Rightarrow> reply option \<Rightarrow> bool" where
  "child_healthy running answer \<longleftrightarrow> running \<and> (case answer of None \<Rightarrow> False | Some r \<Rightarrow> rp_status r = 200)"

definition child_memory ::
    "bool \<Rightarrow> memory_host \<Rightarrow> nat \<Rightarrow> string option \<Rightarrow> mapped_cache \<Rightarrow> ((int \<times> int) option \<times> mapped_cache) option" where
  "child_memory running h pid weights_root cache =
     (if running then memory_held h pid weights_root cache else Some (None, cache))"

text \<open>Whether the child ends within ten seconds of \<open>terminate\<close>, and of \<open>kill\<close>.\<close>

record fate =
  ends_asked :: bool
  ends_killed :: bool

datatype signal = Terminate | Kill

text \<open>\<open>stop\<close>: the signals it sends and whether the child has ended; else \<open>TimeoutExpired\<close> is raised.\<close>

definition stop_child :: "bool \<Rightarrow> fate \<Rightarrow> signal list \<times> bool" where
  "stop_child running f =
     (if \<not> running then ([], True)
      else if ends_asked f then ([Terminate], True)
      else ([Terminate, Kill], ends_killed f))"

text \<open>\<open>Agent.stop\<close>: the children that end, and the first deployment whose stop raised, which it raises again.\<close>

fun stop_all :: "(nat \<Rightarrow> fate) \<Rightarrow> nat list \<Rightarrow> (string \<times> proc) list \<Rightarrow> string option \<Rightarrow> nat list \<times> string option" where
  "stop_all fates alive [] failed = ([], failed)"
| "stop_all fates alive ((name, pr) # procs) failed =
     (let gone = snd (stop_child (p_handle pr \<in> set alive) (fates (p_handle pr)));
          (stopped, first) = stop_all fates alive procs (if gone \<or> failed \<noteq> None then failed else Some name)
      in (if gone then p_handle pr # stopped else stopped, first))"

definition agent_stop :: "(nat \<Rightarrow> fate) \<Rightarrow> agent \<Rightarrow> nat list \<times> string option" where
  "agent_stop fates s = stop_all fates (a_alive s) (a_procs s) None"

section \<open>Readiness after the start\<close>

text \<open>Each round of \<open>wait_ready\<close> with its time and what it sees of a name; what is left never became healthy.\<close>

datatype sighting = NoChild | Healthy_now | Silent

fun wait_ready :: "rat \<Rightarrow> (rat \<times> (string \<Rightarrow> sighting)) list \<Rightarrow> string list \<Rightarrow> string list" where
  "wait_ready deadline [] pending = pending"
| "wait_ready deadline ((now, sees) # rounds) pending =
     (if pending = [] \<or> deadline \<le> now then pending
      else wait_ready deadline rounds (filter (\<lambda>name. sees name = Silent) pending))"

section \<open>The saved configuration\<close>

record saved =
  sv_target :: string
  sv_private :: bool
  sv_temporary :: "string option"

text \<open>Writing the temporary file (which may leave a part), its mode, and putting it in the target's place.\<close>

datatype save_outcome = WriteFails string | ChmodFails | ReplaceFails | Saves

definition save_config :: "bool \<Rightarrow> save_outcome \<Rightarrow> string \<Rightarrow> saved \<Rightarrow> py_error option \<times> saved" where
  "save_config has_path outcome text f =
     (if \<not> has_path then (Some (RuntimeError ''agent configuration path is unavailable''), f)
      else case outcome of
        WriteFails part \<Rightarrow> (Some (OSError ''write''), f\<lparr>sv_temporary := Some part\<rparr>)
      | ChmodFails \<Rightarrow> (Some (OSError ''chmod''), f\<lparr>sv_temporary := Some text\<rparr>)
      | ReplaceFails \<Rightarrow> (Some (OSError ''replace''), f\<lparr>sv_temporary := Some text\<rparr>)
      | Saves \<Rightarrow> (None, \<lparr>sv_target = text, sv_private = True, sv_temporary = None\<rparr>))"

section \<open>What is observed of the deployments\<close>

text \<open>One probe: no child, or its health within the limit (\<open>None\<close>: it took longer).\<close>

definition probe_health :: "agent \<Rightarrow> (string \<Rightarrow> bool option) \<Rightarrow> string \<Rightarrow> bool" where
  "probe_health s healthy did \<longleftrightarrow> dict_get (a_procs s) did \<noteq> None \<and> healthy did = Some True"

definition memory_of :: "agent \<Rightarrow> (string \<Rightarrow> (int \<times> int) option) \<Rightarrow> string \<Rightarrow> (int \<times> int) option" where
  "memory_of s held did = (if dict_get (a_procs s) did = None then None else held did)"

text \<open>
  \<open>observe_deployments\<close>: \<open>seen\<close> are the names and records it began with and \<open>s\<close> the agent once everything
  is gathered; \<open>same\<close> tells whether a name still leads to the same record object.
\<close>

definition observe_deployments ::
    "rat \<Rightarrow> rat \<Rightarrow> (string \<times> deployment) list \<Rightarrow> (string \<Rightarrow> bool) \<Rightarrow> (deployment \<Rightarrow> py_error + string) \<Rightarrow>
     (string \<Rightarrow> bool) \<Rightarrow> (string \<Rightarrow> (int \<times> int) option) \<Rightarrow> (string \<Rightarrow> (int \<times> int) option) \<Rightarrow> agent \<Rightarrow>
     (string, json) dict \<times> agent" where
  "observe_deployments now wall seen same model healthy memory load s =
     fold (\<lambda>(did, d) (result, s).
        if \<not> same did then (result, s)
        else let (status, s) = status_of now wall s did d (model d) (healthy did) (memory did) (load did)
             in (dict_set did (JObj status) result, s)) seen ([], s)"

definition agent_manifest :: "string \<Rightarrow> json list \<Rightarrow> (string, json) dict \<Rightarrow> json" where
  "agent_manifest version engines deployments =
     JObj [(''agent_version'', JStr version), (''backend'', JStr ''metal''),
           (''available_engines'', JArr engines), (''deployments'', JObj deployments)]"

definition list_deployments :: "(string, json) dict \<Rightarrow> json" where
  "list_deployments deployments = JObj [(''deployments'', JObj deployments)]"

text \<open>\<open>abandon_on_disconnect\<close>: each poll with whether the worker is done and whether the client is gone.\<close>

fun abandons :: "(bool \<times> bool) list \<Rightarrow> bool" where
  "abandons [] = False"
| "abandons ((finished, gone) # polls) = (\<not> finished \<and> (gone \<or> abandons polls))"

section \<open>The agent's token\<close>

definition authorization_of :: "(string \<times> string) list \<Rightarrow> string" where
  "authorization_of hs = fold (\<lambda>(name, v) found. if name = ''authorization'' then v else found) hs []"

definition bearer_auth :: "string \<Rightarrow> string \<Rightarrow> (string \<times> string) list \<Rightarrow> response \<Rightarrow> response" where
  "bearer_auth token scope hs app =
     (if scope \<noteq> ''http'' then app
      else if token = [] \<or> authorization_of hs \<noteq> ''Bearer '' @ token then error_answer 401 ''invalid agent token''
      else app)"

text \<open>\<open>Ordinary\<close> is an \<open>Exception\<close>, \<open>Interrupt\<close> any other \<open>BaseException\<close>: a cancellation, a signal.\<close>

datatype failure = Ordinary string | Interrupt string

text \<open>\<open>RelayedResponse\<close>: the admission is released whatever sending raises, also a disconnect before it began.\<close>

definition relayed_response :: "failure option \<Rightarrow> ('s \<Rightarrow> 's) \<Rightarrow> 's \<Rightarrow> failure option \<times> 's" where
  "relayed_response raised cleanup s = (raised, cleanup s)"

text \<open>\<open>main\<close>: its exit code when the configuration could be read, and whether it serves.\<close>

definition agent_main :: "string \<Rightarrow> int \<times> bool" where
  "agent_main token = (if token = [] then (1, False) else (0, True))"

section \<open>The lifespan\<close>

record lifespan_run =
  ls_restore :: "failure option"
  ls_start :: "failure option"
  ls_discover :: "failure option"
  ls_serve :: "failure option"
  ls_join :: "failure option"
  ls_watch :: "failure option"
  ls_stop :: "failure option"

datatype act = RestoreLevel | StartDeployments | DiscoverEngines | WatchReadiness | Serve
  | RefuseStarts | JoinTransitions | CancelWatch | StopChildren

text \<open>The statements in order, up to the first that raises: what was begun, and what was raised.\<close>

fun in_turn :: "(act \<times> failure option) list \<Rightarrow> act list \<times> failure option" where
  "in_turn [] = ([], None)"
| "in_turn ((a, None) # rest) = (let (done, e) = in_turn rest in (a # done, e))"
| "in_turn ((a, Some e) # rest) = ([a], Some e)"

definition lifespan :: "lifespan_run \<Rightarrow> act list \<times> failure option" where
  "lifespan r =
     (case ls_restore r of Some e \<Rightarrow> ([RestoreLevel], Some e)
      | None \<Rightarrow>
          let (began, lifespan_error) = in_turn [(StartDeployments, ls_start r), (DiscoverEngines, ls_discover r),
                (WatchReadiness, None), (Serve, ls_serve r)];
              watched = WatchReadiness \<in> set began;
              (joined, cut) = in_turn ([(RefuseStarts, None), (JoinTransitions, ls_join r)] @
                (if watched then [(CancelWatch, ls_watch r)] else []));
              cleanup = (case ls_stop r of Some e \<Rightarrow> Some e | None \<Rightarrow> cut)
          in (RestoreLevel # began @ joined @ [StopChildren],
              (case cleanup of
                 None \<Rightarrow> lifespan_error
               | Some (Ordinary e) \<Rightarrow> if lifespan_error = None then Some (Ordinary e) else lifespan_error
               | Some (Interrupt e) \<Rightarrow> Some (Interrupt e))))"

section \<open>The configuration read at the start\<close>

definition AGENT_FIELDS :: "string list" where
  "AGENT_FIELDS = [''listen'', ''port'', ''token_env'', ''llama_server'', ''sd_server'', ''whisper_server'', ''piper_server'',
     ''slimserve'', ''embeddinggemma_server'', ''deployments'', ''hardware_profile'']"

text \<open>
  \<open>load_agent_config\<close>: retired keys dropped, every other key a field, the types of the fields
  (\<open>read_fields\<close>, pydantic's) and the port's bounds.
\<close>

definition load_agent_config :: "((string, json) dict \<Rightarrow> py_error + agent_config) \<Rightarrow> json \<Rightarrow> py_error + agent_config" where
  "load_agent_config read_fields data =
     (case drop_retired_keys data of
        JObj kvs \<Rightarrow>
          if \<exists>key \<in> set (map fst kvs). key \<notin> set AGENT_FIELDS then Inl (ValueError ''extra inputs are not permitted'')
          else and_then (read_fields kvs) (\<lambda>c.
            guarded (run_checks
              [check (ac_port c < 1 \<or> 65535 < ac_port c) (ValueError ''port''),
               check (ac_hardware_profile c \<noteq> ''metal-arm64'') (ValueError ''hardware_profile'')]) (Inr c))
      | _ \<Rightarrow> Inl (ValueError ''a configuration is an object''))"

section \<open>The shutdown sweeps, and says what it could not stop\<close>

lemma save_config_atomic:
  "fst (save_config has_path outcome content f) \<noteq> None \<Longrightarrow>
   sv_target (snd (save_config has_path outcome content f)) = sv_target f"
  by (auto simp: save_config_def split: if_splits save_outcome.splits)

lemma authorization_given: "authorization_of hs = v \<Longrightarrow> v \<noteq> [] \<Longrightarrow> (''authorization'', v) \<in> set hs"
  by (induction hs arbitrary: v rule: rev_induct) (auto simp: authorization_of_def split: if_splits)

lemma only_the_token_is_served:
  "bearer_auth token ''http'' hs app \<noteq> error_answer 401 ''invalid agent token'' \<Longrightarrow>
   token \<noteq> [] \<and> (''authorization'', ''Bearer '' @ token) \<in> set hs \<and> bearer_auth token ''http'' hs app = app"
  using authorization_given [of hs] by (auto simp: bearer_auth_def split: if_splits)

lemma stop_child_gone: "snd (stop_child running f) \<longleftrightarrow> running \<longrightarrow> ends_asked f \<or> ends_killed f"
  by (simp add: stop_child_def)

definition may_stop :: "(nat \<Rightarrow> fate) \<Rightarrow> nat list \<Rightarrow> nat \<Rightarrow> bool" where
  "may_stop fates alive h \<longleftrightarrow> (h \<in> set alive \<longrightarrow> ends_asked (fates h) \<or> ends_killed (fates h))"

lemma stop_all_step:
  "stop_all fates alive ((name, pr) # procs) failed =
     (let (stopped, first) = stop_all fates alive procs
            (if may_stop fates alive (p_handle pr) \<or> failed \<noteq> None then failed else Some name)
      in (if may_stop fates alive (p_handle pr) then p_handle pr # stopped else stopped, first))"
  by (simp only: stop_all.simps stop_child_gone may_stop_def Let_def)

lemma stop_all_fst: "set (fst (stop_all fates alive procs failed)) = {h \<in> p_handle ` snd ` set procs. may_stop fates alive h}"
proof (induction procs arbitrary: failed)
  case (Cons p procs)
  then show ?case by (cases p) (auto simp: stop_all_step case_prod_beta simp del: stop_all.simps)
qed simp

lemma stop_all_snd:
  "snd (stop_all fates alive procs failed) = None \<longleftrightarrow>
     failed = None \<and> (\<forall>h \<in> p_handle ` snd ` set procs. may_stop fates alive h)"
proof (induction procs arbitrary: failed)
  case (Cons p procs)
  then show ?case by (cases p) (auto simp: stop_all_step case_prod_beta simp del: stop_all.simps)
qed simp

text \<open>
  C18. The final sweep stops every child that a signal ends, whatever the other stops raise, and raises
  an error exactly when a child outlives it: with the transitions joined, \<open>Agent.stop\<close> is a \<open>Sweep\<close> of the
  machine after which only children that neither signal ends still run.
\<close>

theorem sweep_stops_all_it_can:
  assumes "agent_reachable sha256 s" "a_stopping s" "a_work s = []"
  shows "\<exists>t. agent_step sha256 (Sweep (fst (agent_stop fates s))) s = Some t \<and>
    set (a_alive t) = {h \<in> set (a_alive s). \<not> ends_asked (fates h) \<and> \<not> ends_killed (fates h)} \<and>
    (snd (agent_stop fates s) = None \<longleftrightarrow> a_alive t = [])"
proof -
  let ?stopped = "fst (agent_stop fates s)"
  define t where "t = s\<lparr>a_swept := True, a_alive := filter (\<lambda>h. h \<notin> set ?stopped) (a_alive s)\<rparr>"
  have kids: "children_ok s" using reachable_agent_inv [OF assms(1)] by (simp add: agent_inv_def)
  have registered: "h \<in> p_handle ` snd ` set (a_procs s)" if "h \<in> set (a_alive s)" for h
  proof -
    obtain i pr where "dict_get (a_procs s) i = Some pr" "p_handle pr = h"
      using kids \<open>h \<in> set (a_alive s)\<close> unfolding children_ok_def by blast
    then show ?thesis by (force dest: map_of_SomeD)
  qed
  have "set ?stopped \<subseteq> (p_handle \<circ> snd) ` set (a_procs s)"
    unfolding agent_stop_def stop_all_fst by auto
  then have step: "agent_step sha256 (Sweep ?stopped) s = Some t" using assms(2,3) by (simp add: agent_step_def t_def)
  have alive: "set (a_alive t) = {h \<in> set (a_alive s). \<not> ends_asked (fates h) \<and> \<not> ends_killed (fates h)}"
    using registered unfolding agent_stop_def stop_all_fst t_def by (auto simp: may_stop_def)
  have raised: "snd (agent_stop fates s) = None \<longleftrightarrow> a_alive t = []"
    unfolding set_empty [of "a_alive t", symmetric] alive unfolding agent_stop_def stop_all_snd may_stop_def using registered by blast
  show ?thesis by (rule exI [of _ t]) (intro conjI step alive raised)
qed

definition stubborn :: "nat \<Rightarrow> fate" where
  "stubborn h = \<lparr>ends_asked = False, ends_killed = False\<rparr>"

lemma sweep_stops_all_it_can_witness:
  "\<exists>t. agent_step (\<lambda>_. []) (Sweep (fst (agent_stop stubborn demo_stopping))) demo_stopping = Some t \<and>
    set (a_alive t) = {0} \<and> snd (agent_stop stubborn demo_stopping) = Some ''a''"
proof -
  have "agent_run (\<lambda>_. []) [Shutdown] demo_agent = Some demo_stopping"
    by (simp add: agent_step_def demo_stopping_def)
  then have r: "agent_reachable (\<lambda>_. []) demo_stopping" by (rule run_reachable [OF demo_start])
  have c: "a_stopping demo_stopping" "a_work demo_stopping = []" "a_alive demo_stopping = [0]"
    "snd (agent_stop stubborn demo_stopping) = Some ''a''" by code_simp+
  have "{h \<in> set (a_alive demo_stopping). \<not> ends_asked (stubborn h) \<and> \<not> ends_killed (stubborn h)} = {0}"
    using c(3) by (auto simp: stubborn_def)
  then show ?thesis using sweep_stops_all_it_can [OF r c(1,2), of stubborn] c(4) by auto
qed

text \<open>Once the level is restored, the lifespan ends with the sweep, whatever was raised before it.\<close>

lemma in_turn_begins: "\<exists>later. fst (in_turn ((a, e) # rest)) = a # later"
  by (cases e) (simp_all add: case_prod_beta)

lemma lifespan_sweeps:
  assumes "ls_restore r = None"
  shows "\<exists>before joined. fst (lifespan r) = before @ RefuseStarts # JoinTransitions # joined @ [StopChildren]"
proof -
  let ?began = "in_turn [(StartDeployments, ls_start r), (DiscoverEngines, ls_discover r), (WatchReadiness, None), (Serve, ls_serve r)]"
  let ?joins = "(JoinTransitions, ls_join r) # (if WatchReadiness \<in> set (fst ?began) then [(CancelWatch, ls_watch r)] else [])"
  obtain joined where j: "fst (in_turn ?joins) = JoinTransitions # joined" using in_turn_begins by blast
  have "fst (lifespan r) = (RestoreLevel # fst ?began) @ RefuseStarts # fst (in_turn ?joins) @ [StopChildren]"
    using assms by (simp add: lifespan_def Let_def case_prod_beta)
  then show ?thesis unfolding j by (metis append_Cons)
qed

end
