(* ===== verification/RuntimeConfig.thy ===== *)
theory RuntimeConfig
  imports PosixPath Json
begin

text \<open>
  \<open>lazarus/appliance/config.py\<close>: the models \<open>runtime.yaml\<close> is validated by, in the order pydantic runs
  them, and \<open>load_config\<close>'s own checks. A record holds the values of the fields once their types are
  right (a model's \<open>Literal\<close> fields are datatypes or texts checked here); \<open>model_fields_set\<close> is the
  list of the names given. YAML is the argument \<open>read_yaml\<close>, the environment a dictionary.
\<close>

section \<open>SlimServe's sealed configuration\<close>

definition dotted :: "char \<Rightarrow> bool" where
  "dotted c \<longleftrightarrow> is_alnum c \<or> c \<in> {CHR ''.'', CHR ''_'', CHR ''-''}"

text \<open>\<open>[A-Za-z0-9][A-Za-z0-9._-]*\<close>, matched in full.\<close>

definition member_part :: "string \<Rightarrow> bool" where
  "member_part w = (case w of [] \<Rightarrow> False | c # cs \<Rightarrow> is_alnum c \<and> list_all dotted cs)"

definition lower_hex :: "nat \<Rightarrow> string \<Rightarrow> bool" where
  "lower_hex n s \<longleftrightarrow> length s = n \<and> list_all is_hex_lower s"

record slim_member =
  sf_file :: string
  sf_size_bytes :: int
  sf_sha256 :: string

definition bounded_member :: "string \<Rightarrow> py_error option" where
  "bounded_member v = run_checks [
     check (\<exists>w \<in> set (split_on slash v). \<not> member_part w)
       (ValueError ''artifact member must not contain traversal or hidden components''),
     check (4 < length (split_on slash v)) (ValueError ''artifact member is too deeply nested'')]"

definition slim_member_ok :: "slim_member \<Rightarrow> bool" where
  "slim_member_ok f \<longleftrightarrow>
     1 \<le> length (sf_file f) \<and> length (sf_file f) \<le> 192 \<and>
     (case sf_file f of c # cs \<Rightarrow> is_alnum c \<and> list_all (\<lambda>c. dotted c \<or> c = slash) cs | [] \<Rightarrow> False) \<and>
     0 < sf_size_bytes f \<and> sf_size_bytes f \<le> 1024 ^ 4 \<and> lower_hex 64 (sf_sha256 f) \<and>
     bounded_member (sf_file f) = None"

datatype artifact_role = ModelRole | DrafterRole | TokenizerRole

record slim_artifact =
  sa_role :: artifact_role
  sa_repository :: string
  sa_revision :: string
  sa_files :: "slim_member list"

definition repository_match :: "string \<Rightarrow> bool" where
  "repository_match s = (case split_on slash s of [a, b] \<Rightarrow> member_part a \<and> member_part b | _ \<Rightarrow> False)"

definition unique_members :: "slim_artifact \<Rightarrow> py_error option" where
  "unique_members a = check (\<not> distinct (map sf_file (sa_files a))) (ValueError ''artifact members must be unique'')"

definition slim_artifact_ok :: "slim_artifact \<Rightarrow> bool" where
  "slim_artifact_ok a \<longleftrightarrow>
     length (sa_repository a) \<le> 128 \<and> repository_match (sa_repository a) \<and> lower_hex 40 (sa_revision a) \<and>
     1 \<le> length (sa_files a) \<and> length (sa_files a) \<le> 256 \<and> list_all slim_member_ok (sa_files a) \<and>
     unique_members a = None"

definition SLIMSERVE_COMMIT :: string where
  "SLIMSERVE_COMMIT = ''44a7d1a21851c7164c098c93fbc1baa12ab99847''"

datatype slim_variant = A100 | Rtx3090 | Metal

record slim_config =
  sc_source_commit :: string
  sc_profile_id :: string
  sc_variant :: slim_variant
  sc_quant :: string
  sc_artifacts :: "slim_artifact list"

definition closure_bytes :: "slim_config \<Rightarrow> int" where
  "closure_bytes s = sum_list (map sf_size_bytes (concat (map sa_files (sc_artifacts s))))"

definition unique_roles :: "slim_config \<Rightarrow> py_error option" where
  "unique_roles s = run_checks [
     check (\<not> distinct (map sa_role (sc_artifacts s)) \<or> ModelRole \<notin> set (map sa_role (sc_artifacts s)))
       (ValueError ''SlimServe requires one model closure and unique artifact roles''),
     check (2 * 1024 ^ 4 < closure_bytes s) (ValueError ''SlimServe artifact closure exceeds 2 TiB'')]"

definition slim_config_ok :: "slim_config \<Rightarrow> bool" where
  "slim_config_ok s \<longleftrightarrow>
     sc_source_commit s = SLIMSERVE_COMMIT \<and>
     slug_match (\<lambda>c. is_lower c \<or> is_digit c) (\<lambda>c. is_lower c \<or> is_digit c \<or> c \<in> {CHR ''_'', CHR ''-''}) 0 127 (sc_profile_id s) \<and>
     slug_match is_alnum dotted 0 63 (sc_quant s) \<and>
     1 \<le> length (sc_artifacts s) \<and> length (sc_artifacts s) \<le> 3 \<and> list_all slim_artifact_ok (sc_artifacts s) \<and>
     unique_roles s = None"

section \<open>Roles\<close>

datatype role_engine = Vllm | SlimServeEngine

record role_config =
  rl_enabled :: bool
  rl_engine :: role_engine
  rl_engine_profile_id :: "string option"
  rl_slimserve :: "slim_config option"
  rl_task :: "string option"
  rl_source :: "string option"
  rl_model :: "string option"
  rl_revision :: "string option"
  rl_served_model_name :: "string option"
  rl_max_model_len :: "int option"
  rl_priority :: string
  rl_memory_weight :: int
  rl_max_concurrent_requests :: int
  rl_pooling :: "string option"
  rl_normalization :: "string option"
  rl_throttle :: "int option"
  rl_enforce_eager :: bool
  rl_devices :: "string list"
  rl_tensor_parallel_size :: int
  rl_tool_call_parser :: "string option"
  rl_reasoning_parser :: "string option"
  rl_fields_set :: "string list"

definition opt_ok :: "('a \<Rightarrow> bool) \<Rightarrow> 'a option \<Rightarrow> bool" where
  "opt_ok p x = (case x of None \<Rightarrow> True | Some a \<Rightarrow> p a)"

definition role_fields_ok :: "role_config \<Rightarrow> bool" where
  "role_fields_ok r \<longleftrightarrow>
     opt_ok (slug_match is_alnum dotted 0 127) (rl_engine_profile_id r) \<and> opt_ok slim_config_ok (rl_slimserve r) \<and>
     opt_ok (\<lambda>t. t \<in> {''generate'', ''embed'', ''rerank''}) (rl_task r) \<and>
     opt_ok (\<lambda>t. t \<in> {''huggingface'', ''modelscope'', ''local''}) (rl_source r) \<and>
     opt_ok (\<lambda>n. 1 \<le> n) (rl_max_model_len r) \<and> rl_priority r \<in> {''high'', ''normal'', ''low''} \<and>
     1 \<le> rl_memory_weight r \<and> rl_memory_weight r \<le> 100 \<and> 1 \<le> rl_max_concurrent_requests r \<and>
     opt_ok (\<lambda>t. t \<in> {''last'', ''mean'', ''cls''}) (rl_pooling r) \<and> opt_ok (\<lambda>t. t \<in> {''l2'', ''none''}) (rl_normalization r) \<and>
     opt_ok (\<lambda>n. 0 \<le> n) (rl_throttle r) \<and>
     (''accelerator_device_ids'' \<in> set (rl_fields_set r) \<longrightarrow> 1 \<le> length (rl_devices r) \<and> length (rl_devices r) \<le> 4) \<and>
     (''accelerator_device_ids'' \<notin> set (rl_fields_set r) \<longrightarrow> rl_devices r = []) \<and>
     1 \<le> rl_tensor_parallel_size r \<and> rl_tensor_parallel_size r \<le> 4 \<and>
     (''tensor_parallel_size'' \<notin> set (rl_fields_set r) \<longrightarrow> rl_tensor_parallel_size r = 1)"

definition blank_text :: "string option \<Rightarrow> bool" where
  "blank_text t \<longleftrightarrow> t = None \<or> t = Some []"

definition served_name_match :: "string \<Rightarrow> bool" where
  "served_name_match = slug_match is_alnum dotted 0 127"

definition engine_contract :: "role_config \<Rightarrow> py_error option" where
  "engine_contract r =
     (if rl_engine r = SlimServeEngine then run_checks [
        check (rl_slimserve r = None \<or> blank_text (rl_engine_profile_id r))
          (ValueError ''SlimServe requires engine_profile_id and its sealed configuration''),
        check (rl_source r \<noteq> Some ''local'' \<or> blank_text (rl_model r) \<or> \<not> opt_ok is_absolute (rl_model r))
          (ValueError ''SlimServe requires a prepared local model directory''),
        check (blank_text (rl_revision r) \<or> \<not> opt_ok (lower_hex 40) (rl_revision r))
          (ValueError ''SlimServe requires an immutable model revision''),
        check (rl_max_model_len r = None \<or> \<not> opt_ok (\<lambda>n. n \<le> 1048576) (rl_max_model_len r))
          (ValueError ''SlimServe requires bounded context at most 1048576''),
        check (256 < rl_max_concurrent_requests r) (ValueError ''SlimServe concurrency must not exceed 256''),
        check (blank_text (rl_served_model_name r) \<or> \<not> opt_ok served_name_match (rl_served_model_name r))
          (ValueError ''SlimServe requires a bounded serving alias'')]
      else check (rl_slimserve r \<noteq> None) (ValueError ''SlimServe configuration requires engine slimserve''))"

definition missing_load_fields :: "role_config \<Rightarrow> string list" where
  "missing_load_fields r =
     (if \<not> rl_enabled r then []
      else map fst (filter (\<lambda>(n, v). blank_text v)
        [(''source'', rl_source r), (''model'', rl_model r), (''served_model_name'', rl_served_model_name r)]))"

section \<open>The whole configuration\<close>

record runtime_section =
  rs_listen_address :: string
  rs_port :: int
  rs_api_key_env :: "string option"
  rs_profile :: string
  rs_runtime_instance_id :: "string option"
  rs_deployment_id :: "string option"

definition uuid_match :: "string \<Rightarrow> bool" where
  "uuid_match s = (case split_on (CHR ''-'') s of
     [a, b, c, d, e] \<Rightarrow> lower_hex 8 a \<and> lower_hex 4 b \<and> lower_hex 4 c \<and> lower_hex 4 d \<and> lower_hex 12 e | _ \<Rightarrow> False)"

definition gpu_uuid :: "string \<Rightarrow> bool" where
  "gpu_uuid s \<longleftrightarrow> take 4 s = ''GPU-'' \<and> uuid_match (drop 4 s)"

definition managed_instance_identity :: "runtime_section \<Rightarrow> py_error option" where
  "managed_instance_identity s = run_checks [
     check ((rs_runtime_instance_id s = None) \<noteq> (rs_deployment_id s = None))
       (ValueError ''runtime_instance_id and deployment_id must be configured together''),
     check (rs_runtime_instance_id s \<noteq> None \<and> rs_runtime_instance_id s = rs_deployment_id s)
       (ValueError ''runtime_instance_id and deployment_id must be distinct'')]"

definition runtime_section_ok :: "runtime_section \<Rightarrow> bool" where
  "runtime_section_ok s \<longleftrightarrow> 1 \<le> rs_port s \<and> rs_port s \<le> 65535 \<and> opt_ok uuid_match (rs_runtime_instance_id s) \<and>
     opt_ok uuid_match (rs_deployment_id s) \<and> managed_instance_identity s = None"

record startup_section =
  ss_smoke_test_on_start :: bool
  ss_remain_alive_on_configuration_error :: bool
  ss_fail_process_on_generation_error :: bool
  ss_fail_process_on_embedding_error :: bool

record observability_section =
  os_prometheus :: bool
  os_structured_logs :: bool
  os_otlp_endpoint :: "string option"

record privacy_section =
  ps_prompt_logging :: bool
  ps_response_logging :: bool
  ps_full_trace :: bool

record roles_section =
  ro_generation :: role_config
  ro_embedding :: "role_config option"
  ro_vision :: "role_config option"
  ro_audio :: "role_config option"
  ro_rerank :: "role_config option"

definition role_items :: "roles_section \<Rightarrow> (string \<times> role_config) list" where
  "role_items s = (''generation'', ro_generation s) #
     concat (map (\<lambda>(n, r). case r of None \<Rightarrow> [] | Some r \<Rightarrow> [(n, r)])
       [(''embedding'', ro_embedding s), (''vision'', ro_vision s), (''audio'', ro_audio s), (''rerank'', ro_rerank s)])"

record runtime_config =
  rt_schema_version :: string
  rt_runtime :: runtime_section
  rt_startup :: startup_section
  rt_roles :: roles_section
  rt_observability :: observability_section
  rt_privacy :: privacy_section

text \<open>\<open>api_key\<close>: the variable's value, where it is named, set and not empty.\<close>

definition api_key :: "(string \<Rightarrow> string option) \<Rightarrow> runtime_config \<Rightarrow> string option" where
  "api_key environ c = (case rs_api_key_env (rt_runtime c) of
     None \<Rightarrow> None
   | Some v \<Rightarrow> if v = [] then None else if blank_text (environ v) then None else environ v)"

definition enabled_roles :: "runtime_config \<Rightarrow> (string \<times> role_config) list" where
  "enabled_roles c = filter (\<lambda>(n, r). rl_enabled r) (role_items (rt_roles c))"

definition chooses_engine :: "role_config \<Rightarrow> bool" where
  "chooses_engine r \<longleftrightarrow> set (rl_fields_set r) \<inter> {''engine'', ''engine_profile_id'', ''slimserve''} \<noteq> {}"

definition placed_explicitly :: "role_config \<Rightarrow> bool" where
  "placed_explicitly r \<longleftrightarrow> {''accelerator_device_ids'', ''tensor_parallel_size''} \<subseteq> set (rl_fields_set r)"

definition cuda_placement :: "runtime_config \<Rightarrow> role_config \<Rightarrow> py_error option" where
  "cuda_placement c g =
     (if rs_profile (rt_runtime c) \<noteq> ''cuda-x86_64'' \<or> rl_devices g = []
      then Some (ValueError ''CUDA SlimServe requires explicit managed CUDA placement'')
      else if rl_tensor_parallel_size g \<notin> {1, 2, 4} \<or> int (length (rl_devices g)) \<noteq> rl_tensor_parallel_size g
      then Some (ValueError ''SlimServe device count must equal managed tensor parallelism'')
      else if \<not> placed_explicitly g then Some (ValueError ''SlimServe managed placement fields must be explicit together'')
      else check (int (card (set (rl_devices g))) \<noteq> rl_tensor_parallel_size g \<or> (\<exists>v \<in> set (rl_devices g). \<not> gpu_uuid v))
        (ValueError ''SlimServe requires unique canonical NVIDIA UUIDs''))"

definition slimserve_placement :: "runtime_config \<Rightarrow> py_error option" where
  "slimserve_placement c =
     (let g = ro_generation (rt_roles c); others = filter (\<lambda>(n, r). n \<noteq> ''generation'') (role_items (rt_roles c)) in
      if (rt_schema_version c = ''1.3'') \<noteq> (rs_runtime_instance_id (rt_runtime c) \<noteq> None)
      then Some (ValueError ''managed runtime identity requires config schema 1.3'')
      else if \<exists>(n, r) \<in> set others. chooses_engine r then Some (ValueError ''engine selection is generation-only'')
      else if rl_engine g \<noteq> SlimServeEngine then None
      else if \<exists>(n, r) \<in> set others. rl_enabled r
      then Some (ValueError ''SlimServe uses the independent product embedding service'')
      else if \<not> rl_enabled g then Some (ValueError ''SlimServe generation must be enabled'')
      else case rl_slimserve g of
        None \<Rightarrow> Some (TypeError ''no sealed configuration'')
      | Some s \<Rightarrow>
          if sc_variant s = Metal
          then check (rs_profile (rt_runtime c) \<noteq> ''metal-arm64'' \<or> rl_tensor_parallel_size g \<noteq> 1 \<or> rl_devices g \<noteq> [])
            (ValueError ''Metal SlimServe requires native Metal and exactly one device'')
          else cuda_placement c g)"

text \<open>\<open>RuntimeConfig.model_validate\<close>: the parts before the whole.\<close>

definition validate_config :: "runtime_config \<Rightarrow> py_error option" where
  "validate_config c =
     run_checks (check (rt_schema_version c \<notin> {''1.2'', ''1.3''} \<or> \<not> runtime_section_ok (rt_runtime c) \<or>
         (\<exists>(n, r) \<in> set (role_items (rt_roles c)). \<not> role_fields_ok r)) (ValueError ''validation error'') #
       map (\<lambda>(n, r). engine_contract r) (role_items (rt_roles c)) @ [slimserve_placement c])"

definition alias_to_role :: "runtime_config \<Rightarrow> (string, string) dict" where
  "alias_to_role c = fold (\<lambda>(n, r) d. case rl_served_model_name r of
     None \<Rightarrow> d | Some a \<Rightarrow> if a = [] then d else dict_set a n d) (enabled_roles c) []"

section \<open>Loading\<close>

definition role_problems :: "string \<times> role_config \<Rightarrow> string list" where
  "role_problems nr = (case nr of (n, r) \<Rightarrow>
     (if rl_enabled r
      then map (\<lambda>f. ''roles.'' @ n @ ''.'' @ f @ '' is required when the role is enabled'') (missing_load_fields r) else []) @
     (if n \<noteq> ''generation'' \<and> set (rl_fields_set r) \<inter> {''accelerator_device_ids'', ''tensor_parallel_size''} \<noteq> {}
      then [''roles.'' @ n @ '' cannot define generation accelerator placement''] else []))"

definition placement_problems :: "runtime_config \<Rightarrow> string list" where
  "placement_problems c =
     (let g = ro_generation (rt_roles c);
          has_devices = ''accelerator_device_ids'' \<in> set (rl_fields_set g);
          has_tensor_size = ''tensor_parallel_size'' \<in> set (rl_fields_set g) in
      (if has_devices \<noteq> has_tensor_size
       then [''roles.generation accelerator_device_ids and tensor_parallel_size must be defined together''] else []) @
      (if (has_devices \<or> has_tensor_size) \<and> rs_profile (rt_runtime c) \<notin> {''cuda-x86_64'', ''cuda-arm64-dgx-spark''}
       then [''roles.generation accelerator placement requires a CUDA runtime profile''] else []) @
      (if rl_tensor_parallel_size g \<notin> {1, 2, 4} then [''roles.generation tensor_parallel_size must be one of 1, 2, or 4''] else []) @
      (if rl_devices g = [] then [] else
        (if int (length (rl_devices g)) \<noteq> rl_tensor_parallel_size g
         then [''roles.generation accelerator_device_ids must match tensor_parallel_size''] else []) @
        (if \<not> distinct (rl_devices g) then [''roles.generation accelerator_device_ids must be unique''] else []) @
        (if \<exists>v \<in> set (rl_devices g). \<not> gpu_uuid v
         then [''roles.generation accelerator_device_ids must contain canonical NVIDIA GPU UUIDs''] else [])))"

datatype yaml_read = NoFile | NotYaml string | NotMapping | Mapping runtime_config

definition load_config :: "(string \<Rightarrow> yaml_read) \<Rightarrow> string \<Rightarrow> string + runtime_config" where
  "load_config read_yaml path =
     (case read_yaml path of
        NoFile \<Rightarrow> Inl (''runtime config not found: '' @ path)
      | NotYaml e \<Rightarrow> Inl (''runtime config is not valid YAML: '' @ e)
      | NotMapping \<Rightarrow> Inl ''runtime config must be a YAML mapping''
      | Mapping c \<Rightarrow>
          (case validate_config c of
             Some e \<Rightarrow> Inl ''runtime config invalid''
           | None \<Rightarrow>
               let problems = concat (map role_problems (role_items (rt_roles c))) @ placement_problems c in
               if problems \<noteq> [] then Inl (''runtime config invalid: '' @ join_with ''; '' problems) else Inr c))"

section \<open>What an accepted configuration promises\<close>

lemma role_items_generation: "(''generation'', ro_generation s) \<in> set (role_items s)"
  by (simp add: role_items_def)

lemma role_items_others: "(n, r) \<in> set (role_items s) \<Longrightarrow> n \<noteq> ''generation'' \<or> r = ro_generation s"
  by (auto simp: role_items_def split: option.splits)

lemma role_items_tl: "(n, r) \<in> set (tl (role_items s)) \<Longrightarrow> n \<noteq> ''generation'' \<and> (n, r) \<in> set (role_items s)"
  by (auto simp: role_items_def split: option.splits)

lemma load_accepts:
  assumes "load_config read_yaml path = Inr c"
  shows "slimserve_placement c = None" "placement_problems c = []"
    "(n, r) \<in> set (role_items (rt_roles c)) \<Longrightarrow> role_fields_ok r \<and> engine_contract r = None \<and> role_problems (n, r) = []"
    "runtime_section_ok (rt_runtime c)"
proof -
  have v: "validate_config c = None" and p: "concat (map role_problems (role_items (rt_roles c))) = []" "placement_problems c = []"
    using assms by (auto simp: load_config_def Let_def split: yaml_read.splits option.splits if_splits)
  show "slimserve_placement c = None" "runtime_section_ok (rt_runtime c)"
    using v by (simp_all add: validate_config_def run_checks_None check_None)
  show "placement_problems c = []" by (rule p(2))
  show "role_fields_ok r \<and> engine_contract r = None \<and> role_problems (n, r) = []" if "(n, r) \<in> set (role_items (rt_roles c))"
    using that v p(1) by (auto simp: validate_config_def run_checks_None check_None)
qed

definition placed :: "runtime_config \<Rightarrow> bool" where
  "placed c \<longleftrightarrow> (let g = ro_generation (rt_roles c) in
     rl_tensor_parallel_size g \<in> {1, 2, 4} \<and>
     (rl_devices g \<noteq> [] \<longrightarrow> int (length (rl_devices g)) = rl_tensor_parallel_size g \<and> distinct (rl_devices g) \<and>
        list_all gpu_uuid (rl_devices g) \<and> rs_profile (rt_runtime c) \<in> {''cuda-x86_64'', ''cuda-arm64-dgx-spark''}))"

lemma accepted_placed:
  assumes "load_config read_yaml path = Inr c"
  shows "placed c"
proof -
  let ?g = "ro_generation (rt_roles c)"
  have p: "placement_problems c = []" by (rule load_accepts(2) [OF assms])
  have "role_fields_ok ?g" using load_accepts(3) [OF assms role_items_generation] by blast
  then have "rl_devices ?g \<noteq> [] \<longrightarrow> ''accelerator_device_ids'' \<in> set (rl_fields_set ?g)"
    by (auto simp: role_fields_ok_def)
  then show ?thesis
    using p unfolding placed_def Let_def placement_problems_def
    by (auto simp: list_all_iff split: if_splits)
qed

text \<open>
  C32. A configuration the appliance accepts places its generation model: the devices named are as many
  as the tensor parallel size, canonical, distinct and on a CUDA profile; a SlimServe model runs alone,
  from its sealed closure, on exactly one Metal device or on explicitly placed CUDA devices.
\<close>

theorem accepted_config_is_placed:
  assumes "load_config read_yaml path = Inr c"
  shows "placed c \<and> (rl_engine (ro_generation (rt_roles c)) = SlimServeEngine \<longrightarrow>
    (\<exists>s. rl_slimserve (ro_generation (rt_roles c)) = Some s \<and> slim_config_ok s \<and>
       map fst (enabled_roles c) = [''generation''] \<and>
       (if sc_variant s = Metal
        then rs_profile (rt_runtime c) = ''metal-arm64'' \<and> rl_devices (ro_generation (rt_roles c)) = [] \<and>
          rl_tensor_parallel_size (ro_generation (rt_roles c)) = 1
        else rs_profile (rt_runtime c) = ''cuda-x86_64'' \<and> rl_devices (ro_generation (rt_roles c)) \<noteq> [])))"
proof (intro conjI impI)
  show "placed c" by (rule accepted_placed [OF assms])
  let ?g = "ro_generation (rt_roles c)"
  assume e: "rl_engine ?g = SlimServeEngine"
  note p = load_accepts(1) [OF assms] and f = load_accepts(3) [OF assms role_items_generation]
  obtain s where s: "rl_slimserve ?g = Some s" using f e by (auto simp: engine_contract_def run_checks_None check_None)
  then have ok: "slim_config_ok s" using f by (simp add: role_fields_ok_def opt_ok_def)
  have on: "rl_enabled ?g" and others: "\<forall>(n, r) \<in> set (role_items (rt_roles c)). n \<noteq> ''generation'' \<longrightarrow> \<not> rl_enabled r"
    using p e s by (auto simp: slimserve_placement_def Let_def split: if_splits)
  from others have "\<not> rl_enabled r" if "(n, r) \<in> set (tl (role_items (rt_roles c)))" for n r
    using role_items_tl [OF that] by auto
  then have "filter (\<lambda>(n, r). rl_enabled r) (tl (role_items (rt_roles c))) = []"
    by (auto simp: filter_empty_conv)
  moreover have "role_items (rt_roles c) = (''generation'', ?g) # tl (role_items (rt_roles c))"
    by (simp add: role_items_def)
  ultimately have "enabled_roles c = [(''generation'', ?g)]"
    using on unfolding enabled_roles_def by (metis (no_types, lifting) case_prod_conv filter.simps(2))
  then have "map fst (enabled_roles c) = [''generation'']"
    by simp
  moreover have "if sc_variant s = Metal
      then rs_profile (rt_runtime c) = ''metal-arm64'' \<and> rl_devices ?g = [] \<and> rl_tensor_parallel_size ?g = 1
      else rs_profile (rt_runtime c) = ''cuda-x86_64'' \<and> rl_devices ?g \<noteq> []"
    using p e s by (auto simp: slimserve_placement_def cuda_placement_def Let_def check_None split: if_splits)
  ultimately show "\<exists>s. rl_slimserve ?g = Some s \<and> slim_config_ok s \<and> map fst (enabled_roles c) = [''generation''] \<and>
       (if sc_variant s = Metal
        then rs_profile (rt_runtime c) = ''metal-arm64'' \<and> rl_devices ?g = [] \<and> rl_tensor_parallel_size ?g = 1
        else rs_profile (rt_runtime c) = ''cuda-x86_64'' \<and> rl_devices ?g \<noteq> [])"
    using s ok by (intro exI [of _ s] conjI)
qed

section \<open>Aliases\<close>

lemma alias_fold:
  assumes "a \<noteq> []"
  shows "dict_get (fold (\<lambda>(n, r) d. case rl_served_model_name r of
      None \<Rightarrow> d | Some b \<Rightarrow> if b = [] then d else dict_set b n d) rs d) a =
    (case find (\<lambda>(n, r). rl_served_model_name r = Some a) (rev rs) of Some (n, r) \<Rightarrow> Some n | None \<Rightarrow> dict_get d a)"
  using assms by (induction rs rule: rev_induct) (auto split: option.splits)

text \<open>
  A name leads to the last enabled role serving it, and no other: so with distinct aliases every
  enabled role is reached by its own, and a role that repeats one hides the role before it.
\<close>

theorem alias_leads_to_last_role:
  assumes "alias \<noteq> []"
  shows "dict_get (alias_to_role c) alias =
    map_option fst (find (\<lambda>(n, r). rl_served_model_name r = Some alias) (rev (enabled_roles c)))"
  using assms by (simp add: alias_to_role_def alias_fold split: option.split)

definition plain_role :: role_config where
  "plain_role = \<lparr>rl_enabled = True, rl_engine = Vllm, rl_engine_profile_id = None, rl_slimserve = None, rl_task = None,
     rl_source = Some ''local'', rl_model = Some ''/models/m'', rl_revision = None, rl_served_model_name = Some ''m'',
     rl_max_model_len = None, rl_priority = ''normal'', rl_memory_weight = 50, rl_max_concurrent_requests = 8,
     rl_pooling = None, rl_normalization = None, rl_throttle = None, rl_enforce_eager = False, rl_devices = [],
     rl_tensor_parallel_size = 1, rl_tool_call_parser = None, rl_reasoning_parser = None,
     rl_fields_set = [''enabled'', ''source'', ''model'', ''served_model_name'']\<rparr>"

definition sealed :: slim_config where
  "sealed = \<lparr>sc_source_commit = SLIMSERVE_COMMIT, sc_profile_id = ''p'', sc_variant = A100, sc_quant = ''q'',
     sc_artifacts = [\<lparr>sa_role = ModelRole, sa_repository = ''o/m'', sa_revision = replicate 40 (CHR ''a''),
       sa_files = [\<lparr>sf_file = ''config.json'', sf_size_bytes = 2, sf_sha256 = replicate 64 (CHR ''a'')\<rparr>]\<rparr>]\<rparr>"

definition demo_gpu :: string where
  "demo_gpu = ''GPU-00000000-0000-0000-0000-000000000000''"

definition sealed_role :: role_config where
  "sealed_role = plain_role\<lparr>rl_engine := SlimServeEngine, rl_engine_profile_id := Some ''e'', rl_slimserve := Some sealed,
     rl_revision := Some (replicate 40 (CHR ''a'')), rl_max_model_len := Some 4096, rl_devices := [demo_gpu],
     rl_fields_set := [''enabled'', ''engine'', ''accelerator_device_ids'', ''tensor_parallel_size'']\<rparr>"

definition plain_runtime :: runtime_config where
  "plain_runtime = \<lparr>rt_schema_version = ''1.2'',
     rt_runtime = \<lparr>rs_listen_address = ''0.0.0.0'', rs_port = 8000, rs_api_key_env = None, rs_profile = ''cuda-x86_64'',
       rs_runtime_instance_id = None, rs_deployment_id = None\<rparr>,
     rt_startup = \<lparr>ss_smoke_test_on_start = True, ss_remain_alive_on_configuration_error = True,
       ss_fail_process_on_generation_error = False, ss_fail_process_on_embedding_error = False\<rparr>,
     rt_roles = \<lparr>ro_generation = plain_role, ro_embedding = Some (plain_role\<lparr>rl_served_model_name := Some ''e''\<rparr>),
       ro_vision = None, ro_audio = None, ro_rerank = None\<rparr>,
     rt_observability = \<lparr>os_prometheus = True, os_structured_logs = True, os_otlp_endpoint = None\<rparr>,
     rt_privacy = \<lparr>ps_prompt_logging = False, ps_response_logging = False, ps_full_trace = False\<rparr>\<rparr>"

definition sealed_runtime :: runtime_config where
  "sealed_runtime = plain_runtime\<lparr>rt_roles := \<lparr>ro_generation = sealed_role, ro_embedding = None,
     ro_vision = None, ro_audio = None, ro_rerank = None\<rparr>\<rparr>"

lemma sealed_loads: "load_config (\<lambda>_. Mapping sealed_runtime) ''r'' = Inr sealed_runtime"
  by code_simp

lemma accepted_config_is_placed_witness:
  "placed sealed_runtime \<and> map fst (enabled_roles sealed_runtime) = [''generation'']"
proof -
  have "rl_engine (ro_generation (rt_roles sealed_runtime)) = SlimServeEngine" by code_simp
  with accepted_config_is_placed [OF sealed_loads] show ?thesis by blast
qed

lemma alias_leads_to_last_role_witness: "dict_get (alias_to_role plain_runtime) ''e'' = Some ''embedding''"
proof -
  have "find (\<lambda>(n, r). rl_served_model_name r = Some ''e'') (rev (enabled_roles plain_runtime)) =
      Some (''embedding'', plain_role\<lparr>rl_served_model_name := Some ''e''\<rparr>)" by code_simp
  then show ?thesis using alias_leads_to_last_role [of "''e''" plain_runtime] by simp
qed

end
