(* ===== verification/ApplianceState.thy ===== *)
theory ApplianceState
  imports RuntimeConfig
begin

text \<open>
  \<open>lazarus/appliance/state.py\<close> and \<open>lazarus/appliance/manifest.py\<close>: the runtime's state machine with
  its deduplicated errors, and the manifest built from what the backend reports. \<open>RoleInfo\<close> is the
  record of \<open>lazarus/appliance/backends/base.py\<close>.
\<close>

section \<open>The state machine\<close>

definition STATES :: "string list" where
  "STATES = [''initializing'', ''downloading'', ''compiling'', ''loading'', ''smoke_testing'', ''healthy'',
     ''degraded'', ''configuration_error'', ''runtime_error'']"

record error_record =
  er_code :: string
  er_message :: string
  er_recoverable :: bool
  er_role :: "string option"
  er_first_seen :: string

definition error_payload :: "error_record \<Rightarrow> json" where
  "error_payload e = JObj ([(''code'', JStr (er_code e)), (''message'', JStr (er_message e)),
     (''recoverable'', JBool (er_recoverable e)), (''first_seen'', JStr (er_first_seen e))] @
     (if blank_text (er_role e) then [] else [(''role'', JStr (the (er_role e)))]))"

text \<open>The machine; \<open>sm_calls\<close> are the calls its listeners have had, by the listener's number.\<close>

record machine =
  sm_state :: string
  sm_errors :: "(string \<times> string option, error_record) dict"
  sm_listeners :: nat
  sm_calls :: "(nat \<times> string) list"

definition machine_init :: machine where
  "machine_init = \<lparr>sm_state = ''initializing'', sm_errors = [], sm_listeners = 0, sm_calls = []\<rparr>"

definition on_change :: "machine \<Rightarrow> machine" where
  "on_change m = m\<lparr>sm_listeners := sm_listeners m + 1, sm_calls := sm_calls m @ [(sm_listeners m, sm_state m)]\<rparr>"

definition transition :: "string \<Rightarrow> machine \<Rightarrow> py_error + machine" where
  "transition state m =
     (if state \<notin> set STATES then Inl (ValueError (''unknown runtime state: '' @ state))
      else if state = sm_state m then Inr m
      else Inr (m\<lparr>sm_state := state, sm_calls := sm_calls m @ map (\<lambda>l. (l, state)) [0..<sm_listeners m]\<rparr>))"

definition record_error :: "string \<Rightarrow> string \<Rightarrow> string \<Rightarrow> bool \<Rightarrow> string option \<Rightarrow> machine \<Rightarrow> machine" where
  "record_error now err_code message recoverable role m =
     (let key = (err_code, role) in
      m\<lparr>sm_errors := dict_set key
          (case dict_get (sm_errors m) key of
             Some e \<Rightarrow> e\<lparr>er_message := message\<rparr>
           | None \<Rightarrow> \<lparr>er_code = err_code, er_message = message, er_recoverable = recoverable, er_role = role,
               er_first_seen = now\<rparr>) (sm_errors m)\<rparr>)"

definition clear_errors :: "string option \<Rightarrow> machine \<Rightarrow> machine" where
  "clear_errors role m =
     m\<lparr>sm_errors := (if role = None then [] else filter (\<lambda>(key, e). snd key \<noteq> role) (sm_errors m))\<rparr>"

definition errors_payload :: "machine \<Rightarrow> json" where
  "errors_payload m = JObj [(''errors'', JArr (map (error_payload \<circ> snd) (sm_errors m)))]"

inductive machine_step :: "machine \<Rightarrow> machine \<Rightarrow> bool" where
  subscribe: "machine_step m (on_change m)"
| move: "transition state m = Inr m' \<Longrightarrow> machine_step m m'"
| record_one: "machine_step m (record_error now c message recoverable role m)"
| clear: "machine_step m (clear_errors role m)"

inductive_cases machine_stepE: "machine_step m m'"

definition last_told :: "nat \<Rightarrow> machine \<Rightarrow> string option" where
  "last_told l m = map_option snd (find (\<lambda>(k, s). k = l) (rev (sm_calls m)))"

definition machine_inv :: "machine \<Rightarrow> bool" where
  "machine_inv m \<longleftrightarrow> sm_state m \<in> set STATES \<and> dict_ok (sm_errors m) \<and>
     (\<forall>((c, r), e) \<in> set (sm_errors m). er_code e = c \<and> er_role e = r) \<and>
     (\<forall>l < sm_listeners m. last_told l m = Some (sm_state m))"

lemma find_rev_map: "l < n \<Longrightarrow> find (\<lambda>(k, s). k = l) (rev (map (\<lambda>l. (l, x)) [0..<n])) = Some (l, x)"
  by (induction n) auto

lemma find_append: "find p (xs @ ys) = (case find p xs of None \<Rightarrow> find p ys | Some x \<Rightarrow> Some x)"
  by (induction xs) auto

lemma set_dict_set: "dict_ok d \<Longrightarrow> set (dict_set k v d) = {kv \<in> set d. fst kv \<noteq> k} \<union> {(k, v)}"
proof (induction k v d rule: dict_set.induct)
  case (2 k v k' v' d)
  show ?case
  proof (cases "k' = k")
    case True
    have "fst kv \<noteq> k" if "kv \<in> set d" for kv
      using that 2(2) True by (metis distinct.simps(2) fst_conv image_eqI list.simps(9) set_map)
    with True show ?thesis by auto
  next
    case False
    with 2 show ?thesis by auto
  qed
qed simp

lemma record_error_inv: "machine_inv m \<Longrightarrow> machine_inv (record_error now c message recoverable role m)"
proof -
  assume inv: "machine_inv m"
  define e where "e = (case dict_get (sm_errors m) (c, role) of Some e \<Rightarrow> e\<lparr>er_message := message\<rparr>
     | None \<Rightarrow> \<lparr>er_code = c, er_message = message, er_recoverable = recoverable, er_role = role, er_first_seen = now\<rparr>)"
  have e: "er_code e = c \<and> er_role e = role"
    using inv by (auto simp: e_def machine_inv_def split: option.split dest: map_of_SomeD)
  have "record_error now c message recoverable role m = m\<lparr>sm_errors := dict_set (c, role) e (sm_errors m)\<rparr>"
    by (simp add: record_error_def e_def Let_def)
  then show ?thesis
    using inv e by (auto simp: machine_inv_def set_dict_set last_told_def simp del: distinct_map)
qed

interpretation runtime_state: invariant_of "\<lambda>m. m = machine_init" machine_step machine_inv
proof unfold_locales
  fix m :: machine assume "m = machine_init"
  then show "machine_inv m" by (simp add: machine_init_def machine_inv_def STATES_def)
next
  fix m m' assume inv: "machine_inv m" and "machine_step m m'"
  from this(2) show "machine_inv m'"
  proof cases
    case subscribe
    then show ?thesis using inv by (auto simp: machine_inv_def on_change_def last_told_def find_append less_Suc_eq)
  next
    case (move state)
    show ?thesis
    proof (cases "state = sm_state m")
      case True
      then show ?thesis using move inv by (auto simp: transition_def split: if_splits)
    next
      case False
      then have s: "state \<in> set STATES" "m' = m\<lparr>sm_state := state, sm_calls := sm_calls m @ map (\<lambda>l. (l, state)) [0..<sm_listeners m]\<rparr>"
        using move by (auto simp: transition_def split: if_splits)
      have "last_told l m' = Some state" if "l < sm_listeners m" for l
        using find_rev_map [OF that, of state] by (simp add: s(2) last_told_def find_append)
      then show ?thesis using inv s by (simp add: machine_inv_def)
    qed
  next
    case record_one
    then show ?thesis using inv record_error_inv by blast
  next
    case clear
    then show ?thesis
      using inv by (auto simp: machine_inv_def clear_errors_def last_told_def distinct_map_filter simp del: distinct_map)
  qed
qed

text \<open>
  Whatever is recorded, cleared and entered, the runtime is in one of its nine states, every
  listener was last told that state, and there is one error per code and role, under its own code and
  role.
\<close>

theorem runtime_state_consistent:
  assumes "machine_step\<^sup>*\<^sup>* machine_init m"
  shows "sm_state m \<in> set STATES \<and> (\<forall>l < sm_listeners m. last_told l m = Some (sm_state m)) \<and>
    distinct (map (\<lambda>(k, e). (er_code e, er_role e)) (sm_errors m))"
proof -
  have inv: "machine_inv m" using runtime_state.reachable_inv [OF refl assms] .
  then have "map (\<lambda>(k, e). (er_code e, er_role e)) (sm_errors m) = map fst (sm_errors m)"
    by (auto simp: machine_inv_def)
  moreover have "distinct (map fst (sm_errors m))" using inv unfolding machine_inv_def by blast
  ultimately show ?thesis using inv unfolding machine_inv_def by metis
qed

definition demo_loading :: machine where
  "demo_loading = (case transition ''loading'' (on_change machine_init) of Inr m \<Rightarrow> m | Inl _ \<Rightarrow> machine_init)"

definition demo_machine :: machine where
  "demo_machine = record_error ''t1'' ''C'' ''b'' True None (record_error ''t0'' ''C'' ''a'' True None demo_loading)"

lemma runtime_state_consistent_witness:
  "last_told 0 demo_machine = Some ''loading'' \<and> length (sm_errors demo_machine) = 1"
proof -
  have m1: "transition ''loading'' (on_change machine_init) = Inr demo_loading" by code_simp
  have "machine_step\<^sup>*\<^sup>* machine_init demo_machine"
    unfolding demo_machine_def using machine_step.subscribe machine_step.move [OF m1] machine_step.record_one
    by (meson converse_rtranclp_into_rtranclp rtranclp.rtrancl_refl)
  moreover have "sm_listeners demo_machine = 1" "sm_state demo_machine = ''loading''" "length (sm_errors demo_machine) = 1"
    by code_simp+
  ultimately show ?thesis using runtime_state_consistent by force
qed

text \<open>
  An error seen again keeps when it was first seen: recording a code and role changes only the
  message of an error already there, and clearing a role leaves the other roles' errors as they were.
\<close>

theorem first_seen_kept:
  assumes "dict_get (sm_errors m) (c, role) = Some e"
  shows "dict_get (sm_errors (record_error now c message recoverable role m)) (c, role) = Some (e\<lparr>er_message := message\<rparr>) \<and>
    map fst (sm_errors (record_error now c message recoverable role m)) = map fst (sm_errors m) \<and>
    (\<forall>k. k \<noteq> (c, role) \<longrightarrow> dict_get (sm_errors (record_error now c message recoverable role m)) k = dict_get (sm_errors m) k)"
proof -
  have "map fst (dict_set k v d) = map fst d" if "dict_get d k \<noteq> None" for k v and d :: "(string \<times> string option, error_record) dict"
    using that by (induction k v d rule: dict_set.induct) (auto split: if_splits)
  from this [of "sm_errors m" "(c, role)"] show ?thesis using assms by (simp add: record_error_def Let_def)
qed

lemma first_seen_kept_witness:
  "map_option er_first_seen (dict_get (sm_errors (record_error ''t2'' ''C'' ''c'' False None demo_machine)) (''C'', None)) = Some ''t0''"
proof -
  have "map_option er_first_seen (dict_get (sm_errors demo_machine) (''C'', None)) = Some ''t0''" by code_simp
  then obtain e where "dict_get (sm_errors demo_machine) (''C'', None) = Some e" "er_first_seen e = ''t0''" by auto
  then show ?thesis using first_seen_kept [of demo_machine "''C''" None e "''t2''" "''c''" False] by simp
qed

section \<open>The manifest\<close>

record role_info =
  ri_status :: string
  ri_error_code :: "string option"
  ri_engine_model :: "string option"
  ri_revision :: "string option"
  ri_context_length :: "int option"
  ri_dimensions :: "int option"
  ri_modalities :: "string list option"
  ri_device_count :: "int option"
  ri_tensor_parallel_size :: "int option"
  ri_engine_profile_id :: "string option"
  ri_upstream_profile_id :: "string option"
  ri_quant :: "string option"
  ri_max_concurrent_requests :: "int option"
  ri_capabilities :: "string list option"

definition bare_info :: "string \<Rightarrow> role_info" where
  "bare_info status = \<lparr>ri_status = status, ri_error_code = None, ri_engine_model = None, ri_revision = None,
     ri_context_length = None, ri_dimensions = None, ri_modalities = None, ri_device_count = None,
     ri_tensor_parallel_size = None, ri_engine_profile_id = None, ri_upstream_profile_id = None, ri_quant = None,
     ri_max_concurrent_requests = None, ri_capabilities = None\<rparr>"

text \<open>What the appliance reads of a backend.\<close>

record backend_view =
  bv_backend_id :: string
  bv_engine_name :: string
  bv_adapter_id :: string
  bv_paused :: bool
  bv_role :: "string \<Rightarrow> role_info"
  bv_accelerator :: "json option"
  bv_engine_version :: "string option"
  bv_observation :: "(string, json) dict"

definition config_role :: "runtime_config option \<Rightarrow> string \<Rightarrow> role_config option" where
  "config_role c name = (case c of None \<Rightarrow> None | Some c \<Rightarrow> dict_get (role_items (rt_roles c)) name)"

text \<open>\<open>_runtime_version\<close>: a release candidate in the product's spelling.\<close>

fun dashed_rc :: "bool \<Rightarrow> string \<Rightarrow> string" where
  "dashed_rc after_digit (a # b # c # cs) =
     (if after_digit \<and> a = CHR ''r'' \<and> b = CHR ''c'' \<and> is_digit c then ''-rc.'' @ c # dashed_rc True cs
      else a # dashed_rc (is_digit a) (b # c # cs))"
| "dashed_rc after_digit s = s"

definition runtime_version :: "string option \<Rightarrow> string option \<Rightarrow> string" where
  "runtime_version configured installed =
     (if \<not> blank_text configured then the configured
      else case installed of None \<Rightarrow> ''0.1.0-dev'' | Some v \<Rightarrow> dashed_rc False v)"

definition manifest_profile :: "string option \<Rightarrow> runtime_config option \<Rightarrow> string" where
  "manifest_profile env_profile c =
     (if \<not> blank_text env_profile then the env_profile
      else case c of Some c \<Rightarrow> rs_profile (rt_runtime c) | None \<Rightarrow> ''cpu-x86_64'')"

definition given_text :: "string \<Rightarrow> string option \<Rightarrow> (string, json) dict" where
  "given_text key v = (if blank_text v then [] else [(key, JStr (the v))])"

definition given_number :: "string \<Rightarrow> int option \<Rightarrow> (string, json) dict" where
  "given_number key v = (case v of None \<Rightarrow> [] | Some n \<Rightarrow> if n = 0 then [] else [(key, JInt n)])"

definition present :: "string \<Rightarrow> ('a \<Rightarrow> json) \<Rightarrow> 'a option \<Rightarrow> (string, json) dict" where
  "present key f v = (case v of None \<Rightarrow> [] | Some a \<Rightarrow> [(key, f a)])"

definition texts :: "string list \<Rightarrow> json" where
  "texts ts = JArr (map JStr ts)"

definition role_entry :: "backend_view \<Rightarrow> runtime_config option \<Rightarrow> string \<Rightarrow> (string, json) dict" where
  "role_entry b c name =
     (let info = bv_role b name; role = config_role c name in
      [(''enabled'', JBool (case role of Some r \<Rightarrow> rl_enabled r | None \<Rightarrow> c = None \<and> name = ''generation'')),
       (''status'', JStr (ri_status info))] @
      (case role of None \<Rightarrow> [] | Some r \<Rightarrow> given_text ''task'' (rl_task r) @ given_text ''served_model_name'' (rl_served_model_name r)) @
      given_text ''engine_model'' (ri_engine_model info) @ given_text ''revision'' (ri_revision info) @
      given_number ''context_length'' (ri_context_length info) @ given_text ''error_code'' (ri_error_code info) @
      (if name = ''generation''
       then present ''device_count'' JInt (ri_device_count info) @ present ''tensor_parallel_size'' JInt (ri_tensor_parallel_size info) @
         present ''engine_profile_id'' JStr (ri_engine_profile_id info) @ present ''upstream_profile_id'' JStr (ri_upstream_profile_id info) @
         present ''quant'' JStr (ri_quant info) @ present ''max_concurrent_requests'' JInt (ri_max_concurrent_requests info) @
         present ''capabilities'' texts (ri_capabilities info)
       else []) @
      (if name = ''embedding''
       then given_number ''dimensions'' (ri_dimensions info) @
         (case role of None \<Rightarrow> [] | Some r \<Rightarrow> given_text ''pooling'' (rl_pooling r) @ given_text ''normalization'' (rl_normalization r)) @
         (case ri_modalities info of None \<Rightarrow> [] | Some [] \<Rightarrow> [] | Some ms \<Rightarrow> [(''modalities'', texts ms)])
       else []))"

definition manifest_roles :: "backend_view \<Rightarrow> runtime_config option \<Rightarrow> (string, json) dict" where
  "manifest_roles b c =
     map (\<lambda>name. (name, JObj (role_entry b c name)))
       (''generation'' #
        (if c = None \<or> config_role c ''embedding'' \<noteq> None then [''embedding''] else []) @
        filter (\<lambda>name. config_role c name \<noteq> None) [''vision'', ''audio'', ''rerank''])"

definition managed_identity :: "runtime_config option \<Rightarrow> (string \<times> string) option" where
  "managed_identity c = (case c of None \<Rightarrow> None | Some c \<Rightarrow>
     if blank_text (rs_runtime_instance_id (rt_runtime c)) then None
     else Some (the (rs_runtime_instance_id (rt_runtime c)), the (rs_deployment_id (rt_runtime c))))"

definition build_manifest ::
    "string \<Rightarrow> string option \<Rightarrow> json list \<Rightarrow> int \<Rightarrow> machine \<Rightarrow> backend_view \<Rightarrow> runtime_config option \<Rightarrow> (string, json) dict" where
  "build_manifest version env_profile available port m b c =
     (let state = JStr (sm_state m);
          kernels = dict_get (bv_observation b) ''kernels'';
          unseen = (kernels = None \<or> kernels = Some JNull) in
      [(''schema_version'', JStr (if managed_identity c \<noteq> None then ''1.4'' else ''1.3'')),
       (''runtime_id'', JStr (''sovereign-runtime-'' @ manifest_profile env_profile c @ ''-'' @ version)),
       (''runtime_version'', JStr version), (''backend'', JStr (bv_backend_id b)),
       (''profile'', JStr (manifest_profile env_profile c)), (''topology'', JStr ''single_process_multi_role''),
       (''state'', state), (''generation_paused'', JBool (bv_paused b)),
       (''api'', JObj [(''openai_compatible'', JBool True), (''port'', JInt port), (''base_path'', JStr ''/v1'')]),
       (''roles'', JObj (manifest_roles b c)),
       (''accelerator'', (case bv_accelerator b of Some a \<Rightarrow> a
          | None \<Rightarrow> JObj [(''vendor'', JStr ''none''), (''device_count'', JInt 0), (''unified_memory'', JBool False)])),
       (''health'', JObj [(''status'', state), (''driver'', JStr ''ok''),
          (''kernels'', JStr (if unseen \<and> bv_engine_name b = ''slimserve'' then ''unknown'' else ''ok'')), (''metrics'', JStr ''ok'')])] @
      (case managed_identity c of None \<Rightarrow> []
       | Some (i, d) \<Rightarrow> [(''runtime_instance_id'', JStr i), (''deployment_id'', JStr d)]) @
      (case bv_engine_version b of None \<Rightarrow> []
       | Some v \<Rightarrow> (if bv_engine_name b = ''vllm'' then [(''vllm_version'', JStr v)] else []) @
           [(''engine'', JObj [(''name'', JStr (bv_engine_name b)), (''version'', JStr v), (''adapter'', JStr (bv_adapter_id b))])]) @
      (if unseen then [] else [(''kernels'', the kernels)]) @
      (if available = [] then [] else [(''available_engines'', JArr available)]) @
      (case c of None \<Rightarrow> []
       | Some c \<Rightarrow> [(''resource_policy'', JObj ([(''enforcement'', JStr ''best_effort''),
           (''generation_memory_weight'', JInt (rl_memory_weight (ro_generation (rt_roles c))))] @
           (case ro_embedding (rt_roles c) of None \<Rightarrow> []
            | Some e \<Rightarrow> [(''embedding_memory_weight'', JInt (rl_memory_weight e))])))]))"

text \<open>
  The manifest is what is observed: its roles are exactly generation and the configured ones, each
  with the status its backend reports and nothing else under that key, beside the machine's own state
  and the backend's own admission.
\<close>

theorem manifest_is_observed:
  "(\<exists>roles. dict_get (build_manifest version env_profile available port m b (Some c)) ''roles'' = Some (JObj roles) \<and>
     set (map fst roles) = set (map fst (role_items (rt_roles c))) \<and> dict_ok roles \<and>
     (\<forall>(n, e) \<in> set roles. obj_get e ''status'' = JStr (ri_status (bv_role b n)))) \<and>
   dict_get (build_manifest version env_profile available port m b (Some c)) ''state'' = Some (JStr (sm_state m)) \<and>
   dict_get (build_manifest version env_profile available port m b (Some c)) ''generation_paused'' = Some (JBool (bv_paused b))"
proof -
  have roles: "set (map fst (manifest_roles b (Some c))) = set (map fst (role_items (rt_roles c)))" "dict_ok (manifest_roles b (Some c))"
    by (auto simp: manifest_roles_def config_role_def role_items_def split: option.splits)
  have "\<forall>(n, e) \<in> set (manifest_roles b (Some c)). obj_get e ''status'' = JStr (ri_status (bv_role b n))"
    by (auto simp: manifest_roles_def obj_get_def role_entry_def Let_def)
  with roles show ?thesis by (simp add: build_manifest_def Let_def)
qed

definition demo_view :: backend_view where
  "demo_view = \<lparr>bv_backend_id = ''cuda'', bv_engine_name = ''vllm'', bv_adapter_id = ''sovereign-runtime'', bv_paused = False,
     bv_role = (\<lambda>n. bare_info (if n = ''generation'' then ''healthy'' else ''loading'')), bv_accelerator = None,
     bv_engine_version = Some ''0.25'', bv_observation = []\<rparr>"

lemma manifest_is_observed_witness:
  "\<exists>roles. dict_get (build_manifest ''1'' None [] 8000 machine_init demo_view (Some plain_runtime)) ''roles'' = Some (JObj roles) \<and>
     set (map fst roles) = {''generation'', ''embedding''}"
proof -
  have "set (map fst (role_items (rt_roles plain_runtime))) = {''generation'', ''embedding''}"
    by (auto simp: role_items_def plain_runtime_def)
  then show ?thesis
    using manifest_is_observed [of "''1''" None "[]" 8000 machine_init demo_view plain_runtime] by auto
qed

end
