(* ===== verification/ApplianceApi.thy ===== *)
theory ApplianceApi
  imports ApplianceState
begin

text \<open>
  \<open>lazarus/appliance/api.py\<close>: admission to the roles as a machine over the event loop's stretches, the
  pausing and resuming of generation, readiness and the gates a request passes. \<open>asyncio.Semaphore\<close>
  serves its waiters in order: a release hands the place to the first, whose own stretch comes later.
\<close>

section \<open>Admission\<close>

datatype wait_state = Queued | Granted

record slots =
  sl_free :: "(string, int) dict"
  sl_queue :: "(nat \<times> string \<times> wait_state) list"
  sl_held :: "(nat \<times> string) list"
  sl_waiting :: int
  sl_active :: int
  sl_idle :: bool
  sl_threshold :: "int option"

definition slots_init :: "runtime_config option \<Rightarrow> slots" where
  "slots_init c =
     \<lparr>sl_free = (case c of None \<Rightarrow> [] | Some c \<Rightarrow> map (\<lambda>(n, r). (n, rl_max_concurrent_requests r)) (enabled_roles c)),
      sl_queue = [], sl_held = [], sl_waiting = 0, sl_active = 0, sl_idle = True,
      sl_threshold = (case c of None \<Rightarrow> None | Some c \<Rightarrow>
        (case ro_embedding (rt_roles c) of Some e \<Rightarrow> if rl_enabled e then rl_throttle e else None | None \<Rightarrow> None))\<rparr>"

definition active_enter :: "slots \<Rightarrow> slots" where
  "active_enter s = s\<lparr>sl_active := sl_active s + 1, sl_idle := False\<rparr>"

definition active_leave :: "slots \<Rightarrow> slots" where
  "active_leave s = (let s = s\<lparr>sl_active := sl_active s - 1\<rparr> in if sl_active s = 0 then s\<lparr>sl_idle := True\<rparr> else s)"

interpretation slot_gate: counted_gate sl_active sl_idle active_enter active_leave "slots_init None"
  by unfold_locales (auto simp: slots_init_def active_enter_def active_leave_def Let_def)

text \<open>The body of \<open>slot\<close> begins: the place is held.\<close>

definition hold :: "nat \<Rightarrow> string \<Rightarrow> slots \<Rightarrow> slots" where
  "hold i role s =
     (let s = s\<lparr>sl_held := (i, role) # sl_held s\<rparr> in if role = ''generation'' then active_enter s else s)"

definition stop_waiting :: "string \<Rightarrow> slots \<Rightarrow> slots" where
  "stop_waiting role s = (if role = ''generation'' then s\<lparr>sl_waiting := sl_waiting s - 1\<rparr> else s)"

text \<open>
  The semaphore. \<open>release\<close> gives the place to the first sleeping waiter of the role, or back to the
  count; a waiter whose \<open>acquire\<close> ends wakes others while places are free, for one that came while a
  woken waiter had not run yet sleeps beside a free place.
\<close>

fun grant_first :: "string \<Rightarrow> (nat \<times> string \<times> wait_state) list \<Rightarrow> (nat \<times> string \<times> wait_state) list option" where
  "grant_first role [] = None"
| "grant_first role ((i, r, w) # q) =
     (if r = role \<and> w = Queued then Some ((i, r, Granted) # q) else map_option (Cons (i, r, w)) (grant_first role q))"

definition release :: "string \<Rightarrow> slots \<Rightarrow> slots" where
  "release role s =
     (case grant_first role (sl_queue s) of
        Some q \<Rightarrow> s\<lparr>sl_queue := q\<rparr>
      | None \<Rightarrow> s\<lparr>sl_free := dict_set role (the (dict_get (sl_free s) role) + 1) (sl_free s)\<rparr>)"

fun wake :: "string \<Rightarrow> nat \<Rightarrow> (nat \<times> string \<times> wait_state) list \<Rightarrow> nat \<times> (nat \<times> string \<times> wait_state) list" where
  "wake role 0 q = (0, q)"
| "wake role (Suc n) q = (case grant_first role q of None \<Rightarrow> (Suc n, q) | Some q' \<Rightarrow> wake role n q')"

definition wake_up :: "string \<Rightarrow> slots \<Rightarrow> slots" where
  "wake_up role s =
     (case dict_get (sl_free s) role of
        None \<Rightarrow> s
      | Some f \<Rightarrow> let (g, q) = wake role (nat f) (sl_queue s) in
          s\<lparr>sl_free := dict_set role (int g) (sl_free s), sl_queue := q\<rparr>)"

definition slot_ask :: "nat \<Rightarrow> string \<Rightarrow> slots \<Rightarrow> slots option" where
  "slot_ask i role s =
     (if role = ''embedding'' \<and> (case sl_threshold s of Some t \<Rightarrow> t < sl_waiting s | None \<Rightarrow> False) then None
      else case dict_get (sl_free s) role of
        None \<Rightarrow> Some (hold i role s)
      | Some n \<Rightarrow>
          if 0 < n \<and> (\<forall>(j, r, w) \<in> set (sl_queue s). r \<noteq> role)
          then Some (hold i role (s\<lparr>sl_free := dict_set role (n - 1) (sl_free s)\<rparr>))
          else let s = (if role = ''generation'' then s\<lparr>sl_waiting := sl_waiting s + 1\<rparr> else s) in
            Some (s\<lparr>sl_queue := sl_queue s @ [(i, role, Queued)]\<rparr>))"

datatype slot_event = Ask nat string | Continue nat | GiveUp nat | Done nat

definition waiter :: "nat \<Rightarrow> slots \<Rightarrow> (string \<times> wait_state) option" where
  "waiter i s = dict_get (sl_queue s) i"

definition slot_step :: "slot_event \<Rightarrow> slots \<Rightarrow> slots option" where
  "slot_step e s =
     (case e of
        Ask i role \<Rightarrow> if dict_get (sl_queue s) i \<noteq> None \<or> dict_get (sl_held s) i \<noteq> None then None
          else (case slot_ask i role s of None \<Rightarrow> Some s | Some s' \<Rightarrow> Some s')
      | Continue i \<Rightarrow>
          (case waiter i s of
             Some (role, Granted) \<Rightarrow> Some (hold i role (stop_waiting role (wake_up role (s\<lparr>sl_queue := dict_del i (sl_queue s)\<rparr>))))
           | _ \<Rightarrow> None)
      | GiveUp i \<Rightarrow>
          (case waiter i s of
             None \<Rightarrow> None
           | Some (role, w) \<Rightarrow>
               let s = s\<lparr>sl_queue := dict_del i (sl_queue s)\<rparr>;
                   s = (if w = Granted then s\<lparr>sl_free := dict_set role (the (dict_get (sl_free s) role) + 1) (sl_free s)\<rparr> else s) in
               Some (stop_waiting role (wake_up role s)))
      | Done i \<Rightarrow>
          (case dict_get (sl_held s) i of
             None \<Rightarrow> None
           | Some role \<Rightarrow>
               let s = s\<lparr>sl_held := dict_del i (sl_held s)\<rparr>;
                   s = (if role = ''generation'' then active_leave s else s) in
               Some (if dict_get (sl_free s) role = None then s else release role s)))"

definition holding :: "string \<Rightarrow> slots \<Rightarrow> nat" where
  "holding role s = length (filter (\<lambda>(i, r). r = role) (sl_held s))"

definition granted :: "string \<Rightarrow> slots \<Rightarrow> nat" where
  "granted role s = length (filter (\<lambda>(i, r, w). r = role \<and> w = Granted) (sl_queue s))"

definition queued :: "string \<Rightarrow> slots \<Rightarrow> nat" where
  "queued role s = length (filter (\<lambda>(i, r, w). r = role) (sl_queue s))"

text \<open>
  The invariant, for the limits the machine began with: places free, given and held add up to each
  role's limit, nobody sleeps beside a free place unless a woken waiter is yet to run, and the
  generation counts are the requests they count.
\<close>

definition places_ok :: "int option \<Rightarrow> string \<Rightarrow> slots \<Rightarrow> bool" where
  "places_ok limit role s \<longleftrightarrow>
     (case limit of
        None \<Rightarrow> dict_get (sl_free s) role = None \<and> queued role s = 0
      | Some n \<Rightarrow> (\<exists>f. dict_get (sl_free s) role = Some f \<and> 0 \<le> f \<and> f + int (granted role s) + int (holding role s) = n))"

definition no_sleeper :: "string \<Rightarrow> slots \<Rightarrow> bool" where
  "no_sleeper role s \<longleftrightarrow>
     (case dict_get (sl_free s) role of None \<Rightarrow> True | Some f \<Rightarrow> 0 < f \<and> granted role s = 0 \<longrightarrow> queued role s = 0)"

definition slots_core :: "(string \<Rightarrow> int option) \<Rightarrow> slots \<Rightarrow> bool" where
  "slots_core limit s \<longleftrightarrow>
     dict_ok (sl_queue s) \<and> dict_ok (sl_held s) \<and> fst ` set (sl_queue s) \<inter> fst ` set (sl_held s) = {} \<and>
     (\<forall>role. places_ok (limit role) role s) \<and>
     slot_gate.gate_ok s \<and> sl_active s = int (holding ''generation'' s) \<and> sl_waiting s = int (queued ''generation'' s)"

definition slots_inv :: "(string \<Rightarrow> int option) \<Rightarrow> slots \<Rightarrow> bool" where
  "slots_inv limit s \<longleftrightarrow> slots_core limit s \<and> (\<forall>role. no_sleeper role s)"

definition count_where :: "('a \<Rightarrow> bool) \<Rightarrow> 'a list \<Rightarrow> nat" where
  "count_where p xs = length (filter p xs)"

lemma count_where_simps [simp]:
  "count_where p [] = 0" "count_where p (x # xs) = (if p x then 1 else 0) + count_where p xs"
  "count_where p (xs @ ys) = count_where p xs + count_where p ys"
  by (simp_all add: count_where_def)

lemma count_dict_del:
  "dict_ok d \<Longrightarrow> dict_get d k = Some v \<Longrightarrow> count_where p d = count_where p (dict_del k d) + (if p (k, v) then 1 else 0)"
proof (induction d)
  case (Cons kv d)
  show ?case
  proof (cases "fst kv = k")
    case True
    have "dict_del k d = d"
      using Cons.prems True by (auto simp: dict_del_def filter_id_conv image_iff)
    then show ?thesis using True Cons.prems by (cases kv) (simp add: dict_del_def)
  next
    case False
    then show ?thesis using Cons by (cases kv) (simp add: dict_del_def)
  qed
qed simp

lemma keys_dict_del: "fst ` set (dict_del k d) = fst ` set d - {k}"
  by (auto simp: dict_del_def)

abbreviation waits_for :: "string \<Rightarrow> nat \<times> string \<times> wait_state \<Rightarrow> bool" where
  "waits_for role \<equiv> \<lambda>(i, r, w). r = role"

abbreviation woken_for :: "string \<Rightarrow> nat \<times> string \<times> wait_state \<Rightarrow> bool" where
  "woken_for role \<equiv> \<lambda>(i, r, w). r = role \<and> w = Granted"

lemma slot_counts:
  "holding role s = count_where (\<lambda>(i, r). r = role) (sl_held s)" "granted role s = count_where (woken_for role) (sl_queue s)"
  "queued role s = count_where (waits_for role) (sl_queue s)"
  by (simp_all add: holding_def granted_def queued_def count_where_def)

lemma granted_le_queued: "count_where (woken_for role) q \<le> count_where (waits_for role) q"
  by (induction q) auto

lemma grant_first_None:
  "grant_first role q = None \<Longrightarrow> count_where (woken_for role) q = count_where (waits_for role) q"
proof (induction q)
  case (Cons e q)
  then show ?case by (cases e; cases "snd (snd e)") (auto split: if_splits)
qed simp

lemma grant_first_Some:
  assumes "grant_first role q = Some q'"
  shows "map fst q' = map fst q" "count_where (waits_for r) q' = count_where (waits_for r) q"
    "count_where (woken_for r) q' = count_where (woken_for r) q + (if r = role then 1 else 0)"
  using assms by (induction role q arbitrary: q' rule: grant_first.induct) (auto split: if_splits)

lemma wake_counts:
  assumes "wake role n q = (g, q')"
  shows "map fst q' = map fst q" "count_where (waits_for r) q' = count_where (waits_for r) q"
    "r \<noteq> role \<Longrightarrow> count_where (woken_for r) q' = count_where (woken_for r) q"
    "g + count_where (woken_for role) q' = n + count_where (woken_for role) q"
    "0 < g \<Longrightarrow> count_where (woken_for role) q' = count_where (waits_for role) q'"
  using assms
  by (induction role n q arbitrary: q' rule: wake.induct)
    (auto split: option.splits dest: grant_first_Some grant_first_None simp: grant_first_Some(2,3))

lemma gate_ok_same: "sl_active t = sl_active s \<Longrightarrow> sl_idle t = sl_idle s \<Longrightarrow> slot_gate.gate_ok t = slot_gate.gate_ok s"
  by (simp add: slot_gate.gate_ok_def)

lemma fst_image_cong: "map fst q' = map fst q \<Longrightarrow> fst ` set q' = fst ` set q"
  by (metis set_map)

lemma hold_fields [simp]:
  "sl_free (hold i role s) = sl_free s" "sl_queue (hold i role s) = sl_queue s"
  "sl_held (hold i role s) = (i, role) # sl_held s" "sl_waiting (hold i role s) = sl_waiting s"
  "sl_active (hold i role s) = sl_active s + (if role = ''generation'' then 1 else 0)"
  by (simp_all add: hold_def active_enter_def Let_def)

lemma places_ok_alt:
  "places_ok limit role s \<longleftrightarrow>
     (case limit of None \<Rightarrow> dict_get (sl_free s) role = None \<and> queued role s = 0
      | Some n \<Rightarrow> dict_get (sl_free s) role = Some (n - int (granted role s) - int (holding role s)) \<and>
          int (granted role s) + int (holding role s) \<le> n)"
  by (auto simp: places_ok_def split: option.split)

lemma hold_core:
  assumes inv: "slots_core limit s" and new: "i \<notin> fst ` set (sl_queue s)" "i \<notin> fst ` set (sl_held s)"
  shows "slots_core (limit(role := map_option (\<lambda>n. n + 1) (limit role))) (hold i role s)"
proof -
  have p: "places_ok (limit r) r s" for r using inv by (simp add: slots_core_def)
  have "places_ok ((limit(role := map_option (\<lambda>n. n + 1) (limit role))) r) r (hold i role s)" for r
    using p [of r] by (cases "limit r") (auto simp: places_ok_alt slot_counts)
  moreover have "slot_gate.gate_ok (hold i role s)"
    using inv slot_gate.gate_ok_enter gate_ok_same [of "s\<lparr>sl_held := (i, role) # sl_held s\<rparr>" s]
    by (auto simp: hold_def slots_core_def Let_def)
  ultimately show ?thesis using inv new by (simp add: slots_core_def slot_counts)
qed

lemma hold_no_sleeper [simp]: "no_sleeper r (hold i role s) = no_sleeper r s"
  by (auto simp: no_sleeper_def slot_counts split: option.split)

lemma stop_waiting_wake_up: "stop_waiting role (wake_up role s) = wake_up role (stop_waiting role s)"
  by (simp add: stop_waiting_def wake_up_def split: option.split prod.split)

lemma wake_up_core:
  assumes "slots_core limit s" shows "slots_core limit (wake_up role s)"
proof (cases "dict_get (sl_free s) role")
  case None
  then show ?thesis using assms by (simp add: wake_up_def)
next
  case (Some f)
  obtain g q where w: "wake role (nat f) (sl_queue s) = (g, q)" by fastforce
  have f: "0 \<le> f" "limit role \<noteq> None"
    using assms Some by (auto simp: slots_core_def places_ok_def split: option.splits dest!: spec [of _ role])
  note c = wake_counts [OF w]
  have t: "wake_up role s = s\<lparr>sl_free := dict_set role (int g) (sl_free s), sl_queue := q\<rparr>"
    by (simp add: wake_up_def Some w)
  have "places_ok (limit r) r (wake_up role s)" for r
  proof (cases "r = role")
    case True
    obtain n where n: "limit role = Some n" using f(2) by blast
    have "places_ok (limit role) role s" using assms by (simp add: slots_core_def)
    moreover have "int g + int (count_where (woken_for role) q) = f + int (count_where (woken_for role) (sl_queue s))"
      using c(4) f(1) by linarith
    ultimately show ?thesis using Some n by (auto simp: t True places_ok_alt slot_counts)
  next
    case False
    have "places_ok (limit r) r s" using assms by (simp add: slots_core_def)
    then show ?thesis using c(2) [of r] c(3) [OF False] False by (simp add: t places_ok_alt slot_counts split: option.splits)
  qed
  then show ?thesis
    using assms c fst_image_cong [OF c(1)] gate_ok_same [of "wake_up role s" s]
    by (simp add: slots_core_def t slot_counts)
qed

lemma wake_up_no_sleeper: "no_sleeper r s \<or> r = role \<Longrightarrow> no_sleeper r (wake_up role s)"
proof (cases "dict_get (sl_free s) role")
  case None
  then show "no_sleeper r s \<or> r = role \<Longrightarrow> ?thesis" by (auto simp: no_sleeper_def wake_up_def)
next
  case (Some f)
  obtain g q where w: "wake role (nat f) (sl_queue s) = (g, q)" by fastforce
  have t: "wake_up role s = s\<lparr>sl_free := dict_set role (int g) (sl_free s), sl_queue := q\<rparr>"
    by (simp add: wake_up_def Some w)
  show "no_sleeper r s \<or> r = role \<Longrightarrow> ?thesis"
    using wake_counts(2,3) [OF w, of r] wake_counts(5) [OF w]
    by (cases "r = role") (auto simp: no_sleeper_def t slot_counts split: option.splits)
qed

lemma core_places: "slots_core limit s \<Longrightarrow> places_ok (limit r) r s"
  by (simp add: slots_core_def)

lemma free_more_core:
  assumes core: "slots_core limit s" and n: "limit role = Some n"
  shows "slots_core (limit(role \<mapsto> n + 1)) (s\<lparr>sl_free := dict_set role (the (dict_get (sl_free s) role) + 1) (sl_free s)\<rparr>)"
    (is "slots_core ?l ?t")
proof -
  have "places_ok (?l r) r ?t" for r
    using core_places [OF core, of r] core_places [OF core, of role] n
    by (cases "limit r") (auto simp: places_ok_alt slot_counts)
  then show ?thesis using core gate_ok_same [of ?t s] by (simp add: slots_core_def slot_counts)
qed

lemma release_core:
  assumes core: "slots_core limit s" and n: "limit role = Some n"
  shows "slots_core (limit(role \<mapsto> n + 1)) (release role s)"
proof (cases "grant_first role (sl_queue s)")
  case None
  then show ?thesis using free_more_core [OF core n] by (simp add: release_def)
next
  case (Some q)
  note g = grant_first_Some [OF Some]
  have "places_ok ((limit(role \<mapsto> n + 1)) r) r (s\<lparr>sl_queue := q\<rparr>)" for r
    using core_places [OF core, of r] n g by (cases "limit r") (auto simp: places_ok_alt slot_counts)
  then show ?thesis
    using core g fst_image_cong [OF g(1)] gate_ok_same [of "s\<lparr>sl_queue := q\<rparr>" s]
    by (simp add: release_def Some slots_core_def slot_counts)
qed

lemma release_no_sleeper: "no_sleeper r s \<Longrightarrow> no_sleeper r (release role s)"
  by (auto simp: no_sleeper_def release_def slot_counts split: option.splits
      dest: grant_first_Some(2,3) [of _ _ _ r] grant_first_None)

lemma drop_waiter_core:
  assumes core: "slots_core limit s" and i: "dict_get (sl_queue s) i = Some (role, w)" and n: "limit role = Some n"
  shows "slots_core (if w = Granted then limit(role \<mapsto> n - 1) else limit) (stop_waiting role (s\<lparr>sl_queue := dict_del i (sl_queue s)\<rparr>))"
    (is "slots_core ?l ?t")
proof -
  have d: "dict_ok (sl_queue s)" using core by (simp add: slots_core_def)
  note c = count_dict_del [OF d i]
  have t: "sl_queue ?t = dict_del i (sl_queue s)" "sl_held ?t = sl_held s" "sl_free ?t = sl_free s"
    "sl_active ?t = sl_active s" "sl_idle ?t = sl_idle s"
    "sl_waiting ?t = sl_waiting s - (if role = ''generation'' then 1 else 0)"
    by (simp_all add: stop_waiting_def)
  have "places_ok (?l r) r ?t" for r
    using core_places [OF core, of r] n c [of "woken_for r"] c [of "waits_for r"]
    by (cases "limit r") (auto simp: places_ok_alt slot_counts t)
  then show ?thesis
    using core c [of "waits_for ''generation''"] gate_ok_same [of ?t s]
    by (auto simp: slots_core_def t slot_counts keys_dict_del)
qed

lemma drop_waiter_no_sleeper:
  assumes "no_sleeper r s" "dict_ok (sl_queue s)" "dict_get (sl_queue s) i = Some (role, w)" "r \<noteq> role"
  shows "no_sleeper r (stop_waiting role (s\<lparr>sl_queue := dict_del i (sl_queue s)\<rparr>))"
  using assms(1,4) count_dict_del [OF assms(2,3), of "woken_for r"] count_dict_del [OF assms(2,3), of "waits_for r"]
  by (auto simp: no_sleeper_def slot_counts stop_waiting_def split: option.split)

lemma waiting_is_limited:
  assumes core: "slots_core limit s" and i: "dict_get (sl_queue s) i = Some (role, w)"
  obtains n where "limit role = Some n"
proof (cases "limit role")
  case None
  then have "count_where (waits_for role) (sl_queue s) = 0"
    using core_places [OF core, of role] by (simp add: places_ok_def slot_counts)
  then show ?thesis using count_dict_del [of "sl_queue s" i "(role, w)" "waits_for role"] core i by (simp add: slots_core_def)
qed (rule that)

text \<open>Each event keeps it.\<close>

lemma Inv_dropped:
  assumes inv: "slots_inv limit s" and i: "dict_get (sl_queue s) i = Some (role, w)"
  shows "\<And>r. r \<noteq> role \<Longrightarrow> no_sleeper r (stop_waiting role (s\<lparr>sl_queue := dict_del i (sl_queue s)\<rparr>))"
  using inv i drop_waiter_no_sleeper unfolding slots_inv_def slots_core_def by blast

lemma upd_back: "limit role = Some n \<Longrightarrow> (limit(role \<mapsto> m))(role := Some n) = limit"
  by auto

lemma wake_up_inv: "slots_core limit t \<Longrightarrow> (\<And>r. r \<noteq> role \<Longrightarrow> no_sleeper r t) \<Longrightarrow> slots_inv limit (wake_up role t)"
  using wake_up_core wake_up_no_sleeper unfolding slots_inv_def by blast

lemma continue_inv:
  assumes inv: "slots_inv limit s" and i: "dict_get (sl_queue s) i = Some (role, Granted)"
  shows "slots_inv limit (hold i role (wake_up role (stop_waiting role (s\<lparr>sl_queue := dict_del i (sl_queue s)\<rparr>))))"
proof -
  let ?t = "stop_waiting role (s\<lparr>sl_queue := dict_del i (sl_queue s)\<rparr>)"
  have core: "slots_core limit s" using inv by (simp add: slots_inv_def)
  obtain n where n: "limit role = Some n" using waiting_is_limited [OF core i] .
  have t: "slots_core (limit(role \<mapsto> n - 1)) (wake_up role ?t)"
    using drop_waiter_core [OF core i n] wake_up_core by simp
  have q: "sl_queue ?t = dict_del i (sl_queue s)" "sl_held (wake_up role ?t) = sl_held s"
    by (auto simp: stop_waiting_def wake_up_def split: option.split prod.split)
  have keys: "fst ` set (sl_queue (wake_up role ?t)) = fst ` set (sl_queue ?t)"
    by (auto simp: wake_up_def split: option.split prod.split intro!: fst_image_cong wake_counts(1)
        dest!: wake_counts(1) fst_image_cong)
  have "i \<in> fst ` set (sl_queue s)" using i by (force dest: map_of_SomeD)
  then have "i \<notin> fst ` set (sl_queue (wake_up role ?t))" "i \<notin> fst ` set (sl_held (wake_up role ?t))"
    using core by (auto simp: keys q keys_dict_del slots_core_def)
  from hold_core [OF t this, of role] have "slots_core limit (hold i role (wake_up role ?t))"
    using n upd_back [of limit role n] by simp
  then show ?thesis using Inv_dropped [OF inv i] wake_up_no_sleeper unfolding slots_inv_def hold_no_sleeper by blast
qed

lemma give_up_inv:
  assumes inv: "slots_inv limit s" and i: "dict_get (sl_queue s) i = Some (role, w)"
  defines "t \<equiv> stop_waiting role (s\<lparr>sl_queue := dict_del i (sl_queue s)\<rparr>)"
  shows "slots_inv limit (wake_up role
    (if w = Granted then t\<lparr>sl_free := dict_set role (the (dict_get (sl_free t) role) + 1) (sl_free t)\<rparr> else t))"
proof -
  have core: "slots_core limit s" using inv by (simp add: slots_inv_def)
  obtain n where n: "limit role = Some n" using waiting_is_limited [OF core i] .
  have c: "slots_core (if w = Granted then limit(role \<mapsto> n - 1) else limit) t"
    using drop_waiter_core [OF core i n] by (simp add: t_def)
  have other: "no_sleeper r t" if "r \<noteq> role" for r using Inv_dropped [OF inv i that] by (simp add: t_def)
  show ?thesis
  proof (cases w)
    case Queued
    then show ?thesis using wake_up_inv [OF _ other] c by simp
  next
    case Granted
    let ?u = "t\<lparr>sl_free := dict_set role (the (dict_get (sl_free t) role) + 1) (sl_free t)\<rparr>"
    have "slots_core limit ?u"
      using free_more_core [of "limit(role \<mapsto> n - 1)" t role "n - 1"] c Granted n upd_back [of limit role n] by simp
    moreover have "no_sleeper r ?u" if "r \<noteq> role" for r
      using other [OF that] that by (auto simp: no_sleeper_def slot_counts split: option.split)
    ultimately show ?thesis using Granted wake_up_inv by simp
  qed
qed

lemma stop_waiting_raised:
  "stop_waiting role (s\<lparr>sl_free := f\<rparr>) = (stop_waiting role s)\<lparr>sl_free := f\<rparr>"
  "sl_free (stop_waiting role s) = sl_free s" "sl_queue (stop_waiting role s) = sl_queue s"
  by (simp_all add: stop_waiting_def)

lemma leave_core:
  assumes core: "slots_core limit s" and i: "dict_get (sl_held s) i = Some role"
  defines "t \<equiv> s\<lparr>sl_held := dict_del i (sl_held s)\<rparr>"
  assumes u_def: "u = (if role = ''generation'' then active_leave t else t)"
  shows "slots_core (limit(role := map_option (\<lambda>n. n - 1) (limit role))) u" (is "slots_core ?l u")
proof -
  have d: "dict_ok (sl_held s)" using core by (simp add: slots_core_def)
  note c = count_dict_del [OF d i]
  have u: "sl_held u = dict_del i (sl_held s)" "sl_queue u = sl_queue s" "sl_free u = sl_free s" "sl_waiting u = sl_waiting s"
    "sl_active u = sl_active s - (if role = ''generation'' then 1 else 0)"
    by (simp_all add: u_def t_def active_leave_def Let_def)
  have "places_ok (?l r) r u" for r
    using core_places [OF core, of r] c [of "\<lambda>(i, r'). r' = r"]
    by (cases "limit r") (auto simp: places_ok_alt slot_counts u)
  moreover have "slot_gate.gate_ok u"
  proof (cases "role = ''generation''")
    case True
    then have "0 < sl_active t" using core c [of "\<lambda>(i, r). r = ''generation''"] by (simp add: slots_core_def slot_counts t_def)
    then show ?thesis
      using True slot_gate.gate_ok_leave [of t] core gate_ok_same [of t s] by (simp add: slots_core_def t_def u_def)
  next
    case False
    then show ?thesis using core gate_ok_same [of t s] by (simp add: slots_core_def t_def u_def)
  qed
  ultimately show ?thesis
    using core c [of "\<lambda>(i, r). r = ''generation''"] by (auto simp: slots_core_def u slot_counts keys_dict_del)
qed

lemma done_inv:
  assumes inv: "slots_inv limit s" and i: "dict_get (sl_held s) i = Some role"
  defines "t \<equiv> s\<lparr>sl_held := dict_del i (sl_held s)\<rparr>"
  defines "u \<equiv> if role = ''generation'' then active_leave t else t"
  shows "slots_inv limit (if dict_get (sl_free u) role = None then u else release role u)"
proof -
  have core: "slots_core limit s" using inv by (simp add: slots_inv_def)
  have c: "slots_core (limit(role := map_option (\<lambda>n. n - 1) (limit role))) u"
    by (rule leave_core [OF core i]) (simp add: u_def t_def)
  have same: "sl_free u = sl_free s" "sl_queue u = sl_queue s" by (simp_all add: u_def t_def active_leave_def Let_def)
  have awake: "no_sleeper r u" for r
    using inv by (force simp: slots_inv_def no_sleeper_def slot_counts same split: option.splits)
  show ?thesis
  proof (cases "limit role")
    case None
    then have "dict_get (sl_free u) role = None" using core_places [OF core, of role] by (simp add: places_ok_alt same)
    moreover have "slots_core limit u" using c None by (metis fun_upd_triv option.map(1))
    ultimately show ?thesis using awake by (simp add: slots_inv_def)
  next
    case (Some n)
    then have "dict_get (sl_free u) role \<noteq> None" using core_places [OF core, of role] by (auto simp: places_ok_alt same)
    moreover have "slots_core limit (release role u)"
      using release_core [of "limit(role \<mapsto> n - 1)" u role "n - 1"] c Some upd_back [of limit role n] by simp
    ultimately show ?thesis using awake release_no_sleeper by (auto simp: slots_inv_def)
  qed
qed

lemma ask_inv:
  assumes inv: "slots_inv limit s" and new: "dict_get (sl_queue s) i = None" "dict_get (sl_held s) i = None"
    and ask: "slot_ask i role s = Some t"
  shows "slots_inv limit t"
proof -
  have core: "slots_core limit s" and awake: "\<And>r. no_sleeper r s" using inv by (simp_all add: slots_inv_def)
  have keys: "i \<notin> fst ` set (sl_queue s)" "i \<notin> fst ` set (sl_held s)" using new by (simp_all add: map_of_eq_None_iff)
  consider (free) "dict_get (sl_free s) role = None" "t = hold i role s"
    | (taken) f where "dict_get (sl_free s) role = Some f" "0 < f" "\<forall>(j, r, w) \<in> set (sl_queue s). r \<noteq> role"
        "t = hold i role (s\<lparr>sl_free := dict_set role (f - 1) (sl_free s)\<rparr>)"
    | (waits) f where "dict_get (sl_free s) role = Some f" "\<not> (0 < f \<and> (\<forall>(j, r, w) \<in> set (sl_queue s). r \<noteq> role))"
        "t = s\<lparr>sl_waiting := sl_waiting s + (if role = ''generation'' then 1 else 0), sl_queue := sl_queue s @ [(i, role, Queued)]\<rparr>"
    using ask by (auto simp: slot_ask_def Let_def split: if_splits option.splits)
  then show ?thesis
  proof cases
    case free
    then have "limit role = None" using core_places [OF core, of role] by (auto simp: places_ok_alt split: option.splits)
    then show ?thesis using hold_core [OF core keys, of role] free awake by (simp add: slots_inv_def fun_upd_idem)
  next
    case taken
    let ?u = "s\<lparr>sl_free := dict_set role (f - 1) (sl_free s)\<rparr>"
    obtain n where n: "limit role = Some n" using core_places [OF core, of role] taken(1) by (cases "limit role") (auto simp: places_ok_alt)
    have none: "queued role s = 0" using taken(3) by (auto simp: queued_def filter_empty_conv)
    have "places_ok ((limit(role \<mapsto> n - 1)) r) r ?u" for r
      using core_places [OF core, of r] taken(1,2) n by (cases "limit r") (auto simp: places_ok_alt slot_counts)
    then have u: "slots_core (limit(role \<mapsto> n - 1)) ?u"
      using core gate_ok_same [of ?u s] by (simp add: slots_core_def slot_counts)
    have "no_sleeper r ?u" for r
      using awake [of r] none by (auto simp: no_sleeper_def slot_counts split: option.split)
    then show ?thesis
      using hold_core [OF u, of i role] keys taken(4) n upd_back [of limit role n] by (simp add: slots_inv_def)
  next
    case waits
    obtain n where n: "limit role = Some n" using core_places [OF core, of role] waits(1) by (cases "limit role") (auto simp: places_ok_alt)
    have "places_ok (limit r) r t" for r
      using core_places [OF core, of r] n waits(3) by (cases "limit r") (auto simp: places_ok_alt slot_counts)
    moreover have "no_sleeper r t" for r
    proof (cases "r = role")
      case True
      have "granted role s \<noteq> 0 \<or> \<not> 0 < f"
        using awake [of role] waits(1,2) by (auto simp: no_sleeper_def queued_def filter_empty_conv)
      then show ?thesis using waits(1,3) True by (auto simp: no_sleeper_def slot_counts)
    next
      case False
      then show ?thesis using awake [of r] waits(3) by (auto simp: no_sleeper_def slot_counts split: option.split)
    qed
    ultimately show ?thesis
      using core keys gate_ok_same [of t s] waits(3) by (auto simp: slots_inv_def slots_core_def slot_counts)
  qed
qed

lemma stop_waiting_awake:
  "stop_waiting role (wake_up role (if w = Granted then s\<lparr>sl_free := f\<rparr> else s)) =
   wake_up role (if w = Granted then (stop_waiting role s)\<lparr>sl_free := f\<rparr> else stop_waiting role s)"
  by (simp add: stop_waiting_wake_up stop_waiting_raised)

lemma slot_step_inv:
  assumes inv: "slots_inv limit s" and step: "slot_step e s = Some t"
  shows "slots_inv limit t"
proof (cases e)
  case (Ask i role)
  show ?thesis
  proof (cases "dict_get (sl_queue s) i = None \<and> dict_get (sl_held s) i = None \<and> slot_ask i role s \<noteq> None")
    case True
    then have "slot_ask i role s = Some t" using step Ask by (auto simp: slot_step_def)
    then show ?thesis using True ask_inv [OF inv] by blast
  next
    case False
    then have "t = s" using step Ask by (auto simp: slot_step_def split: if_splits)
    then show ?thesis using inv by simp
  qed
next
  case (Continue i)
  then show ?thesis
    using continue_inv [OF inv] step
    by (auto simp: slot_step_def waiter_def stop_waiting_wake_up split: option.splits prod.splits wait_state.splits)
next
  case (GiveUp i)
  then obtain role w where i: "dict_get (sl_queue s) i = Some (role, w)"
    using step by (auto simp: slot_step_def waiter_def split: option.splits)
  then show ?thesis
    using give_up_inv [OF inv i] step GiveUp
    by (cases w) (simp_all add: slot_step_def waiter_def Let_def stop_waiting_wake_up stop_waiting_raised)
next
  case (Done i)
  then show ?thesis
    using done_inv [OF inv, of i] step by (auto simp: slot_step_def Let_def split: option.splits)
qed

definition limit_of :: "runtime_config option \<Rightarrow> string \<Rightarrow> int option" where
  "limit_of c = dict_get (sl_free (slots_init c))"

interpretation admission: invariant_of
  "\<lambda>s. s = slots_init c \<and> (\<forall>n \<in> ran (limit_of c). 0 \<le> n)" "\<lambda>s t. \<exists>e. slot_step e s = Some t" "slots_inv (limit_of c)" for c
proof unfold_locales
  fix s assume s: "s = slots_init c \<and> (\<forall>n \<in> ran (limit_of c). 0 \<le> n)"
  have "0 \<le> n" if "limit_of c role = Some n" for role n using s that by (auto simp: ran_def)
  then show "slots_inv (limit_of c) s"
    using s by (auto simp: slots_inv_def slots_core_def places_ok_alt no_sleeper_def slot_counts limit_of_def slots_init_def
      slot_gate.gate_ok_def split: option.split)
qed (use slot_step_inv in blast)

lemma map_of_snd: "distinct (map fst xs) \<Longrightarrow> (n, r) \<in> set xs \<Longrightarrow> dict_get (map (\<lambda>(n, r). (n, f r)) xs) n = Some (f r)"
  by (induction xs) force+

lemma enabled_roles_distinct: "dict_ok (enabled_roles c)"
  by (auto simp: enabled_roles_def role_items_def split: option.splits)

lemma accepted_limits:
  assumes "load_config read_yaml path = Inr c"
  shows "\<forall>n \<in> ran (limit_of (Some c)). 0 \<le> n"
proof -
  have "0 \<le> n" if "(role, n) \<in> set (map (\<lambda>(n, r). (n, rl_max_concurrent_requests r)) (enabled_roles c))" for role n
    using that load_accepts(3) [OF assms] by (fastforce simp: enabled_roles_def role_fields_ok_def)
  then show ?thesis
    by (auto simp: limit_of_def slots_init_def ran_def dest: map_of_SomeD)
qed

text \<open>
  C6. However requests come, are thrown away, wait, give up and finish, no role runs more than its
  configured concurrency; nobody sleeps beside a free place unless a woken waiter is yet to run; and the
  idle event and the count embeddings are throttled by say exactly what runs and waits.
\<close>

theorem admission_is_exact:
  assumes "load_config read_yaml path = Inr c" "(role, r) \<in> set (enabled_roles c)"
    and "(\<lambda>s t. \<exists>e. slot_step e s = Some t)\<^sup>*\<^sup>* (slots_init (Some c)) s"
  shows "int (holding role s + granted role s) \<le> rl_max_concurrent_requests r \<and>
    (int (holding role s) < rl_max_concurrent_requests r \<and> granted role s = 0 \<longrightarrow> queued role s = 0) \<and>
    (sl_idle s \<longleftrightarrow> holding ''generation'' s = 0) \<and> sl_waiting s = int (queued ''generation'' s)"
proof -
  have inv: "slots_inv (limit_of (Some c)) s"
    using admission.reachable_inv [OF _ assms(3)] accepted_limits [OF assms(1)] by blast
  have l: "limit_of (Some c) role = Some (rl_max_concurrent_requests r)"
    using assms(2) by (simp add: limit_of_def slots_init_def map_of_snd enabled_roles_distinct)
  have "places_ok (limit_of (Some c) role) role s" "no_sleeper role s"
    using inv by (simp_all add: slots_inv_def core_places)
  then show ?thesis
    using inv by (auto simp: l places_ok_alt no_sleeper_def slots_inv_def slots_core_def slot_gate.gate_ok_def)
qed

definition narrow_runtime :: runtime_config where
  "narrow_runtime = plain_runtime\<lparr>rt_roles := (rt_roles plain_runtime)\<lparr>ro_generation := plain_role\<lparr>rl_max_concurrent_requests := 1\<rparr>\<rparr>\<rparr>"

text \<open>Two asked, one place: the second waits, is woken when the first is done, and gives up.\<close>

fun run_slots :: "slot_event list \<Rightarrow> slots \<Rightarrow> slots option" where
  "run_slots [] s = Some s"
| "run_slots (e # es) s = (case slot_step e s of None \<Rightarrow> None | Some t \<Rightarrow> run_slots es t)"

lemma run_slots_reaches: "run_slots es s = Some t \<Longrightarrow> (\<lambda>s t. \<exists>e. slot_step e s = Some t)\<^sup>*\<^sup>* s t"
  by (induction es arbitrary: s) (auto split: option.splits intro: converse_rtranclp_into_rtranclp)

definition demo_events :: "slot_event list" where
  "demo_events = [Ask 0 ''generation'', Ask 1 ''generation'', Done 0]"

lemma admission_is_exact_witness:
  "\<exists>s. run_slots demo_events (slots_init (Some narrow_runtime)) = Some s \<and> int (holding ''generation'' s + granted ''generation'' s) \<le> 1 \<and>
     sl_idle s \<and> sl_waiting s = 1"
proof -
  have load: "load_config (\<lambda>_. Mapping narrow_runtime) ''r'' = Inr narrow_runtime" by code_simp
  have role: "(''generation'', ro_generation (rt_roles narrow_runtime)) \<in> set (enabled_roles narrow_runtime)" by code_simp
  have "map_option (\<lambda>s. (holding ''generation'' s, queued ''generation'' s)) (run_slots demo_events (slots_init (Some narrow_runtime))) = Some (0, 1)"
    by code_simp
  then obtain s where s: "run_slots demo_events (slots_init (Some narrow_runtime)) = Some s" "holding ''generation'' s = 0"
    "queued ''generation'' s = 1" by auto
  have "rl_max_concurrent_requests (ro_generation (rt_roles narrow_runtime)) = 1" by code_simp
  then show ?thesis using admission_is_exact [OF load role run_slots_reaches [OF s(1)]] s by auto
qed

end
