(* ===== verification/ApplianceRoutes.thy ===== *)
theory ApplianceRoutes
  imports ApplianceApi "HOL-Library.Sublist"
begin

text \<open>
  \<open>lazarus/appliance/api.py\<close>, \<open>build_app\<close>: readiness, the pausing and resuming of generation and the
  OpenAI surface. What the engine does of a call is an \<open>outcome\<close>; \<open>shown\<close> is Python's \<open>repr\<close> of a
  value and \<open>dumps\<close> is \<open>json.dumps\<close>. The place a request holds is the machine of \<open>ApplianceApi\<close>;
  here is what decides a request before and after it has one.
\<close>

datatype 'a outcome = Returned 'a | Raised string | Interrupted

section \<open>Answers\<close>

record api_reply =
  ar_status :: int
  ar_body :: json
  ar_retry_after :: "string option"

definition json_reply :: "int \<Rightarrow> json \<Rightarrow> api_reply" where
  "json_reply status body = \<lparr>ar_status = status, ar_body = body, ar_retry_after = None\<rparr>"

definition api_error :: "int \<Rightarrow> string \<Rightarrow> string \<Rightarrow> string option \<Rightarrow> api_reply" where
  "api_error status message error_type err_code =
     json_reply status (JObj [(''error'', JObj ([(''message'', JStr message), (''type'', JStr error_type)] @
       given_text ''code'' err_code))])"

definition model_not_found :: "(json \<Rightarrow> string) \<Rightarrow> json \<Rightarrow> api_reply" where
  "model_not_found shown model =
     api_error 404 (''model '' @ shown model @ '' is not served by this role'') ''invalid_request_error'' (Some ''model_not_found'')"

definition not_ready :: api_reply where
  "not_ready = api_error 503 ''runtime is not ready'' ''server_error'' None"

definition message_content :: "json \<Rightarrow> json" where
  "message_content message = (if is_obj message then obj_get message ''content'' else JNull)"

text \<open>A value of a content part that bears a url which is not a \<open>data:\<close> URI.\<close>

definition remote_url :: "json \<Rightarrow> bool" where
  "remote_url v =
     (case v of JObj kvs \<Rightarrow>
        (case dict_get kvs ''url'' of
           None \<Rightarrow> False
         | Some url \<Rightarrow> \<not> (case url of JStr s \<Rightarrow> prefix ''data:'' s | _ \<Rightarrow> False))
      | _ \<Rightarrow> False)"

definition remote_part :: "json \<Rightarrow> bool" where
  "remote_part part = (case part of JObj kvs \<Rightarrow> list_ex (remote_url \<circ> snd) kvs | _ \<Rightarrow> False)"

definition remote_media_error :: "json \<Rightarrow> api_reply option" where
  "remote_media_error messages =
     (case messages of
        JArr ms \<Rightarrow>
          if list_ex (\<lambda>m. case message_content m of JArr parts \<Rightarrow> list_ex remote_part parts | _ \<Rightarrow> False) ms
          then Some (api_error 400 ''remote media URLs are not allowed; send base64 data URIs'' ''invalid_request_error'' None)
          else None
      | _ \<Rightarrow> None)"

definition unsupported_generation_content_error :: "json \<Rightarrow> api_reply option" where
  "unsupported_generation_content_error messages =
     (case messages of
        JArr ms \<Rightarrow>
          if list_ex (\<lambda>m. case message_content m of JArr parts \<Rightarrow> True | _ \<Rightarrow> False) ms
          then Some (api_error 400 ''the configured generation role accepts text content only'' ''invalid_request_error''
            (Some ''unsupported_modality''))
          else None
      | _ \<Rightarrow> None)"

section \<open>Readiness\<close>

definition role_ready :: "backend_view \<Rightarrow> string \<Rightarrow> bool" where
  "role_ready b name \<longleftrightarrow> ri_status (bv_role b name) = ''healthy''"

definition is_ready :: "runtime_config option \<Rightarrow> machine \<Rightarrow> backend_view \<Rightarrow> string option \<Rightarrow> bool" where
  "is_ready c m b role =
     (case c of
        None \<Rightarrow> False
      | Some c \<Rightarrow>
          sm_state m = ''healthy'' \<and>
          \<not> (bv_paused b \<and> (role = Some ''generation'' \<or> role = None \<and> rl_enabled (ro_generation (rt_roles c)))) \<and>
          (case role of Some name \<Rightarrow> role_ready b name | None \<Rightarrow> list_all (\<lambda>(n, r). role_ready b n) (enabled_roles c)))"

definition health_live :: "machine \<Rightarrow> json" where
  "health_live m = JObj [(''status'', JStr ''alive''), (''state'', JStr (sm_state m))]"

definition health_ready :: "runtime_config option \<Rightarrow> machine \<Rightarrow> backend_view \<Rightarrow> api_reply" where
  "health_ready c m b =
     (let ready = is_ready c m b None in
      json_reply (if ready then 200 else 503)
        (JObj [(''ready'', JBool ready), (''state'', JStr (sm_state m)),
          (''required_roles'', JObj (case c of None \<Rightarrow> [] | Some c \<Rightarrow>
             map (\<lambda>(n, r). (n, JBool (role_ready b n))) (enabled_roles c)))]))"

definition health_entry :: "runtime_config option \<Rightarrow> backend_view \<Rightarrow> string \<Rightarrow> json" where
  "health_entry c b name =
     (let info = bv_role b name in
      JObj ([(''status'', JStr (ri_status info)), (''model_loaded'', JBool (role_ready b name))] @
        (case config_role c name of None \<Rightarrow> [] | Some r \<Rightarrow> given_text ''served_model_name'' (rl_served_model_name r)) @
        given_text ''error_code'' (ri_error_code info) @
        (if name = ''embedding''
         then (case ri_modalities info of None \<Rightarrow> [] | Some ms \<Rightarrow> if ms = [] then [] else [(''modalities'', texts ms)]) else [])))"

definition health :: "string \<Rightarrow> runtime_config option \<Rightarrow> machine \<Rightarrow> backend_view \<Rightarrow> json" where
  "health runtime_id c m b =
     JObj [(''status'', JStr (sm_state m)), (''state'', JStr (sm_state m)), (''runtime_id'', JStr runtime_id),
       (''roles'', JObj (map (\<lambda>n. (n, health_entry c b n))
          (filter (\<lambda>n. c = None \<or> config_role c n \<noteq> None) [''generation'', ''embedding''])))]"

definition list_models :: "runtime_config option \<Rightarrow> backend_view \<Rightarrow> json" where
  "list_models c b =
     JObj [(''object'', JStr ''list''), (''data'', JArr
       (map (\<lambda>(alias, role). JObj [(''id'', JStr alias), (''object'', JStr ''model''), (''owned_by'', JStr ''sovereign'')])
         (filter (\<lambda>(alias, role). role_ready b role) (case c of None \<Rightarrow> [] | Some c \<Rightarrow> alias_to_role c))))]"

text \<open>\<open>enforce_api_key\<close>: the answer instead of the route's, if any.\<close>

definition enforce_api_key :: "string option \<Rightarrow> string \<Rightarrow> string option \<Rightarrow> api_reply option" where
  "enforce_api_key key path authorization =
     (if \<not> blank_text key \<and> prefix ''/v1/'' path \<and> authorization \<noteq> Some (''Bearer '' @ the key)
      then Some (api_error 401 ''invalid API key'' ''authentication_error'' None) else None)"

section \<open>Pausing and resuming generation\<close>

text \<open>
  \<open>managed_generation\<close>: what the three manifest writes, the wait for the admitted requests and the
  engine's own pause or resume come to, the last with the backend's flag after it. The answer is
  \<open>None\<close> where the request itself is interrupted; beside it stands the flag it leaves.
\<close>

record managed_outcomes =
  mo_write :: "unit outcome"
  mo_drain :: "unit outcome"
  mo_engine :: "bool outcome"
  mo_write_after :: "unit outcome"
  mo_write_failed :: "unit outcome"

fun done_ok :: "'a outcome \<Rightarrow> bool" where
  "done_ok (Returned a) = True"
| "done_ok (Raised e) = False"
| "done_ok Interrupted = False"

definition first_failure :: "unit outcome list \<Rightarrow> unit outcome" where
  "first_failure os = (case find (\<lambda>o'. \<not> done_ok o') os of None \<Rightarrow> Returned () | Some e \<Rightarrow> e)"

definition engine_acknowledges :: "bool \<Rightarrow> bool outcome \<Rightarrow> unit outcome" where
  "engine_acknowledges resume e =
     (case e of
        Returned paused \<Rightarrow> if paused = (\<not> resume) then Returned ()
          else Raised (if resume then ''engine resume was not acknowledged'' else ''engine pause was not acknowledged'')
      | Raised m \<Rightarrow> Raised m
      | Interrupted \<Rightarrow> Interrupted)"

definition managed_generation ::
    "bool \<Rightarrow> string option \<Rightarrow> string option \<Rightarrow> string list \<Rightarrow> managed_outcomes \<Rightarrow> bool \<Rightarrow> bool \<times> api_reply option" where
  "managed_generation resume key authorization chunks os paused =
     (if blank_text key \<or> authorization \<noteq> Some (''Bearer '' @ the key)
      then (paused, Some (api_error 401 ''invalid API key'' ''authentication_error'' None))
      else if list_ex (\<lambda>chunk. chunk \<noteq> []) chunks
      then (paused, Some (api_error 400 ''request body is not allowed'' ''invalid_request_error'' None))
      else case first_failure ([mo_write os] @ (if resume then [] else [mo_drain os]) @
          [engine_acknowledges resume (mo_engine os), mo_write_after os]) of
        Returned _ \<Rightarrow> (\<not> resume, Some (json_reply 200 (JObj [(if resume then ''resumed'' else ''quiesced'', JBool True)])))
      | Raised e \<Rightarrow> (True,
          if mo_write_failed os = Interrupted then None
          else Some (api_error 503 (''engine '' @ (if resume then ''resume'' else ''quiesce'') @ '' was not acknowledged'') ''server_error''
            (Some (if resume then ''ENGINE_RESUME_FAILED'' else ''ENGINE_QUIESCE_FAILED''))))
      | Interrupted \<Rightarrow> (True, None))"

section \<open>The OpenAI surface\<close>

text \<open>\<open>name in body\<close>, and the first field missing, where a group of names is any of them.\<close>

definition in_body :: "json \<Rightarrow> string \<Rightarrow> py_error + bool" where
  "in_body body name =
     (case body of
        JObj kvs \<Rightarrow> Inr (dict_get kvs name \<noteq> None)
      | JArr vs \<Rightarrow> Inr (list_ex (py_eq (JStr name)) vs)
      | JStr s \<Rightarrow> Inr (sublist name s)
      | _ \<Rightarrow> Inl (TypeError ''argument is not iterable''))"

fun any_in_body :: "json \<Rightarrow> string list \<Rightarrow> py_error + bool" where
  "any_in_body body [] = Inr False"
| "any_in_body body (n # ns) = and_then (in_body body n) (\<lambda>b. if b then Inr True else any_in_body body ns)"

fun missing_field :: "json \<Rightarrow> string list list \<Rightarrow> py_error + string list option" where
  "missing_field body [] = Inr None"
| "missing_field body (names # groups) =
     and_then (any_in_body body names) (\<lambda>b. if b then missing_field body groups else Inr (Some names))"

definition alias_role :: "runtime_config option \<Rightarrow> json \<Rightarrow> py_error + string option" where
  "alias_role c model =
     (case model of
        JArr _ \<Rightarrow> Inl (TypeError ''unhashable type: list'')
      | JObj _ \<Rightarrow> Inl (TypeError ''unhashable type: dict'')
      | JStr s \<Rightarrow> Inr (case c of None \<Rightarrow> None | Some c \<Rightarrow> dict_get (alias_to_role c) s)
      | _ \<Rightarrow> Inr None)"

definition route ::
    "(json \<Rightarrow> string) \<Rightarrow> runtime_config option \<Rightarrow> machine \<Rightarrow> backend_view \<Rightarrow> json \<Rightarrow> string \<Rightarrow> string list list \<Rightarrow>
     py_error + api_reply option" where
  "route shown c m b body expected_role required_fields =
     and_then (missing_field body required_fields) (\<lambda>missing. case missing of
       Some names \<Rightarrow> Inr (Some (api_error 400 (join_with '' or '' names @ '' is required'') ''invalid_request_error'' None))
     | None \<Rightarrow>
         if \<not> is_obj body then Inl (TypeError ''no attribute get'')
         else let model = obj_get body ''model'' in
           and_then (alias_role c model) (\<lambda>role.
             if role \<noteq> Some expected_role then Inr (Some (model_not_found shown model))
             else if \<not> is_ready c m b (Some expected_role) then Inr (Some not_ready) else Inr None))"

datatype wire = Parsed json | NotJson | Undecodable

text \<open>What is decided before a place is asked for: the answer, or the body that goes on.\<close>

definition openai_gate ::
    "(json \<Rightarrow> string) \<Rightarrow> runtime_config option \<Rightarrow> machine \<Rightarrow> backend_view \<Rightarrow> string \<Rightarrow> string \<Rightarrow> string list list \<Rightarrow> wire \<Rightarrow>
     py_error + (api_reply + json)" where
  "openai_gate shown c m b path role required_fields w =
     (case w of
        NotJson \<Rightarrow> Inr (Inl (api_error 400 ''request body must be JSON'' ''invalid_request_error'' None))
      | Undecodable \<Rightarrow> Inl (ValueError ''not utf-8'')
      | Parsed body \<Rightarrow>
          and_then (route shown c m b body role required_fields) (\<lambda>denied.
            let content = (if role = ''generation'' \<and> suffix ''/chat/completions'' path
                  then unsupported_generation_content_error (obj_get body ''messages'') else None);
                media = (if suffix ''/embeddings'' path \<and> in_body body ''messages'' = Inr True
                  then remote_media_error (obj_get body ''messages'') else None) in
            Inr (case (denied, content, media) of
                (Some r, _) \<Rightarrow> Inl r
              | (None, Some r, _) \<Rightarrow> Inl r
              | (None, None, Some r) \<Rightarrow> Inl r
              | (None, None, None) \<Rightarrow> Inr body)))"

datatype admitted = Admitted | Throttled | Abandoned

datatype engine_call = Forward | ChatStream | Chat | Completion | Embeddings

definition engine_call_of :: "bool \<Rightarrow> string \<Rightarrow> json \<Rightarrow> engine_call" where
  "engine_call_of has_client path body =
     (if has_client then Forward
      else if suffix ''chat/completions'' path \<and> truthy (obj_get body ''stream'') then ChatStream
      else if suffix ''chat/completions'' path then Chat
      else if suffix ''/completions'' path then Completion
      else Embeddings)"

datatype endpoint_answer =
    Replied api_reply
  | Served engine_call json
  | Dropped

text \<open>
  \<open>openai_endpoint\<close>: the answer, the metric's outcome and the call made of the engine. \<open>m'\<close> and \<open>b'\<close>
  are the machine and the backend once the place is held and the roles are observed afresh.
\<close>

definition throttled_reply :: api_reply where
  "throttled_reply = \<lparr>ar_status = 503, ar_body = JObj [(''error'', JObj [
     (''message'', JStr ''embedding requests throttled under generation pressure''), (''type'', JStr ''server_error'')])],
     ar_retry_after = Some ''1''\<rparr>"

definition engine_error_reply :: "string \<Rightarrow> api_reply" where
  "engine_error_reply e = api_error 500 (''engine error: '' @ e) ''server_error'' None"

record endpoint_result =
  en_answer :: endpoint_answer
  en_outcome :: "string option"
  en_called :: "engine_call option"

definition with_place ::
    "runtime_config option \<Rightarrow> string \<Rightarrow> string \<Rightarrow> json \<Rightarrow> unit outcome \<Rightarrow> machine \<Rightarrow> backend_view \<Rightarrow> bool \<Rightarrow>
     (engine_call \<Rightarrow> json outcome) \<Rightarrow> endpoint_result" where
  "with_place c path role body observed m' b' has_client engine =
     (case observed of
        Raised e \<Rightarrow> \<lparr>en_answer = Replied (engine_error_reply e), en_outcome = Some ''error'', en_called = None\<rparr>
      | Interrupted \<Rightarrow> \<lparr>en_answer = Dropped, en_outcome = None, en_called = None\<rparr>
      | Returned _ \<Rightarrow>
          if \<not> is_ready c m' b' (Some role) then \<lparr>en_answer = Replied not_ready, en_outcome = None, en_called = None\<rparr>
          else let call = engine_call_of has_client path body in
            case engine call of
              Returned r \<Rightarrow> \<lparr>en_answer = Served call r, en_outcome = Some ''ok'', en_called = Some call\<rparr>
            | Raised e \<Rightarrow> \<lparr>en_answer = Replied (engine_error_reply e), en_outcome = Some ''error'', en_called = Some call\<rparr>
            | Interrupted \<Rightarrow> \<lparr>en_answer = Dropped, en_outcome = None, en_called = Some call\<rparr>)"

definition openai_endpoint ::
    "(json \<Rightarrow> string) \<Rightarrow> runtime_config option \<Rightarrow> machine \<Rightarrow> backend_view \<Rightarrow> string \<Rightarrow> string \<Rightarrow> string list list \<Rightarrow> wire \<Rightarrow>
     admitted \<Rightarrow> unit outcome \<Rightarrow> machine \<Rightarrow> backend_view \<Rightarrow> bool \<Rightarrow> (engine_call \<Rightarrow> json outcome) \<Rightarrow> py_error + endpoint_result" where
  "openai_endpoint shown c m b path role required_fields w admitted observed m' b' has_client engine =
     and_then (openai_gate shown c m b path role required_fields w) (\<lambda>gate. Inr (case gate of
       Inl reply \<Rightarrow> \<lparr>en_answer = Replied reply, en_outcome = None, en_called = None\<rparr>
     | Inr body \<Rightarrow>
         (case admitted of
            Throttled \<Rightarrow> \<lparr>en_answer = Replied throttled_reply, en_outcome = Some ''throttled'', en_called = None\<rparr>
          | Abandoned \<Rightarrow> \<lparr>en_answer = Dropped, en_outcome = None, en_called = None\<rparr>
          | Admitted \<Rightarrow> with_place c path role body observed m' b' has_client engine)))"

text \<open>The frames of a stream the appliance makes itself.\<close>

definition sse_frame :: "(json \<Rightarrow> string) \<Rightarrow> json \<Rightarrow> string" where
  "sse_frame dumps chunk =
     (case chunk of
        JStr s \<Rightarrow> if suffix [newline, newline] s then s else s @ [newline, newline]
      | _ \<Rightarrow> ''data: '' @ dumps chunk @ [newline, newline])"

definition sse :: "(json \<Rightarrow> string) \<Rightarrow> json list \<Rightarrow> string" where
  "sse dumps chunks = concat (map (sse_frame dumps) chunks) @ ''data: [DONE]'' @ [newline, newline]"

text \<open>The routes: path, role and required fields.\<close>

definition openai_routes :: "(string \<times> string \<times> string list list) list" where
  "openai_routes = [
     (''/v1/chat/completions'', ''generation'', [[''model''], [''messages'']]),
     (''/v1/completions'', ''generation'', [[''model''], [''prompt'']]),
     (''/v1/embeddings'', ''embedding'', [[''model''], [''input'', ''messages'']])]"

section \<open>Generation stays shut unless the engine says it runs\<close>

lemma first_failure_ok: "first_failure os = Returned () \<longleftrightarrow> list_all done_ok os"
proof (cases "find (\<lambda>o'. \<not> done_ok o') os")
  case None
  then have "list_all done_ok os" by (simp add: find_None_iff list_all_iff)
  then show ?thesis using None by (simp add: first_failure_def)
next
  case (Some e)
  then have "\<not> done_ok e" "e \<in> set os" by (auto simp: find_Some_iff)
  moreover from this have "\<not> list_all done_ok os" by (auto simp: list_all_iff)
  ultimately show ?thesis using Some by (cases e) (simp_all add: first_failure_def)
qed

lemma acknowledged: "done_ok (engine_acknowledges resume e) \<longleftrightarrow> e = Returned (\<not> resume)"
  by (cases e) (auto simp: engine_acknowledges_def)

text \<open>
  C17. Pausing and resuming fail closed: the flag that keeps generation shut is taken away only for an
  authorised resume that the engine acknowledged and the manifest shows; an answer of 200 says the engine
  is as asked; every other end of an authorised request leaves generation shut, and no generation request
  is ready while it is.
\<close>

theorem generation_fails_closed:
  assumes "managed_generation resume key authorization chunks os paused = (paused', answer)"
  shows "(paused \<and> \<not> paused' \<longrightarrow> resume \<and> \<not> blank_text key \<and> authorization = Some (''Bearer '' @ the key) \<and>
       mo_engine os = Returned False \<and> done_ok (mo_write_after os)) \<and>
    ((\<exists>r. answer = Some r \<and> ar_status r = 200) \<longrightarrow> mo_engine os = Returned (\<not> resume) \<and> paused' = (\<not> resume)) \<and>
    (answer = None \<or> (\<exists>r. answer = Some r \<and> ar_status r = 503) \<longrightarrow> paused') \<and>
    (paused' \<longrightarrow> \<not> is_ready c m (b\<lparr>bv_paused := paused'\<rparr>) (Some ''generation''))"
proof -
  define out where "out = first_failure ([mo_write os] @ (if resume then [] else [mo_drain os]) @
      [engine_acknowledges resume (mo_engine os), mo_write_after os])"
  have ok: "mo_engine os = Returned (\<not> resume) \<and> done_ok (mo_write_after os)" if "out = Returned ()"
    using that unfolding out_def first_failure_ok by (simp add: acknowledged)
  have "paused' \<longrightarrow> \<not> is_ready c m (b\<lparr>bv_paused := paused'\<rparr>) (Some ''generation'')"
    by (simp add: is_ready_def split: option.split)
  moreover have "(paused \<and> \<not> paused' \<longrightarrow> resume \<and> \<not> blank_text key \<and> authorization = Some (''Bearer '' @ the key) \<and>
       mo_engine os = Returned False \<and> done_ok (mo_write_after os)) \<and>
    ((\<exists>r. answer = Some r \<and> ar_status r = 200) \<longrightarrow> mo_engine os = Returned (\<not> resume) \<and> paused' = (\<not> resume)) \<and>
    (answer = None \<or> (\<exists>r. answer = Some r \<and> ar_status r = 503) \<longrightarrow> paused')"
    using assms [unfolded managed_generation_def, folded out_def] ok
    by (cases out) (auto simp: api_error_def json_reply_def split: if_splits)
  ultimately show ?thesis by blast
qed

definition all_well :: "bool \<Rightarrow> managed_outcomes" where
  "all_well paused = \<lparr>mo_write = Returned (), mo_drain = Returned (), mo_engine = Returned paused, mo_write_after = Returned (),
     mo_write_failed = Returned ()\<rparr>"

lemma generation_fails_closed_witness:
  "(\<exists>answer. managed_generation False (Some ''k'') (Some ''Bearer k'') [] (all_well False) False = (True, Some answer) \<and> ar_status answer = 503) \<and>
   \<not> is_ready (Some plain_runtime) machine_init (demo_view\<lparr>bv_paused := True\<rparr>) (Some ''generation'')"
proof -
  have "map_option ar_status (snd (managed_generation False (Some ''k'') (Some ''Bearer k'') [] (all_well False) False)) = Some 503"
    by code_simp
  then obtain p answer where m: "managed_generation False (Some ''k'') (Some ''Bearer k'') [] (all_well False) False = (p, Some answer)"
    and s: "ar_status answer = 503"
    by (cases "managed_generation False (Some ''k'') (Some ''Bearer k'') [] (all_well False) False") auto
  note f = generation_fails_closed [OF m, of "Some plain_runtime" machine_init demo_view]
  have p using f s by blast
  then show ?thesis using m s f by auto
qed

section \<open>What reaches the engine\<close>

lemma missing_field_None:
  "missing_field (JObj kvs) groups = Inr None \<Longrightarrow> \<forall>names \<in> set groups. \<exists>n \<in> set names. dict_get kvs n \<noteq> None"
proof (induction groups)
  case (Cons names groups)
  have any: "any_in_body (JObj kvs) ns = Inr (\<exists>n \<in> set ns. dict_get kvs n \<noteq> None)" for ns
    by (induction ns) (simp_all add: in_body_def del: not_None_eq)
  show ?case using Cons by (auto simp: any split: if_splits)
qed simp

definition remote_free :: "json \<Rightarrow> bool" where
  "remote_free messages \<longleftrightarrow> remote_media_error messages = None"

lemma gate_passes:
  assumes "openai_gate shown c m b path role required_fields w = Inr (Inr body)"
  shows "w = Parsed body \<and> route shown c m b body role required_fields = Inr None \<and>
    (role = ''generation'' \<and> suffix ''/chat/completions'' path \<longrightarrow> unsupported_generation_content_error (obj_get body ''messages'') = None) \<and>
    (suffix ''/embeddings'' path \<and> in_body body ''messages'' = Inr True \<longrightarrow> remote_media_error (obj_get body ''messages'') = None)"
proof -
  obtain d where w: "w = Parsed d" using assms by (cases w) (simp_all add: openai_gate_def)
  obtain denied where r: "route shown c m b d role required_fields = Inr denied"
    using assms by (auto simp: openai_gate_def w and_then_Inr)
  define content where "content = (if role = ''generation'' \<and> suffix ''/chat/completions'' path
    then unsupported_generation_content_error (obj_get d ''messages'') else None)"
  define media where "media = (if suffix ''/embeddings'' path \<and> in_body d ''messages'' = Inr True
    then remote_media_error (obj_get d ''messages'') else None)"
  have "denied = None \<and> content = None \<and> media = None \<and> d = body"
    using assms [unfolded openai_gate_def w wire.case r and_then_simps Let_def, folded content_def media_def]
    by (cases denied; cases content; cases media) simp_all
  then show ?thesis using w r unfolding content_def media_def by metis
qed

lemma route_passes:
  assumes "route shown c m b body role required_fields = Inr None"
  obtains kvs cfg s where "body = JObj kvs" "c = Some cfg" "dict_get kvs ''model'' = Some (JStr s)" "dict_get (alias_to_role cfg) s = Some role"
    "is_ready c m b (Some role)" "\<forall>names \<in> set required_fields. \<exists>n \<in> set names. dict_get kvs n \<noteq> None"
proof -
  have none: "missing_field body required_fields = Inr None" and obj: "is_obj body"
    and role: "alias_role c (obj_get body ''model'') = Inr (Some role)" and ready: "is_ready c m b (Some role)"
    using assms by (auto simp: route_def Let_def and_then_Inr split: option.splits if_splits)
  obtain kvs where b: "body = JObj kvs" using obj by (cases body) auto
  obtain cfg s where "c = Some cfg" "obj_get body ''model'' = JStr s" "dict_get (alias_to_role cfg) s = Some role"
    using role by (auto simp: alias_role_def split: json.splits option.splits)
  moreover from this have "dict_get kvs ''model'' = Some (JStr s)"
    by (auto simp: obj_get_def b split: option.splits)
  ultimately show ?thesis using that [OF b] ready missing_field_None none b by blast
qed

lemma with_place_calls:
  assumes "en_called (with_place c path role body observed m' b' has_client engine) = Some call"
  shows "is_ready c m' b' (Some role) \<and> call = engine_call_of has_client path body \<and> observed = Returned ()"
  using assms by (auto simp: with_place_def Let_def split: outcome.splits if_splits)

text \<open>
  C28. The engine is called only for a request the runtime serves: a JSON object with every field the
  route requires, a model that names the route's role, admitted, and ready both before it waited and
  after; no chat message in parts, and no embedded message with a URL to fetch. A throttled request is
  told when to come again and never reaches the engine.
\<close>

theorem engine_called_only_when_served:
  assumes "openai_endpoint shown c m b path role required_fields w admitted observed m' b' has_client engine = Inr r"
    and "en_called r = Some call"
  shows "\<exists>kvs cfg alias. w = Parsed (JObj kvs) \<and> c = Some cfg \<and> dict_get kvs ''model'' = Some (JStr alias) \<and>
    dict_get (alias_to_role cfg) alias = Some role \<and> is_ready c m b (Some role) \<and> admitted = Admitted \<and> is_ready c m' b' (Some role) \<and>
    (\<forall>names \<in> set required_fields. \<exists>n \<in> set names. dict_get kvs n \<noteq> None) \<and>
    (role = ''generation'' \<and> suffix ''/chat/completions'' path \<longrightarrow>
       unsupported_generation_content_error (obj_get (JObj kvs) ''messages'') = None) \<and>
    (suffix ''/embeddings'' path \<longrightarrow> remote_media_error (obj_get (JObj kvs) ''messages'') = None)"
proof -
  obtain gate where gate0: "openai_gate shown c m b path role required_fields w = Inr gate"
    using assms(1) by (auto simp: openai_endpoint_def and_then_Inr)
  note run = assms(1) [unfolded openai_endpoint_def gate0 and_then_simps]
  obtain body where gate: "openai_gate shown c m b path role required_fields w = Inr (Inr body)"
    and adm: "admitted = Admitted" and place: "r = with_place c path role body observed m' b' has_client engine"
    using run assms(2) gate0 by (cases gate; cases admitted) auto
  note g = gate_passes [OF gate]
  obtain kvs cfg s where route: "body = JObj kvs" "c = Some cfg" "dict_get kvs ''model'' = Some (JStr s)"
    "dict_get (alias_to_role cfg) s = Some role" "is_ready c m b (Some role)"
    "\<forall>names \<in> set required_fields. \<exists>n \<in> set names. dict_get kvs n \<noteq> None"
    using route_passes g by metis
  have "remote_media_error (obj_get body ''messages'') = None" if "suffix ''/embeddings'' path"
    using g that route(1)
    by (cases "dict_get kvs ''messages''") (auto simp: in_body_def obj_get_def remote_media_error_def)
  moreover have "is_ready c m' b' (Some role)" using with_place_calls assms(2) place by metis
  ultimately show ?thesis
    using g route adm by (intro exI [of _ kvs] exI [of _ cfg] exI [of _ s] conjI) auto
qed

definition demo_request :: json where
  "demo_request = JObj [(''model'', JStr ''e''), (''input'', JStr ''hi'')]"

definition healthy_machine :: machine where
  "healthy_machine = machine_init\<lparr>sm_state := ''healthy''\<rparr>"

definition healthy_view :: backend_view where
  "healthy_view = demo_view\<lparr>bv_role := \<lambda>_. bare_info ''healthy''\<rparr>"

lemma engine_called_only_when_served_witness:
  "dict_get (alias_to_role plain_runtime) ''e'' = Some ''embedding'' \<and>
   is_ready (Some plain_runtime) healthy_machine healthy_view (Some ''embedding'')"
proof -
  let ?run = "openai_endpoint (\<lambda>_. []) (Some plain_runtime) healthy_machine healthy_view ''/v1/embeddings'' ''embedding''
    [[''model''], [''input'', ''messages'']] (Parsed demo_request) Admitted (Returned ()) healthy_machine healthy_view True
    (\<lambda>_. Returned JNull)"
  have "(case ?run of Inr r \<Rightarrow> en_called r | Inl _ \<Rightarrow> None) = Some Forward" by code_simp
  then obtain r where r: "?run = Inr r" "en_called r = Some Forward" by (auto split: sum.splits)
  show ?thesis using engine_called_only_when_served [OF r] by (auto simp: demo_request_def)
qed

end
