(* ===== verification/VllmEngine.thy ===== *)
theory VllmEngine
  imports ApplianceRoutes
begin

text \<open>
  \<open>lazarus/appliance/backends/vllm_engine.py\<close>: the check of a prepared local bundle, the arguments vLLM
  is launched with and what the unknown ones become, the identity published of a loaded engine, and the
  life of the engines as a machine over the stretches between awaits. A directory is what \<open>lstat\<close>,
  \<open>scandir\<close> and \<open>open\<close> give, \<open>None\<close> an \<open>OSError\<close>; vLLM, torch and the hub are arguments.
\<close>

section \<open>Errors\<close>

record start_error =
  be_code :: string
  be_message :: string
  be_role :: "string option"
  be_recoverable :: bool

definition raise_start :: "string \<Rightarrow> string \<Rightarrow> string option \<Rightarrow> bool \<Rightarrow> start_error" where
  "raise_start err_code message role recoverable =
     \<lparr>be_code = err_code, be_message = message, be_role = role, be_recoverable = recoverable\<rparr>"

definition occurs :: "string \<Rightarrow> string \<Rightarrow> bool" where
  "occurs w s = sublist w (lower s)"

definition load_error_code :: "string \<Rightarrow> string" where
  "load_error_code message =
     (if occurs ''memory'' message \<or> occurs ''oom'' message then ''OUT_OF_MEMORY''
      else if occurs ''revision'' message then ''MODEL_REVISION_NOT_FOUND''
      else if occurs ''not found'' message \<or> occurs ''404'' message \<or> occurs ''does not exist'' message then ''MODEL_NOT_FOUND''
      else ''MODEL_LOAD_FAILED'')"

definition download_error_code :: "string \<Rightarrow> string" where
  "download_error_code message =
     (if occurs ''revision'' message then ''MODEL_REVISION_NOT_FOUND''
      else if occurs ''404'' message \<or> occurs ''not found'' message \<or> occurs ''repository'' message then ''MODEL_NOT_FOUND''
      else ''MODEL_DOWNLOAD_FAILED'')"

section \<open>A prepared local bundle\<close>

definition LOCAL_SUPPORT_FILES :: "string list" where
  "LOCAL_SUPPORT_FILES = [''config.json'', ''generation_config.json'', ''tokenizer.json'', ''tokenizer_config.json'',
     ''processor_config.json'', ''preprocessor_config.json'', ''video_preprocessor_config.json'', ''chat_template.jinja'',
     ''vocab.json'', ''merges.txt'', ''special_tokens_map.json'', ''tokenizer.model'', ''vocab.txt'', ''model.safetensors.index.json'']"

definition LOCAL_SUPPORT_FILE_LIMIT :: int where
  "LOCAL_SUPPORT_FILE_LIMIT = 64 * 1024 * 1024"

definition LOCAL_SUPPORT_TOTAL_LIMIT :: int where
  "LOCAL_SUPPORT_TOTAL_LIMIT = 256 * 1024 * 1024"

definition local_cuda_error :: "string \<Rightarrow> start_error" where
  "local_cuda_error detail = raise_start ''CONFIG_INVALID'' (''local CUDA generation bundle '' @ detail) (Some ''generation'') True"

text \<open>
  What is read of a directory: whether it is one, its entries (name, and whether regular with which
  size) and the reading of a file (length, and its JSON where it parses).
\<close>

type_synonym dir_entry = "string \<times> (bool \<times> int) option"

record local_bundle =
  bu_is_dir :: "bool option"
  bu_entries :: "dir_entry list"
  bu_read :: "string \<Rightarrow> (int \<times> json option) option"

definition local_bundle_json :: "local_bundle \<Rightarrow> string \<Rightarrow> start_error + (string, json) dict" where
  "local_bundle_json b name =
     (case bu_read b name of
        None \<Rightarrow> Inl (local_cuda_error ''is unavailable or unreadable'')
      | Some (bytes, parsed) \<Rightarrow>
          if LOCAL_SUPPORT_FILE_LIMIT < bytes then Inl (local_cuda_error ''metadata exceeds the supported size limit'')
          else case parsed of
            None \<Rightarrow> Inl (local_cuda_error ''contains invalid configuration or weight-index JSON'')
          | Some (JObj kvs) \<Rightarrow> Inr kvs
          | Some v \<Rightarrow> Inl (local_cuda_error ''configuration and weight index must be JSON objects''))"

definition is_weights :: "string \<Rightarrow> bool" where
  "is_weights name \<longleftrightarrow> suffix ''.safetensors'' name \<and> \<not> prefix ''.'' name"

text \<open>The loop over the entries: how many were seen, the support files, the weights and the total.\<close>

fun scan_bundle :: "nat \<Rightarrow> string list \<Rightarrow> string list \<Rightarrow> int \<Rightarrow> dir_entry list \<Rightarrow> start_error + (string list \<times> string list)" where
  "scan_bundle seen support weights so_far [] = Inr (support, weights)"
| "scan_bundle seen support weights so_far ((name, st) # entries) =
     (if 17 < seen + 1 then Inl (local_cuda_error ''contains too many files'')
      else case st of
        None \<Rightarrow> Inl (local_cuda_error ''is unavailable or unreadable'')
      | Some (regular, bytes) \<Rightarrow>
          if \<not> regular \<or> bytes = 0 then Inl (local_cuda_error ''must contain only nonempty regular files'')
          else if name \<in> set LOCAL_SUPPORT_FILES then
            (if LOCAL_SUPPORT_FILE_LIMIT < bytes \<or> LOCAL_SUPPORT_TOTAL_LIMIT < so_far + bytes
             then Inl (local_cuda_error ''metadata exceeds the supported size limit'')
             else scan_bundle (seen + 1) (name # support) weights (so_far + bytes) entries)
          else if is_weights name then
            (if 1 < length (weights @ [name]) then Inl (local_cuda_error ''requires exactly one primary safetensors file'')
             else scan_bundle (seen + 1) support (weights @ [name]) so_far entries)
          else Inl (local_cuda_error ''contains an unsupported file''))"

definition missing_processor :: "json \<Rightarrow> string list \<Rightarrow> bool" where
  "missing_processor model_type support \<longleftrightarrow>
     model_type \<in> {JStr ''gemma4'', JStr ''qwen3_5''} \<and> ''processor_config.json'' \<notin> set support \<or>
     model_type = JStr ''qwen3_5'' \<and> \<not> {''preprocessor_config.json'', ''video_preprocessor_config.json''} \<subseteq> set support"

definition index_names :: "(string, json) dict \<Rightarrow> string \<Rightarrow> bool" where
  "index_names index weights =
     (case obj_get (JObj index) ''weight_map'' of
        JObj kvs \<Rightarrow> kvs \<noteq> [] \<and> list_all (\<lambda>kv. snd kv = JStr weights) kvs
      | _ \<Rightarrow> False)"

definition validate_local_cuda_bundle :: "(string \<Rightarrow> local_bundle) \<Rightarrow> string option \<Rightarrow> start_error + unit" where
  "validate_local_cuda_bundle disk model =
     (if blank_text model then Inl (local_cuda_error ''requires a prepared model directory'')
      else let b = disk (the model) in
        case bu_is_dir b of
          None \<Rightarrow> Inl (local_cuda_error ''is unavailable or unreadable'')
        | Some False \<Rightarrow> Inl (local_cuda_error ''requires a prepared directory, not a file or symlink'')
        | Some True \<Rightarrow>
            and_then (scan_bundle 0 [] [] 0 (bu_entries b)) (\<lambda>(support, weights).
              if length weights \<noteq> 1 then Inl (local_cuda_error ''requires exactly one primary safetensors file'')
              else if \<not> {''config.json'', ''tokenizer.json'', ''tokenizer_config.json''} \<subseteq> set support
              then Inl (local_cuda_error ''is missing required configuration or tokenizer files'')
              else and_then (local_bundle_json b ''config.json'') (\<lambda>config.
                if missing_processor (obj_get (JObj config) ''model_type'') support
                then Inl (local_cuda_error ''is missing required processor metadata'')
                else if ''model.safetensors.index.json'' \<in> set support then
                  and_then (local_bundle_json b ''model.safetensors.index.json'') (\<lambda>index.
                    if \<not> index_names index (hd weights)
                    then Inl (local_cuda_error ''weight index does not match the primary safetensors file'') else Inr ())
                else Inr ())))"

section \<open>Arguments\<close>

definition APPLIANCE_DEFAULT_FLAGS :: "string list" where
  "APPLIANCE_DEFAULT_FLAGS = [''--enable-server-load-tracking'', ''--enable-request-id-headers'',
     ''--enable-force-include-usage'', ''--enable-prompt-tokens-details'', ''--disable-log-requests'']"

definition first_pattern :: "(string \<times> string) list \<Rightarrow> string \<Rightarrow> string option" where
  "first_pattern patterns model = map_option snd (find (\<lambda>(pattern, parser). occurs pattern model) patterns)"

definition infer_tool_parser :: "string \<Rightarrow> string option" where
  "infer_tool_parser = first_pattern [(''functiongemma'', ''functiongemma''), (''gemma-4'', ''gemma4''), (''gemma4'', ''gemma4''),
     (''qwen3-coder'', ''qwen3_coder''), (''qwen'', ''hermes''), (''llama-4'', ''llama4_pythonic'')]"

definition infer_reasoning_parser :: "string \<Rightarrow> string option" where
  "infer_reasoning_parser = first_pattern [(''gemma-4'', ''gemma4''), (''gemma4'', ''gemma4''), (''qwen3'', ''qwen3''),
     (''deepseek-r1'', ''deepseek_r1''), (''kimi'', ''kimi_k2'')]"

text \<open>
  \<open>str(round(0.92 * weight / 100.0, 3))\<close>, for weights of 1 to 100: thousandths \<open>9.2 * weight\<close>, which is
  never half way between two integers, printed without trailing zeros.
\<close>

definition thousandths :: "int \<Rightarrow> nat" where
  "thousandths weight = nat ((92 * weight + 5) div 10)"

definition show_fraction :: "nat \<Rightarrow> string" where
  "show_fraction m =
     (let digits = [digit_char (m div 100), digit_char (m div 10 mod 10), digit_char (m mod 10)];
          kept = rev (dropWhile (\<lambda>c. c = CHR ''0'') (rev digits)) in
      ''0.'' @ (if kept = [] then ''0'' else kept))"

definition or_else_text :: "string option \<Rightarrow> string option \<Rightarrow> string option" where
  "or_else_text a b = (if blank_text a then b else a)"

definition upper_char :: "char \<Rightarrow> char" where
  "upper_char c = (if is_lower c then char_of (code c - 32) else c)"

text \<open>\<open>json.dumps\<close> of the pooler's settings, whose pooling is one of the configuration's literals.\<close>

definition pooler_config :: "role_config \<Rightarrow> string option" where
  "pooler_config r =
     (let items = (if blank_text (rl_pooling r) then []
             else [[CHR 0x22] @ ''pooling_type'' @ [CHR 0x22] @ '': '' @ [CHR 0x22] @ map upper_char (the (rl_pooling r)) @ [CHR 0x22]]) @
           (if blank_text (rl_normalization r) then []
             else [[CHR 0x22] @ ''use_activation'' @ [CHR 0x22] @ '': '' @ (if rl_normalization r \<noteq> Some ''none'' then ''true'' else ''false'')]) in
      if items = [] then None else Some (''{'' @ join_with '', '' items @ ''}''))"

definition named_flag :: "string \<Rightarrow> string option \<Rightarrow> string list" where
  "named_flag flag v = (if blank_text v then [] else [flag, the v])"

definition role_argv :: "string \<Rightarrow> string \<Rightarrow> role_config \<Rightarrow> string list" where
  "role_argv backend_id name r =
     [''--model'', the (rl_model r), ''--served-model-name'', the (rl_served_model_name r)] @
     (if blank_text (rl_revision r) \<or> the (rl_revision r) \<in> {''<immutable-revision>'', ''main''} then [] else [''--revision'', the (rl_revision r)]) @
     (case rl_max_model_len r of None \<Rightarrow> [] | Some n \<Rightarrow> if n = 0 then [] else [''--max-model-len'', show_int n]) @
     (if backend_id \<in> {''cpu'', ''mock''} then [] else [''--gpu-memory-utilization'', show_fraction (thousandths (rl_memory_weight r))]) @
     (if name = ''generation''
      then [''--tensor-parallel-size'', show_int (rl_tensor_parallel_size r)] @
        (if rl_engine_profile_id r = None then [] else [''--max-num-seqs'', show_int (rl_max_concurrent_requests r)]) else []) @
     (if rl_enforce_eager r then [''--enforce-eager''] else []) @
     APPLIANCE_DEFAULT_FLAGS @
     (if name = ''generation'' \<and> rl_tool_call_parser r \<noteq> Some ''off''
      then (let parser = or_else_text (rl_tool_call_parser r) (infer_tool_parser (case rl_model r of None \<Rightarrow> [] | Some m \<Rightarrow> m)) in
        if blank_text parser then [] else [''--enable-auto-tool-choice'', ''--tool-call-parser'', the parser]) else []) @
     (if name = ''generation'' \<and> rl_reasoning_parser r \<noteq> Some ''off''
      then named_flag ''--reasoning-parser'' (or_else_text (rl_reasoning_parser r) (infer_reasoning_parser (case rl_model r of None \<Rightarrow> [] | Some m \<Rightarrow> m))) else []) @
     (if name = ''embedding'' then [''--runner'', ''pooling''] @ named_flag ''--pooler-config'' (pooler_config r) else [])"

definition REQUIRED_FLAGS :: "string list" where
  "REQUIRED_FLAGS = [''--model'', ''--served-model-name'', ''--revision'', ''--tensor-parallel-size'', ''--max-num-seqs'', ''--enforce-eager'']"

definition is_flag :: "string \<Rightarrow> bool" where
  "is_flag token = prefix ''--'' token"

text \<open>The loop of \<open>_construct_role_engine_sync\<close>: an unknown flag goes, with its value when one follows.\<close>

fun filter_argv :: "(string \<Rightarrow> bool) \<Rightarrow> string \<Rightarrow> bool \<Rightarrow> string list \<Rightarrow> start_error + string list" where
  "filter_argv known name skip [] = Inr []"
| "filter_argv known name skip (token # argv) =
     (if skip then filter_argv known name False argv
      else if is_flag token \<and> \<not> known token then
        (if token \<in> set REQUIRED_FLAGS
         then Inl (raise_start ''CONFIG_INVALID'' ''vLLM does not support the required structured launch arguments'' (Some name) True)
         else filter_argv known name (argv \<noteq> [] \<and> \<not> is_flag (hd argv)) argv)
      else and_then (filter_argv known name False argv) (\<lambda>rest. Inr (token # rest)))"

section \<open>What is published of a loaded engine\<close>

record loaded_engine =
  le_model :: "string option"
  le_alias :: json
  le_context :: json
  le_concurrency :: json
  le_tensor_parallel :: json
  le_quantization :: json
  le_dtype :: "string option"
  le_routes :: "(string \<times> string list) list"
  le_tasks :: "string list option"

definition remove_prefix :: "string \<Rightarrow> string \<Rightarrow> string" where
  "remove_prefix p s = (if prefix p s then drop (length p) s else s)"

definition loaded_quant :: "loaded_engine \<Rightarrow> string + string" where
  "loaded_quant e =
     (case le_quantization e of
        JNull \<Rightarrow>
          (case map_option (remove_prefix ''torch.'') (le_dtype e) of
             Some q \<Rightarrow> if q \<in> {''bfloat16'', ''float16'', ''float32''} then Inr q
               else Inl ''vLLM loaded model dtype is unavailable''
           | None \<Rightarrow> Inl ''vLLM loaded model dtype is unavailable'')
      | JStr q \<Rightarrow> if strip q = [] then Inl ''vLLM loaded model quantization is unavailable'' else Inr q
      | _ \<Rightarrow> Inl ''vLLM loaded model quantization is unavailable'')"

definition profile_differs :: "loaded_engine \<Rightarrow> role_config \<Rightarrow> bool" where
  "profile_differs e r \<longleftrightarrow>
     blank_text (rl_model r) \<or> le_model e \<noteq> rl_model r \<or> blank_text (rl_served_model_name r) \<or>
     le_alias e \<notin> {JStr (the (rl_served_model_name r)), JArr [JStr (the (rl_served_model_name r))]} \<or>
     int_of (le_context e) = None \<or> int_of (le_context e) \<noteq> rl_max_model_len r \<or>
     int_of (le_concurrency e) \<noteq> Some (rl_max_concurrent_requests r) \<or>
     int_of (le_tensor_parallel e) \<noteq> Some (rl_tensor_parallel_size r)"

definition serves_generation :: "loaded_engine \<Rightarrow> bool" where
  "serves_generation e \<longleftrightarrow>
     (case le_tasks e of None \<Rightarrow> False | Some ts \<Rightarrow> ''generate'' \<in> set ts) \<and>
     {''/v1/chat/completions'', ''/v1/completions''} \<subseteq> set (map fst (filter (\<lambda>(p, ms). ''POST'' \<in> set ms) (le_routes e)))"

definition or_main :: "string option \<Rightarrow> string option" where
  "or_main revision = (if blank_text revision then Some ''main'' else revision)"

definition device_count_of :: "role_config \<Rightarrow> int option" where
  "device_count_of r = (if rl_devices r = [] then None else Some (int (length (rl_devices r))))"

definition applied_generation_info :: "loaded_engine \<Rightarrow> role_config \<Rightarrow> string + role_info" where
  "applied_generation_info e r =
     (if profile_differs e r then Inl ''vLLM loaded execution does not match the selected profile''
      else and_then (loaded_quant e) (\<lambda>quant.
        if \<not> serves_generation e then Inl ''vLLM selected profile generation APIs are unavailable''
        else Inr ((bare_info ''healthy'')\<lparr>ri_engine_model := le_model e, ri_revision := or_main (rl_revision r),
          ri_context_length := int_of (le_context e), ri_device_count := device_count_of r,
          ri_tensor_parallel_size := int_of (le_tensor_parallel e), ri_engine_profile_id := rl_engine_profile_id r,
          ri_quant := Some quant, ri_max_concurrent_requests := int_of (le_concurrency e),
          ri_capabilities := Some [''chat_completions'', ''completions'', ''streaming'', ''text'']\<rparr>)))"

text \<open>Of a role without a selected profile: \<open>model_config\<close>'s model and length, where there are any.\<close>

definition loaded_info :: "string \<Rightarrow> role_config \<Rightarrow> loaded_engine \<Rightarrow> role_info" where
  "loaded_info name r e =
     (bare_info ''healthy'')\<lparr>ri_engine_model := le_model e, ri_revision := or_main (rl_revision r),
       ri_context_length := (case int_of (le_context e) of Some n \<Rightarrow> if n = 0 then rl_max_model_len r else Some n | None \<Rightarrow> rl_max_model_len r),
       ri_device_count := device_count_of r,
       ri_tensor_parallel_size := (if name = ''generation'' \<and> rl_devices r \<noteq> [] then Some (rl_tensor_parallel_size r) else None)\<rparr>"

text \<open>
  The embedding role is asked for a vector before anything is told of it; the probes' results are the
  lengths of the vectors returned, \<open>None\<close> an exception.
\<close>

definition probe_embedding_modalities :: "(string \<Rightarrow> nat option) \<Rightarrow> nat \<Rightarrow> string list" where
  "probe_embedding_modalities probe dimensions = filter (\<lambda>m. probe m = Some dimensions) [''image'', ''audio'']"

definition probed_info :: "(string \<Rightarrow> nat option) \<Rightarrow> role_info \<Rightarrow> role_info" where
  "probed_info probe info =
     (case probe ''text'' of
        None \<Rightarrow> info\<lparr>ri_status := ''unhealthy'', ri_error_code := Some ''DIMENSION_MISMATCH''\<rparr>
      | Some n \<Rightarrow> info\<lparr>ri_dimensions := Some (int n), ri_modalities := Some (''text'' # probe_embedding_modalities probe n)\<rparr>)"

datatype torch_uuid = NoUuid | Bytes "nat list" | Shown string

definition hex_pair :: "nat \<Rightarrow> string" where
  "hex_pair b = (let digit = (\<lambda>d. if d < 10 then digit_char d else char_of (87 + d)) in [digit (b div 16), digit (b mod 16)])"

definition canonical_torch_uuid :: "torch_uuid \<Rightarrow> string option" where
  "canonical_torch_uuid v =
     (case v of
        NoUuid \<Rightarrow> None
      | Bytes bs \<Rightarrow> if length bs = 16 then (let h = concat (map hex_pair bs) in
            Some (''GPU-'' @ take 8 h @ ''-'' @ take 4 (drop 8 h) @ ''-'' @ take 4 (drop 12 h) @ ''-'' @ take 4 (drop 16 h) @ ''-'' @ drop 20 h))
          else None
      | Shown s \<Rightarrow> (let h = filter (\<lambda>c. c \<noteq> CHR ''-'') (remove_prefix ''gpu-'' (lower s)) in
          if length h \<noteq> 32 \<or> \<not> list_all is_hex_lower h then None
          else Some (''GPU-'' @ take 8 h @ ''-'' @ take 4 (drop 8 h) @ ''-'' @ take 4 (drop 12 h) @ ''-'' @ take 4 (drop 16 h) @ ''-'' @ drop 20 h)))"

text \<open>\<open>accelerator\<close>: what torch says (each device's identifier, and whether it is built for ROCm).\<close>

definition torch_devices :: "torch_uuid list \<Rightarrow> (nat \<times> string) list" where
  "torch_devices uuids = concat (map (\<lambda>(i, u). case canonical_torch_uuid u of None \<Rightarrow> [] | Some g \<Rightarrow> [(i, g)]) (enumerate 0 uuids))"

definition accelerator :: "(torch_uuid list \<times> bool) option \<Rightarrow> json" where
  "accelerator torch =
     (case torch of
        None \<Rightarrow> JObj [(''vendor'', JStr ''cpu''), (''device_count'', JInt 0), (''unified_memory'', JBool False)]
      | Some (uuids, hip) \<Rightarrow>
          let devices = torch_devices uuids in
          JObj ([(''vendor'', JStr (if hip then ''amd'' else ''nvidia'')), (''device_count'', JInt (int (length uuids))),
             (''unified_memory'', JBool False)] @
            (if length devices = length uuids
             then [(''devices'', JArr (map (\<lambda>(i, g). JObj [(''identity_kind'', JStr ''nvidia_gpu_uuid''), (''stable_identifier'', JStr g),
                (''local_rank'', JInt (int i)), (''gpu_uuid'', JStr g)]) devices))] else [])))"

definition observed_uuids :: "(torch_uuid list \<times> bool) option \<Rightarrow> string list" where
  "observed_uuids torch = (case torch of None \<Rightarrow> [] | Some (uuids, hip) \<Rightarrow>
     (let devices = torch_devices uuids in if length devices = length uuids then map snd devices else []))"

section \<open>The engines' life\<close>

text \<open>
  \<open>VllmBackend\<close>'s fields: its engines and apps by role. \<open>v_constructing\<close> counts the construction
  tasks; \<open>v_resuming\<close> the calls of \<open>resume\<close> that have passed their checks and wait for the engine,
  which only the interpreter's stack knows.
\<close>

record vllm =
  v_backend_id :: string
  v_local_cuda :: bool
  v_roles :: "(string, role_info) dict"
  v_apps :: "string list"
  v_engines :: "string list"
  v_starting :: bool
  v_attempted :: bool
  v_loading :: "string list"
  v_constructing :: nat
  v_native :: bool
  v_pending :: bool
  v_paused :: bool
  v_resuming :: nat

definition vllm_init :: "string option \<Rightarrow> vllm" where
  "vllm_init backend =
     (let backend_id = (case backend of None \<Rightarrow> ''cpu'' | Some b \<Rightarrow> b) in
      \<lparr>v_backend_id = backend_id, v_local_cuda = (backend_id = ''cuda''), v_roles = [], v_apps = [], v_engines = [],
       v_starting = False, v_attempted = False, v_loading = [], v_constructing = 0, v_native = False, v_pending = False,
       v_paused = False, v_resuming = 0\<rparr>)"

definition start_begin :: "vllm \<Rightarrow> start_error + vllm" where
  "start_begin s =
     (if v_starting s \<or> v_native s \<or> v_apps s \<noteq> []
      then Inl (raise_start ''CONFIG_INVALID'' ''vLLM engine lifetime is already managed or unresolved'' None True)
      else Inr (s\<lparr>v_starting := True, v_attempted := True\<rparr>))"

definition start_end :: "vllm \<Rightarrow> vllm" where
  "start_end s = s\<lparr>v_starting := False\<rparr>"

record start_env =
  sv_disk :: "string \<Rightarrow> local_bundle"
  sv_installed :: bool
  sv_torch :: "(torch_uuid list \<times> bool) option"
  sv_download :: "role_config \<Rightarrow> string option"

text \<open>\<open>_start_inner\<close> up to the downloads, then the failed downloads, then each role in turn.\<close>

definition on_cuda :: "vllm \<Rightarrow> runtime_config \<Rightarrow> bool" where
  "on_cuda s c \<longleftrightarrow> v_backend_id s = ''cuda'' \<or> rs_profile (rt_runtime c) \<in> {''cuda-x86_64'', ''cuda-arm64-dgx-spark''}"

definition start_checks :: "start_env \<Rightarrow> runtime_config \<Rightarrow> vllm \<Rightarrow> start_error option" where
  "start_checks env c s =
     (let g = ro_generation (rt_roles c) in
      run_checks [
        (if on_cuda s c \<and> rl_enabled g \<and> rl_source g = Some ''local''
         then (case validate_local_cuda_bundle (sv_disk env) (rl_model g) of Inl e \<Rightarrow> Some e | Inr _ \<Rightarrow> None) else None),
        check (\<not> sv_installed env) (raise_start ''ACCELERATOR_UNAVAILABLE'' ''vLLM is not installed in this image'' None False),
        check (rl_devices g \<noteq> [] \<and> observed_uuids (sv_torch env) \<noteq> rl_devices g)
          (raise_start ''ACCELERATOR_UNAVAILABLE'' ''visible CUDA devices do not match the managed generation placement'' None True)])"

definition unhealthy :: "string \<Rightarrow> role_info" where
  "unhealthy err_code = (bare_info ''unhealthy'')\<lparr>ri_error_code := Some err_code\<rparr>"

definition failed_downloads :: "start_env \<Rightarrow> runtime_config \<Rightarrow> (string, role_info) dict \<Rightarrow> (string, role_info) dict" where
  "failed_downloads env c roles =
     fold (\<lambda>(n, r) d. if rl_enabled r \<and> rl_source r = Some ''huggingface''
         then (case sv_download env r of None \<Rightarrow> d | Some message \<Rightarrow> dict_set n (unhealthy (download_error_code message)) d) else d)
       (role_items (rt_roles c)) roles"

datatype planned_role = Noted role_info | LeftFailed | Load

definition role_plan :: "(string, role_info) dict \<Rightarrow> string \<Rightarrow> role_config \<Rightarrow> planned_role" where
  "role_plan roles name r =
     (if \<not> rl_enabled r then Noted (bare_info ''disabled'')
      else if (case dict_get roles name of Some i \<Rightarrow> ri_status i = ''unhealthy'' | None \<Rightarrow> False) then LeftFailed
      else if name \<notin> {''generation'', ''embedding''} then Noted (unhealthy ''MODEL_LOAD_FAILED'')
      else Load)"

fun start_roles :: "(string \<Rightarrow> role_config \<Rightarrow> vllm \<Rightarrow> start_error option \<times> vllm) \<Rightarrow> (string \<times> role_config) list \<Rightarrow> vllm \<Rightarrow>
    start_error option \<times> vllm" where
  "start_roles load [] s = (None, s)"
| "start_roles load ((name, r) # items) s =
     (case role_plan (v_roles s) name r of
        Noted info \<Rightarrow> start_roles load items (s\<lparr>v_roles := dict_set name info (v_roles s)\<rparr>)
      | LeftFailed \<Rightarrow> start_roles load items s
      | Load \<Rightarrow> (case load name r s of (Some e, s) \<Rightarrow> (Some e, s) | (None, s) \<Rightarrow> start_roles load items s))"

text \<open>\<open>_start_role\<close>, in its stretches: entered, in the constructor, an engine returned, settled, and its end.\<close>

definition role_enter :: "string \<Rightarrow> vllm \<Rightarrow> start_error + vllm" where
  "role_enter name s =
     (if name \<in> set (v_engines s) \<or> name \<in> set (v_loading s)
      then Inl (raise_start ''CONFIG_INVALID'' ''role engine lifetime is already managed'' (Some name) True)
      else Inr (s\<lparr>v_attempted := True, v_loading := name # v_loading s, v_constructing := v_constructing s + 1\<rparr>))"

definition constructor_entered :: "vllm \<Rightarrow> vllm" where
  "constructor_entered s = s\<lparr>v_native := True\<rparr>"

definition engine_returned :: "string \<Rightarrow> vllm \<Rightarrow> vllm" where
  "engine_returned name s = s\<lparr>v_native := True, v_engines := List.insert name (v_engines s)\<rparr>"

definition construction_settled :: "vllm \<Rightarrow> vllm" where
  "construction_settled s = s\<lparr>v_constructing := v_constructing s - 1\<rparr>"

definition role_loaded :: "string \<Rightarrow> role_info \<Rightarrow> vllm \<Rightarrow> vllm" where
  "role_loaded name info s = s\<lparr>v_apps := List.insert name (v_apps s), v_loading := removeAll name (v_loading s),
     v_roles := dict_set name info (v_roles s)\<rparr>"

text \<open>The handler: \<open>message\<close> is the exception's, \<open>passes\<close> whether it is one that goes on.\<close>

definition role_fails :: "string \<Rightarrow> string \<Rightarrow> bool \<Rightarrow> bool \<Rightarrow> vllm \<Rightarrow> (start_error option \<times> bool) \<times> vllm" where
  "role_fails name message passes cleaned s =
     (let s = s\<lparr>v_paused := True, v_roles := dict_set name (unhealthy (load_error_code message)) (v_roles s),
              v_loading := removeAll name (v_loading s)\<rparr>;
          held = name \<in> set (v_engines s) in
      ((if held \<and> \<not> cleaned then Some (raise_start ''ENGINE_DEAD'' ''failed engine cleanup is unconfirmed'' (Some name) False) else None,
        passes),
       if held then s\<lparr>v_pending := True\<rparr> else s))"

definition unavailable_error :: "string \<Rightarrow> string \<Rightarrow> start_error" where
  "unavailable_error err_code message = raise_start err_code message None True"

definition unsettled :: "vllm \<Rightarrow> bool" where
  "unsettled s \<longleftrightarrow> v_starting s \<or> v_loading s \<noteq> [] \<or> 0 < v_constructing s"

text \<open>\<open>quiesce\<close>, where \<open>acknowledged\<close> is the engine's own pause; the backend is paused either way.\<close>

definition quiesce :: "bool \<Rightarrow> vllm \<Rightarrow> start_error option \<times> vllm" where
  "quiesce acknowledged s =
     (if v_pending s then Some (unavailable_error ''ENGINE_QUIESCE_UNAVAILABLE'' ''engine cleanup is unconfirmed'')
      else if unsettled s then Some (unavailable_error ''ENGINE_QUIESCE_UNAVAILABLE'' ''engine construction has not settled'')
      else if ''generation'' \<notin> set (v_apps s) then
        (if v_attempted s \<and> \<not> v_native s \<and> v_engines s = [] \<and> v_apps s = [] then None
         else Some (unavailable_error ''ENGINE_QUIESCE_UNAVAILABLE'' ''generation engine is unavailable''))
      else if acknowledged then None
      else Some (unavailable_error ''ENGINE_QUIESCE_FAILED'' ''generation pause was not acknowledged''),
      s\<lparr>v_paused := True\<rparr>)"

definition resume_ask :: "vllm \<Rightarrow> start_error option \<times> vllm" where
  "resume_ask s =
     (let s = s\<lparr>v_paused := True\<rparr> in
      if v_pending s then (Some (unavailable_error ''ENGINE_RESUME_UNAVAILABLE'' ''engine cleanup is unconfirmed''), s)
      else if unsettled s then (Some (unavailable_error ''ENGINE_RESUME_UNAVAILABLE'' ''engine construction has not settled''), s)
      else if ''generation'' \<notin> set (v_apps s)
      then (Some (unavailable_error ''ENGINE_RESUME_UNAVAILABLE'' ''generation engine is unavailable''), s)
      else (None, s\<lparr>v_resuming := v_resuming s + 1\<rparr>))"

definition resume_end :: "bool \<Rightarrow> vllm \<Rightarrow> start_error option \<times> vllm" where
  "resume_end acknowledged s =
     (let s = s\<lparr>v_resuming := v_resuming s - 1\<rparr> in
      if acknowledged then (None, s\<lparr>v_paused := False\<rparr>)
      else (Some (unavailable_error ''ENGINE_RESUME_FAILED'' ''generation resume was not acknowledged''), s))"

definition shutdown_begin :: "vllm \<Rightarrow> vllm" where
  "shutdown_begin s = s\<lparr>v_paused := True\<rparr>"

text \<open>The rest of \<open>shutdown\<close>: \<open>closes\<close> and \<open>stops\<close> tell which clients and engines end without an exception.\<close>

definition shutdown_rest :: "(string \<Rightarrow> bool) \<Rightarrow> (string \<Rightarrow> bool) \<Rightarrow> vllm \<Rightarrow> start_error option \<times> vllm" where
  "shutdown_rest closes stops s =
     (if unsettled s then (Some (raise_start ''ENGINE_DEAD'' ''engine construction has not settled'' None False), s)
      else let failed = (\<not> list_all closes (v_apps s) \<or> \<not> list_all stops (v_engines s)) in
        (if failed then Some (raise_start ''ENGINE_DEAD'' ''engine cleanup is unconfirmed'' None False) else None,
         s\<lparr>v_apps := filter (\<lambda>n. \<not> closes n) (v_apps s), v_pending := (v_native s \<or> failed)\<rparr>))"

inductive vllm_step :: "vllm \<Rightarrow> vllm \<Rightarrow> bool" where
  begin_start: "start_begin s = Inr t \<Longrightarrow> vllm_step s t"
| profile_known: "v_starting s \<Longrightarrow> vllm_step s (s\<lparr>v_local_cuda := on_cuda s c\<rparr>)"
| note_role: "v_starting s \<Longrightarrow> vllm_step s (s\<lparr>v_roles := dict_set name info (v_roles s)\<rparr>)"
| enter_role: "v_starting s \<Longrightarrow> role_enter name s = Inr t \<Longrightarrow> vllm_step s t"
| enter_constructor: "0 < v_constructing s \<Longrightarrow> vllm_step s (constructor_entered s)"
| return_engine: "0 < v_constructing s \<Longrightarrow> vllm_step s (engine_returned name s)"
| settle: "0 < v_constructing s \<Longrightarrow> vllm_step s (construction_settled s)"
| load_role: "v_constructing s = 0 \<Longrightarrow> name \<in> set (v_loading s) \<Longrightarrow> name \<in> set (v_engines s) \<Longrightarrow> vllm_step s (role_loaded name info s)"
| fail_role: "name \<in> set (v_loading s) \<Longrightarrow> role_fails name message passes cleaned s = (e, t) \<Longrightarrow> vllm_step s t"
| probe_role: "v_starting s \<Longrightarrow> dict_get (v_roles s) name = Some info \<Longrightarrow>
    vllm_step s (s\<lparr>v_roles := dict_set name (probed_info probe info) (v_roles s)\<rparr>)"
| end_start: "v_starting s \<Longrightarrow> v_loading s = [] \<Longrightarrow> vllm_step s (start_end s)"
| quiesce_all: "quiesce acknowledged s = (e, t) \<Longrightarrow> vllm_step s t"
| ask_resume: "resume_ask s = (e, t) \<Longrightarrow> vllm_step s t"
| end_resume: "0 < v_resuming s \<Longrightarrow> resume_end acknowledged s = (e, t) \<Longrightarrow> vllm_step s t"
| begin_shutdown: "vllm_step s (shutdown_begin s)"
| end_shutdown: "shutdown_rest closes stops s = (e, t) \<Longrightarrow> vllm_step s t"

inductive_cases vllm_stepE: "vllm_step s t"

section \<open>A failed load or a shutdown is final\<close>

definition life_ok :: "vllm \<Rightarrow> bool" where
  "life_ok s \<longleftrightarrow> (v_engines s \<noteq> [] \<or> v_apps s \<noteq> [] \<or> 0 < v_resuming s \<longrightarrow> v_native s) \<and> (v_starting s \<longrightarrow> v_resuming s = 0)"

definition withdrawn :: "vllm \<Rightarrow> bool" where
  "withdrawn s \<longleftrightarrow> v_pending s \<and> v_native s \<and> v_paused s \<and> v_resuming s = 0"

lemmas vllm_ops = start_begin_def start_end_def role_enter_def constructor_entered_def engine_returned_def construction_settled_def
  role_loaded_def role_fails_def quiesce_def resume_ask_def resume_end_def shutdown_begin_def shutdown_rest_def unsettled_def Let_def

interpretation vllm_life: invariant_of "\<lambda>s. \<exists>b. s = vllm_init b" vllm_step life_ok
proof unfold_locales
  fix s :: vllm assume "\<exists>b. s = vllm_init b"
  then show "life_ok s" by (auto simp: life_ok_def vllm_init_def Let_def)
next
  fix s t assume "life_ok s" "vllm_step s t"
  then show "life_ok t"
    by (elim vllm_stepE) (auto simp: life_ok_def vllm_ops List.insert_def split: if_splits)
qed

interpretation vllm_withdrawn: invariant_of withdrawn vllm_step withdrawn
proof unfold_locales
  fix s t assume "withdrawn s" "vllm_step s t"
  then show "withdrawn t"
    by (elim vllm_stepE) (auto simp: withdrawn_def vllm_ops split: if_splits)
qed

lemma withdrawn_refuses:
  assumes "withdrawn s"
  shows "fst (resume_ask s) \<noteq> None \<and> fst (quiesce acknowledged s) \<noteq> None \<and> (\<exists>e. start_begin s = Inl e)"
  using assms by (auto simp: withdrawn_def vllm_ops)


definition demo_start :: vllm where
  "demo_start = (vllm_init None)\<lparr>v_starting := True, v_attempted := True\<rparr>"

definition demo_role_entered :: vllm where
  "demo_role_entered = demo_start\<lparr>v_loading := [''generation''], v_constructing := 1\<rparr>"


section \<open>What the launch keeps\<close>

lemma filter_argv_known: "filter_argv known name skip argv = Inr out \<Longrightarrow> \<forall>t \<in> set out. is_flag t \<longrightarrow> known t"
proof (induction argv arbitrary: skip out)
  case (Cons token argv)
  show ?case
  proof (cases "skip \<or> (is_flag token \<and> \<not> known token)")
    case True
    then show ?thesis using Cons by (auto split: if_splits)
  next
    case False
    then obtain rest where "filter_argv known name False argv = Inr rest" "out = token # rest"
      using Cons.prems by (auto simp: and_then_Inr)
    then show ?thesis using Cons.IH False by auto
  qed
qed simp

lemma filter_argv_keeps:
  assumes "filter_argv known name skip (xs @ flag # v # ys) = Inr out" "flag \<in> set REQUIRED_FLAGS" "\<not> is_flag v"
    and "skip \<longrightarrow> \<not> is_flag (hd (xs @ [flag]))"
  shows "\<exists>xs' ys'. out = xs' @ flag # v # ys'"
  using assms
proof (induction xs arbitrary: skip out)
  case Nil
  have flag: "is_flag flag" using Nil(2) by (auto simp: REQUIRED_FLAGS_def is_flag_def)
  then have "\<not> skip" "known flag" using Nil by (auto split: if_splits)
  then show ?case using Nil(1,3) flag by (auto simp: and_then_Inr split: if_splits)
next
  case (Cons x xs)
  have hd: "hd (xs @ flag # v # ys) = hd (xs @ [flag])" by (cases xs) simp_all
  show ?case
  proof (cases "skip \<or> (is_flag x \<and> \<not> known x)")
    case True
    then obtain skip' where "filter_argv known name skip' (xs @ flag # v # ys) = Inr out" "skip' \<longrightarrow> \<not> is_flag (hd (xs @ [flag]))"
      using Cons.prems(1,4) hd by (auto split: if_splits)
    then show ?thesis using Cons.IH Cons.prems(2,3) by blast
  next
    case False
    then obtain rest where "filter_argv known name False (xs @ flag # v # ys) = Inr rest" "out = x # rest"
      using Cons.prems(1) by (auto simp: and_then_Inr)
    then show ?thesis using Cons.IH [of False rest] Cons.prems(2,3) by (metis append_Cons)
  qed
qed

text \<open>
  What vLLM is launched with are flags it knows, and the model, its alias, revision, placement and
  concurrency are among them with the values of the configuration, or the launch is refused: dropping
  an unknown flag never drops one of these, nor its value.
\<close>

lemma pinned_arguments_survive:
  assumes "filter_argv known name False (role_argv backend_id name r) = Inr out"
    and "flag \<in> set REQUIRED_FLAGS" "role_argv backend_id name r = xs @ flag # v # ys" "\<not> is_flag v"
  shows "(\<exists>xs' ys'. out = xs' @ flag # v # ys') \<and> (\<forall>t \<in> set out. is_flag t \<longrightarrow> known t)"
  using filter_argv_keeps [of known name False xs flag v ys out] filter_argv_known [OF assms(1)] assms by metis

definition knows_less :: "string \<Rightarrow> bool" where
  "knows_less flag \<longleftrightarrow> flag \<notin> {''--disable-log-requests'', ''--gpu-memory-utilization''}"

lemma pinned_arguments_survive_witness:
  "\<exists>out. filter_argv knows_less ''generation'' False (role_argv ''cuda'' ''generation'' plain_role) = Inr out \<and>
     (\<exists>xs ys. out = xs @ ''--model'' # ''/models/m'' # ys)"
proof -
  obtain out where out: "filter_argv knows_less ''generation'' False (role_argv ''cuda'' ''generation'' plain_role) = Inr out"
  proof -
    have "\<not> isl (filter_argv knows_less ''generation'' False (role_argv ''cuda'' ''generation'' plain_role))" by code_simp
    then show ?thesis using that by (cases "filter_argv knows_less ''generation'' False (role_argv ''cuda'' ''generation'' plain_role)") auto
  qed
  have "role_argv ''cuda'' ''generation'' plain_role = [] @ ''--model'' # ''/models/m'' # drop 2 (role_argv ''cuda'' ''generation'' plain_role)"
    by code_simp
  moreover have "''--model'' \<in> set REQUIRED_FLAGS" "\<not> is_flag ''/models/m''" by code_simp+
  ultimately show ?thesis using pinned_arguments_survive [OF out] out by blast
qed

section \<open>What an accepted bundle holds\<close>

definition support_bytes :: "dir_entry list \<Rightarrow> int" where
  "support_bytes es = sum_list (map (\<lambda>(n, st). case st of Some (regular, b) \<Rightarrow> if n \<in> set LOCAL_SUPPORT_FILES then b else 0 | None \<Rightarrow> 0) es)"

lemma scan_step:
  assumes "scan_bundle seen support weights so_far ((name, st) # es) = Inr res" "so_far \<le> LOCAL_SUPPORT_TOTAL_LIMIT"
  obtains b support2 weights2 so_far2 where "st = Some (True, b)" "b \<noteq> 0" "seen + 1 \<le> 17"
    "scan_bundle (seen + 1) support2 weights2 so_far2 es = Inr res" "so_far2 \<le> LOCAL_SUPPORT_TOTAL_LIMIT"
    "if name \<in> set LOCAL_SUPPORT_FILES then support2 = name # support \<and> weights2 = weights \<and> so_far2 = so_far + b
     else is_weights name \<and> support2 = support \<and> weights2 = weights @ [name] \<and> so_far2 = so_far"
proof -
  have seen: "seen + 1 \<le> 17" using assms(1) by (simp split: if_splits)
  obtain regular b where st: "st = Some (regular, b)" using assms(1) seen by (cases st) auto
  have reg: "regular" "b \<noteq> 0" using assms(1) seen by (auto simp: st split: if_splits)
  show ?thesis
  proof (cases "name \<in> set LOCAL_SUPPORT_FILES")
    case True
    then have "scan_bundle (seen + 1) (name # support) weights (so_far + b) es = Inr res" "so_far + b \<le> LOCAL_SUPPORT_TOTAL_LIMIT"
      using assms(1) seen by (simp_all add: st reg split: if_splits)
    then show ?thesis using that [of b] True st reg seen by simp
  next
    case False
    then have "scan_bundle (seen + 1) support (weights @ [name]) so_far es = Inr res" "is_weights name"
      using assms(1) seen by (simp_all add: st reg split: if_splits)
    then show ?thesis using that [of b] False st reg seen assms(2) by simp
  qed
qed

lemma scan_bundle_ok:
  assumes "scan_bundle seen support weights so_far es = Inr (support', weights')" "seen \<le> 17" "so_far \<le> LOCAL_SUPPORT_TOTAL_LIMIT"
  shows "seen + length es \<le> 17 \<and> so_far + support_bytes es \<le> LOCAL_SUPPORT_TOTAL_LIMIT \<and>
    set support' = set support \<union> {n \<in> fst ` set es. n \<in> set LOCAL_SUPPORT_FILES} \<and>
    weights' = weights @ filter (\<lambda>n. n \<notin> set LOCAL_SUPPORT_FILES) (map fst es) \<and>
    (\<forall>(n, st) \<in> set es. (n \<in> set LOCAL_SUPPORT_FILES \<or> is_weights n) \<and> (\<exists>b. st = Some (True, b) \<and> b \<noteq> 0))"
  using assms
proof (induction es arbitrary: seen support weights so_far)
  case (Cons e es)
  obtain name st where e: "e = (name, st)" by fastforce
  obtain b support2 weights2 so_far2 where step: "st = Some (True, b)" "b \<noteq> 0" "seen + 1 \<le> 17"
    "scan_bundle (seen + 1) support2 weights2 so_far2 es = Inr (support', weights')" "so_far2 \<le> LOCAL_SUPPORT_TOTAL_LIMIT"
    and next_state: "if name \<in> set LOCAL_SUPPORT_FILES then support2 = name # support \<and> weights2 = weights \<and> so_far2 = so_far + b
     else is_weights name \<and> support2 = support \<and> weights2 = weights @ [name] \<and> so_far2 = so_far"
    using scan_step Cons.prems(1,3) e by metis
  note IH = Cons.IH [OF step(4,3,5)]
  have bytes: "support_bytes (e # es) = (if name \<in> set LOCAL_SUPPORT_FILES then b else 0) + support_bytes es"
    by (simp add: support_bytes_def e step(1))
  show ?case
  proof (cases "name \<in> set LOCAL_SUPPORT_FILES")
    case True
    then show ?thesis using IH next_state step(1,2) bytes by (auto simp: e)
  next
    case False
    then show ?thesis using IH next_state step(1,2) bytes by (auto simp: e)
  qed
qed (simp add: support_bytes_def)


definition demo_bundle :: local_bundle where
  "demo_bundle = \<lparr>bu_is_dir = Some True,
     bu_entries = [(''config.json'', Some (True, 2)), (''tokenizer.json'', Some (True, 2)), (''tokenizer_config.json'', Some (True, 2)),
       (''model.safetensors'', Some (True, 9))],
     bu_read = (\<lambda>n. Some (2, Some (JObj [])))\<rparr>"


end
