(* ===== verification/SlimServeProvenance.thy ===== *)
theory SlimServeProvenance
  imports VllmEngine
begin

text \<open>
  \<open>lazarus/appliance/slimserve_provenance.py\<close>: the installed files' digests, the check of a file
  against them with its cache, and what may be loaded. A path is its components; \<open>pv_disk\<close> is what
  \<open>resolve\<close>, \<open>stat\<close> and SHA-256 give of it at the moment of a call. Importing is an argument.
\<close>

definition provenance_error :: "string \<Rightarrow> py_error" where
  "provenance_error = RuntimeError"

definition KERNEL_MODULE :: string where
  "KERNEL_MODULE = ''vllm._quixicore_C''"

definition FORBIDDEN_OPTIONAL_MODULES :: "string list" where
  "FORBIDDEN_OPTIONAL_MODULES = [''flashinfer'', ''flashinfer_cubin'', ''flashinfer_jit_cache'']"

definition KERNEL_SOURCES :: "(string, string \<times> string) dict" where
  "KERNEL_SOURCES = [(''cuda'', ''QuixiCore-CUDA'', ''08780aaa22cdc2d144b6beacb24df953134b34be''),
     (''metal'', ''QuixiCore-Metal'', ''71a08cd4cbcdc622ce31b3fc91e1f505e144b516'')]"

definition KERNEL_ENTRYPOINTS :: "string list" where
  "KERNEL_ENTRYPOINTS = [''dsv4_router_gemm'', ''dsv4_hash_router'', ''dsv4_projection_gemv'', ''dsv4_mhc_pre'',
     ''dsv4_mhc_fused_post_pre'', ''dsv4_mhc_post'', ''dsv4_hc_head'', ''mla_decode_fp8_sparse'', ''paged_attention'',
     ''paged_attention_partitioned'', ''paged_attention_verify'', ''muse_q38_run'', ''muse_step_run'', ''muse_step_run_aux'',
     ''dflash_step_run'', ''dflash_sample_greedy'', ''add_rms_norm'', ''gemma_rms_norm'', ''qgemv'', ''qgemm'', ''qflux_gelu'',
     ''qgemv_w8a8'', ''qgemv_w2a8'', ''quantize_per_token'', ''quantize_per_tensor'', ''lm_head_sample'', ''lm_head_sample_topk'',
     ''lm_head_sample_topp'', ''qgemm_actorder'', ''qgemm_blockscale'']"

text \<open>\<open>importable\<close> is whether a name is loaded or has a specification.\<close>

definition reject_optional_flashinfer :: "(string \<Rightarrow> bool) \<Rightarrow> py_error option" where
  "reject_optional_flashinfer importable =
     check (list_ex importable FORBIDDEN_OPTIONAL_MODULES) (provenance_error ''unreviewed optional native package is importable'')"

section \<open>Documents\<close>

text \<open>
  \<open>loads\<close> reads a text to a value whose objects keep repeated names, which \<open>_object_pairs\<close> refuses;
  the length is of the text's UTF-8.
\<close>

fun unique_names :: "json \<Rightarrow> bool" where
  "unique_names (JArr xs) = list_all unique_names xs"
| "unique_names (JObj kvs) = (distinct (map fst kvs) \<and> list_all (\<lambda>kv. unique_names (snd kv)) kvs)"
| "unique_names _ = True"

definition utf8_length :: "string \<Rightarrow> int" where
  "utf8_length s = sum_list (map (\<lambda>c. if code c < 128 then 1 else 2) s)"

definition bounded_json :: "(string \<Rightarrow> json option) \<Rightarrow> string option \<Rightarrow> int \<Rightarrow> py_error + (string, json) dict" where
  "bounded_json loads value limit =
     (if blank_text value \<or> limit < utf8_length (the value) then Inl (provenance_error ''missing or oversized identity document'')
      else case loads (the value) of
        None \<Rightarrow> Inl (ValueError ''not JSON'')
      | Some doc \<Rightarrow>
          if \<not> unique_names doc then Inl (provenance_error ''duplicate provenance field'')
          else (case doc of JObj kvs \<Rightarrow> Inr kvs | _ \<Rightarrow> Inl (provenance_error ''identity document must be an object'')))"

section \<open>The installed files\<close>

definition entry_ok :: "string \<Rightarrow> string \<Rightarrow> bool" where
  "entry_ok name digest \<longleftrightarrow>
     name \<noteq> [] \<and> length name \<le> 1024 \<and> CHR 0x5C \<notin> set name \<and> \<not> is_absolute name \<and>
     (\<forall>part \<in> set (split_on slash name). part \<notin> {[], ''.'', ''..''}) \<and> lower_hex 64 digest"

fun entries_loop :: "json list \<Rightarrow> (string, string) dict \<Rightarrow> py_error + (string, string) dict" where
  "entries_loop [] result = Inr result"
| "entries_loop (e # es) result =
     (if \<not> is_obj e then Inl (provenance_error ''invalid installed file provenance'')
      else case (obj_get e ''path'', obj_get e ''sha256'') of
        (JStr name, JStr digest) \<Rightarrow>
          if \<not> entry_ok name digest \<or> dict_get result name \<noteq> None
          then Inl (provenance_error ''invalid installed file path or digest'')
          else entries_loop es (dict_set name digest result)
      | _ \<Rightarrow> Inl (provenance_error ''invalid installed file digest''))"

definition entries_of :: "json \<Rightarrow> py_error + (string, string) dict" where
  "entries_of entries =
     (case entries of
        JArr (e # es) \<Rightarrow> entries_loop (e # es) []
      | _ \<Rightarrow> Inl (provenance_error ''missing installed file provenance''))"

text \<open>
  A file as it is seen: where it resolves to, \<open>None\<close> where it is not there, the five numbers of its
  \<open>stat\<close> and its digest.
\<close>

type_synonym file_identity = "int \<times> int \<times> int \<times> int \<times> int"

record installed_disk =
  pd_resolve :: "string list \<Rightarrow> string list option"
  pd_identity :: "string list \<Rightarrow> file_identity"
  pd_digest :: "string list \<Rightarrow> string"

record provenance =
  pv_root :: "string list"
  pv_files :: "(string, string) dict"
  pv_kernels :: "(string, json) dict"
  pv_artifacts :: "(string, string) dict"
  pv_verified :: "(string, file_identity \<times> string) dict"

definition relative_to :: "string list \<Rightarrow> string list \<Rightarrow> string" where
  "relative_to base p = join_with [slash] (drop (length base) p)"

definition verify_file ::
    "installed_disk \<Rightarrow> (string, string) dict \<Rightarrow> string list \<Rightarrow> provenance \<Rightarrow> (py_error + string) \<times> provenance" where
  "verify_file disk entries path pv =
     (case pd_resolve disk path of
        None \<Rightarrow> (Inl (OSError ''no such file''), pv)
      | Some resolved \<Rightarrow>
          if resolved \<noteq> path \<or> \<not> prefix (pv_root pv) resolved
          then (Inl (provenance_error ''loaded implementation is outside its installation''), pv)
          else let relative = relative_to (pv_root pv) resolved in
            case dict_get entries relative of
              None \<Rightarrow> (Inl (provenance_error ''loaded implementation has no source digest''), pv)
            | Some expected \<Rightarrow>
                let identity = pd_identity disk resolved in
                if dict_get (pv_verified pv) relative = Some (identity, expected) then (Inr expected, pv)
                else if pd_digest disk resolved \<noteq> expected
                then (Inl (provenance_error ''installed implementation digest mismatch''), pv)
                else (Inr expected, pv\<lparr>pv_verified := dict_set relative (identity, expected) (pv_verified pv)\<rparr>))"

definition SOURCE_REPOSITORY :: string where
  "SOURCE_REPOSITORY = ''https://github.com/QuixiAI/SlimServe''"

text \<open>\<open>InstalledProvenance.__init__\<close>, of the document already read.\<close>

definition new_provenance ::
    "(string \<Rightarrow> bool) \<Rightarrow> installed_disk \<Rightarrow> string list \<Rightarrow> py_error + (string, json) dict \<Rightarrow> py_error + provenance" where
  "new_provenance importable disk site document =
     guarded (reject_optional_flashinfer importable) (and_then document (\<lambda>d.
       let s = (case dict_get d ''slimserve'' of None \<Rightarrow> JObj [] | Some s \<Rightarrow> s);
           k = (case dict_get d ''kernels'' of None \<Rightarrow> JObj [] | Some k \<Rightarrow> k) in
       if dict_get d ''schema_version'' \<noteq> Some (JInt 1) then Inl (provenance_error ''unsupported installation provenance'')
       else if \<not> is_obj s then Inl (TypeError ''no attribute get'')
       else if obj_get s ''source_repository'' \<noteq> JStr SOURCE_REPOSITORY \<or> obj_get s ''source_commit'' \<noteq> JStr SLIMSERVE_COMMIT \<or>
           (case obj_get s ''package_version'' of JStr v \<Rightarrow> v = [] | _ \<Rightarrow> True)
       then Inl (provenance_error ''unreviewed SlimServe source'')
       else and_then (entries_of (obj_get s ''files'')) (\<lambda>files.
         case k of
           JObj kvs \<Rightarrow> and_then (entries_of (obj_get k ''artifacts'')) (\<lambda>artifacts.
             case verify_file disk files (site @ [''slimserve'', ''profiles.json''])
               \<lparr>pv_root = site, pv_files = files, pv_kernels = kvs, pv_artifacts = artifacts, pv_verified = []\<rparr> of
               (Inl e, pv) \<Rightarrow> Inl e
             | (Inr digest, pv) \<Rightarrow> Inr pv)
         | _ \<Rightarrow> Inl (TypeError ''no attribute get''))))"

section \<open>What may be loaded\<close>

text \<open>
  A module: its name, file, its specification's origin (resolved), and the source a compiled file comes
  from. \<open>verify_module\<close> checks all of it and then the source file.
\<close>

record loaded_module =
  lm_name :: string
  lm_file :: "string list option"
  lm_origin :: "string list option"
  lm_resolved :: "string list option"
  lm_source :: "string list"
  lm_suffix :: string
  lm_source_suffix :: string

definition own_package :: "string \<Rightarrow> bool" where
  "own_package name \<longleftrightarrow> name \<in> {''vllm'', ''slimserve''} \<or> prefix ''vllm.'' name \<or> prefix ''slimserve.'' name"

definition verify_module :: "installed_disk \<Rightarrow> loaded_module \<Rightarrow> provenance \<Rightarrow> (py_error + unit) \<times> provenance" where
  "verify_module disk m pv =
     (if \<not> own_package (lm_name m) \<and> lm_name m \<noteq> ''__main__''
      then (Inl (provenance_error ''API is not from the isolated SlimServe package''), pv)
      else case lm_file m of
        None \<Rightarrow> (Inl (provenance_error ''loaded API has no source file''), pv)
      | Some f \<Rightarrow>
          if lm_origin m = None \<or> lm_origin m \<noteq> lm_resolved m then (Inl (provenance_error ''loaded API origin mismatch''), pv)
          else let (path, sfx) = (if lm_suffix m = ''.pyc'' then (lm_source m, lm_source_suffix m) else (f, lm_suffix m)) in
            if sfx \<noteq> ''.py'' then (Inl (provenance_error ''loaded API is not a provenance-bound Python source''), pv)
            else (case verify_file disk (pv_files pv) path pv of (r, pv) \<Rightarrow> (map_sum id (\<lambda>_. ()) r, pv)))"

text \<open>
  What \<open>inspect\<close> says of a callable, unwrapped: the module it is of and the source files of the two.
\<close>

record loaded_api =
  la_module :: "loaded_module option"
  la_file :: "string list option"
  la_module_source :: "string list option"

definition verify_api :: "installed_disk \<Rightarrow> loaded_api \<Rightarrow> provenance \<Rightarrow> (py_error + unit) \<times> provenance" where
  "verify_api disk a pv =
     (case la_module a of
        None \<Rightarrow> (Inl (provenance_error ''loaded API has no module''), pv)
      | Some m \<Rightarrow> (case verify_module disk m pv of
          (Inl e, pv) \<Rightarrow> (Inl e, pv)
        | (Inr _, pv) \<Rightarrow> (case la_file a of
            None \<Rightarrow> (Inl (provenance_error ''loaded API has no executable source''), pv)
          | Some f \<Rightarrow> (case verify_file disk (pv_files pv) f pv of
              (Inl e, pv) \<Rightarrow> (Inl e, pv)
            | (Inr _, pv) \<Rightarrow>
                if la_module_source a = None \<or> pd_resolve disk f \<noteq> Option.bind (la_module_source a) (pd_resolve disk)
                then (Inl (provenance_error ''loaded callable and module sources disagree''), pv)
                else (Inr (), pv)))))"

lemma verified_api_is_its_modules:
  "fst (verify_api disk a pv) = Inr () \<Longrightarrow>
   \<exists>f src. la_file a = Some f \<and> la_module_source a = Some src \<and> pd_resolve disk src = Some f"
  by (auto simp: verify_api_def verify_file_def Let_def split: option.splits sum.splits prod.splits if_splits)

fun verify_files ::
    "installed_disk \<Rightarrow> (string, string) dict \<Rightarrow> string list list \<Rightarrow> provenance \<Rightarrow> (py_error + unit) \<times> provenance" where
  "verify_files disk entries [] pv = (Inr (), pv)"
| "verify_files disk entries (p # ps) pv =
     (case verify_file disk entries p pv of
        (Inl e, pv) \<Rightarrow> (Inl e, pv)
      | (Inr d, pv) \<Rightarrow> verify_files disk entries ps pv)"

definition own_source :: "loaded_module \<Rightarrow> bool" where
  "own_source m \<longleftrightarrow> (prefix ''vllm.'' (lm_name m) \<or> prefix ''slimserve.'' (lm_name m)) \<and> lm_file m \<noteq> None \<and>
     lm_suffix m \<in> {''.py'', ''.pyc''}"

fun verify_modules :: "installed_disk \<Rightarrow> loaded_module list \<Rightarrow> provenance \<Rightarrow> (py_error + unit) \<times> provenance" where
  "verify_modules disk [] pv = (Inr (), pv)"
| "verify_modules disk (m # ms) pv =
     (case verify_module disk m pv of
        (Inl e, pv) \<Rightarrow> (Inl e, pv)
      | (Inr u, pv) \<Rightarrow> verify_modules disk ms pv)"

definition verify_loaded_modules ::
    "(string \<Rightarrow> bool) \<Rightarrow> installed_disk \<Rightarrow> loaded_module list \<Rightarrow> provenance \<Rightarrow> (py_error + unit) \<times> provenance" where
  "verify_loaded_modules importable disk modules pv =
     (case reject_optional_flashinfer importable of
        Some e \<Rightarrow> (Inl e, pv)
      | None \<Rightarrow> verify_modules disk (filter own_source modules) pv)"

text \<open>
  The compiled kernels: the module's name, file, whether it is the one registered, whether its suffix and
  loader are an extension's, and its specification's origin.
\<close>

record kernel_module =
  km_name :: string
  km_file :: "string list"
  km_registered :: bool
  km_suffix_ok :: bool
  km_extension_loader :: bool
  km_origin :: "string list option"

definition kernel_version :: "string \<Rightarrow> string" where
  "kernel_version commit = commit @ ''+slimserve.'' @ SLIMSERVE_COMMIT"

definition kernels_reviewed :: "(string, json) dict \<Rightarrow> string \<Rightarrow> string \<Rightarrow> string \<Rightarrow> bool" where
  "kernels_reviewed k backend repository commit \<longleftrightarrow>
     dict_get k ''library'' = Some (JStr (''quixicore-'' @ backend)) \<and>
     dict_get k ''source_repository'' = Some (JStr (''https://github.com/QuixiAI/'' @ repository)) \<and>
     dict_get k ''source_commit'' = Some (JStr commit) \<and> dict_get k ''modifications_commit'' = Some (JStr SLIMSERVE_COMMIT) \<and>
     dict_get k ''version'' = Some (JStr (kernel_version commit)) \<and> dict_get k ''module_name'' = Some (JStr KERNEL_MODULE) \<and>
     truthy (obj_get (JObj k) ''source_files'')"

definition verify_extension ::
    "(string \<Rightarrow> bool) \<Rightarrow> installed_disk \<Rightarrow> kernel_module \<Rightarrow> string \<Rightarrow> provenance \<Rightarrow> (py_error + json) \<times> provenance" where
  "verify_extension importable disk m backend pv =
     (case reject_optional_flashinfer importable of
        Some e \<Rightarrow> (Inl e, pv)
      | None \<Rightarrow> (case dict_get KERNEL_SOURCES backend of
          None \<Rightarrow> (Inl (provenance_error ''unsupported native kernel backend''), pv)
        | Some (repository, commit) \<Rightarrow>
            if \<not> kernels_reviewed (pv_kernels pv) backend repository commit \<or> km_name m \<noteq> KERNEL_MODULE \<or> \<not> km_registered m
            then (Inl (provenance_error ''unreviewed native kernel provenance''), pv)
            else if \<not> km_suffix_ok m then (Inl (provenance_error ''kernel module is not a compiled extension''), pv)
            else if \<not> km_extension_loader m \<or> km_origin m \<noteq> Some (km_file m)
            then (Inl (provenance_error ''kernel module has no native extension loader''), pv)
            else (case verify_files disk (pv_artifacts pv)
                ([km_file m] @ map (\<lambda>(n, d). pv_root pv @ split_on slash n) (pv_artifacts pv) @
                 (if backend = ''metal'' then [butlast (km_file m) @ [''quixicore_metal.metallib'']] else [])) pv of
                (Inl e, pv) \<Rightarrow> (Inl e, pv)
              | (Inr u, pv) \<Rightarrow> (Inr (JObj [(''library'', JStr (''quixicore-'' @ backend)), (''version'', JStr (kernel_version commit)),
                  (''backend'', JStr backend)]), pv))))"

section \<open>The cache answers as a fresh check does\<close>

text \<open>
  The disks of a process's life: a resolved path has plain components, and the five numbers tell a
  file's contents apart, which is what the cache relies on.
\<close>

definition honest_disks :: "installed_disk list \<Rightarrow> bool" where
  "honest_disks ds \<longleftrightarrow>
     (\<forall>d \<in> set ds. \<forall>p r. pd_resolve d p = Some r \<longrightarrow> list_all plain_component r) \<and>
     (\<forall>d \<in> set ds. \<forall>d' \<in> set ds. \<forall>p. pd_identity d p = pd_identity d' p \<longrightarrow> pd_digest d p = pd_digest d' p)"

type_synonym verify_call = "installed_disk \<times> (string, string) dict \<times> string list"

fun verify_calls :: "verify_call list \<Rightarrow> provenance \<Rightarrow> provenance" where
  "verify_calls [] pv = pv"
| "verify_calls ((d, entries, path) # calls) pv = verify_calls calls (snd (verify_file d entries path pv))"

definition cache_ok :: "installed_disk list \<Rightarrow> provenance \<Rightarrow> bool" where
  "cache_ok ds pv \<longleftrightarrow>
     (\<forall>rel i e. dict_get (pv_verified pv) rel = Some (i, e) \<longrightarrow>
        (\<forall>d \<in> set ds. \<forall>p. prefix (pv_root pv) p \<and> list_all plain_component p \<and> relative_to (pv_root pv) p = rel \<and>
           pd_identity d p = i \<longrightarrow> pd_digest d p = e))"

lemma join_plain_inj:
  assumes "list_all plain_component xs" "list_all plain_component ys" "join_with [slash] xs = join_with [slash] ys"
  shows "xs = ys"
proof (cases "xs = [] \<or> ys = []")
  case True
  have "zs \<noteq> [] \<Longrightarrow> list_all plain_component zs \<Longrightarrow> join_with [slash] zs \<noteq> []" for zs
    using plain_head(2) [of zs] by (auto simp: list_all_iff)
  from this [of xs] this [of ys] True assms show ?thesis by (metis join_with.simps(1))
next
  case False
  have "split_on slash (join_with [slash] zs) = zs" if "zs \<noteq> []" "list_all plain_component zs" for zs
    using split_join [of zs slash] that by (auto simp: list_all_iff plain_component_def)
  then show ?thesis using False assms by metis
qed

lemma relative_to_inj:
  assumes "prefix base p" "prefix base q" "list_all plain_component p" "list_all plain_component q" "relative_to base p = relative_to base q"
  shows "p = q"
  using assms join_plain_inj by (auto simp: relative_to_def prefix_def)

lemma verify_file_root [simp]: "pv_root (snd (verify_file d entries path pv)) = pv_root pv"
  by (simp add: verify_file_def Let_def split: option.split)

lemma verify_file_keeps_cache:
  assumes "honest_disks ds" "d \<in> set ds" "cache_ok ds pv"
  shows "cache_ok ds (snd (verify_file d entries path pv))"
proof (cases "snd (verify_file d entries path pv) = pv")
  case True
  then show ?thesis using assms(3) by simp
next
  case False
  then obtain e where r: "pd_resolve d path = Some path" "prefix (pv_root pv) path" "pd_digest d path = e"
    and s: "snd (verify_file d entries path pv) =
      pv\<lparr>pv_verified := dict_set (relative_to (pv_root pv) path) (pd_identity d path, e) (pv_verified pv)\<rparr>"
    by (auto simp: verify_file_def Let_def split: option.splits if_splits)
  have plain: "list_all plain_component path" using assms(1,2) r(1) by (auto simp: honest_disks_def)
  have "pd_digest d' p = e"
    if a: "d' \<in> set ds" "prefix (pv_root pv) p" "list_all plain_component p"
      "relative_to (pv_root pv) p = relative_to (pv_root pv) path" "pd_identity d' p = pd_identity d path" for d' p
  proof -
    have "p = path" using relative_to_inj a(2,3,4) r(2) plain by blast
    then show ?thesis using assms(1,2) a(1,5) r(3) unfolding honest_disks_def by blast
  qed
  then show ?thesis using assms(3) unfolding s cache_ok_def by (auto split: if_splits)
qed

lemma calls_keep_cache:
  "honest_disks ds \<Longrightarrow> fst ` set calls \<subseteq> set ds \<Longrightarrow> cache_ok ds pv \<Longrightarrow>
   cache_ok ds (verify_calls calls pv) \<and> pv_root (verify_calls calls pv) = pv_root pv"
  by (induction calls pv rule: verify_calls.induct) (auto simp: verify_file_keeps_cache)

text \<open>
  C30. The cache never changes a verdict: after any calls, on a disk whose files the five numbers of
  \<open>stat\<close> tell apart, a check answers what it would have answered by reading the file again.
\<close>

theorem cached_check_is_fresh:
  assumes "honest_disks ds" "fst ` set calls \<subseteq> set ds" "d \<in> set ds" "pv_verified pv = []"
  shows "fst (verify_file d entries path (verify_calls calls pv)) = fst (verify_file d entries path pv)"
proof -
  let ?pv = "verify_calls calls pv"
  have c: "cache_ok ds ?pv" and root: "pv_root ?pv = pv_root pv"
    using calls_keep_cache [OF assms(1,2), of pv] assms(4) by (auto simp: cache_ok_def)
  have "pd_digest d path = e"
    if "pd_resolve d path = Some path" "prefix (pv_root pv) path"
      "dict_get (pv_verified ?pv) (relative_to (pv_root pv) path) = Some (pd_identity d path, e)" for e
    using c that assms(1,3) unfolding cache_ok_def root honest_disks_def by blast
  then show ?thesis using assms(4) by (auto simp: verify_file_def Let_def root split: option.splits)
qed

definition demo_disk :: installed_disk where
  "demo_disk = \<lparr>pd_resolve = Some, pd_identity = (\<lambda>p. (0, 0, int (length p), 0, 0)), pd_digest = (\<lambda>p. ''d'')\<rparr>"

definition demo_installed :: installed_disk where
  "demo_installed = demo_disk\<lparr>pd_resolve := \<lambda>p. if list_all plain_component p then Some p else None\<rparr>"

definition demo_provenance :: provenance where
  "demo_provenance = \<lparr>pv_root = [''site''], pv_files = [(''m.py'', ''d'')], pv_kernels = [], pv_artifacts = [], pv_verified = []\<rparr>"

lemma cached_check_is_fresh_witness:
  "pv_verified (verify_calls [(demo_installed, [(''m.py'', ''d'')], [''site'', ''m.py''])] demo_provenance) \<noteq> [] \<and>
   fst (verify_file demo_installed [(''m.py'', ''d'')] [''site'', ''m.py'']
     (verify_calls [(demo_installed, [(''m.py'', ''d'')], [''site'', ''m.py''])] demo_provenance)) = Inr ''d''"
proof -
  have h: "honest_disks [demo_installed]"
    by (auto simp: honest_disks_def demo_installed_def demo_disk_def split: if_splits)
  have v: "pv_verified demo_provenance = []" by (simp add: demo_provenance_def)
  have "fst (verify_file demo_installed [(''m.py'', ''d'')] [''site'', ''m.py''] demo_provenance) = Inr ''d''" by code_simp
  moreover have "pv_verified (verify_calls [(demo_installed, [(''m.py'', ''d'')], [''site'', ''m.py''])] demo_provenance) \<noteq> []" by code_simp
  ultimately show ?thesis
    using cached_check_is_fresh [OF h _ _ v, of "[(demo_installed, [(''m.py'', ''d'')], [''site'', ''m.py''])]" demo_installed] by simp
qed

end
