(* ===== verification/SlimServeLaunch.thy ===== *)
theory SlimServeLaunch
  imports SlimServeProvenance
begin

text \<open>
  \<open>lazarus/appliance/slimserve_launch.py\<close>: from a configuration and an upstream plan to the arguments of
  the isolated engine, or a reason not to. SlimServe's registry, its plan and \<open>serve_argv\<close>, torch's and
  the host's facts and the prepared directories are arguments. \<open>LocalPlanError\<close> is its reason; every
  other exception ends as \<open>unavailable_plan\<close>, as \<open>resolve_local\<close> has it.
\<close>

unbundle bit_operations_syntax

definition unavailable_plan :: string where
  "unavailable_plan = ''SlimServe local configuration is unavailable or invalid''"

definition require :: "bool \<Rightarrow> string \<Rightarrow> string option" where
  "require condition reason = check (\<not> condition) reason"

definition item :: "(string, json) dict \<Rightarrow> string \<Rightarrow> string + json" where
  "item d key = (case dict_get d key of None \<Rightarrow> Inl unavailable_plan | Some v \<Rightarrow> Inr v)"

definition get_or :: "(string, json) dict \<Rightarrow> string \<Rightarrow> json \<Rightarrow> json" where
  "get_or d key v = (case dict_get d key of None \<Rightarrow> v | Some x \<Rightarrow> x)"

text \<open>A value \<open>.get\<close> is called on.\<close>

definition as_dict :: "json \<Rightarrow> string + (string, json) dict" where
  "as_dict v = (case v of JObj kvs \<Rightarrow> Inr kvs | _ \<Rightarrow> Inl unavailable_plan)"

definition as_list :: "json \<Rightarrow> string + json list" where
  "as_list v = (case v of JArr vs \<Rightarrow> Inr vs | _ \<Rightarrow> Inl unavailable_plan)"

section \<open>What of a plan is reviewed\<close>

definition ENGINE_KEYS :: "string list" where
  "ENGINE_KEYS = [''attention_backend'', ''attention_config'', ''block_size'', ''compilation_config'', ''data_parallel_size'',
     ''default_chat_template_kwargs'', ''disable_custom_all_reduce'', ''dtype'', ''enable_auto_tool_choice'',
     ''enable_chunked_prefill'', ''enable_expert_parallel'', ''enable_prefix_caching'', ''gpu_memory_utilization'',
     ''kernel_config'', ''kv_cache_dtype'', ''kv_cache_memory_bytes'', ''kv_transfer_config'', ''language_model_only'',
     ''limit_mm_per_prompt'', ''linear_backend'', ''mamba_cache_dtype'', ''mamba_ssm_cache_dtype'', ''max_model_len'',
     ''max_num_batched_tokens'', ''max_num_seqs'', ''moe_backend'', ''override_generation_config'', ''reasoning_parser'',
     ''served_model_name'', ''tensor_parallel_size'', ''tokenizer_mode'', ''tool_call_parser'', ''trust_remote_code'']"

definition NESTED_KEYS :: "(string, string list) dict" where
  "NESTED_KEYS = [
     (''attention_config'', [''backend'', ''sparse_mla_force_mqa'']),
     (''compilation_config'', [''cudagraph_mode'', ''max_cudagraph_capture_size'']),
     (''kernel_config'', [''moe_backend'', ''linear_backend'']),
     (''default_chat_template_kwargs'', [''thinking'', ''enable_thinking'', ''reasoning_effort'', ''preserve_thinking'']),
     (''override_generation_config'', [''thinking_token_budget'']),
     (''limit_mm_per_prompt'', [''vision_chunk'', ''image'']),
     (''kv_transfer_config'', [''kv_connector'', ''kv_role'', ''kv_connector_extra_config'']),
     (''kv_connector_extra_config'', [''host_tier_gb_per_rank'', ''nvme_tier_gb_per_rank'', ''enable_cross_layers_blocks'',
        ''main_kv_host_resident'', ''main_kv_gpu_rows'', ''main_kv_sub_blocks'', ''main_kv_tier_gb_per_rank'', ''kv_pool_deep_requests''])]"

definition SPEC_KEYS :: "string list" where
  "SPEC_KEYS = [''method'', ''num_speculative_tokens'', ''attention_backend'', ''kv_cache_dtype'', ''quantization'',
     ''disable_draft_cudagraphs'', ''num_speculative_tokens_per_batch_size'', ''index_share_for_mtp_iteration'',
     ''use_local_argmax_reduction'']"

definition ENV_VALUES :: "(string, string) dict" where
  "ENV_VALUES = [(''NCCL_P2P_LEVEL'', ''SYS''), (''PYTORCH_CUDA_ALLOC_CONF'', ''expandable_segments:True''),
     (''VLLM_ADMISSION_MAX_CONCURRENT'', ''96''), (''VLLM_DSV4_ALIGNED_Q8'', ''1''), (''VLLM_DSV4_AUX_STREAMS'', ''0''),
     (''VLLM_DSV4_MHC_SCHEDULE'', ''async''), (''VLLM_DSV4_W1_QWARP8'', ''1''), (''VLLM_GDN_DECODE_KERNEL'', ''triton''),
     (''VLLM_GGUF_DSV4_REPACK_IQ2'', ''0''), (''VLLM_GGUF_DSV4_REPACK_Q2K'', ''0''), (''VLLM_METAL_ASYNC_SCHED'', ''1''),
     (''VLLM_QC_MUSE'', ''1''), (''VLLM_QWEN4_EXP_PLE_HOST'', ''1''), (''VLLM_QWEN4_EXP_SKINNY_GEMM'', ''1''),
     (''VLLM_QWEN4_EXP_SKINNY_W8'', ''1''), (''VLLM_SD_ADAPT_THROTTLE'', ''1''), (''VLLM_SSM_CONV_STATE_LAYOUT'', ''DS''),
     (''VLLM_USE_V2_MODEL_RUNNER'', ''1'')]"

text \<open>The upstream plan, as far as the program reads it.\<close>

record quant =
  qt_name :: string
  qt_files :: "json list"
  qt_assembly :: "(string, json) dict"
  qt_min_host_ram :: "(string, int) dict"

record plan =
  pl_profile_id :: string
  pl_platform :: string
  pl_gpus :: int
  pl_source_key :: string
  pl_source :: "(string, json) dict"
  pl_quant :: quant
  pl_engine :: "(string, json) dict"
  pl_env :: "(string, json) dict"
  pl_speculative :: bool
  pl_speculator :: json
  pl_speculative_overrides :: json

definition scalar :: "json \<Rightarrow> bool" where
  "scalar v = (case v of JStr _ \<Rightarrow> True | JInt _ \<Rightarrow> True | JFloat _ \<Rightarrow> True | JBool _ \<Rightarrow> True | _ \<Rightarrow> False)"

definition keys :: "json \<Rightarrow> string list \<Rightarrow> string \<Rightarrow> string option" where
  "keys v allowed reason = require (case v of JObj kvs \<Rightarrow> list_all (\<lambda>kv. fst kv \<in> set allowed) kvs | _ \<Rightarrow> False) reason"

definition nested_allowed :: "string \<Rightarrow> string list" where
  "nested_allowed key = (case dict_get NESTED_KEYS key of None \<Rightarrow> [] | Some ks \<Rightarrow> ks)"

definition inner_checks :: "string \<times> json \<Rightarrow> string option list" where
  "inner_checks kv =
     (case kv of (inner, v) \<Rightarrow>
        (case v of
           JObj kvs \<Rightarrow> [require (dict_get NESTED_KEYS inner \<noteq> None) ''unreviewed nested engine setting'',
             keys v (nested_allowed inner) ''unreviewed nested engine setting'',
             require (list_all (scalar \<circ> snd) kvs) ''unreviewed nested engine value'']
         | _ \<Rightarrow> [require (scalar v) ''unreviewed engine value'']))"

definition engine_checks_of :: "string \<times> json \<Rightarrow> string option list" where
  "engine_checks_of kv =
     (case kv of (key, v) \<Rightarrow>
        (case v of
           JObj kvs \<Rightarrow> [require (dict_get NESTED_KEYS key \<noteq> None) ''unreviewed nested engine setting'',
             keys v (nested_allowed key) ''unreviewed nested engine setting''] @ concat (map inner_checks kvs)
         | _ \<Rightarrow> [require (scalar v) ''unreviewed engine value'']))"

fun env_check :: "(string, json) dict \<Rightarrow> string option" where
  "env_check [] = None"
| "env_check ((key, v) # env) =
     (case dict_get ENV_VALUES key of
        None \<Rightarrow> Some ''unreviewed profile environment''
      | Some allowed \<Rightarrow>
          (case v of
             JArr _ \<Rightarrow> Some unavailable_plan
           | JObj _ \<Rightarrow> Some unavailable_plan
           | _ \<Rightarrow> if v = JStr allowed then env_check env else Some ''unreviewed profile environment''))"

definition speculative_checks :: "plan \<Rightarrow> string option list" where
  "speculative_checks p =
     (if pl_speculative p
      then [require (is_obj (pl_speculator p)) ''missing profile drafter'',
        keys (pl_speculator p) [''repo'', ''revision'', ''base_url'', ''local_dir'', ''file'', ''bytes'', ''engine'', ''note'']
          ''unreviewed speculative source setting'',
        (if truthy (obj_get (pl_speculator p) ''file'')
         then keys (obj_get (pl_speculator p) ''file'') [''path'', ''bytes'', ''sha256''] ''unreviewed speculative file setting'' else None),
        keys (obj_get (pl_speculator p) ''engine'') SPEC_KEYS ''unreviewed speculative setting'']
      else [require (\<not> truthy (pl_speculative_overrides p)) ''unused speculative settings''])"

definition settings :: "plan \<Rightarrow> string option" where
  "settings p = run_checks (
     [keys (JObj (pl_engine p)) ENGINE_KEYS ''unreviewed engine setting''] @ concat (map engine_checks_of (pl_engine p)) @
     [require (get_or (pl_engine p) ''data_parallel_size'' (JInt 1) = JInt 1) ''data parallel profiles are unsupported'',
      require (case get_or (pl_engine p) ''enable_expert_parallel'' (JBool False) of JBool _ \<Rightarrow> True | _ \<Rightarrow> False)
        ''invalid expert parallel setting'',
      env_check (pl_env p),
      keys (pl_speculative_overrides p) SPEC_KEYS ''unreviewed speculative setting''] @ speculative_checks p)"

section \<open>The host\<close>

text \<open>What is read of the platform, of torch and of SlimServe's own detection; \<open>classify\<close> is SlimServe's.\<close>

record cuda_device =
  cd_name :: string
  cd_capability :: "int \<times> int"
  cd_uuid :: torch_uuid

record host_facts =
  hf_system :: string
  hf_machine :: string
  hf_detected :: string
  hf_count :: int
  hf_memory :: int
  hf_host_ram :: int
  hf_mps :: bool
  hf_visible :: "string option"
  hf_hip :: bool
  hf_cuda :: bool
  hf_devices :: "cuda_device list"
  hf_kv_free :: "int option"

definition variant_name :: "slim_variant \<Rightarrow> string" where
  "variant_name v = (case v of A100 \<Rightarrow> ''a100'' | Rtx3090 \<Rightarrow> ''rtx3090'' | Metal \<Rightarrow> ''metal'')"

definition device_matches :: "(string \<Rightarrow> string) \<Rightarrow> slim_variant \<Rightarrow> string \<times> cuda_device \<Rightarrow> bool" where
  "device_matches classify v idd =
     (case idd of (identity, d) \<Rightarrow>
        classify (cd_name d) = variant_name v \<and> cd_capability d = (if v = A100 then (8, 0) else (8, 6)) \<and>
        canonical_torch_uuid (cd_uuid d) = Some identity)"

definition hardware_of :: "(string \<Rightarrow> string) \<Rightarrow> host_facts \<Rightarrow> role_config \<Rightarrow> slim_variant \<Rightarrow> string + (int \<times> int)" where
  "hardware_of classify h r v =
     (let n = rl_tensor_parallel_size r; ids = rl_devices r in
      guarded (require (n \<in> {1, 2, 4}) ''unsupported device count'')
      (if v = Metal
       then guarded (run_checks [
           require (hf_system h = ''Darwin'' \<and> hf_machine h = ''arm64'') ''native Metal platform required'',
           require (n = 1 \<and> ids = [] \<and> hf_detected h = ''metal'' \<and> hf_count h = 1 \<and> 0 < hf_memory h) ''Metal device or memory unavailable'',
           require (hf_mps h) ''Metal device unavailable''])
         (Inr (hf_memory h, hf_memory h))
       else guarded (run_checks [
           require (hf_system h = ''Linux'' \<and> hf_machine h = ''x86_64'') ''managed CUDA platform required'',
           require (int (length ids) = n \<and> int (card (set ids)) = n \<and> list_all gpu_uuid ids) ''invalid managed device identities'',
           require (hf_visible h = Some (join_with '','' ids)) ''device visibility mismatch'',
           require (\<not> hf_hip h \<and> hf_cuda h \<and> int (length (hf_devices h)) = n) ''CUDA device count mismatch'',
           require (list_all (device_matches classify v) (zip ids (hf_devices h))) ''CUDA device identity or architecture mismatch'',
           require (card (set (map cd_name (hf_devices h))) = 1) ''CUDA devices must be homogeneous''])
         (Inr (0, hf_host_ram h))))"

section \<open>The prepared files\<close>

text \<open>
  A file as one pass sees it: its size, the bytes that can be read, whether its identity stays, its
  digest and its text. A directory lists its entries; a link or a device is \<open>Special\<close>.
\<close>

record file_seen =
  fs_bytes :: int
  fs_readable :: int
  fs_stable :: bool
  fs_sha256 :: string
  fs_text :: "string option"

datatype tree_node = Dir "(string \<times> tree_node) list" | File file_seen | Special

type_synonym prepared = "string list \<Rightarrow> (string \<times> tree_node) list option"

definition LAUNCH_SUPPORT_FILES :: "string list" where
  "LAUNCH_SUPPORT_FILES = LOCAL_SUPPORT_FILES @ [''hf_quant_config.json'']"

definition REFERENCE_ONLY_FILES :: "string list" where
  "REFERENCE_ONLY_FILES = [''.gitattributes'', ''README.md'', ''LICENSE'']"

definition REQUIRED_CONFIG :: "string list" where
  "REQUIRED_CONFIG = [''config.json'', ''tokenizer.json'', ''tokenizer_config.json'']"

text \<open>\<open>_open_directory\<close>: every component of the way, no link followed.\<close>

definition open_directory :: "prepared \<Rightarrow> string list \<Rightarrow> string + (string \<times> tree_node) list" where
  "open_directory disk parts =
     guarded (require (parts \<noteq> [] \<and> prefix ''/'' (hd parts) \<and> ''.'' \<notin> set parts \<and> ''..'' \<notin> set parts) ''invalid prepared root'')
     (case disk parts of None \<Rightarrow> Inl unavailable_plan | Some entries \<Rightarrow> Inr entries)"

definition role_name :: "artifact_role \<Rightarrow> string" where
  "role_name r = (case r of ModelRole \<Rightarrow> ''model'' | DrafterRole \<Rightarrow> ''drafter'' | TokenizerRole \<Rightarrow> ''tokenizer'')"

definition role_directories :: "prepared \<Rightarrow> string list \<Rightarrow> string list \<Rightarrow> string + unit" where
  "role_directories disk parent roles =
     and_then (open_directory disk parent) (\<lambda>entries.
       guarded (require (list_all (\<lambda>(n, node). n \<in> set roles \<and> (case node of Dir _ \<Rightarrow> True | _ \<Rightarrow> False)) entries) ''unexpected prepared role root'')
       (guarded (require (set roles \<subseteq> set (map fst entries)) ''missing prepared role root'') (Inr ())))"

definition member :: "string \<Rightarrow> bool" where
  "member name \<longleftrightarrow> 0 < length name \<and> length name \<le> 192 \<and> length (split_on slash name) \<le> 4 \<and> list_all member_part (split_on slash name)"

definition read_member :: "slim_member \<Rightarrow> bool \<Rightarrow> file_seen \<Rightarrow> string + string option" where
  "read_member expected verify f =
     (let metadata = (sf_file expected \<in> set LAUNCH_SUPPORT_FILES) in
      guarded (run_checks [
          require (fs_bytes f = sf_size_bytes expected) ''artifact member size or type mismatch'',
          require (\<not> (verify \<or> metadata) \<or> fs_readable f = sf_size_bytes expected) ''artifact member changed during verification'',
          require (fs_stable f) ''artifact member changed during verification'',
          require (\<not> verify \<or> fs_sha256 f = sf_sha256 expected) ''artifact member digest mismatch''])
        (Inr (if metadata then fs_text f else None)))"

type_synonym documents = "(string, (string, json) dict) dict"

text \<open>The document a metadata file adds, where it is JSON; one that is not UTF-8 has no text.\<close>

definition add_document ::
    "(string \<Rightarrow> json option) \<Rightarrow> string \<Rightarrow> string option \<Rightarrow> documents \<Rightarrow> string + documents" where
  "add_document loads name contents docs =
     (if name \<notin> set LAUNCH_SUPPORT_FILES \<or> \<not> suffix ''.json'' name then Inr docs
      else case contents of
        None \<Rightarrow> Inl unavailable_plan
      | Some t \<Rightarrow> (case bounded_json loads (Some t) LOCAL_SUPPORT_FILE_LIMIT of
            Inl e \<Rightarrow> Inl unavailable_plan
          | Inr d \<Rightarrow> Inr (dict_set name d docs)))"

fun visit ::
    "(string \<Rightarrow> json option) \<Rightarrow> (string, slim_member) dict \<Rightarrow> string list \<Rightarrow> bool \<Rightarrow> string \<Rightarrow> (string \<times> tree_node) list \<Rightarrow>
     string list \<times> documents \<Rightarrow> string + (string list \<times> documents)" where
  "visit loads expected directories verify at_dir [] acc = Inr acc"
| "visit loads expected directories verify at_dir ((n, node) # entries) acc =
     (if at_dir @ n \<in> set directories
      then (case node of
          Dir inner \<Rightarrow> and_then (visit loads expected directories verify (at_dir @ n @ ''/'') inner acc)
            (\<lambda>acc. visit loads expected directories verify at_dir entries acc)
        | _ \<Rightarrow> Inl ''artifact directory type mismatch'')
      else (case (dict_get expected (at_dir @ n), node) of
          (Some m, File f) \<Rightarrow> and_then (read_member m verify f) (\<lambda>contents.
            and_then (add_document loads (at_dir @ n) contents (snd acc)) (\<lambda>docs.
              visit loads expected directories verify at_dir entries ((at_dir @ n) # fst acc, docs)))
        | _ \<Rightarrow> Inl ''unexpected artifact member''))"

definition gguf_part :: "string \<Rightarrow> bool" where
  "gguf_part name \<longleftrightarrow>
     (let n = length name - 19; tail = drop n name in
      19 < length name \<and> list_all (\<lambda>c. dotted c \<or> c = slash) (take n name) \<and> take 11 tail = ''.gguf.part-'' \<and>
      list_all is_digit (take 2 (drop 11 tail)) \<and> take 4 (drop 13 tail) = ''-of-'' \<and> list_all is_digit (drop 17 tail))"

definition supported_member :: "string \<Rightarrow> bool" where
  "supported_member name \<longleftrightarrow>
     name \<in> set LAUNCH_SUPPORT_FILES \<or> suffix ''.safetensors'' name \<or> suffix ''.gguf'' name \<or> gguf_part name"

text \<open>The directories of a member's way: its parents but the last, \<open>.\<close>.\<close>

definition parents_of :: "string \<Rightarrow> string list" where
  "parents_of name = (let ws = split_on slash name in map (\<lambda>k. join_with ''/'' (take k ws)) [1..<length ws])"

definition INDEX :: string where
  "INDEX = ''model.safetensors.index.json''"

definition index_complete :: "json \<Rightarrow> string list \<Rightarrow> bool" where
  "index_complete weights supplied =
     (case weights of
        JObj kvs \<Rightarrow> kvs \<noteq> [] \<and>
          list_all (\<lambda>kv. case snd kv of JStr w \<Rightarrow> slash \<notin> set w \<and> w \<in> set supplied | _ \<Rightarrow> False) kvs \<and>
          list_all (\<lambda>w. JStr w \<in> set (map snd kvs)) supplied
      | _ \<Rightarrow> False)"

definition member_names :: "slim_artifact \<Rightarrow> string list" where
  "member_names a = map sf_file (sa_files a)"

definition closure :: "(string \<Rightarrow> json option) \<Rightarrow> prepared \<Rightarrow> string list \<Rightarrow> slim_artifact \<Rightarrow> bool \<Rightarrow> string + documents" where
  "closure loads disk parts a verify =
     (let names = member_names a; expected = map (\<lambda>f. (sf_file f, f)) (sa_files a) in
      guarded (run_checks [
          require (distinct names \<and> 1 \<le> length names \<and> length names \<le> 256 \<and> list_all member names) ''invalid artifact closure'',
          require (list_all supported_member names) ''unsupported artifact member'',
          require (list_all (\<lambda>f. sf_file f \<in> set LAUNCH_SUPPORT_FILES \<longrightarrow> sf_size_bytes f \<le> LOCAL_SUPPORT_FILE_LIMIT) (sa_files a))
            ''artifact metadata exceeds limit''])
      (and_then (open_directory disk parts) (\<lambda>entries.
       and_then (visit loads expected (concat (map parents_of names)) verify [] entries ([], [])) (\<lambda>(seen, docs).
       guarded (require (set seen = set names) ''missing artifact member'')
       (case dict_get docs INDEX of
          None \<Rightarrow> Inr docs
        | Some index \<Rightarrow> guarded (require (index_complete (obj_get (JObj index) ''weight_map'') (filter (suffix ''.safetensors'') names))
            ''invalid safetensors weight index'') (Inr docs))))))"

section \<open>The members upstream knows\<close>

fun match_members :: "slim_artifact \<Rightarrow> json list \<Rightarrow> string list \<Rightarrow> string + string list" where
  "match_members a [] names = Inr names"
| "match_members a (e # es) names =
     (case e of
        JObj kvs \<Rightarrow>
          (case obj_get e ''path'' of
             JStr name \<Rightarrow>
               if \<not> member name \<or> name \<in> set names then Inl ''invalid upstream artifact member''
               else (case find (\<lambda>f. sf_file f = name) (rev (sa_files a)) of
                   None \<Rightarrow> Inl ''registered artifact member mismatch''
                 | Some f \<Rightarrow>
                     if \<not> py_eq (JInt (sf_size_bytes f)) (obj_get e ''bytes'') then Inl ''registered artifact member mismatch''
                     else if truthy (obj_get e ''sha256'') \<and> obj_get e ''sha256'' \<noteq> JStr (sf_sha256 f)
                     then Inl ''registered artifact digest mismatch''
                     else match_members a es (name # names))
           | _ \<Rightarrow> Inl ''invalid upstream artifact member'')
      | _ \<Rightarrow> Inl unavailable_plan)"

definition checkpoint_of :: "slim_artifact \<Rightarrow> documents \<Rightarrow> bool \<Rightarrow> string option" where
  "checkpoint_of a docs tokenizer =
     (let names = member_names a; weights = filter (\<lambda>n. suffix ''.safetensors'' n \<and> slash \<notin> set n) names in
      run_checks [
        require (set (if tokenizer then REQUIRED_CONFIG else [''config.json'']) \<subseteq> set names \<and> weights \<noteq> []) ''incomplete local checkpoint'',
        require (set names \<subseteq> set LAUNCH_SUPPORT_FILES \<union> set weights) ''unsupported checkpoint member'',
        require (card (set weights) = 1 \<or> dict_get docs INDEX \<noteq> None) ''sharded checkpoint requires a complete weight index''])"

section \<open>Bounds read of the documents\<close>

definition positive_int :: "json \<Rightarrow> int option" where
  "positive_int v = (case v of JInt n \<Rightarrow> if 0 < n then Some n else None | _ \<Rightarrow> None)"

definition text_config :: "(string, json) dict \<Rightarrow> json" where
  "text_config config = get_or config ''text_config'' (JObj config)"

definition context_of :: "documents \<Rightarrow> string + int" where
  "context_of docs =
     (let config = text_config (case dict_get docs ''config.json'' of None \<Rightarrow> [] | Some d \<Rightarrow> d);
          ceilings = List.map_filter (\<lambda>k. positive_int (obj_get config k))
            [''max_position_embeddings'', ''n_positions'', ''max_seq_len'', ''seq_length'', ''model_max_length''] in
      guarded (require (is_obj config) ''invalid local model configuration'')
      (guarded (require (ceilings \<noteq> []) ''local context ceiling is unknown'') (Inr (Min (set ceilings)))))"

definition number_or :: "(string, json) dict \<Rightarrow> string \<Rightarrow> rat option" where
  "number_or d key = number_of (get_or d key (JInt 0))"

definition tier_bytes :: "rat \<Rightarrow> int \<Rightarrow> int" where
  "tier_bytes gb gpus = \<lfloor>gb * 2 ^ 30\<rfloor> * gpus"

text \<open>\<open>_capacity\<close>; \<open>hf_kv_free\<close> is the room of the tier's directory, \<open>None\<close> where it does not open.\<close>

definition capacity :: "plan \<Rightarrow> host_facts \<Rightarrow> int \<Rightarrow> bool \<Rightarrow> string + unit" where
  "capacity p h host_ram verify =
     (let least = (case dict_get (qt_min_host_ram (pl_quant p)) (pl_platform p) of None \<Rightarrow> 0 | Some n \<Rightarrow> n);
          enough = (\<lambda>least. guarded (require (least = 0 \<or> 0 < host_ram \<and> least \<le> host_ram) ''host memory is unknown or insufficient'') (Inr ()));
          transfer = get_or (pl_engine p) ''kv_transfer_config'' JNull in
      if \<not> truthy transfer then enough least
      else and_then (as_dict transfer) (\<lambda>transfer.
        guarded (require (dict_get transfer ''kv_connector'' = Some (JStr ''HostTierConnector'') \<and> dict_get transfer ''kv_role'' = Some (JStr ''kv_both''))
          ''unreviewed KV connector'')
        (and_then (as_dict (get_or transfer ''kv_connector_extra_config'' (JObj []))) (\<lambda>extra.
          case (number_or extra ''host_tier_gb_per_rank'', number_or extra ''main_kv_tier_gb_per_rank'') of
            (Some host_gb, Some main_gb) \<Rightarrow>
              guarded (require (0 < host_gb \<and> 0 \<le> main_gb) ''invalid host tier capacity'')
              (case number_or extra ''nvme_tier_gb_per_rank'' of
                 Some nvme \<Rightarrow>
                   guarded (require (0 \<le> nvme) ''invalid NVMe tier capacity'')
                   (if nvme \<noteq> 0 \<and> verify
                    then (case hf_kv_free h of
                        None \<Rightarrow> Inl unavailable_plan
                      | Some free \<Rightarrow> guarded (require (tier_bytes nvme (pl_gpus p) \<le> free) ''insufficient NVMe tier capacity'')
                          (enough (max least (tier_bytes (host_gb + main_gb) (pl_gpus p)))))
                    else enough (max least (tier_bytes (host_gb + main_gb) (pl_gpus p))))
               | None \<Rightarrow> Inl ''invalid NVMe tier capacity'')
          | _ \<Rightarrow> Inl ''invalid host tier capacity''))))"

section \<open>The Qwen indexer's inputs\<close>

definition QWEN_SOURCES :: "string list" where
  "QWEN_SOURCES = [''qwen38-flash-next-fp8'', ''qwen38-flash-next-nvfp4'']"

definition qwen_type :: "json \<Rightarrow> bool" where
  "qwen_type v \<longleftrightarrow> v \<in> {JStr ''qwen4_exp'', JStr ''qwen4_exp_text''}"

definition power_of_two_above_one :: "int \<Rightarrow> bool" where
  "power_of_two_above_one n \<longleftrightarrow> 1 < n \<and> n AND (n - 1) = 0"

definition rotary_of :: "int \<Rightarrow> (string, json) dict \<Rightarrow> string + json" where
  "rotary_of head rope =
     (if truthy (obj_get (JObj rope) ''rope_dim'') then Inr (obj_get (JObj rope) ''rope_dim'')
      else case number_of (obj_get (JObj rope) ''partial_rotary_factor'') of
        Some factor \<Rightarrow>
          if 0 < factor \<and> factor \<le> 1 then Inr (JInt \<lfloor>of_int head * factor\<rfloor>) else Inl ''Qwen rotary factor is unavailable''
      | None \<Rightarrow> Inl ''Qwen rotary factor is unavailable'')"

definition sections_ok :: "(string, json) dict \<Rightarrow> bool" where
  "sections_ok rope =
     (case obj_get (JObj rope) ''mrope_section'' of
        JNull \<Rightarrow> True
      | JArr vs \<Rightarrow> vs = [] \<or>
          length vs = 3 \<and> list_all (\<lambda>v. case v of JInt n \<Rightarrow> 0 \<le> n | _ \<Rightarrow> False) vs \<and>
          sum_list (map (\<lambda>v. case v of JInt n \<Rightarrow> n | _ \<Rightarrow> 0) vs) = 32 \<and> obj_get (JObj rope) ''mrope_interleaved'' = JBool True
      | _ \<Rightarrow> False)"

definition model_dtype :: "plan \<Rightarrow> (string, json) dict \<Rightarrow> (string, json) dict \<Rightarrow> json" where
  "model_dtype p document tc =
     (let dtype = get_or (pl_engine p) ''dtype'' (JStr ''auto'') in
      if dtype = JStr ''auto''
      then get_or document ''dtype'' (get_or document ''torch_dtype'' (get_or tc ''dtype'' (get_or tc ''torch_dtype'' JNull)))
      else dtype)"

definition indexer_fields :: "string list" where
  "indexer_fields = [''indexer_n_heads'', ''indexer_kv_heads'', ''indexer_head_dim'', ''indexer_budget'', ''indexer_compress_ratio'']"

definition indexer_int :: "(string, json) dict \<Rightarrow> string \<Rightarrow> int" where
  "indexer_int tc key = (case positive_int (obj_get (JObj tc) key) of Some n \<Rightarrow> n | None \<Rightarrow> 0)"

definition indexer_available :: "(string, json) dict \<Rightarrow> bool" where
  "indexer_available tc \<longleftrightarrow>
     (let ratio = indexer_int tc ''indexer_compress_ratio''; budget = indexer_int tc ''indexer_budget'' in
      indexer_int tc ''indexer_head_dim'' = 128 \<and> indexer_int tc ''indexer_kv_heads'' = 1 \<and> power_of_two_above_one ratio \<and>
      budget mod ratio = 0 \<and> budget div ratio \<in> {512, 2048})"

definition qwen_qsa_inputs :: "plan \<Rightarrow> documents \<Rightarrow> string + unit" where
  "qwen_qsa_inputs p docs =
     (if pl_source_key p \<notin> set QWEN_SOURCES then Inr ()
      else let document = (case dict_get docs ''config.json'' of None \<Rightarrow> [] | Some d \<Rightarrow> d) in
        guarded (require (qwen_type (obj_get (JObj document) ''model_type'')) ''Qwen local architecture does not match the reviewed source'')
        (case text_config document of
           JObj tc \<Rightarrow>
             guarded (run_checks [
                 require (qwen_type (obj_get (JObj tc) ''model_type'')) ''Qwen local text configuration is unavailable'',
                 require (list_all (\<lambda>k. positive_int (obj_get (JObj tc) k) \<noteq> None) indexer_fields) ''Qwen indexer configuration is incomplete'',
                 require (indexer_available tc) ''Qwen indexer requires an unavailable kernel path''])
             (case (positive_int (obj_get (JObj tc) ''head_dim''), obj_get (JObj tc) ''rope_parameters'') of
                (Some head, JObj rope) \<Rightarrow>
                  guarded (require (obj_get (JObj rope) ''rope_type'' = JStr ''default'') ''Qwen rotary configuration is unreviewed'')
                  (and_then (rotary_of head rope) (\<lambda>rotary.
                    guarded (run_checks [
                        require (rotary = JInt 64) ''Qwen rotary dimension requires an unavailable kernel'',
                        require (sections_ok rope) ''Qwen rotary layout requires an unavailable kernel'',
                        require (model_dtype p document tc = JStr ''bfloat16'') ''Qwen indexer requires explicit BF16 model metadata''])
                      (Inr ())))
              | _ \<Rightarrow> Inl ''Qwen rotary configuration is unreviewed'')
         | _ \<Rightarrow> Inl ''Qwen local text configuration is unavailable''))"

section \<open>The local plan\<close>

text \<open>
  Upstream: which profiles are blocked, the plan a selection resolves to (\<open>None\<close> where it raises), the
  classes of devices, the arguments of a plan and its entry file.
\<close>

record upstream =
  up_blocked :: "string \<Rightarrow> string \<Rightarrow> bool"
  up_resolve :: "string \<Rightarrow> string \<Rightarrow> int \<Rightarrow> string \<Rightarrow> int \<Rightarrow> int \<Rightarrow> plan option"
  up_classify :: "string \<Rightarrow> string"
  up_serve_argv :: "plan \<Rightarrow> string list"
  up_entry_file :: "plan \<Rightarrow> string"
  up_loads :: "string \<Rightarrow> json option"

record local_plan =
  lp_plan :: plan
  lp_argv :: "string list"
  lp_engine :: "(string, json) dict"
  lp_model_path :: string
  lp_tokenizer_path :: string
  lp_draft_path :: "string option"
  lp_speculative_config :: "(string, json) dict option"

fun shared_check :: "plan \<Rightarrow> slim_artifact \<Rightarrow> json list \<Rightarrow> string option" where
  "shared_check p model [] = None"
| "shared_check p model (e # es) =
     (case e of
        JObj kvs \<Rightarrow>
          if get_or kvs ''repo'' (JStr (sa_repository model)) = JStr (sa_repository model) \<and>
             py_eq (get_or kvs ''base_url'' (obj_get (JObj (pl_source p)) ''base_url'')) (obj_get (JObj (pl_source p)) ''base_url'')
          then shared_check p model es else Some ''cross-source shared inputs are unsupported''
      | _ \<Rightarrow> Some unavailable_plan)"

text \<open>The members the source and the quantisation register; an assembled output stands for its parts.\<close>

definition entry_path :: "json \<Rightarrow> string + string" where
  "entry_path e = (case e of
     JObj kvs \<Rightarrow> and_then (item kvs ''path'') (\<lambda>v. case v of JStr s \<Rightarrow> Inr s | _ \<Rightarrow> Inl unavailable_plan)
   | _ \<Rightarrow> Inl unavailable_plan)"

fun keep_entries :: "(string \<Rightarrow> bool) \<Rightarrow> json list \<Rightarrow> string + json list" where
  "keep_entries keep [] = Inr []"
| "keep_entries keep (e # es) =
     and_then (entry_path e) (\<lambda>path. and_then (keep_entries keep es) (\<lambda>rest. Inr (if keep path then e # rest else rest)))"

definition registered_members :: "plan \<Rightarrow> slim_artifact \<Rightarrow> string + string list" where
  "registered_members p model =
     (let source = JObj (pl_source p); shared = obj_get source ''shared''; assembly = qt_assembly (pl_quant p) in
      and_then (if truthy shared then as_list shared else Inr []) (\<lambda>shared.
      guarded (shared_check p model shared)
      (and_then (match_members model shared []) (\<lambda>from_source.
       if assembly \<noteq> []
       then (let digest = obj_get (JObj assembly) (if truthy (obj_get (JObj assembly) ''patch'') then ''sha256_patched'' else ''sha256_published'') in
         guarded (require (truthy digest) ''unsealed assembly output'')
         (and_then (item assembly ''output'') (\<lambda>output. and_then (item assembly ''bytes'') (\<lambda>size_bytes.
          and_then (match_members model [JObj [(''path'', output), (''bytes'', size_bytes), (''sha256'', digest)]] []) (\<lambda>assembled.
          and_then (keep_entries (\<lambda>path. path \<in> set (member_names model)) (qt_files (pl_quant p))) (\<lambda>parts.
          and_then (match_members model parts []) (\<lambda>retained. Inr (from_source @ assembled @ retained))))))))
       else and_then (keep_entries (\<lambda>path. path \<notin> set REFERENCE_ONLY_FILES) (qt_files (pl_quant p))) (\<lambda>files.
         and_then (match_members model files []) (\<lambda>matched. Inr (from_source @ matched)))))))"

text \<open>The drafter: its root, the role it uses, and the files it needs.\<close>

definition same_source :: "plan \<Rightarrow> (string, json) dict \<Rightarrow> string + bool" where
  "same_source p original =
     (if \<not> py_eq (obj_get (JObj original) ''repo'') (obj_get (JObj (pl_source p)) ''repo'') then Inr False
      else and_then (item (pl_source p) ''local_dir'') (\<lambda>local_dir.
        Inr (py_eq (obj_get (JObj original) ''local_dir'') local_dir \<and> \<not> truthy (obj_get (JObj original) ''file'') \<and>
          obj_get (obj_get (JObj original) ''engine'') ''method'' \<in> {JStr ''mtp'', JStr ''qwen3_5_mtp''})))"

definition artifact_for :: "slim_config \<Rightarrow> artifact_role \<Rightarrow> slim_artifact option" where
  "artifact_for s role = find (\<lambda>a. sa_role a = role) (sc_artifacts s)"

definition docs_for :: "(artifact_role \<times> documents) list \<Rightarrow> artifact_role \<Rightarrow> documents" where
  "docs_for docs role = (case dict_get docs role of None \<Rightarrow> [] | Some d \<Rightarrow> d)"

definition drafter_of ::
    "plan \<Rightarrow> slim_config \<Rightarrow> (artifact_role \<times> documents) list \<Rightarrow> bool \<Rightarrow> string + (artifact_role \<times> (string, json) dict)" where
  "drafter_of p s docs checkpoint =
     and_then (as_dict (pl_speculator p)) (\<lambda>original. and_then (same_source p original) (\<lambda>same.
       if same
       then guarded (require checkpoint ''MTP requires a local checkpoint'') (Inr (ModelRole, original))
       else (case (artifact_for s DrafterRole, get_or original ''revision'' (JStr [])) of
           (Some draft, JStr revision) \<Rightarrow>
             guarded (require (lower_hex 40 revision) ''separate drafter requires an immutable upstream pin'')
             (and_then (item original ''repo'') (\<lambda>repo.
              guarded (require (repo = JStr (sa_repository draft) \<and> revision = sa_revision draft) ''drafter repository or revision mismatch'')
              (if truthy (obj_get (JObj original) ''file'')
               then and_then (match_members draft [obj_get (JObj original) ''file''] []) (\<lambda>required.
                 guarded (require (set (member_names draft) = set required) ''unexpected drafter member'') (Inr (DrafterRole, original)))
               else guarded (checkpoint_of draft (docs_for docs DrafterRole) False) (Inr (DrafterRole, original)))))
         | (None, _) \<Rightarrow> Inl ''separate drafter requires an immutable upstream pin''
         | _ \<Rightarrow> Inl unavailable_plan)))"

definition nested_set :: "string \<Rightarrow> (string, json) dict \<Rightarrow> (string, json) dict \<Rightarrow> string + (string, json) dict" where
  "nested_set key changes d =
     and_then (as_dict (get_or d key (JObj []))) (\<lambda>inner.
       Inr (dict_set key (JObj (fold (\<lambda>(k, v). dict_set k v) changes inner)) d))"

text \<open>The engine's settings with the configuration's own over them.\<close>

definition applied_engine :: "role_config \<Rightarrow> string \<Rightarrow> (string, json) dict \<Rightarrow> string + (string, json) dict" where
  "applied_engine r tokenizer_root engine =
     and_then (nested_set ''attention_config'' [(''use_trtllm_attention'', JBool False)] engine) (\<lambda>engine.
     and_then (if rl_enforce_eager r
         then nested_set ''compilation_config'' [(''mode'', JInt 0), (''cudagraph_mode'', JStr ''NONE''), (''max_cudagraph_capture_size'', JInt 0)] engine
         else Inr engine) (\<lambda>engine.
       Inr (fold (\<lambda>(k, v). dict_set k v)
         [(''served_model_name'', JStr (the (rl_served_model_name r))), (''max_model_len'', JInt (the (rl_max_model_len r))),
          (''max_num_seqs'', JInt (rl_max_concurrent_requests r)), (''revision'', JStr (the (rl_revision r))),
          (''trust_remote_code'', JBool False), (''tokenizer'', JStr tokenizer_root), (''hf_config_path'', JStr tokenizer_root)] engine)))"

definition ceilings_hold :: "role_config \<Rightarrow> (string, json) dict \<Rightarrow> documents \<Rightarrow> string + unit" where
  "ceilings_hold r engine docs =
     and_then (case get_or engine ''max_model_len'' JNull of
         JNull \<Rightarrow> context_of docs
       | JInt n \<Rightarrow> Inr n
       | _ \<Rightarrow> Inl ''context exceeds reviewed ceiling'') (\<lambda>ceiling.
       guarded (require (0 < the (rl_max_model_len r) \<and> the (rl_max_model_len r) \<le> ceiling) ''context exceeds reviewed ceiling'')
       (case num_value (get_or engine ''max_num_seqs'' (JInt 256)) of
          None \<Rightarrow> Inl unavailable_plan
        | Some most \<Rightarrow>
            guarded (run_checks [
                require (of_int (rl_max_concurrent_requests r) \<le> most) ''concurrency exceeds reviewed ceiling'',
                require (rl_tool_call_parser r = None \<or> JStr (the (rl_tool_call_parser r)) = get_or engine ''tool_call_parser'' JNull)
                  ''parser differs from reviewed profile'',
                require (rl_reasoning_parser r = None \<or> JStr (the (rl_reasoning_parser r)) = get_or engine ''reasoning_parser'' JNull)
                  ''parser differs from reviewed profile'']) (Inr ())))"

definition LAUNCH_WORKER :: "slim_variant \<Rightarrow> string" where
  "LAUNCH_WORKER v = ''lazarus.appliance.slimserve_worker.'' @ (if v = Metal then ''MetalWorker'' else ''CudaWorker'')"

text \<open>The speculative settings found in the arguments, and the check that they stay local.\<close>

fun after_flag :: "string \<Rightarrow> string list \<Rightarrow> string option" where
  "after_flag flag [] = None"
| "after_flag flag (t # ts) = (if t = flag then (case ts of [] \<Rightarrow> None | v # _ \<Rightarrow> Some v) else after_flag flag ts)"

definition speculative_of ::
    "(string \<Rightarrow> json option) \<Rightarrow> string list \<Rightarrow> string option \<Rightarrow> bool \<Rightarrow> string + (string, json) dict option" where
  "speculative_of loads argv draft_path wanted =
     and_then (if ''--speculative-config'' \<notin> set argv then Inr None
       else case after_flag ''--speculative-config'' argv of
         None \<Rightarrow> Inl unavailable_plan
       | Some t \<Rightarrow> (case loads t of
           Some (JObj spec) \<Rightarrow>
             guarded (require (obj_get (JObj spec) ''model'' = (case draft_path of None \<Rightarrow> JNull | Some d \<Rightarrow> JStr d) \<and> dict_get spec ''revision'' = None)
               ''nonlocal speculative fallback rejected'') (Inr (Some spec))
         | _ \<Rightarrow> Inl unavailable_plan)) (\<lambda>spec.
       guarded (require ((spec \<noteq> None \<and> spec \<noteq> Some []) = wanted) ''missing speculative configuration'') (Inr spec))"

definition root_of :: "string list \<Rightarrow> artifact_role \<Rightarrow> string list" where
  "root_of parts role = (if role = ModelRole then parts else butlast parts @ [role_name role])"

definition parts_text :: "string list \<Rightarrow> string" where
  "parts_text parts = (case parts of [] \<Rightarrow> [] | r # ps \<Rightarrow> r @ join_with ''/'' ps)"

fun closures ::
    "(string \<Rightarrow> json option) \<Rightarrow> prepared \<Rightarrow> string list \<Rightarrow> bool \<Rightarrow> slim_artifact list \<Rightarrow> string + (artifact_role \<times> documents) list" where
  "closures loads disk parts verify [] = Inr []"
| "closures loads disk parts verify (a # as) =
     and_then (closure loads disk (root_of parts (sa_role a)) a verify) (\<lambda>d.
     and_then (closures loads disk parts verify as) (\<lambda>ds. Inr ((sa_role a, d) # ds)))"

definition metadata_bytes :: "slim_config \<Rightarrow> int" where
  "metadata_bytes s = sum_list (map sf_size_bytes
     (filter (\<lambda>f. sf_file f \<in> set LAUNCH_SUPPORT_FILES) (concat (map sa_files (sc_artifacts s)))))"

text \<open>The model against its source, then every closure and what of it is registered.\<close>

definition sealed_inputs ::
    "upstream \<Rightarrow> prepared \<Rightarrow> role_config \<Rightarrow> slim_config \<Rightarrow> plan \<Rightarrow> bool \<Rightarrow> string + (artifact_role \<times> documents) list" where
  "sealed_inputs u disk r s p verify =
     (case artifact_for s ModelRole of
        None \<Rightarrow> Inl unavailable_plan
      | Some model \<Rightarrow>
          and_then (item (pl_source p) ''repo'') (\<lambda>repo.
          guarded (run_checks [
              require (repo = JStr (sa_repository model) \<and> rl_revision r = Some (sa_revision model) \<and>
                  (\<not> truthy (obj_get (JObj (pl_source p)) ''revision'') \<or> obj_get (JObj (pl_source p)) ''revision'' = JStr (sa_revision model)))
                ''model repository or revision mismatch'',
              require (metadata_bytes s \<le> LOCAL_SUPPORT_TOTAL_LIMIT) ''artifact metadata exceeds aggregate limit'',
              require (path_tail (the (rl_model r)) \<noteq> [] \<and> last (path_tail (the (rl_model r))) = ''model'') ''prepared model root required''])
          (and_then (role_directories disk (butlast (path_parts (the (rl_model r)))) (map (role_name \<circ> sa_role) (sc_artifacts s))) (\<lambda>u'.
           and_then (closures (up_loads u) disk (path_parts (the (rl_model r))) verify (sc_artifacts s)) (\<lambda>docs.
           and_then (qwen_qsa_inputs p (docs_for docs ModelRole)) (\<lambda>u''.
           and_then (registered_members p model) (\<lambda>registered.
           guarded (require (set (member_names model) \<subseteq> set registered \<union> set LAUNCH_SUPPORT_FILES) ''unregistered model member'')
           (Inr docs))))))))"

definition tokenizer_role ::
    "slim_config \<Rightarrow> (artifact_role \<times> documents) list \<Rightarrow> bool \<Rightarrow> string + artifact_role" where
  "tokenizer_role s docs checkpoint =
     (if checkpoint
      then (case artifact_for s ModelRole of
          None \<Rightarrow> Inl unavailable_plan
        | Some model \<Rightarrow> guarded (checkpoint_of model (docs_for docs ModelRole) True) (Inr ModelRole))
      else (case artifact_for s TokenizerRole of
          None \<Rightarrow> Inl ''GGUF requires an explicit local tokenizer closure''
        | Some t \<Rightarrow> guarded (require (set REQUIRED_CONFIG \<subseteq> set (member_names t) \<and> set (member_names t) \<subseteq> set LAUNCH_SUPPORT_FILES)
            ''incomplete local tokenizer closure'') (Inr TokenizerRole)))"

definition drafter_used ::
    "plan \<Rightarrow> slim_config \<Rightarrow> (artifact_role \<times> documents) list \<Rightarrow> bool \<Rightarrow>
     string + (artifact_role \<times> (string, json) dict) option" where
  "drafter_used p s docs checkpoint =
     (if \<not> pl_speculative p then Inr None
      else and_then (drafter_of p s docs checkpoint) (\<lambda>d. Inr (Some d)))"

definition draft_path_of :: "string list \<Rightarrow> (artifact_role \<times> (string, json) dict) option \<Rightarrow> string + string option" where
  "draft_path_of parts drafter =
     (case drafter of
        None \<Rightarrow> Inr None
      | Some (role, original) \<Rightarrow>
          if truthy (obj_get (JObj original) ''file'')
          then and_then (entry_path (obj_get (JObj original) ''file'')) (\<lambda>name. Inr (Some (parts_text (root_of parts role @ [name]))))
          else Inr (Some (parts_text (root_of parts role))))"

definition local_speculator :: "string list \<Rightarrow> (artifact_role \<times> (string, json) dict) option \<Rightarrow> json" where
  "local_speculator parts drafter =
     (case drafter of None \<Rightarrow> JNull
      | Some (role, original) \<Rightarrow> JObj (dict_set ''local_dir'' (JStr (parts_text (root_of parts role))) original))"

definition finish_plan ::
    "upstream \<Rightarrow> role_config \<Rightarrow> slim_config \<Rightarrow> plan \<Rightarrow> (artifact_role \<times> documents) list \<Rightarrow> string + local_plan" where
  "finish_plan u r s p docs =
     (let parts = path_parts (the (rl_model r));
          checkpoint = (obj_get (JObj (pl_source p)) ''format'' = JStr ''safetensors'') in
      and_then (tokenizer_role s docs checkpoint) (\<lambda>tokenizer.
      and_then (drafter_used p s docs checkpoint) (\<lambda>drafter.
      and_then (draft_path_of parts drafter) (\<lambda>draft_path.
      guarded (require ({ModelRole, tokenizer} \<union> fst ` set_option drafter = set (map sa_role (sc_artifacts s))) ''unused artifact role'')
      (and_then (ceilings_hold r (pl_engine p) (docs_for docs tokenizer)) (\<lambda>u'.
       and_then (applied_engine r (parts_text (root_of parts tokenizer)) (pl_engine p)) (\<lambda>engine.
         let local = p\<lparr>pl_source := dict_set ''local_dir'' (JStr (parts_text parts)) (pl_source p),
               pl_speculator := local_speculator parts drafter, pl_engine := engine\<rparr>;
             argv = up_serve_argv u local in
         and_then (speculative_of (up_loads u) argv draft_path (pl_speculative p)) (\<lambda>spec.
           Inr \<lparr>lp_plan = local,
             lp_argv = argv @ [''--worker-cls'', LAUNCH_WORKER (sc_variant s), ''--middleware'',
               ''lazarus.appliance.slimserve_observation.observe_request''],
             lp_engine = engine, lp_model_path = up_entry_file u local, lp_tokenizer_path = parts_text (root_of parts tokenizer),
             lp_draft_path = draft_path, lp_speculative_config = spec\<rparr>))))))))"

text \<open>\<open>resolve_local\<close>; \<open>modules\<close> is what importing and verifying the upstream modules raises.\<close>

definition resolve_local ::
    "upstream \<Rightarrow> py_error option \<Rightarrow> host_facts \<Rightarrow> prepared \<Rightarrow> runtime_config \<Rightarrow> bool \<Rightarrow> string + local_plan" where
  "resolve_local u modules h disk c verify =
     (let r = ro_generation (rt_roles c) in
      if validate_config c \<noteq> None then Inl unavailable_plan
      else case rl_slimserve r of
        None \<Rightarrow> Inl ''SlimServe generation required''
      | Some s \<Rightarrow>
          guarded (run_checks [
              require (rl_engine r = SlimServeEngine) ''SlimServe generation required'',
              require (modules = None) unavailable_plan,
              require (\<not> up_blocked u (sc_profile_id s) (variant_name (sc_variant s))) ''upstream profile is blocked''])
          (and_then (hardware_of (up_classify u) h r (sc_variant s)) (\<lambda>(memory, host_ram).
           case up_resolve u (sc_profile_id s) (variant_name (sc_variant s)) (rl_tensor_parallel_size r) (sc_quant s) memory host_ram of
             None \<Rightarrow> Inl unavailable_plan
           | Some p \<Rightarrow>
               guarded (run_checks [
                   require (pl_gpus p = rl_tensor_parallel_size r \<and>
                       py_eq (obj_get (JObj (pl_engine p)) ''tensor_parallel_size'') (JInt (rl_tensor_parallel_size r)))
                     ''upstream profile requires a different device count'',
                   settings p])
               (and_then (capacity p h host_ram verify) (\<lambda>u'.
                and_then (sealed_inputs u disk r s p verify) (\<lambda>docs. finish_plan u r s p docs))))))"

section \<open>What a resolved plan is bound to\<close>

text \<open>Everything below a directory that is not one: its name from there, and the file it is, if it is one.\<close>

fun tree_items :: "string \<Rightarrow> (string \<times> tree_node) list \<Rightarrow> (string \<times> file_seen option) list" where
  "tree_items at_dir [] = []"
| "tree_items at_dir ((n, node) # entries) =
     (case node of
        Dir inner \<Rightarrow> tree_items (at_dir @ n @ ''/'') inner
      | File f \<Rightarrow> [(at_dir @ n, Some f)]
      | Special \<Rightarrow> [(at_dir @ n, None)]) @ tree_items at_dir entries"

definition seals :: "bool \<Rightarrow> slim_member \<Rightarrow> file_seen option \<Rightarrow> bool" where
  "seals verify m x \<longleftrightarrow>
     (\<exists>f. x = Some f \<and> fs_bytes f = sf_size_bytes m \<and> fs_stable f \<and> (verify \<longrightarrow> fs_readable f = sf_size_bytes m \<and> fs_sha256 f = sf_sha256 m))"

definition sealed_tree :: "bool \<Rightarrow> slim_artifact \<Rightarrow> (string \<times> tree_node) list \<Rightarrow> bool" where
  "sealed_tree verify a entries \<longleftrightarrow>
     fst ` set (tree_items [] entries) = set (member_names a) \<and>
     (\<forall>(n, x) \<in> set (tree_items [] entries). \<exists>m \<in> set (sa_files a). sf_file m = n \<and> seals verify m x)"

lemma require_None [check_simps]: "require b reason = None \<longleftrightarrow> b"
  by (simp add: require_def check_None)

lemma read_member_seals: "read_member m verify f = Inr c \<Longrightarrow> seals verify m (Some f)"
  by (auto simp: read_member_def seals_def Let_def check_simps)

lemma visit_seals:
  assumes "visit loads expected directories verify at_dir es acc = Inr (seen, docs)"
  shows "set seen = set (fst acc) \<union> fst ` set (tree_items at_dir es) \<and>
    (\<forall>(n, x) \<in> set (tree_items at_dir es). \<exists>m. dict_get expected n = Some m \<and> seals verify m x)"
  using assms
proof (induction loads expected directories verify at_dir es acc arbitrary: seen docs rule: visit.induct)
  case (2 loads expected directories verify at_dir n node entries acc)
  show ?case
  proof (cases "at_dir @ n \<in> set directories")
    case True
    then obtain inner where n: "node = Dir inner" using 2(4) by (auto split: tree_node.splits)
    obtain mid where mid: "visit loads expected directories verify (at_dir @ n @ ''/'') inner acc = Inr mid"
      "visit loads expected directories verify at_dir entries mid = Inr (seen, docs)"
      using 2(4) True by (auto simp: n and_then_Inr)
    obtain seen1 docs1 where m: "mid = (seen1, docs1)" by fastforce
    from 2(1) [OF True n mid(1) [unfolded m]] 2(2) [OF True n mid(2)] show ?thesis
      by (auto simp: n m)
  next
    case False
    then obtain m f where m: "dict_get expected (at_dir @ n) = Some m" "node = File f"
      using 2(4) by (auto split: tree_node.splits option.splits)
    obtain c d where c: "read_member m verify f = Inr c"
      "visit loads expected directories verify at_dir entries ((at_dir @ n) # fst acc, d) = Inr (seen, docs)"
      using 2(4) False m by (auto simp: and_then_Inr)
    have "set seen = set ((at_dir @ n) # fst acc) \<union> fst ` set (tree_items at_dir entries) \<and>
        (\<forall>(n, x) \<in> set (tree_items at_dir entries). \<exists>m. dict_get expected n = Some m \<and> seals verify m x)"
      using 2(3) [OF False refl m(1,2) c(2)] by simp
    then show ?thesis using read_member_seals [OF c(1)] m by auto
  qed
qed simp

lemma closure_seals:
  assumes "closure loads disk parts a verify = Inr docs"
  shows "\<exists>entries. disk parts = Some entries \<and> sealed_tree verify a entries"
proof -
  let ?expected = "map (\<lambda>f. (sf_file f, f)) (sa_files a)"
  obtain entries seen d where open_dir: "open_directory disk parts = Inr entries"
    and v: "visit loads ?expected (concat (map parents_of (member_names a))) verify [] entries ([], []) = Inr (seen, d)"
    and all: "set seen = set (member_names a)"
    using assms by (auto simp: closure_def Let_def and_then_Inr check_simps)
  have disk: "disk parts = Some entries" using open_dir by (auto simp: open_directory_def check_simps split: option.splits)
  have m: "sf_file m = n \<and> m \<in> set (sa_files a)" if "dict_get ?expected n = Some m" for n m
    using that by (auto dest: map_of_SomeD)
  have "\<exists>m \<in> set (sa_files a). sf_file m = n \<and> seals verify m x" if "(n, x) \<in> set (tree_items [] entries)" for n x
    using visit_seals [OF v] that m by blast
  then have "sealed_tree verify a entries"
    using visit_seals [OF v] all by (auto simp: sealed_tree_def)
  with disk show ?thesis by blast
qed

lemma closures_seal:
  assumes "closures loads disk parts verify as = Inr docs" "a \<in> set as"
  shows "\<exists>entries. disk (root_of parts (sa_role a)) = Some entries \<and> sealed_tree verify a entries"
  using assms
proof (induction loads disk parts verify as arbitrary: docs rule: closures.induct)
  case (2 loads disk parts verify b bs)
  then obtain d ds where "closure loads disk (root_of parts (sa_role b)) b verify = Inr d" "closures loads disk parts verify bs = Inr ds"
    by (auto simp: and_then_Inr)
  then show ?case using 2 closure_seals by (cases "a = b") auto
qed simp

lemma applied_engine_sets:
  assumes "applied_engine r tok engine = Inr e"
  shows "dict_get e ''trust_remote_code'' = Some (JBool False)" "dict_get e ''max_model_len'' = Some (JInt (the (rl_max_model_len r)))"
    "dict_get e ''max_num_seqs'' = Some (JInt (rl_max_concurrent_requests r))" "dict_get e ''tokenizer'' = Some (JStr tok)"
  using assms by (auto simp: applied_engine_def and_then_Inr split: if_splits)

lemma finish_plan_bounds:
  assumes "finish_plan u r s p docs = Inr lp"
  shows "dict_get (lp_engine lp) ''trust_remote_code'' = Some (JBool False) \<and>
    dict_get (lp_engine lp) ''max_model_len'' = Some (JInt (the (rl_max_model_len r))) \<and>
    (\<forall>n. dict_get (pl_engine p) ''max_model_len'' = Some (JInt n) \<longrightarrow> the (rl_max_model_len r) \<le> n)"
proof -
  obtain tokenizer where ceil: "ceilings_hold r (pl_engine p) (docs_for docs tokenizer) = Inr ()"
    and eng: "applied_engine r (parts_text (root_of (path_parts (the (rl_model r))) tokenizer)) (pl_engine p) = Inr (lp_engine lp)"
    using assms by (auto simp: finish_plan_def Let_def and_then_Inr check_simps)
  have "\<forall>n. dict_get (pl_engine p) ''max_model_len'' = Some (JInt n) \<longrightarrow> the (rl_max_model_len r) \<le> n"
    using ceil by (auto simp: ceilings_hold_def and_then_Inr check_simps get_or_def)
  then show ?thesis using applied_engine_sets [OF eng] by blast
qed


definition demo_members :: "slim_member list" where
  "demo_members = map (\<lambda>n. \<lparr>sf_file = n, sf_size_bytes = 2, sf_sha256 = replicate 64 (CHR ''a'')\<rparr>)
     [''config.json'', ''tokenizer.json'', ''tokenizer_config.json'', ''model.safetensors'']"

definition demo_artifact :: slim_artifact where
  "demo_artifact = \<lparr>sa_role = ModelRole, sa_repository = ''o/m'', sa_revision = replicate 40 (CHR ''a''), sa_files = demo_members\<rparr>"

definition launch_runtime :: runtime_config where
  "launch_runtime = sealed_runtime\<lparr>rt_roles := (rt_roles sealed_runtime)\<lparr>ro_generation := sealed_role\<lparr>
     rl_model := Some ''/srv/model'', rl_slimserve := Some (sealed\<lparr>sc_artifacts := [demo_artifact]\<rparr>)\<rparr>\<rparr>\<rparr>"

definition demo_plan :: plan where
  "demo_plan = \<lparr>pl_profile_id = ''p'', pl_platform = ''a100'', pl_gpus = 1, pl_source_key = ''k'',
     pl_source = [(''repo'', JStr ''o/m''), (''format'', JStr ''safetensors'')],
     pl_quant = \<lparr>qt_name = ''q'', qt_files = [JObj [(''path'', JStr ''model.safetensors''), (''bytes'', JInt 2)]], qt_assembly = [],
       qt_min_host_ram = []\<rparr>,
     pl_engine = [(''tensor_parallel_size'', JInt 1), (''max_model_len'', JInt 8192)], pl_env = [], pl_speculative = False,
     pl_speculator = JNull, pl_speculative_overrides = JObj []\<rparr>"

definition demo_upstream :: upstream where
  "demo_upstream = \<lparr>up_blocked = (\<lambda>_ _. False), up_resolve = (\<lambda>_ _ _ _ _ _. Some demo_plan), up_classify = (\<lambda>_. ''a100''),
     up_serve_argv = (\<lambda>_. []), up_entry_file = (\<lambda>_. ''/srv/model''), up_loads = (\<lambda>_. Some (JObj []))\<rparr>"

definition demo_host :: host_facts where
  "demo_host = \<lparr>hf_system = ''Linux'', hf_machine = ''x86_64'', hf_detected = ''cuda'', hf_count = 1, hf_memory = 0, hf_host_ram = 8,
     hf_mps = False, hf_visible = Some demo_gpu, hf_hip = False, hf_cuda = True,
     hf_devices = [\<lparr>cd_name = ''A100'', cd_capability = (8, 0), cd_uuid = Bytes (replicate 16 0)\<rparr>], hf_kv_free = None\<rparr>"

definition demo_file :: file_seen where
  "demo_file = \<lparr>fs_bytes = 2, fs_readable = 2, fs_stable = True, fs_sha256 = replicate 64 (CHR ''a''), fs_text = Some ''{}''\<rparr>"

definition demo_prepared :: prepared where
  "demo_prepared parts =
     (let entries = map (\<lambda>m. (sf_file m, File demo_file)) demo_members in
      if parts = [''/'', ''srv'', ''model''] then Some entries
      else if parts = [''/'', ''srv''] then Some [(''model'', Dir entries)] else None)"


section \<open>The helper\<close>

definition LAUNCH_PYTHON :: string where
  "LAUNCH_PYTHON = ''/opt/sovereign-slimserve/bin/python''"

definition INPUT_LIMIT :: int where
  "INPUT_LIMIT = 1024 * 1024"

definition OFFLINE_ENV :: "(string, string) dict" where
  "OFFLINE_ENV = [(''HF_HUB_OFFLINE'', ''1''), (''TRANSFORMERS_OFFLINE'', ''1''), (''HF_DATASETS_OFFLINE'', ''1''),
     (''HF_HUB_DISABLE_TELEMETRY'', ''1''), (''VLLM_NO_USAGE_STATS'', ''1''), (''DO_NOT_TRACK'', ''1''),
     (''VLLM_WORKER_MULTIPROC_METHOD'', ''spawn''), (''SLIMSERVE_KV_TIER_DIR'', ''/var/lib/sovereign-slimserve/kv''),
     (''VLLM_PLUGINS'', [])]"

definition env_update :: "(string, string) dict \<Rightarrow> (string, string) dict \<Rightarrow> (string, string) dict" where
  "env_update changes env = fold (\<lambda>(k, v). dict_set k v) changes env"

text \<open>\<open>_availability\<close>, of the engine's own entry and what the check of the extension answers.\<close>

definition availability :: "bool \<Rightarrow> py_error + (string, json) dict \<Rightarrow> py_error + json" where
  "availability metal kernels =
     and_then kernels (\<lambda>k. Inr (JObj [
       (''name'', JStr ''slimserve''), (''version'', JStr SLIMSERVE_COMMIT), (''adapter'', JStr ''slimserve-runtime''),
       (''variants'', texts (if metal then [''metal''] else [''a100'', ''rtx3090''])),
       (''kernel_library'', JObj [(''name'', obj_get (JObj k) ''library''), (''version'', obj_get (JObj k) ''version'')])]))"

datatype launch_outcome =
    Printed json
  | Executed "string list" "(string, string) dict"
  | Refused

definition env_texts :: "(string, json) dict \<Rightarrow> (string, string) dict" where
  "env_texts env = map (\<lambda>(k, v). (k, case v of JStr s \<Rightarrow> s | _ \<Rightarrow> [])) env"

definition launch_environment :: "(string, string) dict \<Rightarrow> local_plan \<Rightarrow> string \<Rightarrow> (string, string) dict" where
  "launch_environment environ lp identity =
     dict_set ''SOVEREIGN_SLIMSERVE_IDENTITY'' identity
       (env_update OFFLINE_ENV (env_update (env_texts (pl_env (lp_plan lp))) (env_update OFFLINE_ENV environ)))"

text \<open>
  \<open>main\<close>: \<open>document\<close> is the configuration read from the input, validated, and \<open>identity\<close> the text of what
  is handed on. Whatever fails is refused with the same line.
\<close>

definition launch_main ::
    "string \<Rightarrow> string list \<Rightarrow> py_error + json \<Rightarrow> (string \<Rightarrow> json option) \<Rightarrow> string \<Rightarrow> (json \<Rightarrow> runtime_config option) \<Rightarrow>
     (runtime_config \<Rightarrow> string + local_plan) \<Rightarrow> (runtime_config \<Rightarrow> local_plan \<Rightarrow> string) \<Rightarrow> (string, string) dict \<Rightarrow> launch_outcome" where
  "launch_main executable args available loads raw validated resolve identity environ =
     (if executable \<noteq> LAUNCH_PYTHON \<or> args \<notin> {[], [''--check''], [''--availability'']} then Refused
      else if args = [''--availability'']
      then (case available of Inr a \<Rightarrow> Printed a | Inl e \<Rightarrow> Refused)
      else case bounded_json loads (Some raw) INPUT_LIMIT of
        Inl e \<Rightarrow> Refused
      | Inr d \<Rightarrow> (case validated (JObj d) of
          None \<Rightarrow> Refused
        | Some c \<Rightarrow> (case resolve c of
            Inl e \<Rightarrow> Refused
          | Inr lp \<Rightarrow>
              if args = [''--check''] then Printed (JObj [(''validated'', JBool True), (''engine_model'', JStr (lp_model_path lp))])
              else Executed ([executable, ''-m'', ''vllm.entrypoints.openai.api_server''] @ lp_argv lp)
                (launch_environment environ lp (identity c lp)))))"

lemma env_update_last: "dict_get (env_update changes env) k =
    (case dict_get (rev changes) k of None \<Rightarrow> dict_get env k | Some v \<Rightarrow> Some v)"
  by (induction changes arbitrary: env) (auto simp: env_update_def map_add_def split: option.splits)

text \<open>A launched engine is offline, whatever the environment and the plan say.\<close>

lemma launched_offline:
  assumes "launch_main executable args available loads raw validated resolve identity environ = Executed argv env"
  shows "dict_get env ''HF_HUB_OFFLINE'' = Some ''1'' \<and> dict_get env ''VLLM_PLUGINS'' = Some []"
proof -
  obtain lp c where "env = launch_environment environ lp (identity c lp)"
    using assms by (auto simp: launch_main_def split: if_splits sum.splits option.splits)
  then show ?thesis by (simp add: launch_environment_def env_update_last OFFLINE_ENV_def)
qed

end
