(* ===== verification/SlimServeBackend.thy ===== *)
theory SlimServeBackend
  imports SlimServeLaunch "HOL-Library.Multiset"
begin

text \<open>
  \<open>lazarus/appliance/backends/slimserve.py\<close>: what is accepted of a child's observation, the probe of the
  installed engine, and the life of the one managed process group as a machine. The operations under the
  backend's lock are steps; what other tasks change between their awaits, the pause, the observation
  and the exit of the child, are steps of their own.
\<close>

definition QUIXICORE_CUDA_COMMIT :: string where
  "QUIXICORE_CUDA_COMMIT = ''08780aaa22cdc2d144b6beacb24df953134b34be''"

definition QUIXICORE_METAL_COMMIT :: string where
  "QUIXICORE_METAL_COMMIT = ''71a08cd4cbcdc622ce31b3fc91e1f505e144b516''"

definition CAPABILITIES :: "string list" where
  "CAPABILITIES = [''chat_completions'', ''completions'', ''streaming'', ''text'']"

text \<open>What an operation raises: \<open>BackendStartError\<close>, a cancellation, or another exception.\<close>

datatype slim_exn =
    Failure start_error
  | Cancelled
  | OtherError py_error

definition backend_failure :: "string \<Rightarrow> string \<Rightarrow> slim_exn" where
  "backend_failure message err_code = Failure (raise_start err_code message (Some ''generation'') True)"

definition load_failure :: "string \<Rightarrow> slim_exn" where
  "load_failure message = backend_failure message ''MODEL_LOAD_FAILED''"

definition CHILD_ALLOWED :: "string list" where
  "CHILD_ALLOWED = [''HOME'', ''TMPDIR'', ''LANG'', ''LC_ALL'', ''CUDA_VISIBLE_DEVICES'', ''NVIDIA_VISIBLE_DEVICES'']"

definition child_environment :: "(string, string) dict \<Rightarrow> (string, string) dict" where
  "child_environment environ =
     env_update [(''PATH'', ''/opt/sovereign-slimserve/bin:/usr/local/cuda/bin:/usr/bin:/bin:/usr/sbin:/sbin''),
         (''HF_HUB_OFFLINE'', ''1''), (''TRANSFORMERS_OFFLINE'', ''1''), (''HF_DATASETS_OFFLINE'', ''1''),
         (''HF_HUB_DISABLE_TELEMETRY'', ''1''), (''VLLM_NO_USAGE_STATS'', ''1''), (''DO_NOT_TRACK'', ''1''),
         (''VLLM_PLUGINS'', []), (''VLLM_WORKER_MULTIPROC_METHOD'', ''spawn'')]
       (List.map_filter (\<lambda>key. map_option (\<lambda>v. (key, v)) (dict_get environ key)) CHILD_ALLOWED)"

section \<open>The child's observation\<close>

definition is_metal :: "slim_config \<Rightarrow> bool" where
  "is_metal s \<longleftrightarrow> sc_variant s = Metal"

definition kernel_backend :: "slim_config \<Rightarrow> string" where
  "kernel_backend s = (if is_metal s then ''metal'' else ''cuda'')"

definition text_or_null :: "string option \<Rightarrow> json" where
  "text_or_null x = (case x of None \<Rightarrow> JNull | Some t \<Rightarrow> JStr t)"

definition int_or_null :: "int option \<Rightarrow> json" where
  "int_or_null x = (case x of None \<Rightarrow> JNull | Some n \<Rightarrow> JInt n)"

definition expected_observation :: "role_config \<Rightarrow> slim_config \<Rightarrow> (string, json) dict" where
  "expected_observation r s =
     [(''engine'', JObj [(''name'', JStr ''slimserve''), (''version'', JStr SLIMSERVE_COMMIT), (''adapter'', JStr ''slimserve-runtime'')]),
      (''kernels'', JObj [(''library'', JStr (''quixicore-'' @ kernel_backend s)),
         (''version'', JStr (kernel_version (if is_metal s then QUIXICORE_METAL_COMMIT else QUIXICORE_CUDA_COMMIT))),
         (''backend'', JStr (kernel_backend s))]),
      (''engine_profile_id'', text_or_null (rl_engine_profile_id r)), (''upstream_profile_id'', JStr (sc_profile_id s)),
      (''quant'', JStr (sc_quant s)), (''revision'', text_or_null (rl_revision r)),
      (''context_length'', int_or_null (rl_max_model_len r)), (''max_concurrent_requests'', JInt (rl_max_concurrent_requests r)),
      (''device_count'', JInt (rl_tensor_parallel_size r)), (''tensor_parallel_size'', JInt (rl_tensor_parallel_size r))]"

definition cardinalities :: "string list" where
  "cardinalities = [''context_length'', ''max_concurrent_requests'', ''device_count'', ''tensor_parallel_size'']"

definition capabilities_ok :: "json \<Rightarrow> bool" where
  "capabilities_ok v =
     (case v of
        JArr xs \<Rightarrow> length xs = length CAPABILITIES \<and> list_all (\<lambda>x. str_of x \<noteq> None) xs \<and> set xs = set (map JStr CAPABILITIES)
      | _ \<Rightarrow> False)"

text \<open>A validated configuration has a model and its artifact; \<open>the\<close> reads them.\<close>

definition allowed_inputs :: "role_config \<Rightarrow> slim_config \<Rightarrow> string list" where
  "allowed_inputs r s =
     (let files = map sf_file (sa_files (the (artifact_for s ModelRole))) in
      if list_ex (suffix ''.safetensors'') files then [the (rl_model r)]
      else map (\<lambda>f. path_str (the (rl_model r) @ ''/'' @ f)) (filter (suffix ''.gguf'') files))"

definition local_rank :: "json \<Rightarrow> int" where
  "local_rank d = (case obj_get d ''local_rank'' of JInt n \<Rightarrow> n | _ \<Rightarrow> 0)"

definition device_is :: "json \<Rightarrow> string \<Rightarrow> bool" where
  "device_is d uuid \<longleftrightarrow> obj_get d ''identity_kind'' = JStr ''nvidia_gpu_uuid'' \<and> obj_get d ''gpu_uuid'' = JStr uuid \<and>
     obj_get d ''stable_identifier'' = JStr uuid"

definition APPLE_IDENTITY :: string where
  "APPLE_IDENTITY = ''apple-platform-integrated-gpu-v1:''"

definition apple_identity :: "json \<Rightarrow> bool" where
  "apple_identity d =
     (case obj_get d ''stable_identifier'' of
        JStr identity \<Rightarrow> obj_get d ''identity_kind'' = JStr ''apple_platform'' \<and> prefix APPLE_IDENTITY identity \<and>
          lower_hex 64 (drop (length APPLE_IDENTITY) identity) \<and> obj_get d ''platform_id'' = JStr identity
      | _ \<Rightarrow> False)"

definition cuda_devices :: "role_config \<Rightarrow> json list \<Rightarrow> slim_exn + json list" where
  "cuda_devices r devices =
     (let ordered = sort_key local_rank devices in
      guarded (run_checks [
          check (\<not> list_all (\<lambda>d. int_of (obj_get d ''local_rank'') \<noteq> None) devices) (load_failure ''SlimServe worker ranks are missing''),
          check (map local_rank ordered \<noteq> map int [0..<nat (rl_tensor_parallel_size r)]) (load_failure ''SlimServe worker rank order differs''),
          check (\<not> list_all (\<lambda>(d, uuid). device_is d uuid) (zip ordered (rl_devices r)))
            (load_failure ''SlimServe worker UUID order differs from managed placement''),
          check (length ordered \<noteq> length (rl_devices r)) (OtherError (ValueError ''zip() arguments differ in length''))])
        (Inr ordered))"

definition metal_devices :: "json list \<Rightarrow> slim_exn + json list" where
  "metal_devices devices =
     (case devices of
        [] \<Rightarrow> Inl (OtherError (ValueError ''list index out of range''))
      | d # ds \<Rightarrow> guarded (check (\<not> apple_identity d) (load_failure ''SlimServe native Apple identity is unavailable'')) (Inr devices))"

definition validate_observation :: "runtime_config \<Rightarrow> json \<Rightarrow> slim_exn + (string, json) dict" where
  "validate_observation c payload =
     (let r = ro_generation (rt_roles c); tp = rl_tensor_parallel_size r; acc = obj_get payload ''accelerator'' in
      case (rl_slimserve r, payload) of
        (Some s, JObj kvs) \<Rightarrow>
          guarded (run_checks [
              check (\<not> list_all (\<lambda>(key, v). py_eq (obj_get payload key) v) (expected_observation r s))
                (load_failure ''SlimServe observed engine, profile, kernel or policy differs''),
              check (\<not> list_all (\<lambda>key. int_of (obj_get payload key) \<noteq> None) cardinalities)
                (load_failure ''SlimServe observed execution cardinality is invalid''),
              check (\<not> capabilities_ok (obj_get payload ''capabilities''))
                (load_failure ''SlimServe observed API capabilities are missing or changed''),
              check (obj_get payload ''engine_model'' \<notin> set (map JStr (allowed_inputs r s)))
                (load_failure ''SlimServe loaded model input differs from its verified closure''),
              check (\<not> is_obj acc \<or> obj_get acc ''device_count'' \<noteq> JInt tp)
                (load_failure ''SlimServe accelerator count is missing or changed''),
              check (obj_get acc ''vendor'' \<noteq> JStr (if is_metal s then ''apple'' else ''nvidia'') \<or>
                  obj_get acc ''unified_memory'' \<noteq> JBool (is_metal s))
                (load_failure ''SlimServe observed accelerator backend differs'')])
          (case (acc, obj_get acc ''devices'') of
             (JObj akvs, JArr devices) \<Rightarrow>
               guarded (check (int (length devices) \<noteq> tp \<or> \<not> list_all is_obj devices)
                   (load_failure ''SlimServe worker device identities are missing''))
               (and_then (if is_metal s then metal_devices devices else cuda_devices r devices) (\<lambda>devices.
                  Inr (dict_set ''accelerator'' (JObj (dict_set ''devices'' (JArr devices) akvs)) kvs)))
           | _ \<Rightarrow> Inl (load_failure ''SlimServe worker device identities are missing''))
      | _ \<Rightarrow> Inl (load_failure ''SlimServe observation is missing''))"

section \<open>The probe of the installed engine\<close>

text \<open>
  How a helper's process comes: spawned, not at all, an \<open>OSError\<close>, or lost, its spawn cancelled with a
  group left behind or not. What it then did: its exit code, the length of its output and the value it
  parses to, or no end in time, or what interrupted the wait. \<open>stop\<close> is what stopping its group raises.
\<close>

datatype spawned = Spawned | NotSpawned | SpawnLost bool

datatype helper_run =
    Answered int int "json option"
  | TimedOut
  | WaitRaised slim_exn

definition probed_library :: "json \<Rightarrow> (string \<times> string) option" where
  "probed_library variants =
     (if variants = texts [''metal''] then Some (''quixicore-metal'', QUIXICORE_METAL_COMMIT)
      else if variants = texts [''a100'', ''rtx3090''] then Some (''quixicore-cuda'', QUIXICORE_CUDA_COMMIT)
      else None)"

definition probed_engine :: "json \<Rightarrow> json list" where
  "probed_engine result =
     (case result of
        JObj kvs \<Rightarrow>
          if dict_get kvs ''name'' \<noteq> Some (JStr ''slimserve'') \<or> dict_get kvs ''version'' \<noteq> Some (JStr SLIMSERVE_COMMIT) \<or>
             dict_get kvs ''adapter'' \<noteq> Some (JStr ''slimserve-runtime'')
          then []
          else (case probed_library (obj_get result ''variants'') of
              None \<Rightarrow> []
            | Some (library, commit) \<Rightarrow>
                if \<not> py_eq (obj_get result ''kernel_library'') (JObj [(''name'', JStr library), (''version'', JStr (kernel_version commit))])
                then []
                else if set (map fst kvs) \<noteq> {''name'', ''version'', ''adapter'', ''variants'', ''kernel_library''} then []
                else [result])
      | _ \<Rightarrow> [])"

definition probe_available_engines :: "spawned \<Rightarrow> helper_run \<Rightarrow> slim_exn option \<Rightarrow> slim_exn + json list" where
  "probe_available_engines spawn run stop =
     (case spawn of
        NotSpawned \<Rightarrow> Inr []
      | SpawnLost left \<Rightarrow> Inl Cancelled
      | Spawned \<Rightarrow> guarded stop (case run of
            Answered returncode size_bytes (Some result) \<Rightarrow> Inr (if returncode \<noteq> 0 \<or> 4096 < size_bytes then [] else probed_engine result)
          | WaitRaised e \<Rightarrow> Inl e
          | _ \<Rightarrow> Inr []))"

section \<open>The managed lifetime\<close>

text \<open>
  The backend's fields, and beside them the process groups that exist, which only the operating system
  knows: \<open>sb_live\<close>, and the number the next one gets. \<open>sb_process\<close> is the generation's group and whether
  its leader is known to have exited; \<open>sb_monitor\<close> the monitor's task, in its loop, in its handler waiting for
  the lock, or ended.
\<close>

datatype watcher = NoTask | Watching | Closing | Ended

datatype lifetime = Generation nat | CheckRun nat

record slim =
  sb_backend_id :: string
  sb_paused :: bool
  sb_process :: "(nat \<times> bool) option"
  sb_check :: "nat option"
  sb_withdrawn :: "bool option"
  sb_pending :: bool
  sb_client :: bool
  sb_monitor :: watcher
  sb_info :: role_info
  sb_observed :: "(string, json) dict"
  sb_config :: "runtime_config option"
  sb_expected_model :: "string option"
  sb_validated :: "string option"
  sb_live :: "lifetime list"
  sb_next :: nat

definition slim_init :: slim where
  "slim_init = \<lparr>sb_backend_id = ''unknown'', sb_paused = False, sb_process = None, sb_check = None, sb_withdrawn = None,
     sb_pending = False, sb_client = False, sb_monitor = NoTask, sb_info = bare_info ''disabled'', sb_observed = [],
     sb_config = None, sb_expected_model = None, sb_validated = None, sb_live = [], sb_next = 0\<rparr>"

definition born :: "(nat \<Rightarrow> lifetime) \<Rightarrow> slim \<Rightarrow> slim" where
  "born kind s = s\<lparr>sb_live := kind (sb_next s) # sb_live s, sb_next := sb_next s + 1\<rparr>"

text \<open>\<open>_stop_group\<close> returns only once the group is absent; \<open>None\<close> is that it returned.\<close>

definition stop_group :: "lifetime \<Rightarrow> slim_exn option \<Rightarrow> slim \<Rightarrow> slim" where
  "stop_group l stop s = (case stop of None \<Rightarrow> s\<lparr>sb_live := removeAll l (sb_live s)\<rparr> | Some e \<Rightarrow> s)"

definition check_answer :: "helper_run \<Rightarrow> slim_exn + string" where
  "check_answer run =
     (case run of
        TimedOut \<Rightarrow> Inl (backend_failure ''SlimServe local-input verification exceeded its deadline'' ''CONFIG_INVALID'')
      | WaitRaised e \<Rightarrow> Inl e
      | Answered returncode size_bytes result \<Rightarrow>
          if returncode \<noteq> 0 \<or> 4096 < size_bytes
          then Inl (backend_failure ''SlimServe profile, platform or local artifacts failed validation'' ''CONFIG_INVALID'')
          else (case result of
              Some (JObj kvs) \<Rightarrow> (case (dict_get kvs ''engine_model'', dict_get kvs ''validated'') of
                  (Some (JStr m), Some (JBool True)) \<Rightarrow>
                    if 1024 < length m then Inl (backend_failure ''SlimServe resolved loader identity is unavailable'' ''CONFIG_INVALID'') else Inr m
                | _ \<Rightarrow> Inl (backend_failure ''SlimServe resolved loader identity is unavailable'' ''CONFIG_INVALID''))
            | _ \<Rightarrow> Inl (backend_failure ''SlimServe resolved loader identity is unavailable'' ''CONFIG_INVALID'')))"

record check_run =
  cr_spawn :: spawned
  cr_run :: helper_run
  cr_stop :: "slim_exn option"

text \<open>\<open>_validate_inner\<close>; \<open>dumped\<close> is the configuration as it is handed to the helper.\<close>

definition check_spawned :: "string \<Rightarrow> check_run \<Rightarrow> slim \<Rightarrow> slim_exn option \<times> slim" where
  "check_spawned dumped run s =
     (let n = sb_next s;
          s = (born CheckRun s)\<lparr>sb_check := Some n\<rparr>;
          answer = check_answer (cr_run run);
          s = (case answer of Inl e \<Rightarrow> s | Inr model \<Rightarrow> s\<lparr>sb_expected_model := Some model, sb_validated := Some dumped\<rparr>);
          s = stop_group (CheckRun n) (cr_stop run) s in
      case cr_stop run of
        Some e \<Rightarrow> (Some e, s)
      | None \<Rightarrow> (case answer of Inl e \<Rightarrow> Some e | Inr m \<Rightarrow> None, s\<lparr>sb_check := None, sb_withdrawn := Some (sb_process s = None)\<rparr>))"

definition validate_inner :: "string \<Rightarrow> check_run \<Rightarrow> slim \<Rightarrow> slim_exn option \<times> slim" where
  "validate_inner dumped run s =
     (if sb_pending s \<or> sb_check s \<noteq> None \<or> (sb_withdrawn s = Some False \<and> sb_process s = None)
      then (Some (backend_failure ''SlimServe lifetime ownership is unresolved'' ''ENGINE_QUIESCE_UNAVAILABLE''), s)
      else let before = (sb_withdrawn s \<noteq> Some False);
               s = s\<lparr>sb_withdrawn := Some False, sb_validated := None, sb_expected_model := None\<rparr> in
        case cr_spawn run of
          NotSpawned \<Rightarrow> (Some (backend_failure ''pinned isolated SlimServe interpreter is unavailable'' ''ACCELERATOR_UNAVAILABLE''),
            s\<lparr>sb_withdrawn := Some before\<rparr>)
        | SpawnLost left \<Rightarrow> (Some Cancelled, if left then born CheckRun s else s)
        | Spawned \<Rightarrow> check_spawned dumped run s)"

text \<open>
  \<open>_shutdown_inner\<close>, its awaits in order: the monitor, unless it is the caller, the helper's group, the
  generation's group, the client. An exception at one leaves the rest, and the cleanup pending.
\<close>

record cleanup =
  cl_own :: bool
  cl_monitor :: "slim_exn option"
  cl_check :: "slim_exn option"
  cl_process :: "slim_exn option"
  cl_client :: "slim_exn option"

definition cleanup_begins :: "slim \<Rightarrow> slim" where
  "cleanup_begins s = s\<lparr>sb_paused := (sb_paused s \<or> sb_config s \<noteq> None \<or> sb_withdrawn s \<noteq> Some True), sb_pending := True, sb_observed := [],
     sb_info := unhealthy ''ENGINE_DEAD''\<rparr>"

definition cleanup_monitor :: "cleanup \<Rightarrow> slim \<Rightarrow> slim_exn option \<times> slim" where
  "cleanup_monitor k s =
     (if sb_monitor s \<noteq> NoTask \<and> \<not> cl_own k \<and> cl_monitor k \<noteq> None then (cl_monitor k, s\<lparr>sb_monitor := Ended\<rparr>)
      else (None, s\<lparr>sb_monitor := NoTask\<rparr>))"

definition cleanup_check :: "cleanup \<Rightarrow> slim \<Rightarrow> slim_exn option \<times> slim" where
  "cleanup_check k s =
     (case sb_check s of None \<Rightarrow> (None, s) | Some n \<Rightarrow> (cl_check k, stop_group (CheckRun n) (cl_check k) s))"

definition cleanup_process :: "cleanup \<Rightarrow> slim \<Rightarrow> slim_exn option \<times> slim" where
  "cleanup_process k s =
     (case sb_process s of None \<Rightarrow> (None, s) | Some (n, exited) \<Rightarrow> (cl_process k, stop_group (Generation n) (cl_process k) s))"

definition cleanup_client :: "cleanup \<Rightarrow> slim \<Rightarrow> slim_exn option \<times> slim" where
  "cleanup_client k s =
     (if \<not> sb_client s then (None, s)
      else case cl_client k of Some e \<Rightarrow> (Some e, s) | None \<Rightarrow> (None, s\<lparr>sb_client := False\<rparr>))"

definition cleanup_ends :: "slim \<Rightarrow> slim" where
  "cleanup_ends s = s\<lparr>sb_process := None, sb_check := None, sb_pending := False,
     sb_withdrawn := (if sb_check s \<noteq> None \<or> sb_process s \<noteq> None then Some True else sb_withdrawn s),
     sb_observed := [], sb_info := bare_info ''disabled'', sb_validated := None, sb_expected_model := None\<rparr>"

definition then_do :: "slim_exn option \<times> slim \<Rightarrow> (slim \<Rightarrow> slim_exn option \<times> slim) \<Rightarrow> slim_exn option \<times> slim" where
  "then_do r f = (case r of (Some e, s) \<Rightarrow> (Some e, s) | (None, s) \<Rightarrow> f s)"

definition shutdown_inner :: "cleanup \<Rightarrow> slim \<Rightarrow> slim_exn option \<times> slim" where
  "shutdown_inner k s =
     then_do (cleanup_monitor k (cleanup_begins s)) (\<lambda>s. then_do (cleanup_check k s) (\<lambda>s.
       then_do (cleanup_process k s) (\<lambda>s. then_do (cleanup_client k s) (\<lambda>s. (None, cleanup_ends s)))))"

section \<open>Waiting for the child, and its observation\<close>

datatype completion = NoCompletion | Completed int "json option"

datatype poll =
    LeaderExited
  | NoAnswer
  | PollRaised slim_exn
  | Health int completion

definition succeeded :: "int \<Rightarrow> bool" where
  "succeeded status \<longleftrightarrow> status div 100 = 2"

definition startup_response :: "role_config \<Rightarrow> json option \<Rightarrow> slim_exn option" where
  "startup_response r body =
     (case body of
        None \<Rightarrow> Some (OtherError (ValueError ''not JSON''))
      | Some (JObj kvs) \<Rightarrow>
          check (obj_get (JObj kvs) ''model'' \<noteq> text_or_null (rl_served_model_name r) \<or> \<not> truthy (obj_get (JObj kvs) ''choices''))
            (backend_failure ''SlimServe startup response identity is invalid'' ''SMOKE_TEST_FAILED'')
      | Some v \<Rightarrow> Some (OtherError (TypeError ''no attribute get'')))"

text \<open>\<open>_wait_loaded\<close>, over what each turn before the deadline meets.\<close>

fun wait_loaded :: "role_config \<Rightarrow> poll list \<Rightarrow> slim_exn option" where
  "wait_loaded r [] = Some (load_failure ''SlimServe generation did not become ready before its load deadline'')"
| "wait_loaded r (LeaderExited # ps) = Some (load_failure ''SlimServe generation process exited while loading'')"
| "wait_loaded r (NoAnswer # ps) = wait_loaded r ps"
| "wait_loaded r (PollRaised e # ps) = Some e"
| "wait_loaded r (Health status c # ps) =
     (if status \<noteq> 200 then wait_loaded r ps
      else case c of
        NoCompletion \<Rightarrow> wait_loaded r ps
      | Completed answer body \<Rightarrow>
          if \<not> succeeded answer then Some (OtherError (RuntimeError ''HTTPStatusError'')) else startup_response r body)"

datatype reply = NoReply slim_exn | Reply int int "json option"

definition observed_info :: "(string, json) dict \<Rightarrow> role_info" where
  "observed_info kvs =
     (let t = (\<lambda>k. str_of (obj_get (JObj kvs) k)); n = (\<lambda>k. int_of (obj_get (JObj kvs) k)) in
      (bare_info ''healthy'')\<lparr>ri_engine_model := t ''engine_model'', ri_revision := t ''revision'',
         ri_context_length := n ''context_length'', ri_device_count := n ''device_count'',
         ri_tensor_parallel_size := n ''tensor_parallel_size'', ri_engine_profile_id := t ''engine_profile_id'',
         ri_upstream_profile_id := t ''upstream_profile_id'', ri_quant := t ''quant'',
         ri_max_concurrent_requests := n ''max_concurrent_requests'',
         ri_capabilities := (case obj_get (JObj kvs) ''capabilities'' of
             JArr xs \<Rightarrow> Some (List.map_filter str_of xs) | _ \<Rightarrow> None)\<rparr>)"

definition read_observation :: "runtime_config \<Rightarrow> string option \<Rightarrow> reply \<Rightarrow> slim_exn + (string, json) dict" where
  "read_observation c expected_model rep =
     (case rep of
        NoReply e \<Rightarrow> Inl e
      | Reply status size_bytes body \<Rightarrow>
          if \<not> succeeded status then Inl (OtherError (RuntimeError ''HTTPStatusError''))
          else if 64 * 1024 < size_bytes then Inl (load_failure ''SlimServe child observation exceeds its size bound'')
          else (case body of
              None \<Rightarrow> Inl (OtherError (ValueError ''not JSON''))
            | Some payload \<Rightarrow> and_then (validate_observation c payload) (\<lambda>observed.
                guarded (check (expected_model = None \<or> obj_get (JObj observed) ''engine_model'' \<noteq> text_or_null expected_model)
                    (load_failure ''SlimServe observed input differs from independently resolved model''))
                  (Inr observed))))"

definition refresh_observation :: "runtime_config \<Rightarrow> reply \<Rightarrow> slim \<Rightarrow> slim_exn option \<times> slim" where
  "refresh_observation c rep s =
     (case read_observation c (sb_expected_model s) rep of
        Inl e \<Rightarrow> (Some e, s)
      | Inr observed \<Rightarrow> (None, s\<lparr>sb_observed := observed, sb_info := observed_info observed\<rparr>))"

section \<open>Starting\<close>

record start_run =
  sr_check :: check_run
  sr_spawn :: spawned
  sr_written :: "slim_exn option"
  sr_polls :: "poll list"
  sr_reply :: reply
  sr_cleanup :: cleanup

definition start_raises :: "slim_exn \<Rightarrow> slim_exn" where
  "start_raises e = (case e of OtherError x \<Rightarrow> load_failure ''SlimServe failed to start its verified generation tree'' | _ \<Rightarrow> e)"

definition start_failed :: "cleanup \<Rightarrow> slim_exn \<Rightarrow> slim \<Rightarrow> slim_exn option \<times> slim" where
  "start_failed k e s =
     then_do (shutdown_inner k s) (\<lambda>s. (Some (start_raises e), s\<lparr>sb_info := unhealthy ''MODEL_LOAD_FAILED''\<rparr>))"

definition generation_spawned :: "runtime_config \<Rightarrow> start_run \<Rightarrow> slim \<Rightarrow> slim_exn option \<times> slim" where
  "generation_spawned c run s =
     (let s = (born Generation s)\<lparr>sb_process := Some (sb_next s, False)\<rparr> in
      case sr_written run of
        Some e \<Rightarrow> start_failed (sr_cleanup run) e s
      | None \<Rightarrow>
          let s = s\<lparr>sb_client := True\<rparr> in
          case wait_loaded (ro_generation (rt_roles c)) (sr_polls run) of
            Some e \<Rightarrow> start_failed (sr_cleanup run) e s
          | None \<Rightarrow> (case refresh_observation c (sr_reply run) s of
                (Some e, s) \<Rightarrow> start_failed (sr_cleanup run) e s
              | (None, s) \<Rightarrow> (None, s\<lparr>sb_monitor := Watching\<rparr>)))"

definition start_generation :: "runtime_config \<Rightarrow> start_run \<Rightarrow> slim \<Rightarrow> slim_exn option \<times> slim" where
  "start_generation c run s =
     (let s = s\<lparr>sb_config := Some c, sb_backend_id := kernel_backend (the (rl_slimserve (ro_generation (rt_roles c)))),
         sb_info := bare_info ''loading'', sb_observed := [], sb_withdrawn := Some False\<rparr> in
      case sr_spawn run of
        NotSpawned \<Rightarrow> start_failed (sr_cleanup run) (OtherError (OSError ''spawn'')) (s\<lparr>sb_withdrawn := Some True\<rparr>)
      | SpawnLost left \<Rightarrow> start_failed (sr_cleanup run) Cancelled (if left then born Generation s else s)
      | Spawned \<Rightarrow> generation_spawned c run s)"

definition start_slim :: "(runtime_config \<Rightarrow> string) \<Rightarrow> runtime_config \<Rightarrow> start_run \<Rightarrow> slim \<Rightarrow> slim_exn option \<times> slim" where
  "start_slim dump c run s =
     (if sb_process s \<noteq> None \<or> sb_withdrawn s = Some False \<or> sb_pending s
      then (Some (backend_failure ''a SlimServe generation lifetime is already managed or unresolved'' ''CONFIG_INVALID''), s)
      else let s = (if sb_withdrawn s = None then s\<lparr>sb_withdrawn := Some True\<rparr> else s) in
        then_do (if sb_validated s \<noteq> Some (dump c) then validate_inner (dump c) (sr_check run) s else (None, s))
          (start_generation c run))"

section \<open>Pausing, resuming and watching\<close>

definition pause_slim :: "slim \<Rightarrow> slim" where
  "pause_slim s = s\<lparr>sb_paused := True\<rparr>"

definition acknowledged :: "reply \<Rightarrow> string \<Rightarrow> slim_exn \<Rightarrow> slim_exn option" where
  "acknowledged rep key e =
     (case rep of
        NoReply x \<Rightarrow> Some x
      | Reply status size_bytes body \<Rightarrow>
          if status \<noteq> 200 then Some e
          else (case body of
              None \<Rightarrow> Some (OtherError (ValueError ''not JSON''))
            | Some v \<Rightarrow> check (\<not> py_eq v (JObj [(key, JBool True)])) e))"

definition child_unavailable :: "slim \<Rightarrow> bool" where
  "child_unavailable s \<longleftrightarrow> \<not> sb_client s \<or> (case sb_process s of None \<Rightarrow> True | Some (n, exited) \<Rightarrow> exited)"

text \<open>\<open>quiesce\<close> and \<open>resume\<close> once they hold the lock; both paused the backend before they asked for it.\<close>

definition quiesce_slim :: "reply \<Rightarrow> slim \<Rightarrow> slim_exn option" where
  "quiesce_slim rep s =
     (if sb_pending s \<or> sb_check s \<noteq> None
      then Some (backend_failure ''SlimServe lifetime cleanup is incomplete'' ''ENGINE_QUIESCE_UNAVAILABLE'')
      else if sb_withdrawn s = Some True \<and> sb_process s = None \<and> \<not> sb_client s then None
      else if child_unavailable s then Some (backend_failure ''SlimServe is unavailable for quiescence'' ''ENGINE_QUIESCE_UNAVAILABLE'')
      else acknowledged rep ''quiesced'' (backend_failure ''SlimServe engine did not acknowledge idle'' ''ENGINE_QUIESCE_UNAVAILABLE''))"

definition resume_slim :: "reply \<Rightarrow> slim \<Rightarrow> slim_exn option \<times> slim" where
  "resume_slim rep s =
     (if sb_pending s \<or> sb_check s \<noteq> None
      then (Some (backend_failure ''SlimServe lifetime cleanup is incomplete'' ''ENGINE_RESUME_UNAVAILABLE''), s)
      else if child_unavailable s then (Some (backend_failure ''SlimServe is unavailable for resume'' ''ENGINE_RESUME_UNAVAILABLE''), s)
      else then_do (acknowledged rep ''resumed'' (backend_failure ''SlimServe engine did not acknowledge resume'' ''ENGINE_RESUME_UNAVAILABLE''), s)
        (\<lambda>s. (None, s\<lparr>sb_paused := False\<rparr>)))"

text \<open>\<open>_watch\<close>: a turn that finds the leader gone, or no valid observation, closes generation, then cleans up.\<close>

definition watch_turn :: "reply \<Rightarrow> slim \<Rightarrow> slim_exn option \<times> slim" where
  "watch_turn rep s =
     (case (sb_process s, sb_config s) of
        (Some (n, exited), Some c) \<Rightarrow>
          if exited then (Some (backend_failure ''SlimServe generation tree exited'' ''ENGINE_DEAD''), s)
          else refresh_observation c rep s
      | _ \<Rightarrow> (Some (OtherError (TypeError ''no attribute'')), s))"

definition watch_fails :: "slim \<Rightarrow> slim" where
  "watch_fails s = s\<lparr>sb_paused := True, sb_observed := [], sb_info := unhealthy ''ENGINE_DEAD'', sb_monitor := Closing\<rparr>"

definition watch_cleans :: "cleanup \<Rightarrow> slim \<Rightarrow> slim_exn option \<times> slim" where
  "watch_cleans k s = then_do (shutdown_inner (k\<lparr>cl_own := True\<rparr>) s) (\<lambda>s. (None, s\<lparr>sb_info := unhealthy ''ENGINE_DEAD''\<rparr>))"

definition engine_version :: "slim \<Rightarrow> json" where
  "engine_version s = obj_get (get_or (sb_observed s) ''engine'' (JObj [])) ''version''"

definition slim_accelerator :: "slim \<Rightarrow> json" where
  "slim_accelerator s =
     get_or (sb_observed s) ''accelerator'' (JObj [(''vendor'', JStr ''none''), (''device_count'', JInt 0), (''unified_memory'', JBool False)])"

definition slim_role_info :: "slim \<Rightarrow> string \<Rightarrow> role_info" where
  "slim_role_info s role = (if role = ''generation'' then sb_info s else bare_info ''disabled'')"

text \<open>
  The lock makes an operation one step. A pause is set before the lock is held; a group may end of
  itself, and its leader's exit become known.
\<close>

inductive slim_step :: "(runtime_config \<Rightarrow> string) \<Rightarrow> slim \<Rightarrow> slim \<Rightarrow> bool" for dump :: "runtime_config \<Rightarrow> string" where
  validate: "validate_inner (dump c) run s = (e, t) \<Longrightarrow> slim_step dump s t"
| start: "start_slim dump c run s = (e, t) \<Longrightarrow> slim_step dump s t"
| shutdown: "\<not> cl_own k \<Longrightarrow> shutdown_inner k s = (e, t) \<Longrightarrow> slim_step dump s t"
| pause: "slim_step dump s (pause_slim s)"
| resume: "resume_slim rep s = (e, t) \<Longrightarrow> slim_step dump s t"
| watch_sees: "sb_monitor s = Watching \<Longrightarrow> watch_turn rep s = (None, t) \<Longrightarrow> slim_step dump s t"
| watch_closes: "sb_monitor s = Watching \<Longrightarrow> watch_turn rep s = (Some e, t) \<Longrightarrow> e \<noteq> Cancelled \<Longrightarrow> slim_step dump s (watch_fails t)"
| watch_ends: "sb_monitor s = Closing \<Longrightarrow> watch_cleans k s = (e, t) \<Longrightarrow> slim_step dump s t"
| leader_exits: "sb_process s = Some (n, False) \<Longrightarrow> slim_step dump s (s\<lparr>sb_process := Some (n, True)\<rparr>)"
| group_ends: "slim_step dump s (s\<lparr>sb_live := removeAll l (sb_live s)\<rparr>)"

inductive_cases slim_stepE: "slim_step dump s t"

section \<open>One lifetime at a time\<close>

definition generation_live :: "slim \<Rightarrow> nat \<Rightarrow> bool" where
  "generation_live s n \<longleftrightarrow> Generation n \<in> set (sb_live s)"

definition slim_ok :: "slim \<Rightarrow> bool" where
  "slim_ok s \<longleftrightarrow>
     (case sb_process s of
        Some (n, exited) \<Rightarrow> sb_withdrawn s = Some False \<and> (\<forall>m. generation_live s m \<longrightarrow> m = n)
      | None \<Rightarrow> (\<forall>m n. generation_live s m \<longrightarrow> generation_live s n \<longrightarrow> m = n) \<and>
          (\<forall>m. generation_live s m \<longrightarrow> sb_withdrawn s = Some False \<and> sb_check s = None)) \<and>
     (sb_check s \<noteq> None \<longrightarrow> sb_withdrawn s = Some False)"

lemma then_do_cases:
  assumes "then_do r f = (e, t)"
  obtains x where "r = (Some x, t)" "e = Some x" | s where "r = (None, s)" "f s = (e, t)"
  using assms by (cases r; cases "fst r") (auto simp: then_do_def)

lemma then_do_keeps:
  assumes "then_do r f = (e, t)" "P (snd r)" "\<And>s e t. P s \<Longrightarrow> f s = (e, t) \<Longrightarrow> P t"
  shows "P t"
  using assms(1) by (rule then_do_cases) (use assms(2,3) in auto)

lemmas slim_defs = slim_ok_def generation_live_def born_def stop_group_def

lemma slim_ok_validate: "validate_inner dumped run s = (e, t) \<Longrightarrow> slim_ok s \<Longrightarrow> slim_ok t"
  by (auto simp: validate_inner_def check_spawned_def slim_defs Let_def split: if_splits spawned.splits option.splits sum.splits)

text \<open>The cleanup: its parts only end groups; what they leave is told by the fields they end with.\<close>

lemma slim_ok_begins: "slim_ok s \<Longrightarrow> slim_ok (cleanup_begins s)"
  by (simp add: cleanup_begins_def slim_ok_def generation_live_def cong: option.case_cong)

lemma slim_ok_info: "slim_ok s \<Longrightarrow> slim_ok (s\<lparr>sb_info := i\<rparr>)" "slim_ok s \<Longrightarrow> slim_ok (s\<lparr>sb_observed := o'\<rparr>)"
  "slim_ok s \<Longrightarrow> slim_ok (s\<lparr>sb_client := b\<rparr>)" "slim_ok s \<Longrightarrow> slim_ok (s\<lparr>sb_paused := b\<rparr>)"
  by (simp_all add: slim_ok_def generation_live_def cong: option.case_cong)

lemma slim_ok_monitor: "slim_ok s \<Longrightarrow> slim_ok (s\<lparr>sb_monitor := m\<rparr>)"
  by (simp add: slim_ok_def generation_live_def cong: option.case_cong)

definition group_gone :: "slim \<Rightarrow> bool" where
  "group_gone s \<longleftrightarrow> (\<forall>n x. sb_process s = Some (n, x) \<longrightarrow> \<not> generation_live s n)"

lemma slim_ok_ends: "slim_ok s \<Longrightarrow> group_gone s \<Longrightarrow> slim_ok (cleanup_ends s)"
  by (auto simp: cleanup_ends_def slim_ok_def group_gone_def generation_live_def split: option.splits)

lemma slim_ok_shutdown:
  assumes "shutdown_inner k s = (e, t)" "slim_ok s"
  shows "slim_ok t"
proof -
  let ?P = "\<lambda>s. slim_ok s \<and> group_gone s"
  have client: "slim_ok t" if "cleanup_client k s = (e', s')" "slim_ok s" "group_gone s"
    "then_do (cleanup_client k s) (\<lambda>s. (None, cleanup_ends s)) = (e, t)" for s s' e' e t
  proof -
    have "s' = s \<or> s' = s\<lparr>sb_client := False\<rparr>" using that(1) by (auto simp: cleanup_client_def split: if_splits option.splits)
    then have "?P s'" using that(2,3) by (auto simp: group_gone_def generation_live_def intro: slim_ok_info)
    then show ?thesis using that(4,1) by (auto elim!: then_do_cases intro: slim_ok_ends)
  qed
  have process: "slim_ok t" if "slim_ok s"
    "then_do (cleanup_process k s) (\<lambda>s. then_do (cleanup_client k s) (\<lambda>s. (None, cleanup_ends s))) = (e, t)" for s e t
    using that(2)
  proof (rule then_do_cases)
    fix x assume "cleanup_process k s = (Some x, t)"
    then show ?thesis using that(1) by (auto simp: cleanup_process_def slim_defs split: option.splits)
  next
    fix s' assume a: "cleanup_process k s = (None, s')" "then_do (cleanup_client k s') (\<lambda>s. (None, cleanup_ends s)) = (e, t)"
    have "?P s'" using a(1) that(1)
      by (auto simp: cleanup_process_def slim_defs group_gone_def split: option.splits)
    then show ?thesis using client [of s' _ _ e t] a(2) by (cases "cleanup_client k s'") auto
  qed
  have check: "slim_ok (snd (cleanup_check k s))" if "slim_ok s" for s
    using that by (auto simp: cleanup_check_def slim_defs split: option.splits)
  have monitor: "slim_ok (snd (cleanup_monitor k s))" if "slim_ok s" for s
    using that by (simp add: cleanup_monitor_def slim_ok_monitor)
  show ?thesis
    using assms(1) unfolding shutdown_inner_def
  proof (rule then_do_keeps [where P = slim_ok])
    show "slim_ok (snd (cleanup_monitor k (cleanup_begins s)))" using monitor slim_ok_begins assms(2) by blast
    fix s e t assume "slim_ok s" and s: "then_do (cleanup_check k s) (\<lambda>s. then_do (cleanup_process k s) (\<lambda>s. then_do (cleanup_client k s) (\<lambda>s. (None, cleanup_ends s)))) = (e, t)"
    show "slim_ok t" using s by (rule then_do_keeps [where P = slim_ok]) (use check \<open>slim_ok s\<close> process in auto)
  qed
qed

text \<open>No group of a generation lives where a start gets past its checks.\<close>

definition slim_clear :: "slim \<Rightarrow> bool" where
  "slim_clear s \<longleftrightarrow> slim_ok s \<and> sb_process s = None \<and> sb_check s = None \<and> (\<forall>n. \<not> generation_live s n)"

lemma slim_clear_validate:
  assumes "validate_inner dumped run s = (None, t)" "slim_clear s" "sb_withdrawn s = Some True"
  shows "slim_clear t"
  using assms slim_ok_validate [OF assms(1)]
  by (auto simp: slim_clear_def validate_inner_def check_spawned_def slim_defs Let_def
      split: if_splits spawned.splits option.splits sum.splits)

lemma slim_ok_start_failed: "start_failed k x s = (e, t) \<Longrightarrow> slim_ok s \<Longrightarrow> slim_ok t"
  unfolding start_failed_def by (erule then_do_cases) (auto dest: slim_ok_shutdown intro: slim_ok_info)

lemma slim_ok_refresh: "refresh_observation c rep s = (e, t) \<Longrightarrow> slim_ok s \<Longrightarrow> slim_ok t"
  by (auto simp: refresh_observation_def slim_ok_def generation_live_def split: sum.splits option.splits)

lemma slim_ok_spawned:
  assumes "generation_spawned c run s = (e, t)" "slim_ok ((born Generation s)\<lparr>sb_process := Some (sb_next s, False)\<rparr>)"
  shows "slim_ok t"
proof -
  let ?s = "(born Generation s)\<lparr>sb_process := Some (sb_next s, False)\<rparr>"
  have ok: "slim_ok (?s\<lparr>sb_client := True\<rparr>)" using assms(2) by (rule slim_ok_info)
  obtain e' s' where r: "refresh_observation c (sr_reply run) (?s\<lparr>sb_client := True\<rparr>) = (e', s')" by fastforce
  note s' = slim_ok_refresh [OF r ok]
  show ?thesis
  proof (cases "sr_written run")
    case (Some x)
    then show ?thesis using assms slim_ok_start_failed by (auto simp: generation_spawned_def Let_def)
  next
    case None
    then show ?thesis
      using assms(1) slim_ok_start_failed [OF _ ok] slim_ok_start_failed [OF _ s'] slim_ok_monitor [OF s'] r
      by (cases "wait_loaded (ro_generation (rt_roles c)) (sr_polls run)"; cases e') (auto simp: generation_spawned_def Let_def)
  qed
qed

lemma slim_ok_generation:
  assumes "start_generation c run s = (e, t)" "slim_clear s"
  shows "slim_ok t"
proof -
  let ?s = "s\<lparr>sb_config := Some c, sb_backend_id := kernel_backend (the (rl_slimserve (ro_generation (rt_roles c)))),
         sb_info := bare_info ''loading'', sb_observed := [], sb_withdrawn := Some False\<rparr>"
  have "slim_ok ?s" "slim_ok (?s\<lparr>sb_withdrawn := Some True\<rparr>)" "slim_ok (born Generation ?s)"
    "slim_ok ((born Generation ?s)\<lparr>sb_process := Some (sb_next ?s, False)\<rparr>)"
    using assms(2) by (auto simp: slim_clear_def slim_defs)
  note ok = this
  show ?thesis
  proof (cases "sr_spawn run")
    case Spawned
    then show ?thesis using assms(1) slim_ok_spawned [OF _ ok(4)] by (simp add: start_generation_def Let_def)
  next
    case NotSpawned
    then show ?thesis using assms(1) slim_ok_start_failed [OF _ ok(2)] by (simp add: start_generation_def Let_def)
  next
    case (SpawnLost left)
    then show ?thesis using assms(1) slim_ok_start_failed [OF _ ok(1)] slim_ok_start_failed [OF _ ok(3)]
      by (cases left) (simp_all add: start_generation_def Let_def)
  qed
qed

lemma slim_clear_start:
  "slim_ok s \<Longrightarrow> sb_process s = None \<Longrightarrow> sb_withdrawn s \<noteq> Some False \<Longrightarrow> slim_clear (s\<lparr>sb_withdrawn := Some True\<rparr>)"
  by (auto simp: slim_clear_def slim_defs)

lemma slim_ok_start:
  assumes "start_slim dump c run s = (e, t)" "slim_ok s"
  shows "slim_ok t"
proof (cases "sb_process s \<noteq> None \<or> sb_withdrawn s = Some False \<or> sb_pending s")
  case True
  then show ?thesis using assms by (simp add: start_slim_def)
next
  case False
  let ?s = "if sb_withdrawn s = None then s\<lparr>sb_withdrawn := Some True\<rparr> else s"
  have s: "?s = s\<lparr>sb_withdrawn := Some True\<rparr>" using False by (cases "sb_withdrawn s") auto
  have "sb_process s = None" "sb_withdrawn s \<noteq> Some False" using False by (cases "sb_process s", simp_all)
  then have clear: "slim_clear ?s" unfolding s using slim_clear_start assms(2) by blast
  have w: "sb_withdrawn ?s = Some True" by (simp add: s)
  have run: "then_do (if sb_validated ?s \<noteq> Some (dump c) then validate_inner (dump c) (sr_check run) ?s else (None, ?s))
      (start_generation c run) = (e, t)"
    using assms(1) unfolding start_slim_def if_not_P [OF False] Let_def .
  from run show ?thesis
  proof (rule then_do_cases)
    fix x assume "(if sb_validated ?s \<noteq> Some (dump c) then validate_inner (dump c) (sr_check run) ?s else (None, ?s)) = (Some x, t)"
    then show ?thesis using slim_ok_validate clear by (auto simp: slim_clear_def split: if_splits)
  next
    fix s' assume a: "(if sb_validated ?s \<noteq> Some (dump c) then validate_inner (dump c) (sr_check run) ?s else (None, ?s)) = (None, s')"
      "start_generation c run s' = (e, t)"
    have "slim_clear s'" using a(1) slim_clear_validate [OF _ clear w] clear by (auto split: if_splits)
    then show ?thesis using a(2) slim_ok_generation by blast
  qed
qed

lemma slim_ok_step: "slim_step dump s t \<Longrightarrow> slim_ok s \<Longrightarrow> slim_ok t"
proof (induction rule: slim_step.induct)
  case (watch_sees s rep t)
  then show ?case by (auto simp: watch_turn_def dest: slim_ok_refresh split: option.splits prod.splits if_splits)
next
  case (watch_closes s rep e t)
  then have "slim_ok t" by (auto simp: watch_turn_def dest: slim_ok_refresh split: option.splits prod.splits if_splits)
  then show ?case by (simp add: watch_fails_def slim_ok_def generation_live_def cong: option.case_cong)
next
  case (watch_ends s k e t)
  then show ?case unfolding watch_cleans_def
    by (elim then_do_cases) (auto dest: slim_ok_shutdown intro: slim_ok_info)
next
  case (resume rep s e t)
  then show ?case by (auto simp: resume_slim_def intro: slim_ok_info elim!: then_do_cases split: if_splits)
next
  case (leader_exits s n)
  then show ?case by (simp add: slim_ok_def generation_live_def)
next
  case (group_ends s l)
  then show ?case by (auto simp: slim_ok_def generation_live_def split: option.splits)
next
  case (pause s)
  then show ?case by (simp add: pause_slim_def slim_ok_info)
qed (auto dest: slim_ok_validate slim_ok_start slim_ok_shutdown)

interpretation slim_life: invariant_of "\<lambda>s. s = slim_init" "slim_step dump" slim_ok for dump
proof unfold_locales
  show "slim_ok s" if "s = slim_init" for s using that by (simp add: slim_init_def slim_ok_def generation_live_def)
  show "slim_ok t" if "slim_ok s" "slim_step dump s t" for s t using that slim_ok_step by blast
qed

text \<open>
  C5. One generation lives at a time, and what is said of it is true: in every reachable state no two
  generations' groups exist; while one exists, a start is refused and changes nothing; and a pause is
  acknowledged only where none exists or the managed child itself acknowledged that it is idle.
\<close>

theorem one_generation_lifetime:
  assumes "(slim_step dump)\<^sup>*\<^sup>* slim_init s"
  shows "(generation_live s m \<and> generation_live s n \<longrightarrow> m = n) \<and>
    (generation_live s n \<longrightarrow> start_slim dump c run s =
       (Some (backend_failure ''a SlimServe generation lifetime is already managed or unresolved'' ''CONFIG_INVALID''), s)) \<and>
    (quiesce_slim rep s = None \<longrightarrow> (\<forall>n. \<not> generation_live s n) \<or>
       (\<exists>p b v. sb_process s = Some (p, False) \<and> rep = Reply 200 b (Some v) \<and> py_eq v (JObj [(''quiesced'', JBool True)])))"
proof -
  have ok: "slim_ok s" using slim_life.reachable_inv assms by blast
  have "m = n" if "generation_live s m \<and> generation_live s n"
    using ok that by (auto simp: slim_ok_def split: option.splits)
  moreover have "sb_withdrawn s = Some False" if "generation_live s n" for n
    using ok that by (auto simp: slim_ok_def split: option.splits)
  ultimately show ?thesis
    by (auto simp: start_slim_def quiesce_slim_def child_unavailable_def acknowledged_def check_simps
        split: if_splits option.splits reply.splits)
qed

definition demo_observation :: json where
  "demo_observation = JObj (expected_observation sealed_role (sealed\<lparr>sc_artifacts := [demo_artifact]\<rparr>) @
     [(''engine_model'', JStr ''/srv/model''), (''capabilities'', texts CAPABILITIES),
      (''accelerator'', JObj [(''vendor'', JStr ''nvidia''), (''device_count'', JInt 1), (''unified_memory'', JBool False),
         (''devices'', JArr [JObj [(''identity_kind'', JStr ''nvidia_gpu_uuid''), (''local_rank'', JInt 0), (''gpu_uuid'', JStr demo_gpu),
            (''stable_identifier'', JStr demo_gpu)]])])])"

definition clean :: cleanup where
  "clean = \<lparr>cl_own = False, cl_monitor = None, cl_check = None, cl_process = None, cl_client = None\<rparr>"

definition demo_check :: check_run where
  "demo_check = \<lparr>cr_spawn = Spawned,
     cr_run = Answered 0 60 (Some (JObj [(''validated'', JBool True), (''engine_model'', JStr ''/srv/model'')])), cr_stop = None\<rparr>"

definition demo_run :: start_run where
  "demo_run = \<lparr>sr_check = demo_check, sr_spawn = Spawned, sr_written = None,
     sr_polls = [NoAnswer, Health 200 (Completed 200 (Some (JObj
       [(''model'', text_or_null (rl_served_model_name sealed_role)), (''choices'', JArr [JNull])])))],
     sr_reply = Reply 200 900 (Some demo_observation), sr_cleanup = clean\<rparr>"

definition demo_running :: slim where
  "demo_running = snd (start_slim (\<lambda>c. ''c'') launch_runtime demo_run slim_init)"

lemma demo_running_reachable: "(slim_step (\<lambda>c. ''c''))\<^sup>*\<^sup>* slim_init demo_running"
proof -
  have "slim_step (\<lambda>c. ''c'') slim_init demo_running"
    by (rule slim_step.start [of "\<lambda>c. ''c''" launch_runtime demo_run _ "fst (start_slim (\<lambda>c. ''c'') launch_runtime demo_run slim_init)"])
      (simp add: demo_running_def)
  then show ?thesis by blast
qed

lemma demo_start_computed:
  "case start_slim (\<lambda>c. ''c'') launch_runtime demo_run slim_init of (e, s) \<Rightarrow>
     e = None \<and> sb_live s = [Generation 1] \<and> sb_process s = Some (1, False) \<and> sb_config s = Some launch_runtime \<and>
     \<not> sb_pending s \<and> sb_check s = None"
  by code_simp

lemma demo_running_is:
  "fst (start_slim (\<lambda>c. ''c'') launch_runtime demo_run slim_init) = None"
  "sb_live demo_running = [Generation 1]" "sb_process demo_running = Some (1, False)" "sb_config demo_running = Some launch_runtime"
  "\<not> sb_pending demo_running" "sb_check demo_running = None"
  using demo_start_computed by (auto simp: demo_running_def split: prod.splits)

lemma one_generation_lifetime_witness:
  "generation_live demo_running 1 \<and> start_slim (\<lambda>c. ''c'') launch_runtime demo_run demo_running =
     (Some (backend_failure ''a SlimServe generation lifetime is already managed or unresolved'' ''CONFIG_INVALID''), demo_running)"
  using one_generation_lifetime [OF demo_running_reachable] by (simp add: generation_live_def demo_running_is)

section \<open>A candidate's check beside a running generation\<close>

lemma no_expected_model: "read_observation c None rep = Inl e \<or> (\<exists>e. read_observation c None rep = Inl e)"
  by (cases "read_observation c None rep")
    (auto simp: read_observation_def and_then_Inr check_simps split: reply.splits if_splits option.splits)


definition refused_check :: check_run where
  "refused_check = demo_check\<lparr>cr_run := Answered 1 0 None\<rparr>"


text \<open>
  A helper lost beside a running generation is forgotten by the next cleanup: the backend then holds
  everything for withdrawn and acknowledges a pause, while the helper's group may still exist.
\<close>

lemma lost_check_is_forgotten:
  "let s = snd (shutdown_inner clean (snd (validate_inner ''d'' (demo_check\<lparr>cr_spawn := SpawnLost True\<rparr>) demo_running))) in
     sb_withdrawn s = Some True \<and> quiesce_slim (NoReply Cancelled) s = None \<and> sb_live s = [CheckRun 2]"
  by code_simp

section \<open>What an accepted observation says\<close>

lemma devices_listed:
  "length ds = length us \<Longrightarrow> list_all (\<lambda>(d, uuid). device_is d uuid) (zip ds us) \<Longrightarrow> map (\<lambda>d. obj_get d ''gpu_uuid'') ds = map JStr us"
  by (induction ds us rule: list_induct2) (auto simp: device_is_def)

lemma cuda_devices_are_placed:
  assumes "cuda_devices r devices = Inr ordered"
  shows "mset ordered = mset devices \<and> map (\<lambda>d. obj_get d ''gpu_uuid'') ordered = map JStr (rl_devices r) \<and>
    map local_rank ordered = map int [0..<nat (rl_tensor_parallel_size r)]"
proof -
  have o: "ordered = sort_key local_rank devices" and l: "length ordered = length (rl_devices r)"
    and u: "list_all (\<lambda>(d, uuid). device_is d uuid) (zip ordered (rl_devices r))"
    and m: "map local_rank ordered = map int [0..<nat (rl_tensor_parallel_size r)]"
    using assms by (auto simp: cuda_devices_def Let_def check_simps)
  have "map (\<lambda>d. obj_get d ''gpu_uuid'') ordered = map JStr (rl_devices r)" using devices_listed [OF l u] .
  with o m show ?thesis by simp
qed



end
