(* ===== verification/ImageBuild.thy ===== *)
theory ImageBuild
  imports SlimServeBackend AgentRequests "HOL-Library.Multiset" "HOL-Library.Char_ord" "HOL-Library.List_Lexorder"
begin

text \<open>
  \<open>docker/slimserve/build.py\<close> and the lock it reads, \<open>docker/slimserve/provenance.json\<close>: the checks a
  build passes, the sources it compiles, the environment it compiles them in and the provenance it
  leaves, which the runtime then verifies its installation by. A path is its components; the disk is the
  contents of its regular files and where paths resolve to. What git, pip and the compilers do, and the
  packages' metadata, are outcomes; SHA-256 is the argument \<open>sha256\<close>.
\<close>

section \<open>The lock\<close>

datatype build_target = BuildCuda | BuildMetal

definition target_name :: "build_target \<Rightarrow> string" where
  "target_name t = (case t of BuildCuda \<Rightarrow> ''cuda'' | BuildMetal \<Rightarrow> ''metal'')"

record source_pin =
  sp_repository :: string
  sp_commit :: string
  sp_license :: "string option"
  sp_ref :: "string option"
  sp_environment :: "string option"
  sp_subdirectory :: "string option"

definition pin :: "string \<Rightarrow> string \<Rightarrow> source_pin" where
  "pin repository pinned_rev = \<lparr>sp_repository = ''https://github.com/'' @ repository, sp_commit = pinned_rev, sp_license = None,
     sp_ref = None, sp_environment = None, sp_subdirectory = None\<rparr>"

record kernel_pin =
  kp_library :: string
  kp_pin :: source_pin
  kp_mappings :: "(string list, string list option) dict"

definition lock_slimserve :: source_pin where
  "lock_slimserve = (pin ''QuixiAI/SlimServe'' ''44a7d1a21851c7164c098c93fbc1baa12ab99847'')\<lparr>sp_license := Some ''Apache-2.0''\<rparr>"

definition lock_kernels :: "build_target \<Rightarrow> kernel_pin" where
  "lock_kernels t = (case t of
     BuildCuda \<Rightarrow> \<lparr>kp_library = ''quixicore-cuda'',
       kp_pin = (pin ''QuixiAI/QuixiCore-CUDA'' ''08780aaa22cdc2d144b6beacb24df953134b34be'')\<lparr>sp_license := Some ''MIT''\<rparr>,
       kp_mappings = [([''tm_cuda''], Some [''kernels'', ''tm_cuda'']), ([''quant''], Some [''kernels'', ''quant'']),
         ([''serving''], Some [''kernels'', ''serving''])]\<rparr>
   | BuildMetal \<Rightarrow> \<lparr>kp_library = ''quixicore-metal'',
       kp_pin = (pin ''QuixiAI/QuixiCore-Metal'' ''71a08cd4cbcdc622ce31b3fc91e1f505e144b516'')\<lparr>sp_license := Some ''MIT''\<rparr>,
       kp_mappings = [([''metal'', ''include''], Some [''include'']), ([''metal'', ''kernels''], Some [''kernels'']),
         ([''tm_metal''], None)]\<rparr>)"

definition lock_cuda_sources :: "(string list, source_pin) dict" where
  "lock_cuda_sources =
     [([''cutlass''], (pin ''NVIDIA/cutlass'' ''da5e086dab31d63815acafdac9a9c5893b1c69e2'')
         \<lparr>sp_ref := Some ''v4.4.2'', sp_environment := Some ''VLLM_CUTLASS_SRC_DIR''\<rparr>),
      ([''triton''], (pin ''triton-lang/triton'' ''0add68262ab0a2e33b84524346cb27cbb2787356'')
         \<lparr>sp_ref := Some ''v3.5.1'', sp_environment := Some ''TRITON_KERNELS_SRC_DIR'',
          sp_subdirectory := Some ''python/triton_kernels/triton_kernels''\<rparr>),
      ([''deepgemm''], (pin ''deepseek-ai/DeepGEMM'' ''a6b593d2826719dcf4892609af7b84ee23aaf32a'')
         \<lparr>sp_environment := Some ''DEEPGEMM_SRC_DIR''\<rparr>),
      ([''deepgemm'', ''third-party'', ''cutlass''], pin ''NVIDIA/cutlass'' ''f3fde58372d33e9a5650ba7b80fc48b3b49d40c8''),
      ([''deepgemm'', ''third-party'', ''fmt''], pin ''fmtlib/fmt'' ''553ec11ec06fbe0beebfbb45f9dc3c9eabd83d28''),
      ([''fmha-sm100''], (pin ''vllm-project/MSA'' ''890aaa1a37a598ad17ccff0827fea21540d381fa'')
         \<lparr>sp_environment := Some ''FMHA_SM100_SRC_DIR''\<rparr>),
      ([''fmha-sm100'', ''python'', ''fmha_sm100'', ''cutlass''], pin ''NVIDIA/cutlass'' ''eb61c911471867a5fd2466bfd8f29306cea6ebf8''),
      ([''flashmla''], (pin ''vllm-project/FlashMLA'' ''a8f794d1251cbfd88a5011445dd5582289c727e4'')
         \<lparr>sp_environment := Some ''FLASH_MLA_SRC_DIR''\<rparr>),
      ([''flashmla'', ''csrc'', ''cutlass''], pin ''NVIDIA/cutlass'' ''147f5673d0c1c3dcf66f78d677fd647e4a020219''),
      ([''qutlass''], (pin ''IST-DASLab/qutlass'' ''e74319e3405ce6d71965732880f5dc1f52371f64'')
         \<lparr>sp_environment := Some ''QUTLASS_SRC_DIR''\<rparr>),
      ([''tml-fa4''], (pin ''vllm-project/tml-fa4'' ''b206834606ed5b5f21f8eed6b0683f528ea9cf7d'')
         \<lparr>sp_environment := Some ''TML_FA4_SRC_DIR''\<rparr>),
      ([''flash-attention''], pin ''vllm-project/flash-attention'' ''ed4b7342bc8f0489dd9b649d5288867e35fc6a32''),
      ([''flash-attention'', ''csrc'', ''cutlass''], pin ''NVIDIA/cutlass'' ''62750a2b75c802660e4894434dc55e839f322277'')]"

text \<open>\<open>components\<close>: what is fetched for a target, by its place under \<open>sources\<close>.\<close>

definition components_of :: "build_target \<Rightarrow> (string list, source_pin) dict" where
  "components_of t = [([''slimserve''], lock_slimserve), ([target_name t @ ''-kernels''], kp_pin (lock_kernels t))] @
     (case t of BuildCuda \<Rightarrow> lock_cuda_sources | BuildMetal \<Rightarrow> [])"

section \<open>Files\<close>

record build_disk =
  bd_content :: "string list \<Rightarrow> string option"
  bd_resolve :: "string list \<Rightarrow> string list"

record file_entry =
  fe_path :: string
  fe_sha256 :: string

definition runtime_error :: "string \<Rightarrow> py_error" where
  "runtime_error = RuntimeError"

text \<open>\<open>digest\<close> and \<open>file_record\<close>; \<open>relative_to\<close> raises \<open>ValueError\<close> for a path that is not below the base.\<close>

definition file_record :: "(string \<Rightarrow> string) \<Rightarrow> build_disk \<Rightarrow> string list \<Rightarrow> string list \<Rightarrow> py_error + file_entry" where
  "file_record sha256 disk path base =
     (if \<not> prefix (bd_resolve disk base) (bd_resolve disk path)
      then Inl (runtime_error ''Artifact escapes installed package root'')
      else if \<not> prefix base path then Inl (ValueError ''is not in the subpath'')
      else case bd_content disk path of
        None \<Rightarrow> Inl (OSError ''no such file'')
      | Some c \<Rightarrow> Inr \<lparr>fe_path = relative_to base path, fe_sha256 = sha256 c\<rparr>)"

fun file_records :: "(string \<Rightarrow> string) \<Rightarrow> build_disk \<Rightarrow> string list list \<Rightarrow> string list \<Rightarrow> py_error + file_entry list" where
  "file_records sha256 disk [] base = Inr []"
| "file_records sha256 disk (p # ps) base =
     and_then (file_record sha256 disk p base) (\<lambda>r. and_then (file_records sha256 disk ps base) (\<lambda>rs. Inr (r # rs)))"

definition copyfile :: "string list \<Rightarrow> string list \<Rightarrow> build_disk \<Rightarrow> py_error + build_disk" where
  "copyfile src dst disk =
     (case bd_content disk src of
        None \<Rightarrow> Inl (OSError ''no such file'')
      | Some c \<Rightarrow> Inr (disk\<lparr>bd_content := (bd_content disk)(dst \<mapsto> c)\<rparr>))"

section \<open>What may be built\<close>

definition PREFIX :: "string list" where
  "PREFIX = [''opt'', ''sovereign-slimserve'']"

record build_machine =
  bm_python :: "nat \<times> nat"
  bm_platform :: string
  bm_machine :: string

record build_args =
  ba_target :: build_target
  ba_base_image :: "string option"
  ba_arch_list :: "string option"
  ba_max_jobs :: int

text \<open>\<open>str.split()\<close>, and a text within another.\<close>

definition words :: "string \<Rightarrow> string list" where
  "words s = filter (\<lambda>w. w \<noteq> []) (split_on (CHR '' '') (map (\<lambda>c. if is_space c then CHR '' '' else c) s))"

definition contains :: "string \<Rightarrow> string \<Rightarrow> bool" where
  "contains needle s \<longleftrightarrow> list_ex (prefix needle) (suffixes s)"

definition SUPPORTED_ARCHITECTURES :: "string list" where
  "SUPPORTED_ARCHITECTURES = [''8.0'', ''8.6'', ''8.9'']"

definition architectures_of :: "build_args \<Rightarrow> string list" where
  "architectures_of args =
     words (map (\<lambda>c. if c = CHR '';'' then CHR '' '' else c) (case ba_arch_list args of None \<Rightarrow> [] | Some s \<Rightarrow> s))"

text \<open>The checks of \<open>build\<close> before anything is done, and the arguments as it leaves them.\<close>

definition check_build :: "build_machine \<Rightarrow> build_args \<Rightarrow> py_error + build_args" where
  "check_build m args =
     (let (major, minor) = bm_python m in
      if major < 3 \<or> (major = 3 \<and> minor < 11) \<or> 3 < major \<or> (major = 3 \<and> 15 \<le> minor)
      then Inl (runtime_error ''Runtime plus SlimServe requires Python 3.11 through 3.14'')
      else case ba_target args of
        BuildMetal \<Rightarrow>
          if bm_platform m \<noteq> ''darwin'' \<or> bm_machine m \<noteq> ''arm64''
          then Inl (runtime_error ''The native Metal build requires Apple Silicon macOS'') else Inr args
      | BuildCuda \<Rightarrow>
          let architectures = architectures_of args in
          if bm_platform m \<noteq> ''linux'' \<or> bm_machine m \<noteq> ''x86_64''
          then Inl (runtime_error ''This CUDA image recipe requires Linux x86_64'')
          else if architectures = [] then Inl (runtime_error ''Specify --cuda-arch-list for the actual target GPUs (SM80+)'')
          else if \<exists>a \<in> set architectures. a \<notin> set SUPPORTED_ARCHITECTURES
          then Inl (runtime_error ''This pinned source recipe supports SM80/86/89 only'')
          else if (case ba_base_image args of None \<Rightarrow> True | Some i \<Rightarrow> i = [] \<or> \<not> contains ''@sha256:'' i)
          then Inl (runtime_error ''Supply an immutable, toolchain-equipped Runtime CUDA base image'')
          else Inr (args\<lparr>ba_arch_list := Some (join_with '';'' architectures)\<rparr>))"

text \<open>
  Outside its own interpreter the recipe makes one and starts itself again in it; an installation that
  is there is never replaced. \<open>Inr (Some env)\<close> is the new process's environment.
\<close>

record prefix_state =
  ps_inside :: bool
  ps_symlink :: bool
  ps_entries :: "string list option"

definition env_or :: "(string, string) dict \<Rightarrow> string \<Rightarrow> string \<Rightarrow> string" where
  "env_or env key d = (case dict_get env key of None \<Rightarrow> d | Some v \<Rightarrow> v)"

definition isolate :: "prefix_state \<Rightarrow> (string, string) dict \<Rightarrow> py_error + (string, string) dict option" where
  "isolate p environ =
     (if ps_inside p then Inr None
      else if ps_symlink p \<or> (case ps_entries p of None \<Rightarrow> False | Some es \<Rightarrow> es \<noteq> [])
      then Inl (runtime_error ''Refusing to replace an existing installation'')
      else let env = dict_set ''PYTHONNOUSERSITE'' ''1'' (dict_del ''PYTHONHOME'' (dict_del ''PYTHONPATH'' environ))
           in Inr (Some (dict_set ''PATH'' (''/opt/sovereign-slimserve/bin:'' @ env_or env ''PATH'' []) env)))"

section \<open>The environment\<close>

definition DROPPED_PREFIXES :: "string list" where
  "DROPPED_PREFIXES = [''VLLM_'', ''PIP_'', ''SETUPTOOLS_SCM_'']"

definition DROPPED_NAMES :: "string list" where
  "DROPPED_NAMES = [''CMAKE_ARGS'', ''TORCH_NIGHTLY'', ''DEEPGEMM_SRC_DIR'', ''FMHA_SM100_SRC_DIR'',
     ''FLASH_MLA_SRC_DIR'', ''QUTLASS_SRC_DIR'', ''TML_FA4_SRC_DIR'', ''TRITON_KERNELS_SRC_DIR'',
     ''DEEPGEMM_PYTHON_INTERPRETERS'', ''FETCHCONTENT_BASE_DIR'']"

definition steers_build :: "string \<Rightarrow> bool" where
  "steers_build name \<longleftrightarrow> list_ex (\<lambda>p. prefix p name) DROPPED_PREFIXES \<or> name \<in> set DROPPED_NAMES"

definition install_environment :: "build_args \<Rightarrow> (string, string) dict \<Rightarrow> (string, string) dict" where
  "install_environment args environ =
     env_update
       [(''GIT_TERMINAL_PROMPT'', ''0''), (''VLLM_TARGET_DEVICE'', target_name (ba_target args)), (''VLLM_USE_PRECOMPILED'', ''0''),
        (''TORCH_NIGHTLY'', ''0''), (''PIP_CONFIG_FILE'', ''/dev/null''), (''PIP_NO_INDEX'', ''1''), (''PYTHONNOUSERSITE'', ''1''),
        (''CMAKE_BUILD_TYPE'', ''Release''), (''MAX_JOBS'', show_int (ba_max_jobs args))]
       (filter (\<lambda>(name, v). \<not> steers_build name) environ)"

definition source_path :: "string list \<Rightarrow> string" where
  "source_path p = path_text (PREFIX @ [''sources''] @ p)"

definition source_variable :: "string list \<times> source_pin \<Rightarrow> (string \<times> string) list" where
  "source_variable np = (case np of (name, pinned) \<Rightarrow>
     (case sp_environment pinned of None \<Rightarrow> []
      | Some v \<Rightarrow> [(v, source_path (name @ (case sp_subdirectory pinned of None \<Rightarrow> [] | Some d \<Rightarrow> split_on slash d)))]))"

definition cuda_cmake_args :: string where
  "cuda_cmake_args =
     '' -DFETCHCONTENT_SOURCE_DIR_VLLM-FLASH-ATTN='' @ source_path [''flash-attention''] @
     '' -DCUTLASS_INCLUDE_DIR='' @ source_path [''cutlass'', ''include''] @
     '' -DCUTLASS_TOOLS_UTIL_INCLUDE_DIR='' @ source_path [''cutlass'', ''tools'', ''util'', ''include'']"

definition compile_environment :: "build_args \<Rightarrow> string \<Rightarrow> (string, string) dict \<Rightarrow> (string, string) dict" where
  "compile_environment args epoch env =
     (let disconnected = ''-DFETCHCONTENT_FULLY_DISCONNECTED=ON'';
          env = env_update [(''SOURCE_DATE_EPOCH'', strip epoch),
            (''FETCHCONTENT_BASE_DIR'', path_text (PREFIX @ [''cmake-dependencies''])), (''CMAKE_ARGS'', disconnected)] env
      in case ba_target args of
           BuildMetal \<Rightarrow> env
         | BuildCuda \<Rightarrow> env_update
             ([(''TORCH_CUDA_ARCH_LIST'', the (ba_arch_list args))] @ concat (map source_variable lock_cuda_sources) @
              [(''CMAKE_ARGS'', disconnected @ cuda_cmake_args)]) env)"

section \<open>Dependencies and sources\<close>

definition distribution_key :: "string \<Rightarrow> string" where
  "distribution_key name = map (\<lambda>c. if c = CHR ''_'' \<or> c = CHR ''.'' then CHR ''-'' else c) (lower name)"

text \<open>\<open>importable\<close> is whether a module has a specification, \<open>dists\<close> the installed distributions' names.\<close>

definition reject_flashinfer :: "(string \<Rightarrow> bool) \<Rightarrow> string list \<Rightarrow> py_error option" where
  "reject_flashinfer importable dists =
     (if list_ex importable FORBIDDEN_OPTIONAL_MODULES
      then Some (runtime_error ''Unreviewed optional FlashInfer module is importable'')
      else if list_ex (\<lambda>n. distribution_key n = ''flashinfer'' \<or> prefix ''flashinfer-'' (distribution_key n)) dists
      then Some (runtime_error ''Unreviewed optional FlashInfer distribution is installed'')
      else None)"

text \<open>A parsed requirement: its name, whether its marker holds here, the versions it admits.\<close>

record requirement =
  rq_name :: string
  rq_applies :: bool
  rq_admits :: "string \<Rightarrow> bool"

definition requirement_lines :: "string \<Rightarrow> string list" where
  "requirement_lines text =
     filter (\<lambda>l. l \<noteq> []) (map (\<lambda>l. strip (takeWhile (\<lambda>c. c \<noteq> CHR ''#'') l)) (splitlines text))"

definition build_requirements :: "build_target \<Rightarrow> string list \<Rightarrow> string list \<Rightarrow> string \<Rightarrow> string list" where
  "build_requirements t slimserve runtime cuda =
     [''cmake>=3.26.1,<3.30''] @ slimserve @ runtime @ (case t of BuildCuda \<Rightarrow> requirement_lines cuda | BuildMetal \<Rightarrow> [])"

fun require_build_dependencies ::
    "(string \<Rightarrow> requirement) \<Rightarrow> (string \<Rightarrow> string option) \<Rightarrow> string list \<Rightarrow> py_error option" where
  "require_build_dependencies parse installed [] = None"
| "require_build_dependencies parse installed (line # lines) =
     (let r = parse line in
      if \<not> rq_applies r then require_build_dependencies parse installed lines
      else case installed (rq_name r) of
        None \<Rightarrow> Some (KeyError (rq_name r))
      | Some v \<Rightarrow>
          if \<not> rq_admits r v then Some (runtime_error ''Dependency lock has another version'')
          else require_build_dependencies parse installed lines)"

text \<open>\<open>fetch_source\<close>: git's steps may fail; the revision it leaves must be the pinned one.\<close>

definition fetch_source :: "(string list \<Rightarrow> py_error + string) \<Rightarrow> string list \<times> source_pin \<Rightarrow> py_error option" where
  "fetch_source fetched np =
     (case fetched (fst np) of
        Inl e \<Rightarrow> Some e
      | Inr head \<Rightarrow> check (strip head \<noteq> sp_commit (snd np)) (runtime_error ''Wrong source revision''))"

section \<open>The kernels' sources\<close>

datatype origin = SlimserveAdded | Quixicore | SlimserveModified

record kernel_source =
  ks_file :: file_entry
  ks_origin :: origin
  ks_upstream :: "file_entry option"

definition COMPILED_SUFFIXES :: "string list" where
  "COMPILED_SUFFIXES = [''.cu'', ''.cuh'', ''.h'', ''.hpp'', ''.mm'', ''.metal'']"

definition compiled_input :: "build_disk \<Rightarrow> string list \<Rightarrow> bool" where
  "compiled_input disk p \<longleftrightarrow> bd_content disk p \<noteq> None \<and> path_suffix (last p) \<in> set COMPILED_SUFFIXES"

text \<open>One file of a mapping: \<open>base\<close> is its counterpart in the pinned tree, where the mapping has one.\<close>

definition kernel_record ::
    "(string \<Rightarrow> string) \<Rightarrow> string list \<Rightarrow> string list \<Rightarrow> string list \<Rightarrow> string list option \<Rightarrow> build_disk \<Rightarrow>
     py_error + kernel_source \<times> build_disk" where
  "kernel_record sha256 slimserve upstream path base disk =
     and_then (file_record sha256 disk path slimserve) (\<lambda>r.
       case base of
         None \<Rightarrow> Inr (\<lparr>ks_file = r, ks_origin = SlimserveAdded, ks_upstream = None\<rparr>, disk)
       | Some b \<Rightarrow> (case bd_content disk b of
           None \<Rightarrow> Inr (\<lparr>ks_file = r, ks_origin = SlimserveAdded, ks_upstream = None\<rparr>, disk)
         | Some c \<Rightarrow>
             let u = \<lparr>fe_path = relative_to upstream b, fe_sha256 = sha256 c\<rparr> in
             if fe_sha256 r = fe_sha256 u
             then and_then (copyfile b path disk) (\<lambda>disk.
               Inr (\<lparr>ks_file = r, ks_origin = Quixicore, ks_upstream = Some u\<rparr>, disk))
             else Inr (\<lparr>ks_file = r, ks_origin = SlimserveModified, ks_upstream = Some u\<rparr>, disk)))"

fun kernel_records ::
    "(string \<Rightarrow> string) \<Rightarrow> string list \<Rightarrow> string list \<Rightarrow> (string list \<times> string list option) list \<Rightarrow> build_disk \<Rightarrow>
     py_error + kernel_source list \<times> build_disk" where
  "kernel_records sha256 slimserve upstream [] disk = Inr ([], disk)"
| "kernel_records sha256 slimserve upstream ((path, base) # rest) disk =
     (if \<not> compiled_input disk path then kernel_records sha256 slimserve upstream rest disk
      else and_then (kernel_record sha256 slimserve upstream path base disk) (\<lambda>(r, disk).
        and_then (kernel_records sha256 slimserve upstream rest disk) (\<lambda>(rs, disk). Inr (r # rs, disk))))"

text \<open>
  \<open>listing\<close> lists a directory's files and directories, at any depth. A mapping's files come in the order
  of their paths, each with its counterpart.
\<close>

definition mapped_files ::
    "(string list \<Rightarrow> string list list) \<Rightarrow> string list \<Rightarrow> string list \<Rightarrow> (string list, string list option) dict \<Rightarrow>
     (string list \<times> string list option) list" where
  "mapped_files listing slimserve upstream mappings =
     concat (map (\<lambda>(local_dir, upstream_dir).
       let source_dir = slimserve @ [''csrc'', ''quixicore''] @ local_dir in
       map (\<lambda>path. (path, map_option (\<lambda>u. upstream @ u @ drop (length source_dir) path) upstream_dir))
         (sort (listing source_dir))) mappings)"

definition prepare_kernels ::
    "(string \<Rightarrow> string) \<Rightarrow> (string list \<Rightarrow> string list list) \<Rightarrow> string list \<Rightarrow> string list \<Rightarrow> kernel_pin \<Rightarrow> build_disk \<Rightarrow>
     py_error + kernel_source list \<times> build_disk" where
  "prepare_kernels sha256 listing slimserve upstream kpin disk =
     and_then (kernel_records sha256 slimserve upstream (mapped_files listing slimserve upstream (kp_mappings kpin)) disk)
       (\<lambda>(records, disk).
         if records = [] \<or> \<not> list_ex (\<lambda>r. ks_origin r = Quixicore) records
         then Inl (runtime_error ''Pinned QuixiCore source mapping produced no compiled inputs'')
         else Inr (records, disk))"

section \<open>Licenses\<close>

text \<open>A source tree: its entries that are not directories (\<open>None\<close> where none is a regular file) and its directories.\<close>

datatype source_tree = Tree "(string \<times> string option) list" "(string \<times> source_tree) list"

function walk :: "string list \<Rightarrow> source_tree \<Rightarrow> (string list \<times> string option) list" where
  "walk dir (Tree files dirs) =
     map (\<lambda>(n, c). (dir @ [n], c)) (sort_key fst files) @
     concat (map (\<lambda>(n, t). walk (dir @ [n]) t) (sort_key fst (filter (\<lambda>(n, t). n \<noteq> ''.git'') dirs)))"
  by pat_completeness auto
termination
  by (relation "measure (\<lambda>(dir, t). size t)")
    (auto simp: less_Suc_eq_le dest!: size_list_estimation' [where f = "size_prod (\<lambda>_. 0) size", OF _ order_refl])

definition is_notice :: "string list \<Rightarrow> bool" where
  "is_notice relative \<longleftrightarrow>
     list_ex (\<lambda>part. list_ex (\<lambda>w. prefix w (lower part)) [''license'', ''notice'', ''copying'', ''copyright'']) relative"

fun copy_notices ::
    "(string \<Rightarrow> string) \<Rightarrow> string list \<Rightarrow> (string list \<times> string option) list \<Rightarrow> build_disk \<Rightarrow>
     py_error + file_entry list \<times> build_disk" where
  "copy_notices sha256 destination [] disk = Inr ([], disk)"
| "copy_notices sha256 destination ((relative, content) # rest) disk =
     (case (if is_notice relative then content else None) of
        None \<Rightarrow> copy_notices sha256 destination rest disk
      | Some c \<Rightarrow>
          let target = destination @ relative; disk = disk\<lparr>bd_content := (bd_content disk)(target \<mapsto> c)\<rparr> in
          and_then (file_record sha256 disk target PREFIX) (\<lambda>r.
            and_then (copy_notices sha256 destination rest disk) (\<lambda>(rs, disk). Inr (r # rs, disk))))"

definition preserve_licenses ::
    "(string \<Rightarrow> string) \<Rightarrow> source_tree \<Rightarrow> string list \<Rightarrow> build_disk \<Rightarrow> py_error + file_entry list \<times> build_disk" where
  "preserve_licenses sha256 tree destination disk =
     and_then (copy_notices sha256 destination (walk [] tree) disk) (\<lambda>(copied, disk).
       if copied = [] then Inl (runtime_error ''No upstream license files found'') else Inr (copied, disk))"

text \<open>The components' own notices, nested sources going with their parent, then the runtime's three.\<close>

fun component_licenses ::
    "(string \<Rightarrow> string) \<Rightarrow> (string \<Rightarrow> source_tree) \<Rightarrow> string list list \<Rightarrow> build_disk \<Rightarrow> py_error + file_entry list \<times> build_disk" where
  "component_licenses sha256 tree [] disk = Inr ([], disk)"
| "component_licenses sha256 tree (name # names) disk =
     (case name of
        [n] \<Rightarrow> and_then (preserve_licenses sha256 (tree n) (PREFIX @ [''licenses'', n]) disk) (\<lambda>(copied, disk).
          and_then (component_licenses sha256 tree names disk) (\<lambda>(more, disk). Inr (copied @ more, disk)))
      | _ \<Rightarrow> component_licenses sha256 tree names disk)"

fun runtime_licenses ::
    "(string \<Rightarrow> string) \<Rightarrow> string list \<Rightarrow> string list \<Rightarrow> build_disk \<Rightarrow> py_error + file_entry list \<times> build_disk" where
  "runtime_licenses sha256 runtime_source [] disk = Inr ([], disk)"
| "runtime_licenses sha256 runtime_source (name # names) disk =
     (let target = PREFIX @ [''licenses'', ''sovereign-runtime'', name] in
      and_then (copyfile (runtime_source @ [name]) target disk) (\<lambda>disk.
        and_then (file_record sha256 disk target PREFIX) (\<lambda>r.
          and_then (runtime_licenses sha256 runtime_source names disk) (\<lambda>(rs, disk). Inr (r # rs, disk)))))"

section \<open>The provenance\<close>

definition entry_json :: "file_entry \<Rightarrow> json" where
  "entry_json r = JObj [(''path'', JStr (fe_path r)), (''sha256'', JStr (fe_sha256 r))]"

definition origin_name :: "origin \<Rightarrow> string" where
  "origin_name k = (case k of SlimserveAdded \<Rightarrow> ''slimserve-added'' | Quixicore \<Rightarrow> ''quixicore'' | SlimserveModified \<Rightarrow> ''slimserve-modified'')"

definition source_json :: "kernel_source \<Rightarrow> json" where
  "source_json r = JObj ([(''path'', JStr (fe_path (ks_file r))), (''sha256'', JStr (fe_sha256 (ks_file r))),
     (''origin'', JStr (origin_name (ks_origin r)))] @
     (case ks_upstream r of None \<Rightarrow> []
      | Some u \<Rightarrow> [(''upstream_path'', JStr (fe_path u)), (''upstream_sha256'', JStr (fe_sha256 u))]))"

definition pin_fields :: "source_pin \<Rightarrow> (string, json) dict" where
  "pin_fields p =
     [(''source_repository'', JStr (sp_repository p)), (''source_commit'', JStr (sp_commit p))] @
     concat (map (\<lambda>(name, v). case v of None \<Rightarrow> [] | Some t \<Rightarrow> [(name, JStr t)])
       [(''license'', sp_license p), (''upstream_ref'', sp_ref p), (''environment'', sp_environment p),
        (''environment_subdirectory'', sp_subdirectory p)])"

definition mapping_json :: "(string list, string list option) dict \<Rightarrow> json" where
  "mapping_json ms = JObj (map (\<lambda>(k, v). (join_with ''/'' k, opt_json (\<lambda>u. JStr (join_with ''/'' u)) v)) ms)"

definition component_json :: "build_target \<Rightarrow> string list \<times> source_pin \<Rightarrow> string \<times> json" where
  "component_json t np = (case np of (name, p) \<Rightarrow>
     (join_with ''/'' name, JObj (pin_fields p @
        (if name = [target_name t @ ''-kernels''] then
           [(''library'', JStr (kp_library (lock_kernels t))), (''source_mappings'', mapping_json (kp_mappings (lock_kernels t)))]
         else []))))"

text \<open>What a build leaves and finds, when each of its steps has succeeded.\<close>

record build_facts =
  bf_package_version :: string
  bf_files :: "file_entry list"
  bf_sources :: "kernel_source list"
  bf_artifacts :: "file_entry list"
  bf_python_version :: string
  bf_builder_sha256 :: string
  bf_compilers :: "(string, string) dict"
  bf_epoch :: string
  bf_lock_sha256 :: string
  bf_dependency_sha256 :: string
  bf_wheels :: "file_entry list"
  bf_packages :: "(string \<times> string) list"
  bf_compiled :: "file_entry list"
  bf_licenses :: "file_entry list"

definition slimserve_json :: "build_facts \<Rightarrow> json" where
  "slimserve_json f = JObj (pin_fields lock_slimserve @
     [(''package_version'', JStr (bf_package_version f)), (''files'', JArr (map entry_json (bf_files f)))])"

definition kernels_json :: "build_target \<Rightarrow> build_facts \<Rightarrow> (string, json) dict" where
  "kernels_json t f =
     (let kernel = lock_kernels t; pinned_rev = sp_commit (kp_pin kernel); modification = sp_commit lock_slimserve in
      [(''library'', JStr (kp_library kernel)), (''source_repository'', JStr (sp_repository (kp_pin kernel))),
       (''source_commit'', JStr pinned_rev), (''modifications_commit'', JStr modification),
       (''version'', JStr (pinned_rev @ ''+slimserve.'' @ modification)), (''module_name'', JStr ''vllm._quixicore_C''),
       (''source_files'', JArr (map source_json (bf_sources f))), (''artifacts'', JArr (map entry_json (bf_artifacts f)))])"

definition build_json :: "build_args \<Rightarrow> build_facts \<Rightarrow> json" where
  "build_json args f = JObj
     [(''python_version'', JStr (bf_python_version f)), (''builder_sha256'', JStr (bf_builder_sha256 f)),
      (''compilers'', JObj (map (\<lambda>(n, v). (n, JStr v)) (bf_compilers f))), (''target'', JStr (target_name (ba_target args))),
      (''base_image'', opt_json JStr (ba_base_image args)), (''cuda_arch_list'', opt_json JStr (ba_arch_list args)),
      (''source_date_epoch'', JStr (bf_epoch f)), (''source_lock_sha256'', JStr (bf_lock_sha256 f)),
      (''dependency_lock_sha256'', JStr (bf_dependency_sha256 f)),
      (''sources'', JObj (map (component_json (ba_target args)) (components_of (ba_target args)))),
      (''wheels'', JArr (map entry_json (bf_wheels f))),
      (''packages'', JArr (map (\<lambda>(n, v). JObj [(''name'', JStr n), (''version'', JStr v)])
         (sort_key (\<lambda>(n, v). lower n) (bf_packages f))))]"

definition provenance_document :: "build_args \<Rightarrow> build_facts \<Rightarrow> (string, json) dict" where
  "provenance_document args f =
     [(''schema_version'', JInt 1), (''slimserve'', slimserve_json f), (''kernels'', JObj (kernels_json (ba_target args) f)),
      (''build'', build_json args f), (''compiled_artifacts'', JArr (map entry_json (bf_compiled f))),
      (''licenses'', JArr (map entry_json (bf_licenses f)))]"

section \<open>The build\<close>

text \<open>
  What the recipe meets on its way: what the tools it runs raise, what it finds installed, the trees it
  lists and the disk once the wheels are installed.
\<close>

record build_run =
  br_lock :: bool
  br_wheelhouse :: "py_error option"
  br_importable :: "string \<Rightarrow> bool"
  br_dists :: "string list"
  br_fetched :: "string list \<Rightarrow> py_error + string"
  br_requires :: "string list \<times> string list"
  br_cuda_requires :: string
  br_requirement :: "string \<Rightarrow> requirement"
  br_installed :: "string \<Rightarrow> string option"
  br_source_disk :: build_disk
  br_below :: "string list \<Rightarrow> string list list"
  br_epoch :: string
  br_wheels_built :: "py_error option"
  br_wheels :: "string list list"
  br_wheels_installed :: "py_error option"
  br_importable_after :: "string \<Rightarrow> bool"
  br_packages :: "(string \<times> string) list"
  br_checked :: "py_error option"
  br_compilers :: "py_error + (string, string) dict"
  br_disk :: build_disk
  br_site :: "string list"
  br_suffixes :: "string list"
  br_python :: "string list list"
  br_below_engine :: "string list list"
  br_trees :: "string \<Rightarrow> source_tree"
  br_runtime_source :: "string list"
  br_package_version :: string
  br_python_version :: string
  br_builder :: string
  br_lock_text :: string
  br_dependency_text :: string

definition engine_package :: "build_run \<Rightarrow> string list" where
  "engine_package r = br_site r @ [''vllm'']"

definition extensions :: "build_run \<Rightarrow> string list list" where
  "extensions r = filter (\<lambda>p. bd_content (br_disk r) p \<noteq> None) (map (\<lambda>s. engine_package r @ [''_quixicore_C'' @ s]) (br_suffixes r))"

definition kernel_artifacts :: "build_target \<Rightarrow> build_run \<Rightarrow> string list list" where
  "kernel_artifacts t r = extensions r @
     (case t of BuildMetal \<Rightarrow> [engine_package r @ [''quixicore_metal.metallib'']] | BuildCuda \<Rightarrow> [])"

definition profiles_path :: "build_run \<Rightarrow> string list" where
  "profiles_path r = br_site r @ [''slimserve'', ''profiles.json'']"

text \<open>The first half: the dependencies, the pinned sources, and their kernels' inputs.\<close>

definition prepare_build :: "(string \<Rightarrow> string) \<Rightarrow> build_args \<Rightarrow> build_run \<Rightarrow> py_error + kernel_source list" where
  "prepare_build sha256 args r =
     (let t = ba_target args; sources = PREFIX @ [''sources'']; slimserve = sources @ [''slimserve''] in
      guarded (run_checks
        ([check (\<not> br_lock r) (runtime_error ''The dependency wheelhouse must contain requirements.lock with SHA256 hashes''),
          br_wheelhouse r,
          reject_flashinfer (br_importable r) (br_dists r),
          check (\<exists>n \<in> set (br_dists r). n \<in> {''vllm'', ''sovereign-runtime''})
            (runtime_error ''Dependency lock must not include it; it is built from source'')] @
         map (fetch_source (br_fetched r)) (components_of t) @
         [require_build_dependencies (br_requirement r) (br_installed r)
            (build_requirements t (fst (br_requires r)) (snd (br_requires r)) (br_cuda_requires r))]))
      (map_sum id fst (prepare_kernels sha256 (br_below r) slimserve (sources @ [target_name t @ ''-kernels''])
         (lock_kernels t) (br_source_disk r))))"

text \<open>The second half: the wheels, the installed files and what is recorded of them.\<close>

definition record_build ::
    "(string \<Rightarrow> string) \<Rightarrow> build_args \<Rightarrow> build_run \<Rightarrow> kernel_source list \<Rightarrow> py_error + build_facts" where
  "record_build sha256 args r sources =
     (let t = ba_target args; site = br_site r; disk = br_disk r in
      guarded (run_checks
        [br_wheels_built r,
         check (length (br_wheels r) \<noteq> 2) (runtime_error ''Expected exactly the SlimServe and first-party Runtime wheels''),
         br_wheels_installed r,
         reject_flashinfer (br_importable_after r) (map fst (br_packages r)),
         br_checked r])
      (and_then (br_compilers r) (\<lambda>compilers.
        if length (extensions r) \<noteq> 1
        then Inl (runtime_error ''The build must install exactly one native vllm._quixicore_C extension'')
        else if br_python r = [] \<or> bd_content disk (profiles_path r) = None
        then Inl (runtime_error ''The installed wheel lacks SlimServe Python sources or profiles.json'')
        else
          and_then (component_licenses sha256 (br_trees r) (map fst (components_of t)) disk) (\<lambda>(copied, disk).
          and_then (runtime_licenses sha256 (br_runtime_source r) [''LICENSE'', ''NOTICE'', ''THIRD_PARTY_NOTICES.md''] disk)
            (\<lambda>(own, disk).
          and_then (file_records sha256 disk (sort (br_python r) @ [profiles_path r]) site) (\<lambda>files.
          and_then (file_records sha256 disk (kernel_artifacts t r) site) (\<lambda>artifacts.
          and_then (file_records sha256 disk (sort (br_wheels r)) PREFIX) (\<lambda>wheels.
          and_then (file_records sha256 disk (filter (\<lambda>p. bd_content disk p \<noteq> None \<and>
              path_suffix (last p) \<in> {''.so'', ''.dylib'', ''.metallib''}) (sort (br_below_engine r))) site) (\<lambda>compiled.
          Inr \<lparr>bf_package_version = br_package_version r, bf_files = files, bf_sources = sources, bf_artifacts = artifacts,
               bf_python_version = br_python_version r, bf_builder_sha256 = sha256 (br_builder r), bf_compilers = compilers,
               bf_epoch = strip (br_epoch r), bf_lock_sha256 = sha256 (br_lock_text r),
               bf_dependency_sha256 = sha256 (br_dependency_text r), bf_wheels = wheels, bf_packages = br_packages r,
               bf_compiled = compiled, bf_licenses = copied @ own\<rparr>)))))))))"

definition build ::
    "(string \<Rightarrow> string) \<Rightarrow> build_machine \<Rightarrow> build_args \<Rightarrow> build_run \<Rightarrow> py_error + (string, json) dict" where
  "build sha256 m args r =
     and_then (check_build m args) (\<lambda>args.
       and_then (prepare_build sha256 args r) (\<lambda>sources.
         and_then (record_build sha256 args r sources) (\<lambda>facts. Inr (provenance_document args facts))))"

section \<open>What a build records, the runtime accepts\<close>

text \<open>\<open>json.dumps\<close> with \<open>sort_keys\<close>, read back: the same values, each object's names in order.\<close>

fun sorted_names :: "json \<Rightarrow> json" where
  "sorted_names (JArr xs) = JArr (map sorted_names xs)"
| "sorted_names (JObj kvs) = JObj (sort_key fst (map (\<lambda>(k, v). (k, sorted_names v)) kvs))"
| "sorted_names v = v"

definition document_fields :: "(string, json) dict \<Rightarrow> (string, json) dict" where
  "document_fields d = sort_key fst (map (\<lambda>(k, v). (k, sorted_names v)) d)"

lemma map_of_sort_key: "dict_ok xs \<Longrightarrow> map_of (sort_key f xs) = map_of xs"
proof -
  assume d: "dict_ok xs"
  have "mset (map fst (sort_key f xs)) = mset (map fst xs)" by simp
  then have "dict_ok (sort_key f xs)" using d mset_eq_imp_distinct_iff by blast
  then show ?thesis using d by (simp add: map_of_inject_set)
qed

lemma get_sorted: "dict_ok d \<Longrightarrow> dict_get (document_fields d) k = map_option sorted_names (dict_get d k)"
proof -
  assume d: "dict_ok d"
  have "map fst (map (\<lambda>(k, v). (k, sorted_names v)) d) = map fst d" by auto
  then have "dict_ok (map (\<lambda>(k, v). (k, sorted_names v)) d)" using d by (simp only:)
  from map_of_sort_key [OF this, of fst] show ?thesis by (simp add: document_fields_def map_of_map)
qed

lemma obj_get_sorted: "dict_ok d \<Longrightarrow> obj_get (sorted_names (JObj d)) k = sorted_names (obj_get (JObj d) k)"
  using get_sorted [of d k] by (simp add: obj_get_def document_fields_def split: option.splits)

lemma sorted_entry [simp]: "sorted_names (entry_json r) = entry_json r"
proof -
  have "''path'' \<le> (''sha256'' :: string)" by code_simp
  then show ?thesis by (simp add: entry_json_def)
qed

lemma sorted_entries [simp]: "sorted_names (JArr (map entry_json rs)) = JArr (map entry_json rs)"
  by simp

text \<open>A path below a base whose name there a provenance may carry.\<close>

definition tidy :: "string list \<Rightarrow> string list \<Rightarrow> bool" where
  "tidy base p \<longleftrightarrow>
     (let q = drop (length base) p in
      prefix base p \<and> q \<noteq> [] \<and> list_all plain_component q \<and> CHR 0x5C \<notin> set (relative_to base p) \<and>
      length (relative_to base p) \<le> 1024)"

lemma tidy_split: "tidy base p \<Longrightarrow> split_on slash (relative_to base p) = drop (length base) p"
  unfolding relative_to_def by (rule split_join) (auto simp: tidy_def Let_def list_all_iff plain_component_def)

lemma tidy_back: "tidy base p \<Longrightarrow> base @ split_on slash (relative_to base p) = p"
  by (simp add: tidy_split) (auto simp: tidy_def Let_def prefix_def)

lemma tidy_inj: "tidy base p \<Longrightarrow> tidy base q \<Longrightarrow> relative_to base p = relative_to base q \<Longrightarrow> p = q"
  using tidy_back by metis

lemma tidy_entry: "tidy base p \<Longrightarrow> lower_hex 64 digest \<Longrightarrow> entry_ok (relative_to base p) digest"
proof -
  assume t: "tidy base p" "lower_hex 64 digest"
  have parts: "drop (length base) p \<noteq> []" "list_all plain_component (drop (length base) p)"
    using t(1) by (auto simp: tidy_def Let_def)
  have "relative_to base p \<noteq> [] \<and> hd (relative_to base p) \<noteq> slash"
    using plain_head [of "drop (length base) p"] parts by (auto simp: relative_to_def list_all_iff)
  then have "relative_to base p \<noteq> []" "\<not> is_absolute (relative_to base p)"
    using root_relative [of "relative_to base p"] by (auto simp: is_absolute_def)
  then show ?thesis using t parts(2) tidy_split [OF t(1)]
    by (auto simp: entry_ok_def tidy_def Let_def list_all_iff plain_component_def)
qed

section \<open>Records of files\<close>

definition recorded :: "(string \<Rightarrow> string) \<Rightarrow> build_disk \<Rightarrow> string list \<Rightarrow> string list \<Rightarrow> file_entry" where
  "recorded sha256 disk base p = \<lparr>fe_path = relative_to base p, fe_sha256 = sha256 (the (bd_content disk p))\<rparr>"

lemma file_records_are:
  "file_records sha256 disk ps base = Inr rs \<Longrightarrow>
   rs = map (recorded sha256 disk base) ps \<and> (\<forall>p \<in> set ps. bd_content disk p \<noteq> None)"
  by (induction ps arbitrary: rs) (auto simp: and_then_Inr file_record_def recorded_def split: if_splits option.splits)

definition entry_pairs :: "file_entry list \<Rightarrow> (string, string) dict" where
  "entry_pairs rs = map (\<lambda>r. (fe_path r, fe_sha256 r)) rs"

lemma dict_set_new: "k \<notin> set (map fst d) \<Longrightarrow> dict_set k v d = d @ [(k, v)]"
  by (induction k v d rule: dict_set.induct) auto

lemma entries_loop_records:
  "\<forall>r \<in> set rs. entry_ok (fe_path r) (fe_sha256 r) \<Longrightarrow> distinct (map fst d @ map fe_path rs) \<Longrightarrow>
   entries_loop (map entry_json rs) d = Inr (d @ entry_pairs rs)"
proof (induction rs arbitrary: d)
  case (Cons r rs)
  have new: "fe_path r \<notin> set (map fst d)" using Cons.prems(2) by (auto simp del: set_map)
  then have none: "dict_get d (fe_path r) = None" by (simp add: map_of_eq_None_iff)
  have "entries_loop (map entry_json (r # rs)) d = entries_loop (map entry_json rs) (d @ [(fe_path r, fe_sha256 r)])"
    using Cons.prems(1) none dict_set_new [OF new] by (simp add: entry_json_def obj_get_def)
  also have "\<dots> = Inr ((d @ [(fe_path r, fe_sha256 r)]) @ entry_pairs rs)"
    using Cons.prems by (intro Cons.IH) auto
  finally show ?case by (simp add: entry_pairs_def)
qed (simp add: entry_pairs_def)

lemma recorded_entries:
  assumes "ps \<noteq> []" "distinct ps" "\<forall>p \<in> set ps. tidy base p" "\<forall>c. lower_hex 64 (sha256 c)"
  shows "entries_of (JArr (map entry_json (map (recorded sha256 disk base) ps))) =
      Inr (entry_pairs (map (recorded sha256 disk base) ps))"
    and "p \<in> set ps \<Longrightarrow>
      dict_get (entry_pairs (map (recorded sha256 disk base) ps)) (relative_to base p) = Some (sha256 (the (bd_content disk p)))"
proof -
  let ?rs = "map (recorded sha256 disk base) ps"
  have "inj_on (relative_to base) (set ps)" using assms(3) by (meson inj_onI tidy_inj)
  then have d: "distinct (map fe_path ?rs)" using assms(2) by (simp add: distinct_map comp_def recorded_def)
  have ok: "\<forall>r \<in> set ?rs. entry_ok (fe_path r) (fe_sha256 r)"
    using assms(3,4) tidy_entry by (auto simp: recorded_def)
  obtain r rs where rs: "?rs = r # rs" using assms(1) by (cases ps) auto
  show "entries_of (JArr (map entry_json ?rs)) = Inr (entry_pairs ?rs)"
    using entries_loop_records [OF ok, of "[]"] d unfolding rs by (simp add: entries_of_def)
  show "dict_get (entry_pairs ?rs) (relative_to base p) = Some (sha256 (the (bd_content disk p)))" if "p \<in> set ps"
    using that d by (intro map_of_is_SomeI) (auto simp: entry_pairs_def recorded_def comp_def)
qed

text \<open>Copying licenses leaves everything else as it was.\<close>

definition same_elsewhere :: "build_disk \<Rightarrow> build_disk \<Rightarrow> bool" where
  "same_elsewhere disk disk' \<longleftrightarrow> (\<forall>p. \<not> prefix (PREFIX @ [''licenses'']) p \<longrightarrow> bd_content disk' p = bd_content disk p)"

lemma same_elsewhere_trans: "same_elsewhere a b \<Longrightarrow> same_elsewhere b c \<Longrightarrow> same_elsewhere a c"
  by (simp add: same_elsewhere_def)

lemma same_elsewhere_set: "prefix (PREFIX @ [''licenses'']) q \<Longrightarrow> same_elsewhere disk (disk\<lparr>bd_content := (bd_content disk)(q := v)\<rparr>)"
  by (auto simp: same_elsewhere_def)

lemma copy_notices_elsewhere:
  "copy_notices sha256 destination files disk = Inr (rs, disk') \<Longrightarrow> prefix (PREFIX @ [''licenses'']) destination \<Longrightarrow>
   same_elsewhere disk disk'"
proof (induction sha256 destination files disk arbitrary: rs disk' rule: copy_notices.induct)
  case (1 sha256 destination disk)
  then show ?case by (simp add: same_elsewhere_def)
next
  case (2 sha256 destination relative content rest disk)
  show ?case
  proof (cases "if is_notice relative then content else None")
    case None
    then show ?thesis using 2 by simp
  next
    case (Some c)
    let ?d = "disk\<lparr>bd_content := (bd_content disk)(destination @ relative \<mapsto> c)\<rparr>"
    obtain r rs' where "copy_notices sha256 destination rest ?d = Inr (rs', disk')"
      using "2.prems"(1) Some by (auto simp: and_then_Inr Let_def)
    then have "same_elsewhere ?d disk'" using "2.IH"(2) [OF Some refl refl] "2.prems"(2) Some by (auto simp: and_then_Inr Let_def)
    moreover have "same_elsewhere disk ?d" using "2.prems"(2) by (intro same_elsewhere_set) (auto simp: prefix_def)
    ultimately show ?thesis by (rule same_elsewhere_trans [rotated])
  qed
qed

lemma component_licenses_elsewhere:
  "component_licenses sha256 tree names disk = Inr (rs, disk') \<Longrightarrow> same_elsewhere disk disk'"
proof (induction names arbitrary: rs disk)
  case (Cons name names)
  show ?case
  proof (cases "\<exists>n. name = [n]")
    case True
    then obtain n copied d more where
      c: "copy_notices sha256 (PREFIX @ [''licenses'', n]) (walk [] (tree n)) disk = Inr (copied, d)"
      and m: "component_licenses sha256 tree names d = Inr (more, disk')"
      using Cons.prems by (auto simp: and_then_Inr preserve_licenses_def split: if_splits)
    have "same_elsewhere disk d" by (rule copy_notices_elsewhere [OF c]) (simp add: prefix_def)
    then show ?thesis using Cons.IH [OF m] by (rule same_elsewhere_trans)
  next
    case False
    then show ?thesis using Cons by (auto split: list.splits)
  qed
qed (simp add: same_elsewhere_def)

lemma runtime_licenses_elsewhere:
  "runtime_licenses sha256 src names disk = Inr (rs, disk') \<Longrightarrow> same_elsewhere disk disk'"
proof (induction names arbitrary: disk rs)
  case (Cons name names)
  let ?q = "PREFIX @ [''licenses'', ''sovereign-runtime'', name]"
  obtain c rs' where c: "runtime_licenses sha256 src names (disk\<lparr>bd_content := (bd_content disk)(?q \<mapsto> c)\<rparr>) = Inr (rs', disk')"
    using Cons.prems by (auto simp: and_then_Inr Let_def copyfile_def split: option.splits)
  have "same_elsewhere disk (disk\<lparr>bd_content := (bd_content disk)(?q \<mapsto> c)\<rparr>)"
    by (rule same_elsewhere_set) (simp add: prefix_def)
  then show ?case using Cons.IH [OF c] same_elsewhere_trans by blast
qed (simp add: same_elsewhere_def)

section \<open>The runtime's verdict\<close>

text \<open>The installation the runtime looks at: each recorded file where it was put, with what it held.\<close>

definition unchanged :: "(string \<Rightarrow> string) \<Rightarrow> string list \<Rightarrow> build_disk \<Rightarrow> installed_disk \<Rightarrow> bool" where
  "unchanged sha256 site disk d \<longleftrightarrow>
     (\<forall>p c. prefix site p \<longrightarrow> bd_content disk p = Some c \<longrightarrow> pd_resolve d p = Some p \<and> pd_digest d p = sha256 c)"

lemma verify_recorded:
  "pd_resolve d p = Some p \<Longrightarrow> prefix (pv_root pv) p \<Longrightarrow> dict_get entries (relative_to (pv_root pv) p) = Some (pd_digest d p) \<Longrightarrow>
   fst (verify_file d entries p pv) = Inr (pd_digest d p)"
  by (simp add: verify_file_def Let_def)

lemma verify_all_recorded:
  "\<forall>p \<in> set ps. pd_resolve d p = Some p \<and> prefix (pv_root pv) p \<and>
     dict_get entries (relative_to (pv_root pv) p) = Some (pd_digest d p) \<Longrightarrow>
   fst (verify_files d entries ps pv) = Inr ()"
proof (induction ps arbitrary: pv)
  case (Cons p ps)
  obtain pv' where v: "verify_file d entries p pv = (Inr (pd_digest d p), pv')"
    using verify_recorded [of d p pv entries] Cons.prems by (metis list.set_intros(1) prod.collapse)
  have "pv_root pv' = pv_root pv" using verify_file_root [of d entries p pv] v by simp
  then show ?case using Cons v by simp
qed simp

lemma document_get [simp]:
  "dict_get (document_fields (provenance_document args f)) ''schema_version'' = Some (JInt 1)"
  "dict_get (document_fields (provenance_document args f)) ''slimserve'' = Some (sorted_names (slimserve_json f))"
  "dict_get (document_fields (provenance_document args f)) ''kernels'' = Some (JObj (document_fields (kernels_json (ba_target args) f)))"
  by (subst get_sorted; simp add: provenance_document_def document_fields_def)+

lemma slimserve_get [simp]:
  "is_obj (sorted_names (slimserve_json f))"
  "obj_get (sorted_names (slimserve_json f)) ''source_repository'' = JStr SOURCE_REPOSITORY"
  "obj_get (sorted_names (slimserve_json f)) ''source_commit'' = JStr SLIMSERVE_COMMIT"
  "obj_get (sorted_names (slimserve_json f)) ''package_version'' = JStr (bf_package_version f)"
  "obj_get (sorted_names (slimserve_json f)) ''files'' = JArr (map entry_json (bf_files f))"
  unfolding slimserve_json_def
  by (simp, (subst obj_get_sorted; simp add: pin_fields_def lock_slimserve_def pin_def obj_get_def SOURCE_REPOSITORY_def SLIMSERVE_COMMIT_def)+)

lemma kernels_get:
  "dict_get (document_fields (kernels_json t f)) k = map_option sorted_names (dict_get (kernels_json t f) k)"
  by (rule get_sorted) (simp add: kernels_json_def Let_def)

lemma kernels_are_reviewed:
  assumes "bf_sources f \<noteq> []" "dict_get KERNEL_SOURCES (target_name t) = Some (repository, pinned_rev)"
  shows "kernels_reviewed (document_fields (kernels_json t f)) (target_name t) repository pinned_rev"
proof -
  let ?k = "dict_get (document_fields (kernels_json t f))" and ?pin = "kp_pin (lock_kernels t)"
  have k: "?k ''library'' = Some (JStr (kp_library (lock_kernels t)))" "?k ''source_repository'' = Some (JStr (sp_repository ?pin))"
    "?k ''source_commit'' = Some (JStr (sp_commit ?pin))" "?k ''modifications_commit'' = Some (JStr (sp_commit lock_slimserve))"
    "?k ''version'' = Some (JStr (sp_commit ?pin @ ''+slimserve.'' @ sp_commit lock_slimserve))"
    "?k ''module_name'' = Some (JStr ''vllm._quixicore_C'')"
    "?k ''source_files'' = Some (sorted_names (JArr (map source_json (bf_sources f))))"
    unfolding kernels_get by (simp_all add: kernels_json_def Let_def)
  have "truthy (obj_get (JObj (document_fields (kernels_json t f))) ''source_files'')"
    using assms(1) k(7) by (simp add: obj_get_def)
  moreover have "kp_library (lock_kernels t) = ''quixicore-'' @ target_name t"
    "sp_repository ?pin = ''https://github.com/QuixiAI/'' @ repository" "sp_commit ?pin = pinned_rev"
    using assms(2) by (cases t; simp add: lock_kernels_def target_name_def pin_def KERNEL_SOURCES_def; fail)+
  moreover have "sp_commit lock_slimserve = SLIMSERVE_COMMIT" by (simp add: lock_slimserve_def pin_def SLIMSERVE_COMMIT_def)
  ultimately show ?thesis unfolding kernels_reviewed_def k by (simp add: kernel_version_def KERNEL_MODULE_def)
qed

lemma build_steps:
  assumes "build sha256 m args r = Inr doc"
  obtains args' f disk where "ba_target args' = ba_target args" "doc = provenance_document args' f"
    "bf_sources f \<noteq> []" "bf_package_version f = br_package_version r" "length (extensions r) = 1"
    "same_elsewhere (br_disk r) disk"
    "file_records sha256 disk (sort (br_python r) @ [profiles_path r]) (br_site r) = Inr (bf_files f)"
    "file_records sha256 disk (kernel_artifacts (ba_target args) r) (br_site r) = Inr (bf_artifacts f)"
proof -
  obtain args' sources f where a: "check_build m args = Inr args'" "prepare_build sha256 args' r = Inr sources"
    "record_build sha256 args' r sources = Inr f" "doc = provenance_document args' f"
    using assms by (auto simp: build_def and_then_Inr)
  have t: "ba_target args' = ba_target args"
    using a(1) by (auto simp: check_build_def Let_def split: prod.splits if_splits build_target.splits)
  have sources: "sources \<noteq> []"
    using a(2) by (auto simp: prepare_build_def Let_def guarded_Inr prepare_kernels_def and_then_Inr map_sum_def
        split: sum.splits if_splits prod.splits)
  obtain compilers copied d1 own d2 where lic: "component_licenses sha256 (br_trees r) (map fst (components_of (ba_target args'))) (br_disk r) = Inr (copied, d1)"
    "runtime_licenses sha256 (br_runtime_source r) [''LICENSE'', ''NOTICE'', ''THIRD_PARTY_NOTICES.md''] d1 = Inr (own, d2)"
    and rec: "file_records sha256 d2 (sort (br_python r) @ [profiles_path r]) (br_site r) = Inr (bf_files f)"
    "file_records sha256 d2 (kernel_artifacts (ba_target args') r) (br_site r) = Inr (bf_artifacts f)"
    "bf_sources f = sources" "bf_package_version f = br_package_version r" "length (extensions r) = 1"
    using a(3) by (auto simp: record_build_def Let_def guarded_Inr and_then_Inr split: if_splits)
  have "same_elsewhere (br_disk r) d2"
    using component_licenses_elsewhere [OF lic(1)] runtime_licenses_elsewhere [OF lic(2)] same_elsewhere_trans by blast
  then show thesis using that t a(4) sources rec by metis
qed

text \<open>The document opens the installation when its profiles are the recorded ones.\<close>

lemma provenance_opens:
  assumes "entries_of (JArr (map entry_json (bf_files f))) = Inr files"
    and "entries_of (JArr (map entry_json (bf_artifacts f))) = Inr artifacts"
    and "bf_package_version f \<noteq> []" "\<not> list_ex importable FORBIDDEN_OPTIONAL_MODULES"
    and "pd_resolve d p = Some p" "prefix site p" "dict_get files (relative_to site p) = Some (pd_digest d p)"
    and "p = site @ [''slimserve'', ''profiles.json'']"
  shows "\<exists>pv. new_provenance importable d site (Inr (document_fields (provenance_document args f))) = Inr pv \<and>
    pv_root pv = site \<and> pv_files pv = files \<and> pv_kernels pv = document_fields (kernels_json (ba_target args) f) \<and>
    pv_artifacts pv = artifacts"
proof -
  let ?k = "document_fields (kernels_json (ba_target args) f)"
  define pv0 where "pv0 = \<lparr>pv_root = site, pv_files = files, pv_kernels = ?k, pv_artifacts = artifacts, pv_verified = []\<rparr>"
  define pv where "pv = snd (verify_file d files p pv0)"
  have "fst (verify_file d files p pv0) = Inr (pd_digest d p)" using assms(5-7) by (intro verify_recorded) (simp_all add: pv0_def)
  then have profiles: "verify_file d files p pv0 = (Inr (pd_digest d p), pv)" by (simp add: pv_def prod_eq_iff)
  have same: "pv_root pv = site" "pv_files pv = files" "pv_kernels pv = ?k" "pv_artifacts pv = artifacts"
    unfolding pv_def pv0_def by (simp_all add: verify_file_def Let_def split: option.split)
  have "obj_get (JObj ?k) ''artifacts'' = JArr (map entry_json (bf_artifacts f))"
    unfolding obj_get_def json.case kernels_get by (simp add: kernels_json_def Let_def)
  then have "new_provenance importable d site (Inr (document_fields (provenance_document args f))) = Inr pv"
    using assms(1-4,8) profiles unfolding new_provenance_def
    by (cases "bf_package_version f") (simp_all add: reject_optional_flashinfer_def check_def Let_def pv0_def)
  then show ?thesis using same by blast
qed

text \<open>What was recorded is seen again; the kernels' artifacts are then all verified.\<close>

lemma recorded_is_seen:
  assumes "unchanged sha256 site (br_disk r) d" "same_elsewhere (br_disk r) disk" "site = PREFIX @ ''lib'' # rest"
    and "tidy site p" "bd_content disk p \<noteq> None"
  shows "pd_resolve d p = Some p \<and> prefix site p \<and> pd_digest d p = sha256 (the (bd_content disk p))"
proof -
  have below: "prefix site p" using assms(4) by (auto simp: tidy_def Let_def)
  then have "\<not> prefix (PREFIX @ [''licenses'']) p" using assms(3) by (auto simp: prefix_def)
  then have "bd_content (br_disk r) p = bd_content disk p" using assms(2) by (simp add: same_elsewhere_def)
  then show ?thesis using assms(1,5) below by (auto simp: unchanged_def)
qed

lemma kernels_listed:
  assumes "extensions r = [km_file m]" "bf_artifacts f = map (recorded sha256 disk (br_site r)) (kernel_artifacts t r)"
    and "\<forall>p \<in> set (kernel_artifacts t r). tidy (br_site r) p"
  shows "set ([km_file m] @ map (\<lambda>(n, d). br_site r @ split_on slash n) (entry_pairs (bf_artifacts f)) @
      (if target_name t = ''metal'' then [butlast (km_file m) @ [''quixicore_metal.metallib'']] else [])) \<subseteq>
    set (kernel_artifacts t r)"
proof -
  have "map (\<lambda>(n, d). br_site r @ split_on slash n) (entry_pairs (bf_artifacts f)) = kernel_artifacts t r"
    using assms(2,3) by (simp add: entry_pairs_def recorded_def comp_def tidy_back cong: map_cong)
  moreover have "km_file m \<in> set (kernel_artifacts t r)" using assms(1) by (simp add: kernel_artifacts_def)
  moreover have "butlast (km_file m) @ [''quixicore_metal.metallib''] \<in> set (kernel_artifacts t r)" if "target_name t = ''metal''"
  proof -
    have "km_file m \<in> set (extensions r)" using assms(1) by simp
    then have "butlast (km_file m) = engine_package r" by (auto simp: extensions_def)
    then show ?thesis using that by (cases t) (simp_all add: kernel_artifacts_def target_name_def)
  qed
  ultimately show ?thesis by auto
qed

lemma extension_verifies:
  assumes "\<not> list_ex importable FORBIDDEN_OPTIONAL_MODULES" "bf_sources f \<noteq> []"
    and "pv_kernels pv = document_fields (kernels_json t f)" "km_name m = KERNEL_MODULE" "km_registered m" "km_suffix_ok m"
      "km_extension_loader m" "km_origin m = Some (km_file m)"
    and "\<forall>p \<in> set ([km_file m] @ map (\<lambda>(n, d). pv_root pv @ split_on slash n) (pv_artifacts pv) @
        (if target_name t = ''metal'' then [butlast (km_file m) @ [''quixicore_metal.metallib'']] else [])).
      pd_resolve d p = Some p \<and> prefix (pv_root pv) p \<and>
      dict_get (pv_artifacts pv) (relative_to (pv_root pv) p) = Some (pd_digest d p)"
  shows "fst (verify_extension importable d m (target_name t) pv) =
    Inr (JObj [(''library'', JStr (''quixicore-'' @ target_name t)),
      (''version'', JStr (kernel_version (sp_commit (kp_pin (lock_kernels t))))), (''backend'', JStr (target_name t))])"
proof -
  obtain repository where source: "dict_get KERNEL_SOURCES (target_name t) = Some (repository, sp_commit (kp_pin (lock_kernels t)))"
    by (cases t) (simp_all add: KERNEL_SOURCES_def target_name_def lock_kernels_def pin_def)
  have reviewed: "kernels_reviewed (pv_kernels pv) (target_name t) repository (sp_commit (kp_pin (lock_kernels t)))"
    unfolding assms(3) by (rule kernels_are_reviewed [OF assms(2) source])
  obtain pv' where "verify_files d (pv_artifacts pv) ([km_file m] @ map (\<lambda>(n, d). pv_root pv @ split_on slash n) (pv_artifacts pv) @
      (if target_name t = ''metal'' then [butlast (km_file m) @ [''quixicore_metal.metallib'']] else [])) pv = (Inr (), pv')"
    using verify_all_recorded [OF assms(9)] by (metis prod.collapse)
  then show ?thesis using assms(1,4-8) source reviewed
    by (auto simp: verify_extension_def reject_optional_flashinfer_def check_def simp del: append_Cons append_Nil)
qed

text \<open>
  C15. The runtime accepts what a build records: installed where it was built, unchanged and with nothing
  unreviewed beside it, the provenance a successful build writes (read back with its names in order) opens
  the installation, every Python file of the engine verifies, and the compiled kernels are the pinned ones
  of the build's target.
\<close>

theorem built_image_is_accepted:
  assumes "build sha256 machine args r = Inr doc" "\<forall>c. lower_hex 64 (sha256 c)"
    and "br_site r = PREFIX @ ''lib'' # rest" "br_package_version r \<noteq> []"
    and "distinct (profiles_path r # br_python r)"
    and "\<forall>p \<in> set (profiles_path r # br_python r @ kernel_artifacts (ba_target args) r). tidy (br_site r) p"
    and "unchanged sha256 (br_site r) (br_disk r) d" "\<not> list_ex importable FORBIDDEN_OPTIONAL_MODULES"
    and "extensions r = [km_file m]" "km_name m = KERNEL_MODULE" "km_registered m" "km_suffix_ok m"
      "km_extension_loader m" "km_origin m = Some (km_file m)"
  shows "\<exists>pv pinned_rev. new_provenance importable d (br_site r) (Inr (document_fields doc)) = Inr pv \<and>
    (\<forall>p \<in> set (br_python r). \<exists>digest. fst (verify_file d (pv_files pv) p pv) = Inr digest) \<and>
    sp_commit (kp_pin (lock_kernels (ba_target args))) = pinned_rev \<and>
    fst (verify_extension importable d m (target_name (ba_target args)) pv) =
      Inr (JObj [(''library'', JStr (''quixicore-'' @ target_name (ba_target args))), (''version'', JStr (kernel_version pinned_rev)),
        (''backend'', JStr (target_name (ba_target args)))])"
proof -
  let ?site = "br_site r" and ?t = "ba_target args"
  obtain args' f disk where steps: "ba_target args' = ?t" "doc = provenance_document args' f"
    "bf_sources f \<noteq> []" "bf_package_version f = br_package_version r" "same_elsewhere (br_disk r) disk"
    "file_records sha256 disk (sort (br_python r) @ [profiles_path r]) ?site = Inr (bf_files f)"
    "file_records sha256 disk (kernel_artifacts ?t r) ?site = Inr (bf_artifacts f)"
    using build_steps [OF assms(1)] by metis
  let ?ps = "sort (br_python r) @ [profiles_path r]" and ?as = "kernel_artifacts ?t r"
  note files = file_records_are [OF steps(6)] and artifacts = file_records_are [OF steps(7)]
  have tidy: "\<forall>p \<in> set ?ps. tidy ?site p" "\<forall>p \<in> set ?as. tidy ?site p" using assms(6) by auto
  have seen: "pd_resolve d p = Some p \<and> prefix ?site p \<and> pd_digest d p = sha256 (the (bd_content disk p))"
    if "p \<in> set ?ps \<union> set ?as" for p
    using that tidy files artifacts by (intro recorded_is_seen [OF assms(7) steps(5) assms(3)]) auto
  have distinct_as: "distinct ?as" using assms(9) by (cases ?t) (auto simp: kernel_artifacts_def extensions_def filter_eq_Cons_iff map_eq_Cons_conv engine_package_def)
  have some: "?ps \<noteq> []" "distinct ?ps" "?as \<noteq> []"
    using assms(5,9) by (auto simp: kernel_artifacts_def)
  note fe = recorded_entries [OF some(1,2) tidy(1) assms(2), where disk = disk]
    and ae = recorded_entries [OF some(3) distinct_as tidy(2) assms(2), where disk = disk]
  have known: "dict_get (entry_pairs (bf_files f)) (relative_to ?site p) = Some (pd_digest d p)" if "p \<in> set ?ps" for p
    using fe(2) [OF that] seen [OF UnI1 [OF that]] files by simp
  have entries: "entries_of (JArr (map entry_json (bf_files f))) = Inr (entry_pairs (bf_files f))"
    "entries_of (JArr (map entry_json (bf_artifacts f))) = Inr (entry_pairs (bf_artifacts f))"
    using fe(1) ae(1) files artifacts by simp_all
  have version: "bf_package_version f \<noteq> []" using assms(4) steps(4) by simp
  have profiles: "profiles_path r \<in> set ?ps" "profiles_path r = ?site @ [''slimserve'', ''profiles.json'']"
    by (simp_all add: profiles_path_def)
  have there: "pd_resolve d (profiles_path r) = Some (profiles_path r)" "prefix ?site (profiles_path r)"
    using seen [OF UnI1 [OF profiles(1)]] by simp_all
  obtain pv where opened: "new_provenance importable d ?site (Inr (document_fields doc)) = Inr pv"
    and same: "pv_root pv = ?site" "pv_files pv = entry_pairs (bf_files f)"
      "pv_kernels pv = document_fields (kernels_json ?t f)" "pv_artifacts pv = entry_pairs (bf_artifacts f)"
    using provenance_opens [OF entries version assms(8) there known [OF profiles(1)] profiles(2), of args'] unfolding steps(1,2) by blast
  have python: "\<exists>digest. fst (verify_file d (pv_files pv) p pv) = Inr digest" if "p \<in> set (br_python r)" for p
    using verify_recorded [of d p pv "pv_files pv"] known [of p] seen [of p] that by (auto simp: same)
  have listed: "set ([km_file m] @ map (\<lambda>(n, d). pv_root pv @ split_on slash n) (pv_artifacts pv) @
      (if target_name ?t = ''metal'' then [butlast (km_file m) @ [''quixicore_metal.metallib'']] else [])) \<subseteq> set ?as"
    unfolding same by (rule kernels_listed [OF assms(9) conjunct1 [OF artifacts] tidy(2)])
  have "pd_resolve d p = Some p \<and> prefix (pv_root pv) p \<and>
      dict_get (pv_artifacts pv) (relative_to (pv_root pv) p) = Some (pd_digest d p)" if "p \<in> set ?as" for p
    using seen [OF UnI2 [OF that]] ae(2) [OF that] artifacts by (simp add: same)
  with listed have "fst (verify_extension importable d m (target_name ?t) pv) =
      Inr (JObj [(''library'', JStr (''quixicore-'' @ target_name ?t)),
        (''version'', JStr (kernel_version (sp_commit (kp_pin (lock_kernels ?t))))), (''backend'', JStr (target_name ?t))])"
    by (intro extension_verifies [OF assms(8) steps(3) same(3) assms(10-14)] ballI) blast
  then show ?thesis using opened python by blast
qed

text \<open>A Metal build of three sources, evaluated.\<close>

definition demo_sha :: "string \<Rightarrow> string" where
  "demo_sha c = replicate 64 (CHR ''0'')"

definition demo_machine :: build_machine where
  "demo_machine = \<lparr>bm_python = (3, 12), bm_platform = ''darwin'', bm_machine = ''arm64''\<rparr>"

definition demo_args :: build_args where
  "demo_args = \<lparr>ba_target = BuildMetal, ba_base_image = None, ba_arch_list = None, ba_max_jobs = 4\<rparr>"

definition demo_site :: "string list" where
  "demo_site = PREFIX @ [''lib'', ''python3.12'', ''site-packages'']"

definition demo_build_disk :: build_disk where
  "demo_build_disk = \<lparr>bd_content = (\<lambda>p. Some []), bd_resolve = (\<lambda>p. p)\<rparr>"

definition demo_run :: build_run where
  "demo_run = \<lparr>br_lock = True, br_wheelhouse = None, br_importable = (\<lambda>_. False), br_dists = [''torch''],
     br_fetched = (\<lambda>n. case dict_get (components_of BuildMetal) n of
        None \<Rightarrow> Inl (OSError ''git'') | Some p \<Rightarrow> Inr (sp_commit p @ [newline])),
     br_requires = ([], []), br_cuda_requires = [],
     br_requirement = (\<lambda>_. \<lparr>rq_name = ''cmake'', rq_applies = True, rq_admits = (\<lambda>_. True)\<rparr>),
     br_installed = (\<lambda>_. Some ''3.28''), br_source_disk = demo_build_disk, br_below = (\<lambda>d. [d @ [''a.h'']]), br_epoch = ''1'',
     br_wheels_built = None, br_wheels = [PREFIX @ [''wheels'', ''vllm.whl''], PREFIX @ [''wheels'', ''runtime.whl'']],
     br_wheels_installed = None, br_importable_after = (\<lambda>_. False), br_packages = [(''torch'', ''2'')], br_checked = None,
     br_compilers = Inr [], br_disk = demo_build_disk, br_site = demo_site, br_suffixes = [''.so''],
     br_python = [demo_site @ [''vllm'', ''a.py'']], br_below_engine = [], br_trees = (\<lambda>_. Tree [(''LICENSE'', Some [])] []),
     br_runtime_source = [''src''], br_package_version = ''1'', br_python_version = ''3.12'', br_builder = [], br_lock_text = [],
     br_dependency_text = []\<rparr>"

definition demo_kernels :: kernel_module where
  "demo_kernels = \<lparr>km_name = KERNEL_MODULE, km_file = demo_site @ [''vllm'', ''_quixicore_C.so''], km_registered = True,
     km_suffix_ok = True, km_extension_loader = True, km_origin = Some (demo_site @ [''vllm'', ''_quixicore_C.so''])\<rparr>"

definition demo_image :: installed_disk where
  "demo_image = \<lparr>pd_resolve = Some, pd_identity = (\<lambda>_. (0, 0, 0, 0, 0)), pd_digest = (\<lambda>_. replicate 64 (CHR ''0''))\<rparr>"

lemma built_image_is_accepted_witness:
  "\<exists>doc pv v. build demo_sha demo_machine demo_args demo_run = Inr doc \<and>
    new_provenance (\<lambda>_. False) demo_image demo_site (Inr (document_fields doc)) = Inr pv \<and>
    fst (verify_extension (\<lambda>_. False) demo_image demo_kernels ''metal'' pv) = Inr v"
proof -
  have "isl (build demo_sha demo_machine demo_args demo_run) = False" by code_simp
  then obtain doc where b: "build demo_sha demo_machine demo_args demo_run = Inr doc"
    by (cases "build demo_sha demo_machine demo_args demo_run") simp_all
  have "lower_hex 64 (replicate 64 (CHR ''0''))" by code_simp
  then have hex: "\<forall>c. lower_hex 64 (demo_sha c)" by (simp add: demo_sha_def)
  have site: "br_site demo_run = PREFIX @ ''lib'' # [''python3.12'', ''site-packages'']" "br_package_version demo_run \<noteq> []"
    by (simp_all add: demo_run_def demo_site_def)
  have names: "distinct (profiles_path demo_run # br_python demo_run)"
    "\<forall>p \<in> set (profiles_path demo_run # br_python demo_run @ kernel_artifacts (ba_target demo_args) demo_run). tidy (br_site demo_run) p"
    "extensions demo_run = [km_file demo_kernels]"
    by code_simp+
  have u: "unchanged demo_sha (br_site demo_run) (br_disk demo_run) demo_image"
    by (simp add: unchanged_def demo_image_def demo_sha_def)
  have k: "km_name demo_kernels = KERNEL_MODULE" "km_registered demo_kernels" "km_suffix_ok demo_kernels"
    "km_extension_loader demo_kernels" "km_origin demo_kernels = Some (km_file demo_kernels)" by (simp_all add: demo_kernels_def)
  have t: "br_site demo_run = demo_site" "target_name (ba_target demo_args) = ''metal''"
    by (simp_all add: demo_run_def demo_args_def target_name_def)
  show ?thesis
    using built_image_is_accepted [OF b hex site names(1,2) u _ names(3) k, of "\<lambda>_. False"] b
    unfolding t by (auto simp: FORBIDDEN_OPTIONAL_MODULES_def)
qed

end
