(* ===== verification/MetalAttention.thy ===== *)
theory MetalAttention
  imports Complex_Main Prelude
begin

text \<open>
  \<open>lazarus/platforms/mps\<close>, the keys and values of attention on the Apple GPU: where the tokens of a batch
  are written in the paged cache (\<open>compat.py\<close>), what is gathered of it for a request and what attention
  is then computed of (\<open>attention.py\<close>). A tensor of tokens is the list of its rows; a row is the list of
  its heads. \<open>sdpa\<close> is torch's attention over rows, \<open>paged\<close> QuixiCore's kernel; moving tensors between
  devices and layouts changes nothing here.
\<close>

section \<open>Indexing\<close>

text \<open>A tensor's index: negative ones count from the end, others out of range raise (\<open>None\<close>).\<close>

definition tensor_index :: "nat \<Rightarrow> int \<Rightarrow> nat option" where
  "tensor_index n i =
     (let j = (if i < 0 then i + int n else i) in if 0 \<le> j \<and> j < int n then Some (nat j) else None)"

definition row_at :: "'a list \<Rightarrow> int \<Rightarrow> 'a option" where
  "row_at xs i = map_option (\<lambda>j. xs ! j) (tensor_index (length xs) i)"

definition PAD_SLOT_ID :: int where
  "PAD_SLOT_ID = -1"

section \<open>The slots of a batch\<close>

text \<open>
  \<open>query_start_loc\<close> gives where each request's tokens begin; each token gets the number of its request.
\<close>

definition token_counts :: "nat \<Rightarrow> int list \<Rightarrow> nat list" where
  "token_counts num_reqs starts = map (\<lambda>r. nat (max 0 (starts ! Suc r - starts ! r))) [0..<num_reqs]"

definition request_of_tokens :: "nat list \<Rightarrow> nat list" where
  "request_of_tokens counts = concat (map (\<lambda>r. replicate (counts ! r) r) [0..<length counts])"

definition slot_of :: "nat \<Rightarrow> int list list \<Rightarrow> nat \<Rightarrow> int \<Rightarrow> int option" where
  "slot_of bs table r pos =
     map_option (\<lambda>b. b * int bs + pos mod int bs)
       (Option.bind (row_at table (int r)) (\<lambda>blocks. row_at blocks (pos div int bs)))"

text \<open>
  \<open>_mps_compute_slot_mapping\<close>: the mapping's buffer afterwards, padded; \<open>IndexError\<close>s and tensors of the
  wrong length raise.
\<close>

definition compute_slot_mapping ::
    "int \<Rightarrow> nat \<Rightarrow> int list list \<Rightarrow> nat \<Rightarrow> int list \<Rightarrow> int list \<Rightarrow> int list \<Rightarrow> py_error + int list" where
  "compute_slot_mapping total_cp bs table num_reqs starts positions buffer =
     (if total_cp \<noteq> 1 then Inl (RuntimeError ''context/decode parallelism is not supported on MPS'')
      else let requests = request_of_tokens (token_counts num_reqs starts); n = length requests in
        if length positions < n \<or> length buffer < n then Inl (ValueError ''the shapes do not match'')
        else case those (map (\<lambda>(r, pos). slot_of bs table r pos) (zip requests positions)) of
            None \<Rightarrow> Inl (KeyError ''index out of bounds'')
          | Some slots \<Rightarrow> Inr (slots @ replicate (length buffer - n) PAD_SLOT_ID))"

section \<open>The cache\<close>

text \<open>A cache of blocks of rows. The write puts one row at each slot, in order.\<close>

type_synonym 'r kv_cache = "'r list list"

fun scatter :: "nat \<Rightarrow> int list \<Rightarrow> 'r list \<Rightarrow> 'r kv_cache \<Rightarrow> 'r kv_cache option" where
  "scatter bs [] [] cache = Some cache"
| "scatter bs (slot # slots) (row # rows) cache =
     (case (tensor_index (length cache) (slot div int bs), tensor_index bs (slot mod int bs)) of
        (Some b, Some off) \<Rightarrow> scatter bs slots rows (cache[b := (cache ! b)[off := row]])
      | _ \<Rightarrow> None)"
| "scatter bs _ _ cache = None"

text \<open>
  The blocks of one request, their numbers held inside the cache, and the rows of its tokens so far.
\<close>

definition blocks_needed :: "nat \<Rightarrow> nat \<Rightarrow> nat" where
  "blocks_needed bs seq_len = (seq_len + bs - 1) div bs"

definition clamped :: "nat \<Rightarrow> int \<Rightarrow> nat" where
  "clamped num_blocks b = nat (min (max b 0) (int num_blocks - 1))"

definition gather :: "nat \<Rightarrow> int list \<Rightarrow> nat \<Rightarrow> 'r kv_cache \<Rightarrow> 'r list" where
  "gather bs blocks seq_len cache =
     (let n = blocks_needed bs seq_len in
      take (min seq_len (n * bs)) (concat (map (\<lambda>b. cache ! clamped (length cache) b) (take n blocks))))"

text \<open>\<open>repeat_interleave\<close> over the heads of a row.\<close>

definition expand_heads :: "nat \<Rightarrow> 'v list list \<Rightarrow> 'v list list" where
  "expand_heads queries_per_kv rows =
     (if 1 < queries_per_kv then map (\<lambda>row. concat (map (replicate queries_per_kv) row)) rows else rows)"

text \<open>Which keys each query of a request sees: row \<open>j\<close> is the query at position \<open>seq_len - q_len + j\<close>.\<close>

definition causal_mask :: "bool \<Rightarrow> nat \<Rightarrow> nat \<Rightarrow> bool list list option" where
  "causal_mask causal q_len seq_len =
     (if causal \<and> 1 < q_len
      then Some (map (\<lambda>q. map (\<lambda>k. int k \<le> q) [0..<seq_len]) [int seq_len - int q_len .. int seq_len - 1])
      else None)"

section \<open>The attention of a batch\<close>

record attention_batch =
  ab_num_tokens :: nat
  ab_num_reqs :: nat
  ab_max_query_len :: nat
  ab_starts :: "int list"
  ab_seq_lens :: "nat list"
  ab_table :: "int list list"
  ab_slots :: "int list"
  ab_causal :: bool

record attention_impl =
  ai_heads :: nat
  ai_kv_heads :: nat
  ai_head_size :: nat
  ai_scale :: rat
  ai_shares_kv :: bool

text \<open>\<open>MetalAttentionImpl.__init__\<close>, whether slopes are given and whether it is a decoder's attention. The sliding
  window, the soft cap and the cache's type, which the code keeps and never reads, are left out.\<close>

definition new_attention :: "nat \<Rightarrow> nat \<Rightarrow> nat \<Rightarrow> rat \<Rightarrow> bool \<Rightarrow> bool \<Rightarrow> bool \<Rightarrow> py_error + attention_impl" where
  "new_attention heads head_size kv_heads scale alibi decoder shares =
     guarded (run_checks
       [check alibi (RuntimeError ''ALiBi not yet supported on MPS attention.''),
        check (\<not> decoder) (RuntimeError ''MPS attention supports decoder only'')])
     (Inr \<lparr>ai_heads = heads, ai_kv_heads = kv_heads, ai_head_size = head_size, ai_scale = scale, ai_shares_kv = shares\<rparr>)"

definition queries_per_kv :: "attention_impl \<Rightarrow> nat" where
  "queries_per_kv i = ai_heads i div ai_kv_heads i"

definition paged_attention_supported :: "nat \<Rightarrow> bool" where
  "paged_attention_supported head_size \<longleftrightarrow> head_size \<in> {64, 128}"

text \<open>The new keys and values into the cache, unless another layer keeps them.\<close>

definition write_cache ::
    "attention_impl \<Rightarrow> attention_batch \<Rightarrow> nat \<Rightarrow> 'v list list \<Rightarrow> 'v list kv_cache \<Rightarrow> 'v list kv_cache option" where
  "write_cache i m bs rows cache =
     (if ai_shares_kv i then Some cache
      else scatter bs (take (ab_num_tokens m) (ab_slots m)) (take (ab_num_tokens m) rows) cache)"

definition slice :: "nat \<Rightarrow> nat \<Rightarrow> 'a list \<Rightarrow> 'a list" where
  "slice lo hi xs = take (hi - lo) (drop lo xs)"

definition splice :: "nat \<Rightarrow> 'a list \<Rightarrow> 'a list \<Rightarrow> 'a list" where
  "splice lo new xs = take lo xs @ new @ drop (lo + length new) xs"

text \<open>One request of the prefill path: the rows it attends over, and its part of the output.\<close>

definition attend_request ::
    "('q list \<Rightarrow> 'v list list \<Rightarrow> 'v list list \<Rightarrow> bool list list option \<Rightarrow> rat \<Rightarrow> 'o list) \<Rightarrow>
     attention_impl \<Rightarrow> attention_batch \<Rightarrow> nat \<Rightarrow> 'q list \<Rightarrow> 'v list kv_cache \<Rightarrow> 'v list kv_cache \<Rightarrow> nat \<Rightarrow> 'o list \<Rightarrow> 'o list" where
  "attend_request sdpa i m bs query keys values r output =
     (let q0 = nat (ab_starts m ! r); q1 = nat (ab_starts m ! Suc r); q_len = q1 - q0 in
      if q_len = 0 then output
      else let blocks = ab_table m ! r;
               seq_len = min (ab_seq_lens m ! r) (blocks_needed bs (ab_seq_lens m ! r) * bs);
               k = expand_heads (queries_per_kv i) (gather bs blocks (ab_seq_lens m ! r) keys);
               v = expand_heads (queries_per_kv i) (gather bs blocks (ab_seq_lens m ! r) values)
           in splice q0 (sdpa (slice q0 q1 query) k v (causal_mask (ab_causal m) q_len seq_len) (ai_scale i)) output)"

definition attention_forward ::
    "('q list \<Rightarrow> 'v list list \<Rightarrow> 'v list list \<Rightarrow> bool list list option \<Rightarrow> rat \<Rightarrow> 'o list) \<Rightarrow>
     ('q list \<Rightarrow> 'v list kv_cache \<Rightarrow> 'v list kv_cache \<Rightarrow> int list list \<Rightarrow> nat list \<Rightarrow> rat \<Rightarrow> 'o list) \<Rightarrow>
     bool \<Rightarrow> attention_impl \<Rightarrow> attention_batch option \<Rightarrow> bool \<Rightarrow> nat \<Rightarrow> 'q list \<Rightarrow> 'v list list \<Rightarrow> 'v list list \<Rightarrow>
     'v list kv_cache \<Rightarrow> 'v list kv_cache \<Rightarrow> 'o list \<Rightarrow>
     py_error + 'o list \<times> 'v list kv_cache \<times> 'v list kv_cache" where
  "attention_forward sdpa paged quixi i batch scaled bs query key_rows value_rows keys values output =
     (case batch of None \<Rightarrow> Inr (output, keys, values)
      | Some m \<Rightarrow>
          if scaled then Inl (RuntimeError ''Fused output quant unsupported on MPS.'')
          else (case (write_cache i m bs key_rows keys, write_cache i m bs value_rows values) of
            (Some keys, Some values) \<Rightarrow>
              if quixi \<and> ab_max_query_len m = 1 \<and> ab_num_tokens m = ab_num_reqs m \<and> paged_attention_supported (ai_head_size i)
              then Inr (paged (take (ab_num_tokens m) query) keys values (ab_table m) (ab_seq_lens m) (ai_scale i), keys, values)
              else Inr (fold (attend_request sdpa i m bs query keys values) [0..<ab_num_reqs m] output, keys, values)
          | _ \<Rightarrow> Inl (KeyError ''index out of bounds'')))"

text \<open>The shape of the whole cache: keys and values, then blocks of slots of heads.\<close>

definition kv_cache_shape :: "nat \<Rightarrow> nat \<Rightarrow> nat \<Rightarrow> nat \<Rightarrow> nat list" where
  "kv_cache_shape num_blocks block_size num_kv_heads head_size = [2, num_blocks, block_size, num_kv_heads, head_size]"

section \<open>The paged cache holds what was written\<close>

text \<open>
  What each request has written so far, as plain sequences: \<open>holds\<close> says the cache has each at the slot of
  its position.
\<close>

definition address :: "nat \<Rightarrow> int list list \<Rightarrow> nat \<Rightarrow> nat \<Rightarrow> nat \<times> nat" where
  "address bs table r p = (nat (table ! r ! (p div bs)), p mod bs)"

definition holds :: "nat \<Rightarrow> int list list \<Rightarrow> 'r list list \<Rightarrow> 'r kv_cache \<Rightarrow> bool" where
  "holds bs table written cache \<longleftrightarrow>
     (\<forall>r < length written. \<forall>p < length (written ! r).
        cache ! fst (address bs table r p) ! snd (address bs table r p) = written ! r ! p)"

text \<open>The block tables of a step: room for every token, blocks of the cache, and every written slot its own.\<close>

definition tables_ok :: "nat \<Rightarrow> nat \<Rightarrow> int list list \<Rightarrow> nat list \<Rightarrow> bool" where
  "tables_ok bs num_blocks table lens \<longleftrightarrow>
     0 < bs \<and> length table = length lens \<and>
     (\<forall>r < length lens. lens ! r \<le> bs * length (table ! r) \<and>
        (\<forall>j < blocks_needed bs (lens ! r). 0 \<le> table ! r ! j \<and> table ! r ! j < int num_blocks))"

definition fresh_slots :: "nat \<Rightarrow> int list list \<Rightarrow> nat list \<Rightarrow> nat list \<Rightarrow> bool" where
  "fresh_slots bs table lens lens' \<longleftrightarrow>
     (\<forall>r < length lens. \<forall>p \<in> {lens ! r ..< lens' ! r}. \<forall>r' < length lens. \<forall>p' < lens' ! r'.
        address bs table r p = address bs table r' p' \<longrightarrow> r = r' \<and> p = p')"

text \<open>A cache whose blocks all have their size.\<close>

definition uniform :: "nat \<Rightarrow> 'r kv_cache \<Rightarrow> bool" where
  "uniform bs cache \<longleftrightarrow> (\<forall>b < length cache. length (cache ! b) = bs)"

lemma tensor_index_nat: "0 \<le> i \<Longrightarrow> i < int n \<Longrightarrow> tensor_index n i = Some (nat i)"
  by (simp add: tensor_index_def)

lemma scatter_distinct:
  assumes "distinct xs" "inj_on ad (set xs)" "uniform bs cache"
    and "\<forall>x \<in> set xs. tensor_index (length cache) (slot x div int bs) = Some (fst (ad x)) \<and>
      tensor_index bs (slot x mod int bs) = Some (snd (ad x)) \<and> fst (ad x) < length cache \<and> snd (ad x) < bs"
  shows "\<exists>cache'. scatter bs (map slot xs) (map row xs) cache = Some cache' \<and> length cache' = length cache \<and>
    uniform bs cache' \<and> (\<forall>x \<in> set xs. cache' ! fst (ad x) ! snd (ad x) = row x) \<and>
    (\<forall>b off. (b, off) \<notin> ad ` set xs \<longrightarrow> cache' ! b ! off = cache ! b ! off)"
  using assms
proof (induction xs arbitrary: cache)
  case (Cons x xs)
  let ?b = "fst (ad x)" and ?o = "snd (ad x)"
  let ?c = "cache[?b := (cache ! ?b)[?o := row x]]"
  have x: "tensor_index (length cache) (slot x div int bs) = Some ?b" "tensor_index bs (slot x mod int bs) = Some ?o"
    "?b < length cache" "?o < bs" using Cons.prems(4) by auto
  have u: "uniform bs ?c" using Cons.prems(3) x(3) by (auto simp: uniform_def nth_list_update)
  obtain cache' where c: "scatter bs (map slot xs) (map row xs) ?c = Some cache'" "length cache' = length cache"
    "uniform bs cache'" "\<forall>y \<in> set xs. cache' ! fst (ad y) ! snd (ad y) = row y"
    "\<forall>b off. (b, off) \<notin> ad ` set xs \<longrightarrow> cache' ! b ! off = ?c ! b ! off"
    using Cons.IH [of ?c] Cons.prems(1,2,4) u by auto
  have "ad x \<notin> ad ` set xs" using Cons.prems(1,2) by (auto simp: inj_on_def)
  then have "cache' ! ?b ! ?o = row x" using c(5) [rule_format, of ?b ?o] x(3,4) Cons.prems(3) by (simp add: uniform_def)
  moreover have "cache' ! b ! off = cache ! b ! off" if "(b, off) \<notin> ad ` set (x # xs)" for b off
  proof -
    have "(b, off) \<noteq> ad x" using that by auto
    then have "b \<noteq> ?b \<or> off \<noteq> ?o" by (auto simp: prod_eq_iff)
    moreover have "(b, off) \<notin> ad ` set xs" using that by auto
    ultimately show ?thesis using c(5) x(3) by (cases "b = ?b") (auto simp: nth_list_update)
  qed
  ultimately show ?case using c x by auto
qed simp

lemma nth_concat_uniform:
  "\<forall>x \<in> set xs. length x = n \<Longrightarrow> p < n * length xs \<Longrightarrow> concat xs ! p = xs ! (p div n) ! (p mod n)"
proof (induction xs arbitrary: p)
  case (Cons x xs)
  show ?case
  proof (cases "p < n")
    case False
    then have "0 < n" "n \<le> p" using Cons.prems by (auto intro: gr0I)
    then have "p div n = Suc ((p - n) div n)" "p mod n = (p - n) mod n" by (simp_all add: le_div_geq le_mod_geq)
    then show ?thesis using Cons False by (simp add: nth_append)
  qed (use Cons.prems in \<open>simp add: nth_append\<close>)
qed simp

lemma length_concat_uniform: "\<forall>x \<in> set xs. length x = n \<Longrightarrow> length (concat xs) = n * length xs"
  by (induction xs) auto

text \<open>What is gathered of a request is what it has written.\<close>

lemma blocks_cover: "0 < bs \<Longrightarrow> L \<le> blocks_needed bs L * bs" "0 < bs \<Longrightarrow> p < L \<Longrightarrow> p div bs < blocks_needed bs L"
proof -
  assume b: "0 < bs"
  show "L \<le> blocks_needed bs L * bs"
    using b div_mult_mod_eq [of "L + bs - 1" bs] mod_less_divisor [OF b, of "L + bs - 1"] unfolding blocks_needed_def by linarith
  then show "p < L \<Longrightarrow> p div bs < blocks_needed bs L" using b by (simp add: div_less_iff_less_mult)
qed

lemma blocks_within: "0 < bs \<Longrightarrow> L \<le> bs * n \<Longrightarrow> blocks_needed bs L \<le> n"
proof -
  assume "0 < bs" "L \<le> bs * n"
  then have "L + bs - 1 < Suc n * bs" by (simp add: mult.commute)
  then have "(L + bs - 1) div bs < Suc n" by (rule less_mult_imp_div_less)
  then show ?thesis by (simp add: blocks_needed_def)
qed

lemma gather_written:
  assumes "holds bs table written cache" "uniform bs cache" "tables_ok bs (length cache) table (map length written)" "r < length written"
  shows "gather bs (table ! r) (length (written ! r)) cache = written ! r"
proof -
  let ?L = "length (written ! r)" let ?n = "blocks_needed bs ?L"
  let ?blocks = "map (\<lambda>b. cache ! clamped (length cache) b) (take ?n (table ! r))"
  have bs: "0 < bs" and room: "?L \<le> bs * length (table ! r)"
    and ids: "\<forall>j < ?n. 0 \<le> table ! r ! j \<and> table ! r ! j < int (length cache)"
    using assms(3,4) by (auto simp: tables_ok_def)
  have n: "?n \<le> length (table ! r)" using blocks_within [OF bs room] .
  have inside: "clamped (length cache) (table ! r ! j) = nat (table ! r ! j)" "nat (table ! r ! j) < length cache" if "j < ?n" for j
    using ids that by (auto simp: clamped_def)
  have u: "\<forall>x \<in> set ?blocks. length x = bs"
    using assms(2) inside n by (auto simp: uniform_def in_set_conv_nth)
  have len: "length (concat ?blocks) = bs * ?n" using length_concat_uniform [OF u] n by simp
  have L: "?L \<le> bs * ?n" using blocks_cover(1) [OF bs, of ?L] by (simp add: mult.commute)
  have "concat ?blocks ! p = written ! r ! p" if "p < ?L" for p
  proof -
    have j: "p div bs < ?n" using blocks_cover(2) [OF bs that] .
    have "concat ?blocks ! p = ?blocks ! (p div bs) ! (p mod bs)"
      using nth_concat_uniform [OF u] that L n by simp
    also have "\<dots> = cache ! nat (table ! r ! (p div bs)) ! (p mod bs)" using j n inside(1) [OF j] by simp
    also have "\<dots> = written ! r ! p" using assms(1,4) that by (simp add: holds_def address_def)
    finally show ?thesis .
  qed
  then have "take ?L (concat ?blocks) = written ! r" using len L by (intro nth_equalityI) auto
  then show ?thesis using L by (simp add: gather_def Let_def min_absorb1 mult.commute)
qed

section \<open>A step of a batch\<close>

text \<open>Where each request's tokens begin, and the position of each new token.\<close>

definition starts_of :: "nat list \<Rightarrow> int list" where
  "starts_of counts = map (\<lambda>r. int (sum_list (take r counts))) [0..<Suc (length counts)]"

definition new_positions :: "'r list list \<Rightarrow> 'r list list \<Rightarrow> (nat \<times> nat) list" where
  "new_positions written news =
     concat (map (\<lambda>r. map (\<lambda>p. (r, p)) [length (written ! r) ..< length (written ! r) + length (news ! r)]) [0..<length news])"

lemma starts_nth: "r \<le> length counts \<Longrightarrow> starts_of counts ! r = int (sum_list (take r counts))"
  by (simp add: starts_of_def del: upt_Suc)

lemma sum_take_Suc: "r < length counts \<Longrightarrow> sum_list (take (Suc r) counts) = sum_list (take r counts) + (counts ! r :: nat)"
  by (simp add: take_Suc_conv_app_nth)

lemma token_counts_starts: "token_counts (length counts) (starts_of counts) = counts"
  by (rule nth_equalityI) (auto simp: token_counts_def starts_nth sum_take_Suc)

lemma map_concat_upt: "map f (concat (map g xs)) = concat (map (\<lambda>x. map f (g x)) xs)"
  by (induction xs) auto

lemma new_requests: "map fst (new_positions written news) = request_of_tokens (map length news)"
  by (auto simp: new_positions_def request_of_tokens_def map_concat_upt comp_def map_replicate_const
      intro!: arg_cong [of _ _ concat])

lemma new_rows:
  assumes "length written = length news"
  shows "map (\<lambda>(r, p). (written ! r @ news ! r) ! p) (new_positions written news) = concat news"
proof -
  have "map (\<lambda>p. (written ! r @ news ! r) ! p) [length (written ! r) ..< length (written ! r) + length (news ! r)] = news ! r" for r
    by (rule nth_equalityI) (auto simp: nth_append)
  then have "map (\<lambda>(r, p). (written ! r @ news ! r) ! p) (new_positions written news) = concat (map ((!) news) [0..<length news])"
    by (simp add: new_positions_def map_concat_upt comp_def)
  then show ?thesis by (simp add: map_nth)
qed

lemma in_new_positions:
  "(r, p) \<in> set (new_positions written news) \<longleftrightarrow>
     r < length news \<and> length (written ! r) \<le> p \<and> p < length (written ! r) + length (news ! r)"
  by (auto simp: new_positions_def) force

lemma distinct_new_positions: "distinct (new_positions written news)"
proof -
  have "distinct (concat (map (\<lambda>r. map (\<lambda>p. (r, p)) (f r)) [0..<n]))" if "\<And>r. distinct (f r)" for f :: "nat \<Rightarrow> nat list" and n
    using that by (induction n) (auto simp: distinct_map inj_on_def)
  then show ?thesis by (simp add: new_positions_def)
qed

text \<open>The slots of the new tokens are those of their addresses.\<close>

definition slot_value :: "nat \<Rightarrow> int list list \<Rightarrow> nat \<times> nat \<Rightarrow> int" where
  "slot_value bs table rp = (case rp of (r, p) \<Rightarrow> table ! r ! (p div bs) * int bs + int (p mod bs))"

lemma row_at_nat: "j < length xs \<Longrightarrow> row_at xs (int j) = Some (xs ! j)"
  by (simp add: row_at_def tensor_index_nat)

lemma slot_of_position:
  assumes "0 < bs" "r < length table" "p div bs < length (table ! r)"
  shows "slot_of bs table r (int p) = Some (slot_value bs table (r, p))"
proof -
  have "int p div int bs = int (p div bs)" "int p mod int bs = int (p mod bs)" by (simp_all add: zdiv_int zmod_int)
  then show ?thesis using assms by (simp add: slot_of_def slot_value_def row_at_nat)
qed

lemma those_map: "\<forall>x \<in> set xs. f x = Some (g x) \<Longrightarrow> those (map f xs) = Some (map g xs)"
  by (induction xs) auto

lemma slots_computed:
  assumes "tables_ok bs num_blocks table (map length (map2 (@) written news))" "length written = length news"
    and "length (new_positions written news) \<le> length buffer"
  shows "compute_slot_mapping 1 bs table (length news) (starts_of (map length news))
      (map (\<lambda>(r, p). int p) (new_positions written news)) buffer =
    Inr (map (slot_value bs table) (new_positions written news) @
      replicate (length buffer - length (new_positions written news)) PAD_SLOT_ID)"
proof -
  let ?xs = "new_positions written news"
  have counts: "token_counts (length news) (starts_of (map length news)) = map length news"
    using token_counts_starts [of "map length news"] by simp
  have "length (request_of_tokens (map length news)) = length ?xs" using arg_cong [OF new_requests [of written news], of length] by simp
  moreover have "map (\<lambda>(r, pos). slot_of bs table r pos) (zip (request_of_tokens (map length news)) (map (\<lambda>(r, p). int p) ?xs)) =
      map (\<lambda>(r, p). slot_of bs table r (int p)) ?xs"
    unfolding new_requests [of written news, symmetric] by (simp add: zip_map_map zip_same_conv_map comp_def case_prod_beta)
  moreover have "those (map (\<lambda>(r, p). slot_of bs table r (int p)) ?xs) = Some (map (slot_value bs table) ?xs)"
  proof (rule those_map, clarify)
    fix r p assume "(r, p) \<in> set ?xs"
    then have r: "r < length news" "p < length (written ! r) + length (news ! r)" by (simp_all add: in_new_positions)
    have "0 < bs" "r < length table" "length (written ! r) + length (news ! r) \<le> bs * length (table ! r)"
      using assms(1,2) r(1) by (auto simp: tables_ok_def)
    moreover from this r(2) have "p div bs < length (table ! r)"
      by (simp add: div_less_iff_less_mult mult.commute)
    ultimately show "slot_of bs table r (int p) = Some (slot_value bs table (r, p))" by (intro slot_of_position)
  qed
  ultimately show ?thesis using assms(3) by (simp add: compute_slot_mapping_def Let_def counts)
qed

text \<open>Writing a step's rows at those slots keeps what was written and adds the new rows.\<close>

lemma slot_index:
  assumes "0 < bs" "0 \<le> table ! r ! (p div bs)" "table ! r ! (p div bs) < int n"
  shows "tensor_index n (slot_value bs table (r, p) div int bs) = Some (fst (address bs table r p))"
    and "tensor_index bs (slot_value bs table (r, p) mod int bs) = Some (snd (address bs table r p))"
proof -
  have "int (p mod bs) div int bs = 0" using assms(1) by simp
  then have "slot_value bs table (r, p) div int bs = table ! r ! (p div bs)" using assms(1) by (simp add: slot_value_def)
  then show "tensor_index n (slot_value bs table (r, p) div int bs) = Some (fst (address bs table r p))"
    using assms(2,3) by (simp add: tensor_index_nat address_def)
  have "slot_value bs table (r, p) mod int bs = int (p mod bs)" using assms(1) by (simp add: slot_value_def)
  then show "tensor_index bs (slot_value bs table (r, p) mod int bs) = Some (snd (address bs table r p))"
    using assms(1) by (simp add: tensor_index_nat address_def)
qed

lemma step_written:
  assumes "length written = length news" "holds bs table written cache" "uniform bs cache"
    and "tables_ok bs (length cache) table (map length (map2 (@) written news))"
    and "fresh_slots bs table (map length written) (map length (map2 (@) written news))"
  shows "\<exists>cache'. scatter bs (map (slot_value bs table) (new_positions written news)) (concat news) cache = Some cache' \<and>
    length cache' = length cache \<and> uniform bs cache' \<and> holds bs table (map2 (@) written news) cache'"
proof -
  let ?xs = "new_positions written news" and ?ad = "\<lambda>(r, p). address bs table r p"
  let ?row = "\<lambda>(r, p). (written ! r @ news ! r) ! p"
  have bs: "0 < bs" using assms(4) by (simp add: tables_ok_def)
  have alone: "r = r' \<and> p = p'"
    if "(r, p) \<in> set ?xs" "r' < length news" "p' < length (written ! r') + length (news ! r')"
      "address bs table r p = address bs table r' p'" for r p r' p'
    using assms(1,5) that unfolding fresh_slots_def by (auto simp: in_new_positions)
  have inj: "inj_on ?ad (set ?xs)"
    by (rule inj_onI) (clarsimp, metis alone in_new_positions)
  have index: "\<forall>x \<in> set ?xs. tensor_index (length cache) (slot_value bs table x div int bs) = Some (fst (?ad x)) \<and>
      tensor_index bs (slot_value bs table x mod int bs) = Some (snd (?ad x)) \<and> fst (?ad x) < length cache \<and> snd (?ad x) < bs"
  proof (clarify)
    fix r p assume "(r, p) \<in> set ?xs"
    then have r: "r < length news" "p < length (written ! r) + length (news ! r)" by (simp_all add: in_new_positions)
    have "p div bs < blocks_needed bs (length (written ! r) + length (news ! r))" using blocks_cover(2) [OF bs r(2)] .
    then have b: "0 \<le> table ! r ! (p div bs)" "table ! r ! (p div bs) < int (length cache)"
      using assms(1,4) r(1) by (auto simp: tables_ok_def)
    show "tensor_index (length cache) (slot_value bs table (r, p) div int bs) = Some (fst (address bs table r p)) \<and>
        tensor_index bs (slot_value bs table (r, p) mod int bs) = Some (snd (address bs table r p)) \<and>
        fst (address bs table r p) < length cache \<and> snd (address bs table r p) < bs"
      using slot_index [OF bs b] b bs by (simp add: address_def)
  qed
  obtain cache' where c: "scatter bs (map (slot_value bs table) ?xs) (map ?row ?xs) cache = Some cache'"
    "length cache' = length cache" "uniform bs cache'"
    "\<forall>x \<in> set ?xs. cache' ! fst (?ad x) ! snd (?ad x) = ?row x"
    "\<forall>b off. (b, off) \<notin> ?ad ` set ?xs \<longrightarrow> cache' ! b ! off = cache ! b ! off"
    using scatter_distinct [OF distinct_new_positions inj assms(3) index, of ?row] by blast
  have "cache' ! fst (address bs table r p) ! snd (address bs table r p) = (written ! r @ news ! r) ! p"
    if rp: "r < length news" "p < length (written ! r) + length (news ! r)" for r p
  proof (cases "p < length (written ! r)")
    case True
    have "address bs table r p \<notin> ?ad ` set ?xs"
      using alone [of _ _ r p] rp True by (force simp: in_new_positions)
    then have "cache' ! fst (address bs table r p) ! snd (address bs table r p) =
        cache ! fst (address bs table r p) ! snd (address bs table r p)" using c(5) by (metis prod.collapse)
    then show ?thesis using assms(1,2) rp(1) True by (simp add: holds_def nth_append)
  next
    case False
    then have "(r, p) \<in> set ?xs" using rp by (simp add: in_new_positions)
    then show ?thesis using c(4) by force
  qed
  then have "holds bs table (map2 (@) written news) cache'" using assms(1) by (simp add: holds_def)
  then show ?thesis using c new_rows [OF assms(1)] by auto
qed

section \<open>Attention over the paged cache is attention over the sequences\<close>

text \<open>One request's attention over its whole sequence of keys and values.\<close>

definition sequence_attention ::
    "('q list \<Rightarrow> 'v list list \<Rightarrow> 'v list list \<Rightarrow> bool list list option \<Rightarrow> rat \<Rightarrow> 'o list) \<Rightarrow>
     attention_impl \<Rightarrow> bool \<Rightarrow> nat list \<Rightarrow> 'q list \<Rightarrow> 'v list list list \<Rightarrow> 'v list list list \<Rightarrow> nat \<Rightarrow> 'o list" where
  "sequence_attention sdpa i causal counts query ks vs r =
     (if counts ! r = 0 then []
      else let q0 = sum_list (take r counts) in
        sdpa (slice q0 (q0 + counts ! r) query) (expand_heads (queries_per_kv i) (ks ! r))
          (expand_heads (queries_per_kv i) (vs ! r)) (causal_mask causal (counts ! r) (length (ks ! r))) (ai_scale i))"

definition step_batch :: "int list list \<Rightarrow> nat list \<Rightarrow> nat list \<Rightarrow> int list \<Rightarrow> nat \<Rightarrow> bool \<Rightarrow> attention_batch" where
  "step_batch table counts lens slots longest causal =
     \<lparr>ab_num_tokens = sum_list counts, ab_num_reqs = length counts, ab_max_query_len = longest,
      ab_starts = starts_of counts, ab_seq_lens = lens, ab_table = table, ab_slots = slots, ab_causal = causal\<rparr>"

lemma splice_next: "length out0 = lo \<Longrightarrow> splice lo new (out0 @ drop lo xs) = (out0 @ new) @ drop (lo + length new) xs"
  by (simp add: splice_def add.commute)

lemma fold_requests:
  assumes "\<And>r out. r < length counts \<Longrightarrow> f r out = (if counts ! r = 0 then out else splice (sum_list (take r counts)) (part r) out)"
    and "\<And>r. r < length counts \<Longrightarrow> length (part r) = counts ! r" and "k \<le> length counts"
  shows "fold f [0..<k] out = concat (map part [0..<k]) @ drop (sum_list (take k counts)) out \<and>
    length (concat (map part [0..<k])) = sum_list (take k counts)"
  using assms(3)
proof (induction k)
  case (Suc k)
  then have k: "k < length counts" and IH: "fold f [0..<k] out = concat (map part [0..<k]) @ drop (sum_list (take k counts)) out"
    "length (concat (map part [0..<k])) = sum_list (take k counts)" by auto
  have "f k (concat (map part [0..<k]) @ drop (sum_list (take k counts)) out) =
      concat (map part [0..<Suc k]) @ drop (sum_list (take (Suc k) counts)) out"
    using assms(1) [OF k] assms(2) [OF k] splice_next [OF IH(2), of "part k" out] k
    by (auto simp: sum_take_Suc)
  then show ?case using IH assms(2) [OF k] k by (simp add: sum_take_Suc)
qed simp

lemma attend_is_sequence:
  assumes "holds bs table ks keys" "uniform bs keys" "tables_ok bs (length keys) table (map length ks)"
    and "holds bs table vs values" "uniform bs values" "length values = length keys" "map length vs = map length ks"
    and "length counts = length ks" "r < length ks"
  shows "attend_request sdpa i (step_batch table counts (map length ks) slots longest causal) bs query keys values r out =
    (if counts ! r = 0 then out
     else splice (sum_list (take r counts)) (sequence_attention sdpa i causal counts query ks vs r) out)"
proof -
  have v: "length vs = length ks" "length (vs ! r) = length (ks ! r)"
    using assms(7,9) by (metis length_map) (metis assms(7,9) length_map nth_map)
  have "0 < bs" using assms(3) by (simp add: tables_ok_def)
  then have "min (length (ks ! r)) (blocks_needed bs (length (ks ! r)) * bs) = length (ks ! r)"
    using blocks_cover(1) by (simp add: min_absorb1)
  moreover have "gather bs (table ! r) (length (ks ! r)) keys = ks ! r"
    using gather_written [OF assms(1,2,3,9)] .
  moreover have "gather bs (table ! r) (length (ks ! r)) values = vs ! r"
    using gather_written [OF assms(4,5), of r] assms(3,6,7,9) v by simp
  moreover have "nat (starts_of counts ! r) = sum_list (take r counts)"
      "nat (starts_of counts ! Suc r) = sum_list (take r counts) + counts ! r"
    using assms(8,9) by (simp_all add: starts_nth sum_take_Suc del: of_nat_add)
  ultimately show ?thesis using assms(8,9)
    by (simp add: attend_request_def step_batch_def sequence_attention_def Let_def)
qed

lemma lengths_added: "map length (map2 (@) xs ys) = map2 (+) (map length xs) (map length ys)"
  by (induction xs ys rule: list_induct2') auto

lemma new_positions_lengths:
  assumes "map length written = map length written'" "map length news = map length news'" "length written = length news"
  shows "new_positions written news = new_positions written' news'"
proof -
  have n: "length news' = length news" "length written' = length news" using assms by (metis length_map)+
  have "length (written ! r) = length (written' ! r) \<and> length (news ! r) = length (news' ! r)" if "r < length news" for r
    using that assms n by (metis nth_map)
  then show ?thesis using n by (auto simp: new_positions_def intro!: arg_cong [of _ _ concat])
qed

lemma length_new_positions: "length written = length news \<Longrightarrow> length (new_positions written news) = sum_list (map length news)"
  using arg_cong [OF new_rows, of written news length] by (simp add: length_concat)

lemma sequence_attention_length:
  assumes "\<forall>q k v mask scale. length (sdpa q k v mask scale) = length q" "length query = sum_list counts" "r < length counts"
  shows "length (sequence_attention sdpa i causal counts query ks vs r) = counts ! r"
proof -
  have "sum_list (take (Suc r) counts) \<le> sum_list counts"
    using append_take_drop_id [of "Suc r" counts] by (metis le_add1 sum_list_append)
  then show ?thesis using assms by (simp add: sequence_attention_def slice_def Let_def sum_take_Suc)
qed

text \<open>A batch of one token each: the kernel's case.\<close>

lemma counts_one: "\<forall>c \<in> set counts. c \<le> 1 \<Longrightarrow> sum_list counts = length counts \<Longrightarrow> r < length counts \<Longrightarrow> counts ! r = (1 :: nat)"
proof (induction counts arbitrary: r)
  case (Cons c counts)
  have "sum_list counts \<le> length counts" using Cons.prems(1) by (induction counts) auto
  then have "c = 1" "sum_list counts = length counts" using Cons.prems(1,2) by auto
  then show ?case using Cons by (cases r) auto
qed simp

lemma sum_ones: "\<forall>j < length counts. counts ! j = 1 \<Longrightarrow> r \<le> length counts \<Longrightarrow> sum_list (take r counts) = (r :: nat)"
  by (induction r) (simp_all add: sum_take_Suc)

definition paged_computes ::
    "('q list \<Rightarrow> 'v list list \<Rightarrow> 'v list list \<Rightarrow> bool list list option \<Rightarrow> rat \<Rightarrow> 'o list) \<Rightarrow>
     ('q list \<Rightarrow> 'v list kv_cache \<Rightarrow> 'v list kv_cache \<Rightarrow> int list list \<Rightarrow> nat list \<Rightarrow> rat \<Rightarrow> 'o list) \<Rightarrow> nat \<Rightarrow> nat \<Rightarrow> bool" where
  "paged_computes sdpa paged bs n \<longleftrightarrow>
     (\<forall>q keys values table lens scale. length table = length q \<longrightarrow> paged q keys values table lens scale =
        concat (map (\<lambda>r. sdpa [q ! r] (expand_heads n (gather bs (table ! r) (lens ! r) keys))
          (expand_heads n (gather bs (table ! r) (lens ! r) values)) None scale) [0..<length q]))"

text \<open>A step's answer over what the cache then holds: by the fused kernel, one query each, or request by request.\<close>

lemma fused_is_sequences:
  assumes "paged_computes sdpa paged bs (queries_per_kv i)" "tables_ok bs (length keys) table (map length ks)"
    and "length values = length keys" "map length vs = map length ks"
    and "holds bs table ks keys" "uniform bs keys" "holds bs table vs values" "uniform bs values"
    and "length counts = length ks" "\<forall>r < length counts. counts ! r = 1" "length query = length ks"
  shows "paged query keys values table (map length ks) (ai_scale i) =
    concat (map (sequence_attention sdpa i causal counts query ks vs) [0..<length ks])"
proof -
  let ?part = "sequence_attention sdpa i causal counts query ks vs"
  let ?g = "\<lambda>r. sdpa [query ! r] (expand_heads (queries_per_kv i) (gather bs (table ! r) (map length ks ! r) keys))
    (expand_heads (queries_per_kv i) (gather bs (table ! r) (map length ks ! r) values)) None (ai_scale i)"
  have lens: "length vs = length ks" using assms(4) by (metis length_map)
  have each: "?g r = ?part r" if r: "r < length ks" for r
  proof -
    have rk: "r < length vs" using r lens by simp
    have "tables_ok bs (length values) table (map length vs)" using assms(2) unfolding assms(3,4) .
    then have "gather bs (table ! r) (length (vs ! r)) values = vs ! r" by (rule gather_written [OF assms(7,8) _ rk])
    moreover have "gather bs (table ! r) (length (ks ! r)) keys = ks ! r" by (rule gather_written [OF assms(5,6,2) r])
    moreover have "length (vs ! r) = length (ks ! r)" using nth_map [OF rk, of length] nth_map [OF r, of length] assms(4) by (simp only:)
    moreover have "map length ks ! r = length (ks ! r)" by (rule nth_map [OF r])
    moreover have "slice r (Suc r) query = [query ! r]" using r assms(11) by (simp add: slice_def take_Suc_conv_app_nth)
    moreover have "counts ! r = 1" "sum_list (take r counts) = r" using assms(9,10) r sum_ones [of counts r] by simp_all
    ultimately show ?thesis by (simp only: sequence_attention_def causal_mask_def Let_def) simp
  qed
  have "length table = length query" using assms(2,11) by (simp add: tables_ok_def)
  then have "paged query keys values table (map length ks) (ai_scale i) = concat (map ?g [0..<length query])"
    by (rule assms(1) [unfolded paged_computes_def, rule_format])
  also have "map ?g [0..<length query] = map ?part [0..<length ks]"
    unfolding assms(11) by (rule map_cong [OF refl], rule each) simp
  finally show ?thesis .
qed

lemma loop_is_sequences:
  assumes "holds bs table ks keys" "uniform bs keys" "tables_ok bs (length keys) table (map length ks)"
    and "holds bs table vs values" "uniform bs values" "length values = length keys" "map length vs = map length ks"
    and "length counts = length ks" "\<forall>q k v mask scale. length (sdpa q k v mask scale) = length q"
    and "length query = sum_list counts" "length output = sum_list counts"
  shows "fold (attend_request sdpa i (step_batch table counts (map length ks) slots longest causal) bs query keys values)
      [0..<length counts] output =
    concat (map (sequence_attention sdpa i causal counts query ks vs) [0..<length counts])"
proof -
  let ?part = "sequence_attention sdpa i causal counts query ks vs"
  let ?m = "step_batch table counts (map length ks) slots longest causal"
  have a: "attend_request sdpa i ?m bs query keys values r out =
      (if counts ! r = 0 then out else splice (sum_list (take r counts)) (?part r) out)"
    if "r < length counts" for r out
    using that unfolding assms(8) by (rule attend_is_sequence [OF assms(1-7) assms(8)])
  have b: "length (?part r) = counts ! r" if "r < length counts" for r
    by (rule sequence_attention_length [OF assms(9) _ that]) (simp only: assms(10))
  have "fold (attend_request sdpa i ?m bs query keys values) [0..<length counts] output =
      concat (map ?part [0..<length counts]) @ drop (sum_list (take (length counts) counts)) output"
    by (rule fold_requests [THEN conjunct1, OF a b order_refl])
  then show ?thesis using assms(11) by simp
qed


definition demo_impl :: attention_impl where
  "demo_impl = \<lparr>ai_heads = 2, ai_kv_heads = 1, ai_head_size = 64, ai_scale = 1, ai_shares_kv = False\<rparr>"

text \<open>An attention that tells what it saw: the query, the keys' and values' heads and the mask.\<close>

definition demo_sdpa :: "nat list \<Rightarrow> nat list list \<Rightarrow> nat list list \<Rightarrow> bool list list option \<Rightarrow> rat \<Rightarrow>
    (nat \<times> nat list list \<times> nat list list \<times> bool list list option) list" where
  "demo_sdpa q k v visible scale = map (\<lambda>x. (x, k, v, visible)) q"

definition demo_paged :: "nat list \<Rightarrow> nat list kv_cache \<Rightarrow> nat list kv_cache \<Rightarrow> int list list \<Rightarrow> nat list \<Rightarrow> rat \<Rightarrow>
    (nat \<times> nat list list \<times> nat list list \<times> bool list list option) list" where
  "demo_paged q keys values table lens scale =
     concat (map (\<lambda>r. demo_sdpa [q ! r] (expand_heads 2 (gather 2 (table ! r) (lens ! r) keys))
       (expand_heads 2 (gather 2 (table ! r) (lens ! r) values)) None scale) [0..<length q])"

text \<open>Two requests in blocks of two: one token written before and two new, and one new.\<close>

definition demo_keys :: "nat list kv_cache" where
  "demo_keys = [[[0], [0]], [[0], [0]], [[10], [0]]]"

definition demo_values :: "nat list kv_cache" where
  "demo_values = [[[0], [0]], [[0], [0]], [[110], [0]]]"

definition demo_table :: "int list list" where
  "demo_table = [[2, 0], [1]]"

lemma demo_step_ok:
  "holds 2 demo_table [[[10]], []] demo_keys" "holds 2 demo_table [[[110]], []] demo_values"
  "uniform 2 demo_keys" "uniform 2 demo_values"
  "tables_ok 2 (length demo_keys) demo_table [3, 1]" "fresh_slots 2 demo_table [1, 0] [3, 1]"
  by code_simp+


end
