(* ===== verification/MetalPlatform.thy ===== *)
theory MetalPlatform
  imports MetalAttention AgentRequests
begin

text \<open>
  \<open>lazarus/platforms/mps\<close>, what the plugin tells vLLM of the Apple GPU and changes of its configuration:
  registration, devices and memory (\<open>platform.py\<close>), the patches applied once (\<open>compat.py\<close>), the worker's
  device and its memory budget (\<open>worker.py\<close>) and the GPU's cores (\<open>model_runner.py\<close>). What torch and the
  host answer is an argument, \<open>None\<close> where it raises.
\<close>

section \<open>Registration\<close>

text \<open>torch's \<open>backends.mps\<close>: there at all, available, built.\<close>

definition mps_usable :: "bool \<Rightarrow> bool \<Rightarrow> bool \<Rightarrow> bool" where
  "mps_usable present available built \<longleftrightarrow> present \<and> available \<and> built"

definition register_platform :: "bool \<Rightarrow> bool \<Rightarrow> bool \<Rightarrow> bool \<Rightarrow> string option" where
  "register_platform torch present available built =
     (if \<not> torch \<or> \<not> mps_usable present available built then None
      else Some ''lazarus.platforms.mps.platform.MpsPlatform'')"

section \<open>The platform\<close>

datatype dtype = Float16 | Bfloat16 | Float32 | OtherDtype string

definition supported_dtypes :: "dtype list" where
  "supported_dtypes = [Float16, Bfloat16, Float32]"

definition check_if_supports_dtype :: "dtype \<Rightarrow> py_error option" where
  "check_if_supports_dtype d = check (d \<notin> {Float16, Bfloat16, Float32}) (ValueError ''MPS platform does not support dtype'')"

definition device_capability :: "nat \<times> nat" where
  "device_capability = (8, 0)"

definition device_total_memory :: "int option \<Rightarrow> int \<Rightarrow> int" where
  "device_total_memory recommended virtual = (case recommended of Some n \<Rightarrow> n | None \<Rightarrow> virtual)"

definition mem_get_info :: "int option \<Rightarrow> int \<Rightarrow> int option \<Rightarrow> int \<times> int" where
  "mem_get_info recommended virtual allocated =
     (let memory = device_total_memory recommended virtual; used = (case allocated of Some n \<Rightarrow> n | None \<Rightarrow> 0)
      in (max (memory - used) 0, memory))"

definition current_memory_usage :: "int option \<Rightarrow> int" where
  "current_memory_usage allocated = (case allocated of Some n \<Rightarrow> n | None \<Rightarrow> 0)"

definition attn_backend_cls :: "bool \<Rightarrow> py_error + string" where
  "attn_backend_cls use_mla =
     (if use_mla then Inl (RuntimeError ''MLA attention not yet wired on MPS.'')
      else Inr ''lazarus.platforms.mps.attention.MetalAttentionBackend'')"

definition punica_wrapper :: "py_error + string" where
  "punica_wrapper = Inl (RuntimeError ''LoRA (punica) is not supported on MPS.'')"

section \<open>The patches\<close>

datatype patch = DynamoOff | SlotMapping | BlockingCopies | QuixiPreloaded

text \<open>\<open>dynamo\<close> and \<open>kernels\<close>: whether those imports succeed; \<open>no_quixi\<close> the environment's switch.\<close>

definition preload_quixicore :: "bool \<Rightarrow> bool \<Rightarrow> patch list" where
  "preload_quixicore no_quixi kernels = (if no_quixi \<or> \<not> kernels then [] else [QuixiPreloaded])"

definition apply_compat_patches :: "bool \<Rightarrow> bool \<Rightarrow> bool \<Rightarrow> bool \<times> patch list \<Rightarrow> bool \<times> patch list" where
  "apply_compat_patches dynamo no_quixi kernels s =
     (if fst s then s
      else (True, snd s @ (if dynamo then [DynamoOff] else []) @ [SlotMapping, BlockingCopies] @ preload_quixicore no_quixi kernels))"

lemma patches_applied_once:
  "apply_compat_patches d' q' k' (apply_compat_patches d q k s) = apply_compat_patches d q k s"
  by (simp add: apply_compat_patches_def)

text \<open>What of vLLM's configuration the platform sets; \<open>mc_cascade_off\<close> is \<open>None\<close> without a model's configuration.\<close>

record metal_config =
  mc_worker_cls :: string
  mc_disable_all_reduce :: bool
  mc_enable_dbo :: bool
  mc_async_scheduling :: bool
  mc_capture_sizes :: "nat list"
  mc_graph_mode :: string
  mc_mode :: string
  mc_cascade_off :: "bool option"
  mc_user_block_size :: bool
  mc_block_size :: nat

text \<open>The patches first, once per process; then the configuration.\<close>

definition check_and_update_config ::
  "bool \<Rightarrow> bool \<Rightarrow> bool \<Rightarrow> bool \<Rightarrow> bool \<times> patch list \<Rightarrow> metal_config \<Rightarrow> (bool \<times> patch list) \<times> metal_config" where
  "check_and_update_config dynamo no_quixi kernels graph_modes s c =
     (apply_compat_patches dynamo no_quixi kernels s,
      c\<lparr>mc_worker_cls := (if mc_worker_cls c = ''auto'' then ''lazarus.platforms.mps.worker.MpsWorker'' else mc_worker_cls c),
        mc_disable_all_reduce := True, mc_enable_dbo := False, mc_async_scheduling := False, mc_capture_sizes := [],
        mc_graph_mode := (if graph_modes then ''NONE'' else mc_graph_mode c), mc_mode := ''NONE'',
        mc_cascade_off := map_option (\<lambda>_. True) (mc_cascade_off c),
        mc_block_size := (if mc_user_block_size c then mc_block_size c else 16)\<rparr>)"

lemma config_settles:
  assumes "check_and_update_config dynamo no_quixi kernels graph_modes s c = (s', c')"
  shows "check_and_update_config dynamo no_quixi kernels graph_modes s' c' = (s', c')"
  using assms
  by (cases "mc_worker_cls c = ''auto''") (auto simp: check_and_update_config_def patches_applied_once option.map_comp comp_def)

text \<open>The buffers' copies: all of it, or the first rows.\<close>

definition copy_buffer :: "nat option \<Rightarrow> 'a list \<Rightarrow> 'a list \<Rightarrow> 'a list" where
  "copy_buffer n source target = (case n of None \<Rightarrow> source | Some k \<Rightarrow> take k source @ drop k target)"

section \<open>The worker\<close>

record metal_worker =
  mw_backend :: string
  mw_ubatches :: nat
  mw_sms :: int

text \<open>The first line of \<open>system_profiler\<close> that tells the cores; \<open>read_int\<close> is \<open>int\<close> of a text.\<close>

definition has_text :: "string \<Rightarrow> string \<Rightarrow> bool" where
  "has_text needle s \<longleftrightarrow> list_ex (prefix needle) (suffixes s)"

definition detect_gpu_cores :: "(string \<Rightarrow> int option) \<Rightarrow> string option \<Rightarrow> int" where
  "detect_gpu_cores read_int out =
     (case Option.bind out (\<lambda>txt. find (has_text ''Total Number of Cores'') (splitlines txt)) of
        None \<Rightarrow> 32
      | Some line \<Rightarrow>
          (case split_on (CHR '':'') line of
             _ # n # _ \<Rightarrow> (case read_int (strip n) of Some k \<Rightarrow> k | None \<Rightarrow> 32)
           | _ \<Rightarrow> 32))"

definition init_device :: "(string \<Rightarrow> int option) \<Rightarrow> string option \<Rightarrow> string \<Rightarrow> dtype \<Rightarrow> bool \<Rightarrow> py_error + metal_worker" where
  "init_device read_int profiler device_type d enable_dbo =
     guarded (run_checks [check (device_type \<noteq> ''mps'') (TypeError ''assertion failed''), check_if_supports_dtype d])
     (Inr \<lparr>mw_backend = ''gloo'', mw_ubatches = (if enable_dbo then 2 else 1), mw_sms = detect_gpu_cores read_int profiler\<rparr>)"

text \<open>The warm-up runs with vLLM's kernel warm-up replaced, which is put back whatever it raises.\<close>

definition warm_up :: "'w \<Rightarrow> 'w \<Rightarrow> ('w \<Rightarrow> py_error + unit) \<Rightarrow> (py_error + unit) \<times> 'w" where
  "warm_up original nothing compile = (compile nothing, original)"

text \<open>\<open>determine_available_memory\<close>; the product is a rational, where the code rounds a float, and \<open>int\<close> drops the fraction.\<close>

definition int_of_rat :: "rat \<Rightarrow> int" where
  "int_of_rat x = (if 0 \<le> x then \<lfloor>x\<rfloor> else \<lceil>x\<rceil>)"

definition available_memory :: "int \<Rightarrow> rat \<Rightarrow> int option \<Rightarrow> py_error + int" where
  "available_memory memory util allocated =
     (let available = int_of_rat (of_int memory * util) - current_memory_usage allocated in
      if available \<le> 0 then Inl (RuntimeError ''No memory left for KV cache'') else Inr available)"

lemma memory_within_budget:
  assumes "available_memory memory util allocated = Inr n" "0 \<le> memory" "0 \<le> util"
  shows "0 < n \<and> of_int (n + current_memory_usage allocated) \<le> of_int memory * util"
  using assms by (auto simp: available_memory_def int_of_rat_def Let_def split: if_splits)

end
