(* ===== verification/MlxServer.thy ===== *)
theory MlxServer
  imports AgentRequests
begin

text \<open>
  \<open>lazarus/agent/mlx_server.py\<close>: what the agent's MLX server changes of mlx-lm's: the key every request
  must carry, the one model it serves, when it is healthy, how it ends, and the name of a model's thinking.
  mlx-lm's own handler, loader and generator are arguments. Headers and keys are Latin-1 bytes.
\<close>

text \<open>The environment and the key the server starts with; without a key it does not start.\<close>

definition mlx_start :: "(string, string) dict \<Rightarrow> string option \<times> (string, string) dict" where
  "mlx_start environ =
     (let env = dict_set ''HF_HUB_OFFLINE'' ''1'' environ;
          key = (case dict_get env ''LLAMA_API_KEY'' of None \<Rightarrow> [] | Some k \<Rightarrow> k)
      in (if key = [] then None else Some key, dict_del ''VLLM_API_KEY'' (dict_del ''LLAMA_API_KEY'' env)))"

definition guarded_handler :: "string \<Rightarrow> (string \<Rightarrow> 'a) \<Rightarrow> string option \<Rightarrow> string \<Rightarrow> int + 'a" where
  "guarded_handler key handle authorization request =
     (if (case authorization of None \<Rightarrow> [] | Some v \<Rightarrow> v) \<noteq> ''Bearer '' @ key then Inl 401 else Inr (handle request))"

definition started_with :: "(string \<Rightarrow> string option \<Rightarrow> string option \<Rightarrow> 'm) \<Rightarrow> string \<Rightarrow> string option \<Rightarrow> string option \<Rightarrow> 'm" where
  "started_with load model_path adapter draft = load ''default_model'' None None"

definition mlx_healthy :: "bool \<Rightarrow> bool \<Rightarrow> bool" where
  "mlx_healthy available loaded \<longleftrightarrow> available \<and> loaded"

text \<open>The generator's thread: the process's exit code when it raises, whatever it raises.\<close>

definition generate_or_end :: "bool \<Rightarrow> int option" where
  "generate_or_end raised = (if raised then Some 1 else None)"

section \<open>Thinking under the gateway's name\<close>

definition rename_reasoning :: "json \<Rightarrow> json" where
  "rename_reasoning part =
     (case part of
        JObj kvs \<Rightarrow> (case dict_get kvs ''reasoning'' of None \<Rightarrow> part
          | Some v \<Rightarrow> JObj (dict_set ''reasoning_content'' v (dict_del ''reasoning'' kvs)))
      | _ \<Rightarrow> part)"

definition update_field :: "string \<Rightarrow> (json \<Rightarrow> json) \<Rightarrow> (string, json) dict \<Rightarrow> (string, json) dict" where
  "update_field k f kvs = (case dict_get kvs k of None \<Rightarrow> kvs | Some v \<Rightarrow> dict_set k (f v) kvs)"

fun rename_choices :: "json list \<Rightarrow> py_error + json list" where
  "rename_choices [] = Inr []"
| "rename_choices (c # cs) =
     (case c of
        JObj kvs \<Rightarrow> and_then (rename_choices cs) (\<lambda>cs.
          Inr (JObj (update_field ''delta'' rename_reasoning (update_field ''message'' rename_reasoning kvs)) # cs))
      | _ \<Rightarrow> Inl no_get)"

definition with_reasoning_content :: "(string, json) dict \<Rightarrow> py_error + (string, json) dict" where
  "with_reasoning_content response =
     (case dict_get response ''choices'' of
        None \<Rightarrow> Inr response
      | Some (JArr cs) \<Rightarrow> and_then (rename_choices cs) (\<lambda>cs. Inr (dict_set ''choices'' (JArr cs) response))
      | Some v \<Rightarrow> if v \<in> {JStr [], JObj []} then Inr response else Inl no_get)"

lemma reasoning_renamed:
  assumes "dict_ok kvs" "dict_get kvs ''reasoning'' = Some v"
  shows "\<exists>kvs'. rename_reasoning (JObj kvs) = JObj kvs' \<and> dict_get kvs' ''reasoning'' = None \<and>
    dict_get kvs' ''reasoning_content'' = Some v \<and>
    (\<forall>k. k \<notin> {''reasoning'', ''reasoning_content''} \<longrightarrow> dict_get kvs' k = dict_get kvs k)"
  using assms by (auto simp: rename_reasoning_def)

lemma keyless_is_refused: "authorization \<noteq> Some (''Bearer '' @ key) \<Longrightarrow> guarded_handler key handle authorization request = Inl 401"
  by (auto simp: guarded_handler_def split: option.splits)

end
