(* ===== verification/SlimServeObservation.thy ===== *)
theory SlimServeObservation
  imports SlimServeBackend
begin

text \<open>
  \<open>lazarus/appliance/slimserve_observation.py\<close>, in the isolated child: the facts of the applied
  configuration, their check against the resolved plan, the workers' answers, what is observed of them
  and the private routes. vLLM's objects are what their attributes read as; what verifying an API's
  source raises is an argument where it is asked for.
\<close>

section \<open>Values of the engine's objects\<close>

text \<open>An attribute: a plain value, an enumeration's name and value, or an object with attributes.\<close>

datatype attr =
    Plain json
  | EnumValue string json
  | Object "(string \<times> attr) list"

definition attribute :: "attr \<Rightarrow> string \<Rightarrow> attr option" where
  "attribute a key =
     (case a of
        Plain (JObj kvs) \<Rightarrow> Some (Plain (obj_get (JObj kvs) key))
      | Object fs \<Rightarrow> dict_get fs key
      | _ \<Rightarrow> None)"

definition applied_integer :: "int \<Rightarrow> int \<Rightarrow> attr \<Rightarrow> py_error + json" where
  "applied_integer least most v =
     (case v of
        Plain (JInt n) \<Rightarrow> if least \<le> n \<and> n \<le> most then Inr (JInt n) else Inl (provenance_error ''missing or invalid applied integer'')
      | _ \<Rightarrow> Inl (provenance_error ''missing or invalid applied integer''))"

definition applied_boolean :: "attr \<Rightarrow> py_error + json" where
  "applied_boolean v =
     (case v of Plain (JBool b) \<Rightarrow> Inr (JBool b) | _ \<Rightarrow> Inl (provenance_error ''missing or invalid applied boolean''))"

definition plain_value :: "attr \<Rightarrow> py_error + json" where
  "plain_value v =
     (case v of
        Plain j \<Rightarrow> Inr j
      | EnumValue n j \<Rightarrow> Inr j
      | Object fs \<Rightarrow> Inl (provenance_error ''unknown applied configuration value''))"

text \<open>\<open>_matches\<close>; an attribute that is absent raises, which refuses as a mismatch does.\<close>

function attr_matches :: "attr \<Rightarrow> json \<Rightarrow> bool" where
  "attr_matches a (JObj kvs) \<longleftrightarrow>
     list_all (\<lambda>kv. case attribute a (fst kv) of None \<Rightarrow> False | Some x \<Rightarrow> attr_matches x (snd kv)) kvs"
| "attr_matches a (JArr xs) \<longleftrightarrow>
     (case a of
        EnumValue n v \<Rightarrow> py_eq (JArr xs) v
      | Plain (JArr ys) \<Rightarrow> length ys = length xs \<and> list_all (\<lambda>xy. attr_matches (Plain (snd xy)) (fst xy)) (zip xs ys)
      | _ \<Rightarrow> False)"
| "attr_matches a (JBool b) \<longleftrightarrow> (case a of EnumValue n v \<Rightarrow> py_eq (JBool b) v | _ \<Rightarrow> a = Plain (JBool b))"
| "attr_matches a JNull \<longleftrightarrow> (case a of EnumValue n v \<Rightarrow> py_eq JNull v | Plain j \<Rightarrow> py_eq j JNull | Object fs \<Rightarrow> False)"
| "attr_matches a (JInt i) \<longleftrightarrow> (case a of EnumValue n v \<Rightarrow> py_eq (JInt i) v | Plain j \<Rightarrow> py_eq j (JInt i) | Object fs \<Rightarrow> False)"
| "attr_matches a (JFloat r) \<longleftrightarrow> (case a of EnumValue n v \<Rightarrow> py_eq (JFloat r) v | Plain j \<Rightarrow> py_eq j (JFloat r) | Object fs \<Rightarrow> False)"
| "attr_matches a (JStr s) \<longleftrightarrow> (case a of EnumValue n v \<Rightarrow> s = n \<or> py_eq (JStr s) v | Plain j \<Rightarrow> py_eq j (JStr s) | Object fs \<Rightarrow> False)"
  by pat_completeness auto

termination
proof (relation "measure (\<lambda>(a, e). size e)")
  fix kvs :: "(string \<times> json) list" and kv
  assume "kv \<in> set kvs"
  then have "size (snd kv) < size (JObj kvs)"
    by (induction kvs) (auto simp: less_Suc_eq_le trans_le_add1 trans_le_add2)
  then show "((x, snd kv), a, JObj kvs) \<in> measure (\<lambda>(a, e). size e)" for x a by simp
next
  fix xs ys :: "json list" and xy
  assume "xy \<in> set (zip xs ys)"
  then have "fst xy \<in> set xs" by (metis prod.collapse set_zip_leftD)
  then have "size (fst xy) < size (JArr xs)" by (simp add: less_Suc_eq_le size_list_estimation')
  then show "((Plain (snd xy), fst xy), a, JArr xs) \<in> measure (\<lambda>(a, e). size e)" for a by simp
qed simp_all

section \<open>The applied configuration\<close>

text \<open>
  vLLM's configuration: the attributes by their way from it, such as \<open>parallel_config.world_size\<close>, the
  speculative configuration's own, \<open>None\<close> where there is none, and its draft model's path and revision.
\<close>

record vllm_config =
  vc_attr :: "string \<Rightarrow> attr option"
  vc_speculative :: "(string \<Rightarrow> attr option) option"
  vc_draft :: "(json \<times> json) option"

definition read_attr :: "(string \<Rightarrow> attr option) \<Rightarrow> string \<Rightarrow> py_error + attr" where
  "read_attr obj key = (case obj key of None \<Rightarrow> Inl (TypeError ''no attribute'') | Some a \<Rightarrow> Inr a)"

text \<open>An attribute kept as it is: vLLM gives a text, a number or \<open>None\<close> there.\<close>

definition read_plain :: "(string \<Rightarrow> attr option) \<Rightarrow> string \<Rightarrow> py_error + json" where
  "read_plain obj key = and_then (read_attr obj key) (\<lambda>a. case a of Plain j \<Rightarrow> Inr j | _ \<Rightarrow> Inl (TypeError ''not a plain value''))"

definition GRAPH_MODES :: "string list" where
  "GRAPH_MODES = [''NONE'', ''PIECEWISE'', ''FULL'', ''FULL_DECODE_ONLY'', ''FULL_AND_PIECEWISE'']"

definition graph_mode :: "attr \<Rightarrow> py_error + json" where
  "graph_mode a =
     (case a of
        EnumValue n v \<Rightarrow> if n \<in> set GRAPH_MODES then Inr (JStr n) else Inl (provenance_error ''unknown applied graph mode'')
      | Plain (JStr n) \<Rightarrow> if n \<in> set GRAPH_MODES then Inr (JStr n) else Inl (provenance_error ''unknown applied graph mode'')
      | _ \<Rightarrow> Inl (provenance_error ''unknown applied graph mode''))"

text \<open>Several facts read one after the other.\<close>

fun facts_of :: "(string \<times> (py_error + json)) list \<Rightarrow> py_error + (string, json) dict" where
  "facts_of [] = Inr []"
| "facts_of ((key, r) # rs) = and_then r (\<lambda>v. and_then (facts_of rs) (\<lambda>d. Inr ((key, v) # d)))"

definition speculative_facts :: "vllm_config \<Rightarrow> py_error + json" where
  "speculative_facts c =
     (case vc_speculative c of
        None \<Rightarrow> Inr JNull
      | Some spec \<Rightarrow>
          and_then (facts_of (map (\<lambda>key. (key, and_then (read_attr spec key) plain_value)) (SPEC_KEYS @ [''model'', ''revision'']))) (\<lambda>d.
          let d = (case spec ''attention_backend'' of Some (EnumValue n v) \<Rightarrow> dict_set ''attention_backend'' (JStr n) d | _ \<Rightarrow> d) in
          (case vc_draft c of
             None \<Rightarrow> Inl (provenance_error ''speculation has no loaded draft model configuration'')
           | Some (model, revision) \<Rightarrow> Inr (JObj (d @ [(''resolved_draft_model'', model), (''resolved_draft_revision'', revision)])))))"

definition serving_aliases :: "attr \<Rightarrow> py_error + json" where
  "serving_aliases a =
     (let v = (case a of Plain (JStr s) \<Rightarrow> Plain (JArr [JStr s]) | _ \<Rightarrow> a) in
      case v of
        Plain (JArr (x # xs)) \<Rightarrow>
          if list_all (\<lambda>y. str_of y \<noteq> None) (x # xs) then Inr (JArr (x # xs)) else Inl (provenance_error ''missing applied serving aliases'')
      | _ \<Rightarrow> Inl (provenance_error ''missing applied serving aliases''))"

definition drop_torch :: "json \<Rightarrow> json" where
  "drop_torch v = (case v of JStr s \<Rightarrow> JStr (remove_prefix ''torch.'' s) | _ \<Rightarrow> v)"

text \<open>\<open>engine_config_facts\<close>; the data type is the text it prints as.\<close>

definition engine_config_facts :: "vllm_config \<Rightarrow> py_error + (string, json) dict" where
  "engine_config_facts c =
     (let a = vc_attr c; int = (\<lambda>key least most. and_then (read_attr a key) (applied_integer least most)) in
      and_then (and_then (read_attr a ''compilation_config.cudagraph_mode'') graph_mode) (\<lambda>mode.
      and_then (speculative_facts c) (\<lambda>spec.
      and_then (and_then (read_attr a ''model_config.served_model_name'') serving_aliases) (\<lambda>aliases.
      facts_of [
        (''model'', read_plain a ''model_config.model''), (''tokenizer'', read_plain a ''model_config.tokenizer''),
        (''revision'', read_plain a ''model_config.revision''), (''served_model_name'', Inr aliases),
        (''max_model_len'', int ''model_config.max_model_len'' 1 1048576),
        (''max_num_seqs'', int ''scheduler_config.max_num_seqs'' 1 256),
        (''tensor_parallel_size'', int ''parallel_config.tensor_parallel_size'' 1 4),
        (''pipeline_parallel_size'', int ''parallel_config.pipeline_parallel_size'' 1 1048576),
        (''data_parallel_size'', int ''parallel_config.data_parallel_size'' 1 1048576),
        (''enable_expert_parallel'', and_then (read_attr a ''parallel_config.enable_expert_parallel'') applied_boolean),
        (''prefill_context_parallel_size'', int ''parallel_config.prefill_context_parallel_size'' 1 1048576),
        (''decode_context_parallel_size'', int ''parallel_config.decode_context_parallel_size'' 1 1048576),
        (''world_size'', int ''parallel_config.world_size'' 1 4),
        (''worker_cls'', read_plain a ''parallel_config.worker_cls''),
        (''compilation_mode'', and_then (and_then (read_attr a ''compilation_config.mode'') plain_value) (\<lambda>v. applied_integer 0 3 (Plain v))),
        (''cudagraph_mode'', Inr mode),
        (''max_cudagraph_capture_size'', int ''compilation_config.max_cudagraph_capture_size'' 0 1048576),
        (''quantization'', read_plain a ''model_config.quantization''),
        (''dtype'', and_then (read_plain a ''model_config.dtype'') (\<lambda>v. Inr (drop_torch v))),
        (''load_format'', and_then (read_attr a ''load_config.load_format'') plain_value),
        (''use_trtllm_attention'', and_then (read_attr a ''attention_config.use_trtllm_attention'') applied_boolean),
        (''speculative_config'', Inr spec)]))))"

section \<open>What was selected\<close>

text \<open>
  \<open>verified\<close> is what verifying the registry raises, \<open>identity\<close> the private document, read, \<open>blocked\<close> and
  \<open>resolve\<close> SlimServe's registry and \<open>resolve_local\<close> without the files' digests.
\<close>

definition expected_identity :: "role_config \<Rightarrow> slim_config \<Rightarrow> (string, json) dict" where
  "expected_identity r s =
     [(''engine_profile_id'', text_or_null (rl_engine_profile_id r)), (''profile_id'', JStr (sc_profile_id s)),
      (''variant'', JStr (variant_name (sc_variant s))), (''quant'', JStr (sc_quant s)), (''source_commit'', JStr SLIMSERVE_COMMIT)]"

definition selection ::
    "py_error option \<Rightarrow> py_error + (string, json) dict \<Rightarrow> (json \<Rightarrow> runtime_config option) \<Rightarrow> (string \<Rightarrow> string \<Rightarrow> bool) \<Rightarrow>
     (runtime_config \<Rightarrow> string + local_plan) \<Rightarrow> py_error + (runtime_config \<times> slim_config \<times> local_plan)" where
  "selection verified identity validated blocked resolve =
     guarded verified (and_then identity (\<lambda>doc.
       case validated (obj_get (JObj doc) ''config'') of
         None \<Rightarrow> Inl (ValueError ''invalid configuration'')
       | Some c \<Rightarrow>
           (let r = ro_generation (rt_roles c) in
            case rl_slimserve r of
              None \<Rightarrow> Inl (provenance_error ''no selected generation profile'')
            | Some s \<Rightarrow>
                guarded (run_checks [
                    check (\<not> rl_enabled r \<or> rl_engine r \<noteq> SlimServeEngine) (provenance_error ''no selected generation profile''),
                    check (set (map fst doc) \<noteq> set (map fst (expected_identity r s)) \<union> {''config''} \<or>
                        \<not> list_all (\<lambda>(key, v). py_eq (obj_get (JObj doc) key) v) (expected_identity r s))
                      (provenance_error ''private profile identity disagrees with resolved configuration''),
                    check (blocked (sc_profile_id s) (variant_name (sc_variant s))) (provenance_error ''selected upstream profile is blocked'')])
                (case resolve c of
                   Inl reason \<Rightarrow> Inl (ValueError reason)
                 | Inr lp \<Rightarrow>
                     guarded (check (pl_profile_id (lp_plan lp) \<noteq> sc_profile_id s \<or> pl_platform (lp_plan lp) \<noteq> variant_name (sc_variant s) \<or>
                         qt_name (pl_quant (lp_plan lp)) \<noteq> sc_quant s \<or> pl_gpus (lp_plan lp) \<noteq> rl_tensor_parallel_size r)
                       (provenance_error ''resolved upstream tuple disagrees with selected profile''))
                     (Inr (c, s, lp))))))"

section \<open>The plan is what was applied\<close>

definition expected_facts :: "role_config \<Rightarrow> slim_config \<Rightarrow> local_plan \<Rightarrow> (string, json) dict" where
  "expected_facts r s lp =
     [(''model'', JStr (lp_model_path lp)), (''tokenizer'', JStr (lp_tokenizer_path lp)), (''revision'', text_or_null (rl_revision r)),
      (''served_model_name'', JArr [text_or_null (rl_served_model_name r)]), (''max_model_len'', int_or_null (rl_max_model_len r)),
      (''max_num_seqs'', JInt (rl_max_concurrent_requests r)), (''tensor_parallel_size'', JInt (rl_tensor_parallel_size r)),
      (''pipeline_parallel_size'', JInt 1), (''data_parallel_size'', JInt 1),
      (''enable_expert_parallel'', get_or (lp_engine lp) ''enable_expert_parallel'' (JBool False)),
      (''prefill_context_parallel_size'', JInt 1), (''decode_context_parallel_size'', JInt 1),
      (''world_size'', JInt (rl_tensor_parallel_size r)), (''worker_cls'', JStr (LAUNCH_WORKER (sc_variant s))),
      (''use_trtllm_attention'', JBool False)]"

definition applied_fact :: "(string, json) dict \<Rightarrow> string \<Rightarrow> json" where
  "applied_fact facts key = obj_get (JObj facts) key"

definition applied_expectation :: "string \<times> json \<Rightarrow> json" where
  "applied_expectation kv =
     (case kv of (key, v) \<Rightarrow> (case v of JStr s \<Rightarrow> if key = ''served_model_name'' then JArr [v] else v | _ \<Rightarrow> v))"

definition speculation_differs :: "local_plan \<Rightarrow> json \<Rightarrow> string option" where
  "speculation_differs lp spec =
     (case lp_speculative_config lp of
        None \<Rightarrow> check (spec \<noteq> JNull) ''unexpected speculative engine''
      | Some authored \<Rightarrow> run_checks [
          check (spec = JNull \<or> \<not> list_all (\<lambda>(key, v). attr_matches (Plain (obj_get spec key)) v) authored)
            ''speculative engine settings differ from the resolved plan'',
          check (obj_get spec ''resolved_draft_model'' \<noteq> text_or_null (lp_draft_path lp)) ''resolved drafter path differs from loaded draft''])"

definition eager_missing :: "role_config \<Rightarrow> (string, json) dict \<Rightarrow> bool" where
  "eager_missing r facts \<longleftrightarrow> rl_enforce_eager r \<and>
     (applied_fact facts ''compilation_mode'' \<noteq> JInt 0 \<or> applied_fact facts ''cudagraph_mode'' \<noteq> JStr ''NONE'' \<or> applied_fact facts ''max_cudagraph_capture_size'' \<noteq> JInt 0)"

definition compilation_differs :: "(string \<Rightarrow> attr option) \<Rightarrow> json \<Rightarrow> bool" where
  "compilation_differs config authored \<longleftrightarrow>
     list_ex (\<lambda>key. case authored of
         JObj kvs \<Rightarrow> (case (dict_get kvs key, config (''compilation_config.'' @ key)) of
             (Some v, Some a) \<Rightarrow> \<not> attr_matches a v
           | (Some v, None) \<Rightarrow> True
           | _ \<Rightarrow> False)
       | _ \<Rightarrow> False) [''mode'', ''cudagraph_mode'']"

text \<open>\<open>_verify_applied\<close>; \<open>args\<close> are the server's arguments.\<close>

definition verify_applied ::
    "vllm_config \<Rightarrow> (string \<Rightarrow> attr option) \<Rightarrow> role_config \<Rightarrow> slim_config \<Rightarrow> local_plan \<Rightarrow> (string, json) dict \<Rightarrow> py_error + string" where
  "verify_applied config args r s lp facts =
     guarded (map_option provenance_error (run_checks [
         check (\<not> list_all (\<lambda>(key, v). attr_matches (Plain (applied_fact facts key)) v) (expected_facts r s lp))
           ''loaded engine configuration differs from the resolved plan'',
         check (eager_missing r facts) ''requested eager execution was not applied'',
         check (compilation_differs (vc_attr config) (get_or (lp_engine lp) ''compilation_config'' (JObj [])))
           ''effective compilation mode differs from reviewed profile'',
         check (\<not> list_all (\<lambda>kv. case args (fst kv) of None \<Rightarrow> False | Some a \<Rightarrow> attr_matches a (applied_expectation kv)) (lp_engine lp))
           ''reviewed profile override was not applied'',
         check (list_ex (\<lambda>key. case dict_get (lp_engine lp) key of None \<Rightarrow> False
             | Some v \<Rightarrow> v \<noteq> JStr ''auto'' \<and> \<not> py_eq (applied_fact facts key) v) [''quantization'', ''load_format'', ''dtype''])
           ''resolved model format differs from profile'',
         speculation_differs lp (applied_fact facts ''speculative_config''),
         check (is_metal s \<and> rl_tensor_parallel_size r \<noteq> 1) ''Metal requires exactly one worker'']))
       (Inr (kernel_backend s))"

section \<open>What the server can do\<close>

text \<open>
  A generation route: whether its own API verifies, how many of the server's routes have its path and
  whether the one takes \<open>POST\<close> and is the audited function, and its handler, verified or not, or none.
\<close>

record route_seen =
  rt_endpoint :: "py_error option"
  rt_count :: nat
  rt_post :: bool
  rt_same :: bool
  rt_handler :: "py_error option option"

definition route_checks :: "route_seen \<Rightarrow> py_error option list" where
  "route_checks x =
     [rt_endpoint x,
      check (rt_count x \<noteq> 1 \<or> \<not> rt_post x \<or> \<not> rt_same x) (provenance_error ''audited generation route is not registered''),
      (case rt_handler x of None \<Rightarrow> Some (provenance_error ''generation route has no initialized handler'') | Some verified \<Rightarrow> verified)]"

definition capabilities_of :: "py_error option \<Rightarrow> json \<Rightarrow> route_seen list \<Rightarrow> py_error + string list" where
  "capabilities_of verified tasks routes =
     guarded (run_checks ([verified,
         check (case tasks of JArr ts \<Rightarrow> JStr ''generate'' \<notin> set ts | _ \<Rightarrow> True) (provenance_error ''engine has no generation task'')] @
         concat (map route_checks routes)))
       (Inr [''chat_completions'', ''completions'', ''streaming'', ''text''])"

section \<open>The workers\<close>

definition row_integer :: "int \<Rightarrow> int \<Rightarrow> json \<Rightarrow> string \<Rightarrow> int option" where
  "row_integer least most row key = (case obj_get row key of JInt n \<Rightarrow> if least \<le> n \<and> n \<le> most then Some n else None | _ \<Rightarrow> None)"

definition cuda_identity :: "int \<Rightarrow> json \<Rightarrow> string \<Rightarrow> bool" where
  "cuda_identity rank device identity \<longleftrightarrow>
     gpu_uuid identity \<and> obj_get device ''identity_kind'' = JStr ''nvidia_gpu_uuid'' \<and> obj_get device ''gpu_uuid'' = JStr identity \<and>
     obj_get device ''local_rank'' = JInt rank \<and>
     (case device of JObj kvs \<Rightarrow> set (map fst kvs) = {''identity_kind'', ''stable_identifier'', ''gpu_uuid'', ''local_rank''} | _ \<Rightarrow> False)"

definition metal_identity :: "int \<Rightarrow> json \<Rightarrow> string \<Rightarrow> bool" where
  "metal_identity n device identity \<longleftrightarrow>
     n = 1 \<and> prefix APPLE_IDENTITY identity \<and> lower_hex 64 (drop (length APPLE_IDENTITY) identity) \<and>
     obj_get device ''identity_kind'' = JStr ''apple_platform'' \<and> obj_get device ''platform_id'' = JStr identity \<and>
     (case device of JObj kvs \<Rightarrow> set (map fst kvs) = {''identity_kind'', ''stable_identifier'', ''platform_id''} | _ \<Rightarrow> False)"

text \<open>What every worker's row has to be: the count, the implementation and the applied facts.\<close>

record worker_expected =
  we_count :: int
  we_metal :: bool
  we_facts :: json
  we_engine :: json
  we_kernels :: json
  we_module :: json
  we_artifacts :: json

definition row_differs :: "worker_expected \<Rightarrow> json \<Rightarrow> bool" where
  "row_differs w row \<longleftrightarrow>
     row_integer 1 4 row ''world_size'' \<noteq> Some (we_count w) \<or> row_integer 1 4 row ''visible_device_count'' \<noteq> Some (we_count w) \<or>
     \<not> py_eq (obj_get row ''engine'') (we_engine w) \<or> \<not> py_eq (obj_get row ''kernels'') (we_kernels w) \<or>
     obj_get row ''kernel_entrypoint'' \<notin> set (map JStr KERNEL_ENTRYPOINTS) \<or> \<not> py_eq (obj_get row ''kernel_module'') (we_module w) \<or>
     \<not> py_eq (obj_get row ''kernel_artifacts'') (we_artifacts w) \<or> \<not> py_eq (obj_get row ''config'') (we_facts w)"

definition worker_device :: "worker_expected \<Rightarrow> int \<Rightarrow> json \<Rightarrow> py_error + json" where
  "worker_device w rank row =
     guarded (run_checks [
         check (\<not> is_obj row \<or> obj_get row ''ready'' \<noteq> JBool True) (provenance_error ''worker is not ready''),
         check (\<not> list_all (\<lambda>key. row_integer 0 3 row key = Some rank) [''rank'', ''local_rank'', ''tensor_parallel_rank''])
           (provenance_error ''worker rank order drift''),
         check (row_differs w row) (provenance_error ''worker implementation or applied configuration drift''),
         check (\<not> is_obj (obj_get row ''device'')) (provenance_error ''worker has no physical device identity'')])
     (let device = obj_get row ''device'' in
      case obj_get device ''stable_identifier'' of
        JStr identity \<Rightarrow>
          if we_metal w
          then guarded (check (\<not> metal_identity (we_count w) device identity) (provenance_error ''invalid native Metal physical identity'')) (Inr device)
          else guarded (check (\<not> cuda_identity rank device identity) (provenance_error ''invalid CUDA physical identity'')) (Inr device)
      | _ \<Rightarrow> Inl (provenance_error ''worker device identity is missing''))"

fun worker_devices :: "worker_expected \<Rightarrow> int \<Rightarrow> json list \<Rightarrow> py_error + json list" where
  "worker_devices w rank [] = Inr []"
| "worker_devices w rank (row # rows) =
     and_then (worker_device w rank row) (\<lambda>d. and_then (worker_devices w (rank + 1) rows) (\<lambda>ds. Inr (d # ds)))"

definition workers :: "worker_expected \<Rightarrow> role_config \<Rightarrow> json \<Rightarrow> py_error + json" where
  "workers w r rows =
     (case rows of
        JArr rs \<Rightarrow>
          if int (length rs) \<noteq> we_count w \<or> we_count w \<notin> {1, 2, 4} then Inl (provenance_error ''incomplete worker RPC response'')
          else and_then (worker_devices w 0 rs) (\<lambda>devices.
            let identities = map (\<lambda>d. obj_get d ''stable_identifier'') devices in
            guarded (check (\<not> distinct identities \<or> \<not> we_metal w \<and> identities \<noteq> map JStr (rl_devices r))
                (provenance_error ''worker physical placement differs from selected ordered devices''))
              (Inr (JObj [(''vendor'', JStr (if we_metal w then ''apple'' else ''nvidia'')), (''device_count'', JInt (we_count w)),
                 (''unified_memory'', JBool (we_metal w)), (''devices'', JArr devices)])))
      | _ \<Rightarrow> Inl (provenance_error ''incomplete worker RPC response''))"

section \<open>The observation\<close>

text \<open>
  The server as it is found: its configuration and its engine's (the same object or not), its arguments,
  what verifying its APIs raises, the installation with the compiled kernels and the loaded modules, the
  tasks and routes, and the workers' rows, \<open>None\<close> where they do not answer in time.
\<close>

record server_seen =
  sn_config :: vllm_config
  sn_same_config :: bool
  sn_args :: "string \<Rightarrow> attr option"
  sn_apis :: "py_error option"
  sn_importable :: "string \<Rightarrow> bool"
  sn_disk :: installed_disk
  sn_provenance :: provenance
  sn_kernel :: kernel_module
  sn_loaded :: "loaded_module list"
  sn_tasks_api :: "py_error option"
  sn_tasks :: json
  sn_routes :: "route_seen list"
  sn_rows :: "json option"

definition ENGINE_FACT :: json where
  "ENGINE_FACT = JObj [(''name'', JStr ''slimserve''), (''version'', JStr SLIMSERVE_COMMIT), (''adapter'', JStr ''slimserve-runtime'')]"

definition expected_rows :: "server_seen \<Rightarrow> role_config \<Rightarrow> slim_config \<Rightarrow> (string, json) dict \<Rightarrow> json \<Rightarrow> worker_expected" where
  "expected_rows v r s facts kernels =
     \<lparr>we_count = rl_tensor_parallel_size r, we_metal = is_metal s, we_facts = JObj facts, we_engine = ENGINE_FACT, we_kernels = kernels,
      we_module = JStr (relative_to (pv_root (sn_provenance v)) (km_file (sn_kernel v))),
      we_artifacts = JObj (map (\<lambda>(n, d). (n, JStr d)) (pv_artifacts (sn_provenance v)))\<rparr>"

definition observation_of ::
    "role_config \<Rightarrow> local_plan \<Rightarrow> (string, json) dict \<Rightarrow> json \<Rightarrow> json \<Rightarrow> string list \<Rightarrow> (string, json) dict" where
  "observation_of r lp facts kernels acc capabilities =
     [(''engine'', ENGINE_FACT), (''kernels'', kernels), (''engine_profile_id'', text_or_null (rl_engine_profile_id r)),
      (''upstream_profile_id'', JStr (pl_profile_id (lp_plan lp))), (''quant'', JStr (qt_name (pl_quant (lp_plan lp)))),
      (''engine_model'', applied_fact facts ''model''), (''revision'', applied_fact facts ''revision''), (''context_length'', applied_fact facts ''max_model_len''),
      (''max_concurrent_requests'', applied_fact facts ''max_num_seqs''), (''device_count'', obj_get acc ''device_count''),
      (''tensor_parallel_size'', applied_fact facts ''tensor_parallel_size''), (''accelerator'', acc),
      (''capabilities'', texts capabilities)]"

definition collect_observation :: "py_error + (runtime_config \<times> slim_config \<times> local_plan) \<Rightarrow> server_seen \<Rightarrow> py_error + (string, json) dict" where
  "collect_observation selected v =
     and_then selected (\<lambda>(c, s, lp).
       let r = ro_generation (rt_roles c) in
       guarded (run_checks [check (\<not> sn_same_config v) (provenance_error ''API and engine configuration differ''), sn_apis v])
       (and_then (engine_config_facts (sn_config v)) (\<lambda>facts.
        and_then (verify_applied (sn_config v) (sn_args v) r s lp facts) (\<lambda>backend.
        (case verify_extension (sn_importable v) (sn_disk v) (sn_kernel v) backend (sn_provenance v) of
           (Inl e, pv) \<Rightarrow> Inl e
         | (Inr kernels, pv) \<Rightarrow>
             and_then (capabilities_of (sn_tasks_api v) (sn_tasks v) (sn_routes v)) (\<lambda>capabilities.
             (case sn_rows v of
                None \<Rightarrow> Inl (OSError ''timeout'')
              | Some rows \<Rightarrow> and_then (workers (expected_rows v r s facts kernels) r rows) (\<lambda>acc.
                  and_then (fst (verify_loaded_modules (sn_importable v) (sn_disk v) (sn_loaded v) pv)) (\<lambda>u.
                    Inr (observation_of r lp facts kernels acc capabilities))))))))))"

text \<open>
  \<open>_control\<close>: \<open>outcome\<close> is what verifying and calling the engine's method raises, \<open>paused\<close> what it then
  says of itself.
\<close>

definition control ::
    "py_error + (runtime_config \<times> slim_config \<times> local_plan) \<Rightarrow> server_seen \<Rightarrow> bool \<Rightarrow> py_error option \<Rightarrow> bool \<Rightarrow> py_error + json" where
  "control selected v pause outcome paused =
     and_then selected (\<lambda>(c, s, lp).
       guarded (check (\<not> sn_same_config v) (provenance_error ''API and engine configuration differ''))
       (and_then (engine_config_facts (sn_config v)) (\<lambda>facts.
        and_then (verify_applied (sn_config v) (sn_args v) (ro_generation (rt_roles c)) s lp facts) (\<lambda>backend.
        guarded (run_checks [outcome,
            check (paused \<noteq> pause) (provenance_error ''engine did not acknowledge the requested scheduler state'')])
          (Inr (JObj [(if pause then ''quiesced'' else ''resumed'', JBool True)]))))))"

section \<open>The private routes\<close>

definition OBSERVATION_PATH :: string where
  "OBSERVATION_PATH = ''/sovereign/observation''"

definition token_ok :: "string \<Rightarrow> bool" where
  "token_ok s \<longleftrightarrow> 32 \<le> length s \<and> length s \<le> 256 \<and> list_all (\<lambda>c. is_alnum c \<or> c = CHR ''_'' \<or> c = CHR ''-'') s"

record observed_request =
  or_tokens :: "string list"
  or_path :: string
  or_method :: string
  or_content_length :: string
  or_chunked :: bool
  or_query :: string

datatype observed_reply = PassedOn | Json int json

text \<open>\<open>observe_request\<close>: \<open>observe\<close> collects, \<open>act\<close> pauses or resumes.\<close>

definition observe_request ::
    "string \<Rightarrow> py_error + (string, json) dict \<Rightarrow> (bool \<Rightarrow> py_error + json) \<Rightarrow> observed_request \<Rightarrow> observed_reply" where
  "observe_request token observe act q =
     (if \<not> token_ok token \<or> length (or_tokens q) \<noteq> 1 \<or> \<not> token_ok (hd (or_tokens q)) \<or> token \<noteq> hd (or_tokens q)
      then Json 401 (JObj [(''error'', JStr ''unauthorized'')])
      else if or_path q \<notin> {OBSERVATION_PATH, ''/sovereign/quiesce'', ''/sovereign/resume''} then PassedOn
      else if or_method q \<noteq> (if or_path q = OBSERVATION_PATH then ''GET'' else ''POST'')
      then Json 405 (JObj [(''error'', JStr ''method_not_allowed'')])
      else if or_path q \<noteq> OBSERVATION_PATH \<and> (or_content_length q \<noteq> ''0'' \<or> or_chunked q \<or> or_query q \<noteq> [])
      then Json 400 (JObj [(''error'', JStr ''body_not_allowed'')])
      else case (if or_path q = OBSERVATION_PATH then map_sum id JObj observe else act (or_path q = ''/sovereign/quiesce'')) of
          Inl e \<Rightarrow> Json 503 (JObj [(''error'', JStr ''observation_unavailable'')])
        | Inr doc \<Rightarrow> Json 200 doc)"

section \<open>What the child observes the supervisor accepts\<close>

lemma facts_of_get: "facts_of rs = Inr d \<Longrightarrow> dict_get rs key = Some r \<Longrightarrow> \<exists>v. r = Inr v \<and> dict_get d key = Some v"
proof (induction rs arbitrary: d)
  case (Cons kr rs)
  then show ?case by (cases kr) (auto simp: and_then_Inr split: if_splits)
qed simp

lemma applied_integer_int: "applied_integer least most a = Inr v \<Longrightarrow> \<exists>n. v = JInt n"
  by (auto simp: applied_integer_def split: attr.splits json.splits if_splits)

lemma fact_is_int:
  assumes "engine_config_facts config = Inr facts" "key \<in> {''max_model_len'', ''max_num_seqs'', ''tensor_parallel_size''}"
  shows "\<exists>n. applied_fact facts key = JInt n"
proof -
  obtain rs where rs: "facts_of rs = Inr facts" and int: "\<exists>a least most. dict_get rs key = Some (and_then a (applied_integer least most))"
    using assms unfolding engine_config_facts_def Let_def and_then_Inr by fastforce
  then obtain a least most where r: "dict_get rs key = Some (and_then a (applied_integer least most))" by blast
  from facts_of_get [OF rs r] obtain v where "and_then a (applied_integer least most) = Inr v" "dict_get facts key = Some v" by blast
  then show ?thesis using applied_integer_int by (auto simp: applied_fact_def obj_get_def and_then_Inr)
qed

lemma matches_int: "attr_matches (Plain (JInt n)) (JInt i) \<longleftrightarrow> n = i"
  by (simp add: py_eq_int num_value_def)

lemma matches_text_or_null: "attr_matches (Plain v) (text_or_null x) \<longleftrightarrow> v = text_or_null x"
  by (cases x) (simp_all add: text_or_null_def)

lemma applied_policy:
  assumes "engine_config_facts config = Inr facts" "verify_applied config args r s lp facts = Inr backend"
  shows "backend = kernel_backend s" "applied_fact facts ''model'' = JStr (lp_model_path lp)" "applied_fact facts ''revision'' = text_or_null (rl_revision r)"
    "applied_fact facts ''max_model_len'' = int_or_null (rl_max_model_len r)" "\<exists>n. rl_max_model_len r = Some n"
    "applied_fact facts ''max_num_seqs'' = JInt (rl_max_concurrent_requests r)"
    "applied_fact facts ''tensor_parallel_size'' = JInt (rl_tensor_parallel_size r)"
    "is_metal s \<Longrightarrow> rl_tensor_parallel_size r = 1"
proof -
  have m: "attr_matches (Plain (applied_fact facts key)) v" if "(key, v) \<in> set (expected_facts r s lp)" for key v
    using assms(2) that by (auto simp: verify_applied_def check_simps list_all_iff)
  show "backend = kernel_backend s" "is_metal s \<Longrightarrow> rl_tensor_parallel_size r = 1"
    using assms(2) by (auto simp: verify_applied_def check_simps)
  have "attr_matches (Plain (applied_fact facts ''model'')) (JStr (lp_model_path lp))" by (rule m) (simp add: expected_facts_def)
  then show "applied_fact facts ''model'' = JStr (lp_model_path lp)" by simp
  have "attr_matches (Plain (applied_fact facts ''revision'')) (text_or_null (rl_revision r))" by (rule m) (simp add: expected_facts_def)
  then show "applied_fact facts ''revision'' = text_or_null (rl_revision r)" by (simp add: matches_text_or_null)
  obtain n where n: "applied_fact facts ''max_model_len'' = JInt n" using fact_is_int [OF assms(1)] by blast
  have "attr_matches (Plain (JInt n)) (int_or_null (rl_max_model_len r))" unfolding n [symmetric] by (rule m) (simp add: expected_facts_def)
  then show "applied_fact facts ''max_model_len'' = int_or_null (rl_max_model_len r)" "\<exists>n. rl_max_model_len r = Some n"
    by (cases "rl_max_model_len r"; auto simp: int_or_null_def n py_eq_int num_value_def)+
  obtain k where k: "applied_fact facts ''max_num_seqs'' = JInt k" using fact_is_int [OF assms(1)] by blast
  have "attr_matches (Plain (JInt k)) (JInt (rl_max_concurrent_requests r))" unfolding k [symmetric] by (rule m) (simp add: expected_facts_def)
  then show "applied_fact facts ''max_num_seqs'' = JInt (rl_max_concurrent_requests r)" by (simp add: k matches_int del: attr_matches.simps)
  obtain t where t: "applied_fact facts ''tensor_parallel_size'' = JInt t" using fact_is_int [OF assms(1)] by blast
  have "attr_matches (Plain (JInt t)) (JInt (rl_tensor_parallel_size r))" unfolding t [symmetric] by (rule m) (simp add: expected_facts_def)
  then show "applied_fact facts ''tensor_parallel_size'' = JInt (rl_tensor_parallel_size r)" by (simp add: t matches_int del: attr_matches.simps)
qed

text \<open>The workers' devices, in the order of their ranks.\<close>

lemma worker_device_ok:
  assumes "worker_device w rank row = Inr d"
  shows "is_obj d" "we_metal w \<Longrightarrow> apple_identity d"
    "\<not> we_metal w \<Longrightarrow> obj_get d ''local_rank'' = JInt rank \<and> (\<exists>i. obj_get d ''stable_identifier'' = JStr i \<and> device_is d i)"
proof -
  have obj: "is_obj (obj_get row ''device'')"
    and seen: "(case obj_get (obj_get row ''device'') ''stable_identifier'' of
        JStr i \<Rightarrow> if we_metal w
          then guarded (check (\<not> metal_identity (we_count w) (obj_get row ''device'') i) (provenance_error ''invalid native Metal physical identity''))
            (Inr (obj_get row ''device''))
          else guarded (check (\<not> cuda_identity rank (obj_get row ''device'') i) (provenance_error ''invalid CUDA physical identity''))
            (Inr (obj_get row ''device''))
      | _ \<Rightarrow> Inl (provenance_error ''worker device identity is missing'')) = Inr d"
    using assms by (auto simp: worker_device_def Let_def check_simps)
  obtain i where i: "obj_get (obj_get row ''device'') ''stable_identifier'' = JStr i"
    using seen by (cases "obj_get (obj_get row ''device'') ''stable_identifier''") simp_all
  have d: "d = obj_get row ''device''" "if we_metal w then metal_identity (we_count w) d i else cuda_identity rank d i"
    using seen by (auto simp: i check_simps split: if_splits)
  show "is_obj d" using obj d(1) by simp
  show "apple_identity d" if "we_metal w" using d i that by (simp add: apple_identity_def metal_identity_def)
  show "obj_get d ''local_rank'' = JInt rank \<and> (\<exists>i. obj_get d ''stable_identifier'' = JStr i \<and> device_is d i)" if "\<not> we_metal w"
    using d i that by (simp add: cuda_identity_def device_is_def)
qed

lemma worker_devices_ok:
  assumes "worker_devices w rank rows = Inr ds"
  shows "length ds = length rows \<and> list_all is_obj ds \<and> (we_metal w \<longrightarrow> list_all apple_identity ds) \<and>
    (\<not> we_metal w \<longrightarrow> map (\<lambda>d. obj_get d ''local_rank'') ds = map JInt [rank..rank + int (length ds) - 1] \<and>
       list_all (\<lambda>d. \<exists>i. obj_get d ''stable_identifier'' = JStr i \<and> device_is d i) ds)"
  using assms
proof (induction rows arbitrary: rank ds)
  case (Cons row rows)
  obtain d rest where d: "worker_device w rank row = Inr d" "worker_devices w (rank + 1) rows = Inr rest" "ds = d # rest"
    using Cons.prems by (auto simp: and_then_Inr)
  have range: "[rank..rank + int (length ds) - 1] = rank # [rank + 1..(rank + 1) + int (length rest) - 1]"
    by (simp add: d(3) upto.simps [of rank])
  show ?case unfolding range using Cons.IH [OF d(2)] worker_device_ok [OF d(1)] by (auto simp: d(3))
qed simp

lemma placed_devices:
  assumes "length ds = length us" "map (\<lambda>d. obj_get d ''stable_identifier'') ds = map JStr us"
    "list_all (\<lambda>d. \<exists>i. obj_get d ''stable_identifier'' = JStr i \<and> device_is d i) ds"
  shows "list_all (\<lambda>(d, uuid). device_is d uuid) (zip ds us)"
  using assms by (induction ds us rule: list_induct2) auto

lemma ranks_upto: "map int [0..<n] = [0..int n - 1]"
  by (induction n) (simp_all add: upto_rec2)

lemma cuda_devices_kept:
  assumes "map (\<lambda>d. obj_get d ''local_rank'') ds = map JInt [0..int (length ds) - 1]"
    "map (\<lambda>d. obj_get d ''stable_identifier'') ds = map JStr (rl_devices r)" "int (length ds) = rl_tensor_parallel_size r"
    "list_all (\<lambda>d. \<exists>i. obj_get d ''stable_identifier'' = JStr i \<and> device_is d i) ds"
  shows "cuda_devices r ds = Inr ds"
proof -
  have len: "length ds = length (rl_devices r)" using assms(2) by (metis length_map)
  have "local_rank d = n" if "obj_get d ''local_rank'' = JInt n" for d n using that by (simp add: local_rank_def)
  then have "map local_rank ds = map (\<lambda>v. case v of JInt n \<Rightarrow> n | _ \<Rightarrow> 0) (map (\<lambda>d. obj_get d ''local_rank'') ds)"
    by (simp add: local_rank_def)
  also have "\<dots> = [0..int (length ds) - 1]" unfolding assms(1) by (simp add: comp_def)
  finally have ranks: "map local_rank ds = [0..int (length ds) - 1]" .
  then have sorted: "sort_key local_rank ds = ds" by (simp add: sort_key_id_if_sorted)
  have ints: "int_of (obj_get d ''local_rank'') \<noteq> None" if "d \<in> set ds" for d
  proof -
    have "obj_get d ''local_rank'' \<in> set (map JInt [0..int (length ds) - 1])"
      unfolding assms(1) [symmetric] using that by simp
    then show ?thesis by (auto simp: int_of_def)
  qed
  have "map int [0..<nat (rl_tensor_parallel_size r)] = [0..int (length ds) - 1]"
    using assms(3) ranks_upto [of "length ds"] by (metis nat_int)
  then show ?thesis
    using placed_devices [OF len assms(2,4)] ints len ranks
    by (simp add: cuda_devices_def Let_def sorted list_all_iff check_def)
qed

lemma workers_ok:
  assumes "workers w r rows = Inr acc" "we_metal w \<Longrightarrow> we_count w = 1" "we_count w = rl_tensor_parallel_size r"
  shows "\<exists>ds. acc = JObj [(''vendor'', JStr (if we_metal w then ''apple'' else ''nvidia'')), (''device_count'', JInt (we_count w)),
      (''unified_memory'', JBool (we_metal w)), (''devices'', JArr ds)] \<and> int (length ds) = we_count w \<and> list_all is_obj ds \<and>
    (if we_metal w then metal_devices ds else cuda_devices r ds) = Inr ds"
proof -
  obtain rs ds where rs: "worker_devices w 0 rs = Inr ds" "int (length rs) = we_count w"
    and acc: "acc = JObj [(''vendor'', JStr (if we_metal w then ''apple'' else ''nvidia'')), (''device_count'', JInt (we_count w)),
      (''unified_memory'', JBool (we_metal w)), (''devices'', JArr ds)]"
    and placed: "\<not> we_metal w \<Longrightarrow> map (\<lambda>d. obj_get d ''stable_identifier'') ds = map JStr (rl_devices r)"
    using assms(1) by (auto simp: workers_def Let_def and_then_Inr check_simps split: json.splits if_splits)
  note ok = worker_devices_ok [OF rs(1)]
  have "metal_devices ds = Inr ds" if "we_metal w"
  proof -
    have "length ds = 1" using assms(2) [OF that] ok rs(2) by linarith
    then obtain d where "ds = [d]" by (auto simp: length_Suc_conv)
    then show ?thesis using that ok by (simp add: metal_devices_def check_def)
  qed
  moreover have "cuda_devices r ds = Inr ds" if "\<not> we_metal w"
    using cuda_devices_kept [of ds r] that placed ok rs(2) assms(3) by simp
  ultimately show ?thesis using acc ok rs(2) by (intro exI [of _ ds]) simp
qed

lemma verified_kernels:
  assumes "verify_extension importable disk m (kernel_backend s) pv = (Inr k, pv')"
  shows "k = JObj [(''library'', JStr (''quixicore-'' @ kernel_backend s)),
    (''version'', JStr (kernel_version (if is_metal s then QUIXICORE_METAL_COMMIT else QUIXICORE_CUDA_COMMIT))), (''backend'', JStr (kernel_backend s))]"
  using assms
  by (auto simp: verify_extension_def kernel_backend_def KERNEL_SOURCES_def QUIXICORE_METAL_COMMIT_def QUIXICORE_CUDA_COMMIT_def Let_def
      split: option.splits if_splits prod.splits sum.splits)

lemma selection_tuple:
  assumes "selection verified identity validated blocked resolve = Inr (c, s, lp)"
  shows "rl_slimserve (ro_generation (rt_roles c)) = Some s" "pl_profile_id (lp_plan lp) = sc_profile_id s"
    "qt_name (pl_quant (lp_plan lp)) = sc_quant s"
proof -
  obtain doc where "identity = Inr doc" using assms by (auto simp: selection_def check_simps and_then_Inr)
  note sel = assms [unfolded selection_def this and_then_simps Let_def]
  obtain c' where c': "validated (obj_get (JObj doc) ''config'') = Some c'" using sel by (auto simp: check_simps split: option.splits)
  obtain s' where s': "rl_slimserve (ro_generation (rt_roles c')) = Some s'" using sel by (auto simp: c' check_simps split: option.splits)
  obtain lp' where "resolve c' = Inr lp'" using sel by (cases "resolve c'") (auto simp: c' s' check_simps)
  then show "rl_slimserve (ro_generation (rt_roles c)) = Some s" "pl_profile_id (lp_plan lp) = sc_profile_id s"
    "qt_name (pl_quant (lp_plan lp)) = sc_quant s"
    using sel s' by (auto simp: c' check_simps)
qed

lemma py_eq_texts_or_null [simp]: "py_eq (text_or_null x) (text_or_null x)" "py_eq (int_or_null y) (int_or_null y)"
  by (auto simp: text_or_null_def int_or_null_def num_value_def split: option.split)

lemma collected_parts:
  assumes "collect_observation (Inr (c, s, lp)) v = Inr obs"
  shows "\<exists>facts backend kernels acc. engine_config_facts (sn_config v) = Inr facts \<and>
    verify_applied (sn_config v) (sn_args v) (ro_generation (rt_roles c)) s lp facts = Inr backend \<and>
    (\<exists>pv. verify_extension (sn_importable v) (sn_disk v) (sn_kernel v) backend (sn_provenance v) = (Inr kernels, pv)) \<and>
    (\<exists>rows. workers (expected_rows v (ro_generation (rt_roles c)) s facts kernels) (ro_generation (rt_roles c)) rows = Inr acc) \<and>
    obs = observation_of (ro_generation (rt_roles c)) lp facts kernels acc [''chat_completions'', ''completions'', ''streaming'', ''text'']"
proof -
  obtain facts backend where f: "engine_config_facts (sn_config v) = Inr facts"
      "verify_applied (sn_config v) (sn_args v) (ro_generation (rt_roles c)) s lp facts = Inr backend"
    using assms by (auto simp: collect_observation_def Let_def and_then_Inr check_simps)
  note c = assms [unfolded collect_observation_def and_then_simps Let_def prod.case f]
  obtain k pv where k: "verify_extension (sn_importable v) (sn_disk v) (sn_kernel v) backend (sn_provenance v) = (k, pv)" by fastforce
  obtain kernels where kernels: "k = Inr kernels" using c by (cases k) (simp_all add: k check_simps)
  obtain rows where rows: "sn_rows v = Some rows"
    using c by (cases "sn_rows v") (auto simp: k kernels check_simps and_then_Inr)
  show ?thesis using c f k kernels rows
    by (auto simp: check_simps and_then_Inr capabilities_of_def)
qed

text \<open>
  C7. What the child observes of itself the supervisor accepts, unchanged: an observation collected for the
  selected profile, whose model is one of the sealed closure's inputs, passes every check of the
  backend, as the model the preflight resolved to.
\<close>

theorem collected_observation_is_accepted:
  assumes "selection verified identity validated blocked resolve = Inr (c, s, lp)"
    and "collect_observation (selection verified identity validated blocked resolve) v = Inr obs"
    and "lp_model_path lp \<in> set (allowed_inputs (ro_generation (rt_roles c)) s)" "size_bytes \<le> 64 * 1024"
  shows "read_observation c (Some (lp_model_path lp)) (Reply 200 size_bytes (Some (JObj obs))) = Inr obs"
proof -
  let ?r = "ro_generation (rt_roles c)"
  note tuple = selection_tuple [OF assms(1)]
  obtain facts backend kernels acc where facts: "engine_config_facts (sn_config v) = Inr facts"
      "verify_applied (sn_config v) (sn_args v) ?r s lp facts = Inr backend"
    and kernels: "\<exists>pv. verify_extension (sn_importable v) (sn_disk v) (sn_kernel v) backend (sn_provenance v) = (Inr kernels, pv)"
    and rows: "\<exists>rows. workers (expected_rows v ?r s facts kernels) ?r rows = Inr acc"
    and obs: "obs = observation_of ?r lp facts kernels acc [''chat_completions'', ''completions'', ''streaming'', ''text'']"
    using collected_parts [OF assms(2) [unfolded assms(1)]] by blast
  note p = applied_policy [OF facts]
  obtain ds where acc: "acc = JObj [(''vendor'', JStr (if is_metal s then ''apple'' else ''nvidia'')), (''device_count'', JInt (rl_tensor_parallel_size ?r)),
      (''unified_memory'', JBool (is_metal s)), (''devices'', JArr ds)]" "int (length ds) = rl_tensor_parallel_size ?r" "list_all is_obj ds"
      "(if is_metal s then metal_devices ds else cuda_devices ?r ds) = Inr ds"
    using rows workers_ok [where w = "expected_rows v ?r s facts kernels" and r = ?r] p(8) by (auto simp: expected_rows_def)
  obtain pv where "verify_extension (sn_importable v) (sn_disk v) (sn_kernel v) (kernel_backend s) (sn_provenance v) = (Inr kernels, pv)"
    using kernels p(1) by blast
  note k = verified_kernels [OF this]
  obtain n where n: "rl_max_model_len ?r = Some n" using p(5) by blast
  have "validate_observation c (JObj obs) = Inr obs"
    unfolding obs observation_of_def
    using tuple p(2-4,6,7) acc n assms(3)
    by (auto simp: validate_observation_def Let_def check_def obj_get_def expected_observation_def k cardinalities_def int_of_def int_or_null_def
        capabilities_ok_def CAPABILITIES_def texts_def str_of_def ENGINE_FACT_def num_value_def image_iff)
  moreover have "obj_get (JObj obs) ''engine_model'' = JStr (lp_model_path lp)"
    using p(2) by (simp add: obs observation_of_def obj_get_def)
  ultimately show ?thesis using assms(4) by (simp add: read_observation_def succeeded_def check_def text_or_null_def)
qed

definition demo_plan_resolved :: local_plan where
  "demo_plan_resolved = \<lparr>lp_plan = demo_plan, lp_argv = [], lp_engine = [(''max_model_len'', JInt 4096)], lp_model_path = ''/srv/model'',
     lp_tokenizer_path = ''/srv/model'', lp_draft_path = None, lp_speculative_config = None\<rparr>"

definition demo_applied :: vllm_config where
  "demo_applied = \<lparr>vc_attr = map_of (
     [(''compilation_config.cudagraph_mode'', EnumValue ''FULL'' (JInt 2)), (''compilation_config.mode'', EnumValue ''VLLM_COMPILE'' (JInt 3)),
      (''compilation_config.max_cudagraph_capture_size'', Plain (JInt 64)),
      (''attention_config.use_trtllm_attention'', Plain (JBool False)), (''load_config.load_format'', Plain (JStr ''auto'')),
      (''scheduler_config.max_num_seqs'', Plain (JInt 8)), (''parallel_config.enable_expert_parallel'', Plain (JBool False)),
      (''parallel_config.worker_cls'', Plain (JStr (LAUNCH_WORKER A100))), (''model_config.model'', Plain (JStr ''/srv/model'')),
      (''model_config.tokenizer'', Plain (JStr ''/srv/model'')), (''model_config.revision'', Plain (text_or_null (rl_revision sealed_role))),
      (''model_config.served_model_name'', Plain (text_or_null (rl_served_model_name sealed_role))),
      (''model_config.max_model_len'', Plain (JInt 4096)), (''model_config.quantization'', Plain JNull),
      (''model_config.dtype'', Plain (JStr ''torch.bfloat16''))] @
     map (\<lambda>k. (''parallel_config.'' @ k, Plain (JInt 1))) [''tensor_parallel_size'', ''pipeline_parallel_size'', ''data_parallel_size'',
       ''prefill_context_parallel_size'', ''decode_context_parallel_size'', ''world_size'']), vc_speculative = None, vc_draft = None\<rparr>"

definition demo_facts :: "(string, json) dict" where
  "demo_facts = (case engine_config_facts demo_applied of Inr f \<Rightarrow> f | Inl e \<Rightarrow> [])"

definition demo_library :: "(string, json) dict" where
  "demo_library = [(''library'', JStr ''quixicore-cuda''), (''source_repository'', JStr ''https://github.com/QuixiAI/QuixiCore-CUDA''),
     (''source_commit'', JStr QUIXICORE_CUDA_COMMIT), (''modifications_commit'', JStr SLIMSERVE_COMMIT),
     (''version'', JStr (kernel_version QUIXICORE_CUDA_COMMIT)), (''module_name'', JStr KERNEL_MODULE), (''source_files'', JArr [JNull])]"

definition demo_row :: json where
  "demo_row = JObj ([(''ready'', JBool True), (''rank'', JInt 0), (''local_rank'', JInt 0), (''tensor_parallel_rank'', JInt 0),
     (''world_size'', JInt 1), (''visible_device_count'', JInt 1), (''engine'', ENGINE_FACT),
     (''kernels'', JObj [(''library'', JStr ''quixicore-cuda''), (''version'', JStr (kernel_version QUIXICORE_CUDA_COMMIT)), (''backend'', JStr ''cuda'')]),
     (''kernel_entrypoint'', JStr ''qgemm''), (''kernel_module'', JStr ''vllm/q.so''), (''kernel_artifacts'', JObj [(''vllm/q.so'', JStr ''d'')]),
     (''config'', JObj demo_facts),
     (''device'', JObj [(''identity_kind'', JStr ''nvidia_gpu_uuid''), (''stable_identifier'', JStr demo_gpu), (''gpu_uuid'', JStr demo_gpu),
        (''local_rank'', JInt 0)])])"

definition demo_route :: route_seen where
  "demo_route = \<lparr>rt_endpoint = None, rt_count = 1, rt_post = True, rt_same = True, rt_handler = Some None\<rparr>"

definition demo_server :: server_seen where
  "demo_server = \<lparr>sn_config = demo_applied, sn_same_config = True, sn_args = map_of [(''max_model_len'', Plain (JInt 4096))], sn_apis = None,
     sn_importable = (\<lambda>_. False), sn_disk = demo_installed,
     sn_provenance = \<lparr>pv_root = [''site''], pv_files = [], pv_kernels = demo_library, pv_artifacts = [(''vllm/q.so'', ''d'')], pv_verified = []\<rparr>,
     sn_kernel = \<lparr>km_name = KERNEL_MODULE, km_file = [''site'', ''vllm'', ''q.so''], km_registered = True, km_suffix_ok = True,
       km_extension_loader = True, km_origin = Some [''site'', ''vllm'', ''q.so'']\<rparr>,
     sn_loaded = [], sn_tasks_api = None, sn_tasks = texts [''generate''], sn_routes = [demo_route, demo_route], sn_rows = Some (JArr [demo_row])\<rparr>"

definition demo_identity :: "(string, json) dict" where
  "demo_identity = expected_identity sealed_role (sealed\<lparr>sc_artifacts := [demo_artifact]\<rparr>) @ [(''config'', JObj [])]"

definition demo_selection :: "py_error + (runtime_config \<times> slim_config \<times> local_plan)" where
  "demo_selection = selection None (Inr demo_identity) (\<lambda>_. Some launch_runtime) (\<lambda>_ _. False) (\<lambda>_. Inr demo_plan_resolved)"

lemma demo_selected: "demo_selection = Inr (launch_runtime, sealed\<lparr>sc_artifacts := [demo_artifact]\<rparr>, demo_plan_resolved)"
  by code_simp

lemma collected_observation_is_accepted_witness:
  "\<exists>obs. collect_observation demo_selection demo_server = Inr obs \<and>
     read_observation launch_runtime (Some ''/srv/model'') (Reply 200 900 (Some (JObj obs))) = Inr obs"
proof -
  have "\<not> isl (collect_observation demo_selection demo_server)" by code_simp
  then obtain obs where obs: "collect_observation demo_selection demo_server = Inr obs" by (cases "collect_observation demo_selection demo_server") auto
  have "lp_model_path demo_plan_resolved \<in> set (allowed_inputs (ro_generation (rt_roles launch_runtime)) (sealed\<lparr>sc_artifacts := [demo_artifact]\<rparr>))"
    "lp_model_path demo_plan_resolved = ''/srv/model''" by code_simp+
  then show ?thesis
    using collected_observation_is_accepted [OF demo_selected [unfolded demo_selection_def] obs [unfolded demo_selection_def]] obs by auto
qed

section \<open>An acknowledged pause is the engine's\<close>

text \<open>
  C22. A pause or a resume the supervisor takes for acknowledged was asked for with the one private token, of
  an engine whose applied configuration is the selected plan's, whose own method returned, and which then
  said itself that it is paused, or is not.
\<close>

theorem acknowledged_control_is_the_engines:
  assumes "or_path q = (if pause then ''/sovereign/quiesce'' else ''/sovereign/resume'')"
    and "observe_request token observe (\<lambda>p. control selected v p (outcome p) (paused p)) q = Json status doc"
    and "acknowledged (Reply status size_bytes (Some doc)) (if pause then ''quiesced'' else ''resumed'') e = None"
  shows "or_tokens q = [token] \<and> token_ok token \<and> outcome pause = None \<and> paused pause = pause \<and>
    (\<exists>c s lp facts backend. selected = Inr (c, s, lp) \<and> engine_config_facts (sn_config v) = Inr facts \<and>
       verify_applied (sn_config v) (sn_args v) (ro_generation (rt_roles c)) s lp facts = Inr backend)"
proof -
  have status: "status = 200" using assms(3) by (auto simp: acknowledged_def split: if_splits)
  have path: "or_path q \<noteq> OBSERVATION_PATH" "or_path q = ''/sovereign/quiesce'' \<longleftrightarrow> pause" "or_path q \<in> {''/sovereign/quiesce'', ''/sovereign/resume''}"
    using assms(1) by (auto simp: OBSERVATION_PATH_def)
  have token: "or_tokens q = [token] \<and> token_ok token"
    using assms(2) status by (cases "or_tokens q") (auto simp: observe_request_def split: if_splits)
  have "control selected v pause (outcome pause) (paused pause) = Inr doc"
    using assms(2) status path by (auto simp: observe_request_def split: if_splits sum.splits)
  then show ?thesis using token by (auto simp: control_def and_then_Inr check_simps)
qed

definition demo_token :: string where
  "demo_token = replicate 43 (CHR ''t'')"

definition demo_quiesce :: observed_request where
  "demo_quiesce = \<lparr>or_tokens = [demo_token], or_path = ''/sovereign/quiesce'', or_method = ''POST'', or_content_length = ''0'', or_chunked = False,
     or_query = []\<rparr>"

lemma acknowledged_control_is_the_engines_witness:
  "\<exists>c s lp. demo_selection = Inr (c, s, lp) \<and> token_ok demo_token \<and>
     observe_request demo_token (Inr []) (\<lambda>p. control demo_selection demo_server p None p) demo_quiesce = Json 200 (JObj [(''quiesced'', JBool True)])"
proof -
  have r: "observe_request demo_token (Inr []) (\<lambda>p. control demo_selection demo_server p None p) demo_quiesce = Json 200 (JObj [(''quiesced'', JBool True)])"
    by code_simp
  have "or_path demo_quiesce = (if True then ''/sovereign/quiesce'' else ''/sovereign/resume'')"
    "acknowledged (Reply 200 20 (Some (JObj [(''quiesced'', JBool True)]))) (if True then ''quiesced'' else ''resumed'') Cancelled = None" by code_simp+
  from acknowledged_control_is_the_engines [OF this(1) r this(2)] r show ?thesis by auto
qed

end
