(* ===== verification/SlimServeWorker.thy ===== *)
theory SlimServeWorker
  imports SlimServeObservation
begin

text \<open>
  \<open>lazarus/appliance/slimserve_worker.py\<close>: the one-time instrumentation of the compiled kernels as a
  machine, a worker's load and what it then tells of itself. torch, the platform and verifying a source
  are arguments; \<open>ki_proved\<close> is what happened on the device, which only the machine's run knows.
\<close>

record torch_device =
  td_type :: string
  td_index :: "int option"

definition on_device :: "bool \<Rightarrow> torch_device \<Rightarrow> torch_device \<Rightarrow> bool" where
  "on_device metal tensor device \<longleftrightarrow>
     (if metal
      then td_type device = ''mps'' \<and> td_index device \<in> {None, Some 0} \<and> td_type tensor = ''mps'' \<and> td_index tensor \<in> {None, Some 0}
      else tensor = device)"

section \<open>The instrumentation\<close>

text \<open>
  An attribute of the module: the compiled callable of its name, the wrapper of a name, or something
  else. A wrapper may be called through the module or by whoever kept it.
\<close>

datatype callable = Compiled string | Wrapper string | Foreign

record invocation =
  ki_metal :: bool
  ki_device :: torch_device
  ki_module :: "(string, callable) dict"
  ki_originals :: "(string, callable) dict"
  ki_wrappers :: "string list"
  ki_executed :: "string option"
  ki_proved :: "string list"

definition new_invocation :: "bool \<Rightarrow> torch_device \<Rightarrow> (string, callable) dict \<Rightarrow> py_error + json \<Rightarrow> py_error + invocation" where
  "new_invocation metal device attrs verified =
     and_then verified (\<lambda>k. Inr \<lparr>ki_metal = metal, ki_device = device, ki_module = attrs, ki_originals = [], ki_wrappers = [],
       ki_executed = None, ki_proved = []\<rparr>)"

fun collect_originals :: "(string, callable) dict \<Rightarrow> string list \<Rightarrow> (string, callable) dict \<Rightarrow> py_error option \<times> (string, callable) dict" where
  "collect_originals attrs [] originals = (None, originals)"
| "collect_originals attrs (n # ns) originals =
     (case dict_get attrs n of
        None \<Rightarrow> collect_originals attrs ns originals
      | Some c \<Rightarrow>
          if c \<noteq> Compiled n then (Some (provenance_error ''kernel entrypoint is not the compiled module callable''), originals)
          else collect_originals attrs ns (dict_set n c originals))"

definition wrap_all :: "string list \<Rightarrow> (string, callable) dict \<Rightarrow> (string, callable) dict" where
  "wrap_all names attrs = fold (\<lambda>n. dict_set n (Wrapper n)) names attrs"

text \<open>\<open>install\<close>: the order of the names only decides which one is refused first.\<close>

definition install :: "invocation \<Rightarrow> py_error option \<times> invocation" where
  "install k =
     (case collect_originals (ki_module k) KERNEL_ENTRYPOINTS (ki_originals k) of
        (Some e, originals) \<Rightarrow> (Some e, k\<lparr>ki_originals := originals\<rparr>)
      | (None, originals) \<Rightarrow>
          if originals = [] then (Some (provenance_error ''compiled extension has no reviewed inference entrypoint''), k)
          else (None, k\<lparr>ki_originals := originals, ki_wrappers := map fst originals,
            ki_module := wrap_all (map fst originals) (ki_module k)\<rparr>))"

definition restore_one :: "(string, callable) dict \<Rightarrow> string \<Rightarrow> (string, callable) dict \<Rightarrow> (string, callable) dict" where
  "restore_one originals n attrs =
     (case (dict_get attrs n, dict_get originals n) of
        (Some (Wrapper m), Some c) \<Rightarrow> if m = n then dict_set n c attrs else attrs
      | _ \<Rightarrow> attrs)"

definition restore :: "invocation \<Rightarrow> invocation" where
  "restore k = k\<lparr>ki_module := fold (restore_one (ki_originals k)) (ki_wrappers k) (ki_module k)\<rparr>"

text \<open>
  A call of a wrapper: whether the compiled callable returned, the tensors among its arguments with
  their sizes, whether the stream is being captured, what synchronising raises and what verifying the
  extension again does.
\<close>

record native_call =
  nc_returned :: bool
  nc_tensors :: "(torch_device \<times> int) list"
  nc_capturing :: bool
  nc_synchronized :: bool
  nc_verified :: "py_error + json"

definition on_accelerator :: "invocation \<Rightarrow> native_call \<Rightarrow> bool" where
  "on_accelerator k x \<longleftrightarrow> list_ex (\<lambda>(d, numel). on_device (ki_metal k) d (ki_device k) \<and> 0 < numel) (nc_tensors x)"

definition observed_call :: "string \<Rightarrow> native_call \<Rightarrow> invocation \<Rightarrow> invocation" where
  "observed_call n x k =
     (if \<not> nc_returned x \<or> ki_executed k \<noteq> None \<or> \<not> on_accelerator k x \<or> (\<not> ki_metal k \<and> nc_capturing x) \<or> \<not> nc_synchronized x then k
      else let k = k\<lparr>ki_proved := n # ki_proved k\<rparr> in
        case nc_verified x of Inl e \<Rightarrow> k | Inr kernels \<Rightarrow> restore (k\<lparr>ki_executed := Some n\<rparr>))"

record kernel_evidence =
  ev_kernels :: json
  ev_entrypoint :: string

definition evidence :: "py_error + json \<Rightarrow> invocation \<Rightarrow> py_error + kernel_evidence" where
  "evidence verified k =
     (case ki_executed k of
        None \<Rightarrow> Inl (provenance_error ''no successfully executed native inference kernel'')
      | Some n \<Rightarrow>
          if dict_get (ki_module k) n \<noteq> dict_get (ki_originals k) n then Inl (provenance_error ''executed native entrypoint was replaced'')
          else and_then verified (\<lambda>kernels. Inr \<lparr>ev_kernels = kernels, ev_entrypoint = n\<rparr>))"

text \<open>The machine: a worker's calls, whatever else sets an attribute, and restoring.\<close>

inductive kernel_step :: "invocation \<Rightarrow> invocation \<Rightarrow> bool" where
  call: "n \<in> set (ki_wrappers k) \<Longrightarrow> kernel_step k (observed_call n x k)"
| replaced: "kernel_step k (k\<lparr>ki_module := dict_set n c (ki_module k)\<rparr>)"
| restored: "kernel_step k (restore k)"

inductive_cases kernel_stepE: "kernel_step k k'"

definition kernel_ok :: "invocation \<Rightarrow> bool" where
  "kernel_ok k \<longleftrightarrow>
     (\<forall>n \<in> set (ki_wrappers k). n \<in> set KERNEL_ENTRYPOINTS \<and> dict_get (ki_originals k) n = Some (Compiled n)) \<and>
     (\<forall>n. ki_executed k = Some n \<longrightarrow> n \<in> set (ki_wrappers k) \<and> n \<in> set (ki_proved k))"

lemma restore_keeps: "ki_wrappers (restore k) = ki_wrappers k" "ki_originals (restore k) = ki_originals k"
  "ki_executed (restore k) = ki_executed k" "ki_proved (restore k) = ki_proved k"
  by (simp_all add: restore_def)

lemma kernel_ok_restore: "kernel_ok (restore k) \<longleftrightarrow> kernel_ok k"
  by (simp add: kernel_ok_def restore_keeps)

lemma kernel_ok_executed:
  "kernel_ok k \<Longrightarrow> n \<in> set (ki_wrappers k) \<Longrightarrow> kernel_ok (k\<lparr>ki_proved := n # ki_proved k, ki_executed := Some n\<rparr>)"
  by (simp add: kernel_ok_def)

lemma kernel_ok_proved: "kernel_ok k \<Longrightarrow> kernel_ok (k\<lparr>ki_proved := n # ki_proved k\<rparr>)"
  by (simp add: kernel_ok_def)

lemma kernel_ok_call: "kernel_ok k \<Longrightarrow> n \<in> set (ki_wrappers k) \<Longrightarrow> kernel_ok (observed_call n x k)"
  by (cases "nc_verified x") (simp_all add: observed_call_def Let_def kernel_ok_restore kernel_ok_executed kernel_ok_proved)

interpretation kernel_life: invariant_of kernel_ok kernel_step kernel_ok
proof unfold_locales
  fix k k' assume "kernel_ok k" "kernel_step k k'"
  from this(2,1) show "kernel_ok k'"
    by cases (simp_all add: kernel_ok_call kernel_ok_restore, simp add: kernel_ok_def)
qed

definition originals_ok :: "(string, callable) dict \<Rightarrow> bool" where
  "originals_ok d \<longleftrightarrow> (\<forall>n c. dict_get d n = Some c \<longrightarrow> n \<in> set KERNEL_ENTRYPOINTS \<and> c = Compiled n)"

lemma originals_ok_set: "originals_ok d \<Longrightarrow> n \<in> set KERNEL_ENTRYPOINTS \<Longrightarrow> originals_ok (dict_set n (Compiled n) d)"
  by (simp add: originals_ok_def)

lemma collect_originals_ok:
  assumes "collect_originals attrs ns originals = (None, d)" "set ns \<subseteq> set KERNEL_ENTRYPOINTS" "originals_ok originals"
  shows "originals_ok d"
  using assms
proof (induction attrs ns originals rule: collect_originals.induct)
  case (2 attrs n ns originals)
  show ?case
  proof (cases "dict_get attrs n")
    case None
    then show ?thesis using 2 by simp
  next
    case (Some c)
    then have c: "c = Compiled n" "collect_originals attrs ns (dict_set n c originals) = (None, d)"
      using "2.prems"(1) by (simp_all split: if_splits)
    have "originals_ok (dict_set n c originals)" using "2.prems"(2,3) c(1) originals_ok_set by simp
    then show ?thesis using "2.IH"(2) [OF Some _ c(2)] c(1) "2.prems"(2) by simp
  qed
qed simp

lemma installed_ok:
  assumes "install k = (None, k')" "ki_originals k = []" "ki_executed k = None"
  shows "kernel_ok k'"
proof -
  obtain d where d: "collect_originals (ki_module k) KERNEL_ENTRYPOINTS [] = (None, d)" "k' = k\<lparr>ki_originals := d, ki_wrappers := map fst d,
      ki_module := wrap_all (map fst d) (ki_module k)\<rparr>"
    using assms by (auto simp: install_def split: prod.splits option.splits if_splits)
  have "originals_ok d" by (rule collect_originals_ok [OF d(1)]) (simp_all add: originals_ok_def)
  moreover have "\<exists>c. dict_get d n = Some c" if "n \<in> fst ` set d" for n
    using that by (metis domD dom_map_of_conv_image_fst)
  ultimately have "n \<in> set KERNEL_ENTRYPOINTS \<and> dict_get d n = Some (Compiled n)" if "n \<in> fst ` set d" for n
    using that unfolding originals_ok_def by blast
  then show ?thesis using assms(3) by (simp add: kernel_ok_def d(2))
qed


definition demo_gpu_device :: torch_device where
  "demo_gpu_device = \<lparr>td_type = ''cuda'', td_index = Some 0\<rparr>"

definition demo_fresh :: invocation where
  "demo_fresh = \<lparr>ki_metal = False, ki_device = demo_gpu_device, ki_module = [(''qgemm'', Compiled ''qgemm'')], ki_originals = [],
     ki_wrappers = [], ki_executed = None, ki_proved = []\<rparr>"

definition demo_invocation :: invocation where
  "demo_invocation = snd (install demo_fresh)"

definition demo_call :: native_call where
  "demo_call = \<lparr>nc_returned = True, nc_tensors = [(demo_gpu_device, 16)], nc_capturing = False, nc_synchronized = True, nc_verified = Inr JNull\<rparr>"


section \<open>The platform's identity\<close>

text \<open>
  \<open>metal_platform_uuid\<close>: what \<open>ioreg\<close> printed, its length and the property list it parses to. \<open>parse\<close> reads
  a UUID to its canonical text and whether it is zero, \<open>sha256\<close> digests a text.
\<close>

definition metal_platform_uuid ::
    "bool \<Rightarrow> (int \<times> json option) option \<Rightarrow> (string \<Rightarrow> (string \<times> bool) option) \<Rightarrow> (string \<Rightarrow> string) \<Rightarrow> py_error + string" where
  "metal_platform_uuid darwin printed parse sha256 =
     (if \<not> darwin then Inl (provenance_error ''Metal identity requires a native Darwin host'')
      else case printed of
        None \<Rightarrow> Inl (OSError ''ioreg'')
      | Some (size_bytes, records) \<Rightarrow>
          if 1024 * 1024 < size_bytes then Inl (provenance_error ''oversized native host identity'')
          else (case records of
              None \<Rightarrow> Inl (ValueError ''not a property list'')
            | Some (JArr [JObj kvs]) \<Rightarrow>
                (case dict_get kvs ''IOPlatformUUID'' of
                   Some (JStr identity) \<Rightarrow>
                     (case parse identity of
                        None \<Rightarrow> Inl (ValueError ''not a UUID'')
                      | Some (canonical, zero) \<Rightarrow>
                          if zero then Inl (provenance_error ''native host UUID is empty'') else Inr (APPLE_IDENTITY @ sha256 canonical))
                 | _ \<Rightarrow> Inl (provenance_error ''native host has no stable platform UUID''))
            | Some (JArr [v]) \<Rightarrow> Inl (TypeError ''no attribute get'')
            | _ \<Rightarrow> Inl (provenance_error ''ambiguous native host identity'')))"

section \<open>A worker\<close>

text \<open>
  A worker: the model it observed being loaded, with the configuration's facts at that time, and its
  instrumentation. A load's run: what verifying its APIs raises, the facts before, the instrumentation
  as constructed, what the upstream load raises, the model it leaves, what verifying the model's types
  raises, and the facts after.
\<close>

record worker =
  wk_model :: "nat option"
  wk_facts :: "(string, json) dict"
  wk_kernel :: "invocation option"

record load_run =
  lr_dummy :: bool
  lr_apis :: "py_error option"
  lr_before :: "py_error + (string, json) dict"
  lr_invocation :: "py_error + invocation"
  lr_raises :: "py_error option"
  lr_model :: "nat option"
  lr_types :: "py_error option"
  lr_after :: "py_error + (string, json) dict"

definition load_upstream :: "load_run \<Rightarrow> (string, json) dict \<Rightarrow> invocation \<Rightarrow> worker \<Rightarrow> py_error option \<times> worker" where
  "load_upstream x facts k w =
     (let undone = w\<lparr>wk_kernel := Some (restore k)\<rparr>; w = w\<lparr>wk_kernel := Some k\<rparr> in
      case (lr_raises x, lr_model x) of
        (Some e, _) \<Rightarrow> (Some e, undone)
      | (None, None) \<Rightarrow> (Some (provenance_error ''worker did not load a model''), undone)
      | (None, Some m) \<Rightarrow> (case (lr_types x, lr_after x) of
            (Some e, _) \<Rightarrow> (Some e, w)
          | (None, Inl e) \<Rightarrow> (Some e, w)
          | (None, Inr after) \<Rightarrow>
              if \<not> py_eq (JObj after) (JObj facts) then (Some (provenance_error ''model configuration changed during loading''), w)
              else (None, w\<lparr>wk_facts := facts, wk_model := Some m\<rparr>)))"

definition load_model :: "load_run \<Rightarrow> worker \<Rightarrow> py_error option \<times> worker" where
  "load_model x w =
     (if lr_dummy x then (Some (provenance_error ''dummy weights cannot produce serving evidence''), w)
      else let w = w\<lparr>wk_model := None, wk_kernel := map_option restore (wk_kernel w)\<rparr> in
        case (lr_apis x, lr_before x, lr_invocation x) of
          (Some e, _, _) \<Rightarrow> (Some e, w)
        | (None, Inl e, _) \<Rightarrow> (Some e, w)
        | (None, Inr facts, Inl e) \<Rightarrow> (Some e, w)
        | (None, Inr facts, Inr k) \<Rightarrow> (case install k of
            (Some e, k) \<Rightarrow> (Some e, w)
          | (None, k) \<Rightarrow> load_upstream x facts k w))"

text \<open>
  What a worker's observation finds: the runner's model, what verifying raises, the facts, whether its two
  configurations are one object, whether a tensor of the model is on the device, the distributed ranks
  and sizes, its device's identity and how many it sees.
\<close>

record worker_seen =
  ww_model :: "nat option"
  ww_apis :: "py_error option"
  ww_facts :: "py_error + (string, json) dict"
  ww_loaded :: "py_error option"
  ww_same_config :: bool
  ww_tensor :: bool
  ww_rank :: int
  ww_local_rank :: int
  ww_world :: int
  ww_group_world :: int
  ww_group_rank :: int
  ww_dist_rank :: int
  ww_dist_world :: int
  ww_tensor_size :: int
  ww_metal :: bool
  ww_bound :: bool
  ww_identity :: "py_error + string option"
  ww_visible :: int
  ww_module :: string
  ww_artifacts :: "(string, string) dict"
  ww_kernels :: "py_error + json"

definition device_of :: "worker_seen \<Rightarrow> py_error + json" where
  "device_of x =
     (if \<not> ww_bound x
      then Inl (provenance_error (if ww_metal x then ''worker has no native Metal device'' else ''worker is not bound to its CUDA device''))
      else and_then (ww_identity x) (\<lambda>found. case found of
          None \<Rightarrow> Inl (provenance_error ''CUDA worker has no stable physical identity'')
        | Some identity \<Rightarrow> Inr (JObj (if ww_metal x
            then [(''identity_kind'', JStr ''apple_platform''), (''stable_identifier'', JStr identity), (''platform_id'', JStr identity)]
            else [(''identity_kind'', JStr ''nvidia_gpu_uuid''), (''stable_identifier'', JStr identity), (''gpu_uuid'', JStr identity),
              (''local_rank'', JInt (ww_local_rank x))]))))"

definition worker_row :: "worker_seen \<Rightarrow> kernel_evidence \<Rightarrow> (string, json) dict \<Rightarrow> json \<Rightarrow> json" where
  "worker_row x ev facts device = JObj [
     (''ready'', JBool True), (''engine'', ENGINE_FACT), (''kernels'', ev_kernels ev), (''kernel_entrypoint'', JStr (ev_entrypoint ev)),
     (''kernel_module'', JStr (ww_module x)), (''kernel_artifacts'', JObj (map (\<lambda>(n, d). (n, JStr d)) (ww_artifacts x))),
     (''config'', JObj facts), (''rank'', JInt (ww_rank x)), (''local_rank'', JInt (ww_local_rank x)),
     (''tensor_parallel_rank'', JInt (ww_group_rank x)), (''world_size'', JInt (ww_dist_world x)),
     (''visible_device_count'', JInt (if ww_metal x then 1 else ww_visible x)), (''device'', device)]"

definition worker_observation :: "worker_seen \<Rightarrow> worker \<Rightarrow> py_error + json" where
  "worker_observation x w =
     guarded (run_checks [
         check (ww_model x = None \<or> ww_model x \<noteq> wk_model w) (provenance_error ''worker model is not the observed loaded model''), ww_apis x])
     (and_then (ww_facts x) (\<lambda>facts.
      guarded (run_checks [
          check (\<not> py_eq (JObj facts) (JObj (wk_facts w))) (provenance_error ''loaded model configuration has changed''),
          ww_loaded x,
          check (\<not> ww_same_config x) (provenance_error ''worker and loader configuration differ''),
          check (\<not> ww_tensor x) (provenance_error ''loaded model has no accelerator tensors''),
          check (ww_dist_rank x \<noteq> ww_rank x \<or> ww_dist_world x \<noteq> ww_world x \<or> ww_group_world x \<noteq> ww_tensor_size x \<or>
              ww_group_rank x \<noteq> ww_local_rank x) (provenance_error ''worker distributed ranks disagree'')])
      (and_then (device_of x) (\<lambda>device.
       (case wk_kernel w of
          None \<Rightarrow> Inl (TypeError ''no attribute'')
        | Some k \<Rightarrow> and_then (evidence (ww_kernels x) k) (\<lambda>ev. Inr (worker_row x ev facts device)))))))"

definition sovereign_observation :: "worker_seen \<Rightarrow> worker \<Rightarrow> json" where
  "sovereign_observation x w =
     (case worker_observation x w of Inl e \<Rightarrow> JObj [(''ready'', JBool False)] | Inr row \<Rightarrow> row)"

text \<open>
  A worker counted as ready is one whose kernels ran: a row the aggregate accepts comes from a worker
  whose model is the one it observed being loaded, with that load's configuration, and names a reviewed
  kernel that was executed.
\<close>

lemma accepted_row_is_evidence:
  assumes "worker_device e rank (sovereign_observation x w) = Inr device"
  shows "\<exists>k facts ev. wk_kernel w = Some k \<and> ww_model x = wk_model w \<and> wk_model w \<noteq> None \<and> ww_facts x = Inr facts \<and>
    py_eq (JObj facts) (JObj (wk_facts w)) \<and> py_eq (JObj facts) (we_facts e) \<and> evidence (ww_kernels x) k = Inr ev \<and>
    ki_executed k = Some (ev_entrypoint ev) \<and> ev_entrypoint ev \<in> set KERNEL_ENTRYPOINTS \<and> ww_rank x = rank \<and> ww_local_rank x = rank"
proof -
  have ready: "obj_get (sovereign_observation x w) ''ready'' = JBool True" and row: "\<not> row_differs e (sovereign_observation x w)"
    and ranks: "\<forall>key \<in> {''rank'', ''local_rank''}. row_integer 0 3 (sovereign_observation x w) key = Some rank"
    using assms by (auto simp: worker_device_def check_simps Let_def)
  obtain r where r: "worker_observation x w = Inr r" "sovereign_observation x w = r"
    using ready by (cases "worker_observation x w") (auto simp: sovereign_observation_def obj_get_def)
  obtain facts dev k ev where f: "ww_facts x = Inr facts" "wk_kernel w = Some k" "evidence (ww_kernels x) k = Inr ev" "r = worker_row x ev facts dev"
    "ww_model x = wk_model w" "wk_model w \<noteq> None" "py_eq (JObj facts) (JObj (wk_facts w))"
  proof -
    obtain facts dev where f: "ww_facts x = Inr facts" "py_eq (JObj facts) (JObj (wk_facts w))" "ww_model x = wk_model w" "wk_model w \<noteq> None"
      and row: "(case wk_kernel w of None \<Rightarrow> Inl (TypeError ''no attribute'')
        | Some k \<Rightarrow> and_then (evidence (ww_kernels x) k) (\<lambda>ev. Inr (worker_row x ev facts dev))) = Inr r"
      using r(1) by (auto simp: worker_observation_def and_then_Inr check_simps simp del: py_eq.simps)
    from row obtain k ev where "wk_kernel w = Some k" "evidence (ww_kernels x) k = Inr ev" "r = worker_row x ev facts dev"
      by (cases "wk_kernel w") (auto simp: and_then_Inr)
    with f show thesis using that by blast
  qed
  have "ki_executed k = Some (ev_entrypoint ev)" using f(3) by (auto simp: evidence_def and_then_Inr split: option.splits if_splits)
  moreover have "ev_entrypoint ev \<in> set KERNEL_ENTRYPOINTS" "py_eq (JObj facts) (we_facts e)"
    using row unfolding r(2) f(4) by (auto simp: row_differs_def worker_row_def obj_get_def)
  moreover have "ww_rank x = rank \<and> ww_local_rank x = rank"
    using ranks unfolding r(2) f(4) by (auto simp: row_integer_def worker_row_def obj_get_def split: if_splits)
  ultimately show ?thesis using f by blast
qed

definition demo_worker :: worker where
  "demo_worker = \<lparr>wk_model = Some 7, wk_facts = demo_facts, wk_kernel = Some (observed_call ''qgemm'' demo_call demo_invocation)\<rparr>"

definition demo_kernels :: json where
  "demo_kernels = JObj [(''library'', JStr ''quixicore-cuda''), (''version'', JStr (kernel_version QUIXICORE_CUDA_COMMIT)), (''backend'', JStr ''cuda'')]"

definition demo_seen :: worker_seen where
  "demo_seen = \<lparr>ww_model = Some 7, ww_apis = None, ww_facts = Inr demo_facts, ww_loaded = None, ww_same_config = True, ww_tensor = True,
     ww_rank = 0, ww_local_rank = 0, ww_world = 1, ww_group_world = 1, ww_group_rank = 0, ww_dist_rank = 0, ww_dist_world = 1, ww_tensor_size = 1,
     ww_metal = False, ww_bound = True, ww_identity = Inr (Some demo_gpu), ww_visible = 1, ww_module = ''vllm/q.so'',
     ww_artifacts = [(''vllm/q.so'', ''d'')], ww_kernels = Inr demo_kernels\<rparr>"

lemma accepted_row_is_evidence_witness:
  "\<exists>device. worker_device (expected_rows demo_server sealed_role sealed demo_facts demo_kernels) 0 (sovereign_observation demo_seen demo_worker) = Inr device \<and>
     wk_model demo_worker = ww_model demo_seen"
proof -
  let ?d = "worker_device (expected_rows demo_server sealed_role sealed demo_facts demo_kernels) 0 (sovereign_observation demo_seen demo_worker)"
  have "\<not> isl ?d" by code_simp
  then obtain device where d: "?d = Inr device" by (cases ?d) auto
  then show ?thesis using accepted_row_is_evidence [OF d] by auto
qed

end
