(* ===== verification/Launcher.thy ===== *)
theory Launcher
  imports VllmEngine
begin

text \<open>
  \<open>lazarus/appliance/launcher.py\<close>: the runtime's one pass from its configuration to the state it is
  left in, and what the backend reports later. The backend is what it tells on the way: the states it
  reports while it starts, what its start raises, its roles afterwards, the answers of the smoke test.
\<close>

definition role_load_message :: "string \<Rightarrow> string" where
  "role_load_message err_code =
     (if err_code = ''MODEL_LOAD_FAILED'' then ''the engine failed to load the configured model''
      else if err_code = ''OUT_OF_MEMORY'' then ''the model did not fit in available memory''
      else ''role failed to load'')"

text \<open>
  The runtime: its machine, the backend's roles as they are read, the states the manifest was written
  in and whether the process was told to end.
\<close>

record appliance =
  la_machine :: machine
  la_roles :: "string \<Rightarrow> role_info"
  la_written :: "string list"
  la_killed :: bool

definition write_manifest :: "appliance \<Rightarrow> appliance" where
  "write_manifest a = a\<lparr>la_written := la_written a @ [sm_state (la_machine a)]\<rparr>"

definition note_error :: "string \<Rightarrow> string \<Rightarrow> string \<Rightarrow> bool \<Rightarrow> string option \<Rightarrow> appliance \<Rightarrow> appliance" where
  "note_error now err_code message recoverable role a =
     a\<lparr>la_machine := record_error now err_code message recoverable role (la_machine a)\<rparr>"

text \<open>A state the program itself names is known, so entering it does not raise.\<close>

definition move_to :: "string \<Rightarrow> appliance \<Rightarrow> py_error option \<times> appliance" where
  "move_to state a =
     (case transition state (la_machine a) of Inl e \<Rightarrow> (Some e, a) | Inr m \<Rightarrow> (None, a\<lparr>la_machine := m\<rparr>))"

definition enter :: "string \<Rightarrow> appliance \<Rightarrow> appliance" where
  "enter state a = snd (move_to state a)"

definition healthy_roles :: "appliance \<Rightarrow> (string \<times> role_config) list \<Rightarrow> string list" where
  "healthy_roles a enabled = filter (\<lambda>n. ri_status (la_roles a n) = ''healthy'') (map fst enabled)"

definition must_fail :: "runtime_config \<Rightarrow> appliance \<Rightarrow> bool" where
  "must_fail c a \<longleftrightarrow>
     list_ex (\<lambda>(name, flag). name \<in> set (map fst (enabled_roles c)) \<and> flag \<and> ri_status (la_roles a name) \<noteq> ''healthy'')
       [(''generation'', ss_fail_process_on_generation_error (rt_startup c)),
        (''embedding'', ss_fail_process_on_embedding_error (rt_startup c))]"

definition maybe_fail_process :: "runtime_config \<Rightarrow> appliance \<Rightarrow> appliance" where
  "maybe_fail_process c a = (if must_fail c a then a\<lparr>la_killed := True\<rparr> else a)"

definition backend_state :: "string \<Rightarrow> runtime_config \<Rightarrow> string \<Rightarrow> appliance \<Rightarrow> py_error option \<times> appliance" where
  "backend_state now c state a =
     (case move_to state a of
        (Some e, a) \<Rightarrow> (Some e, a)
      | (None, a) \<Rightarrow> (None,
          if state = ''runtime_error''
          then maybe_fail_process c (write_manifest
            (note_error now ''ENGINE_DEAD'' ''managed generation observation or process failed'' False (Some ''generation'') a))
          else a))"

fun backend_states :: "string \<Rightarrow> runtime_config \<Rightarrow> string list \<Rightarrow> appliance \<Rightarrow> py_error option \<times> appliance" where
  "backend_states now c [] a = (None, a)"
| "backend_states now c (s # ss) a =
     (case backend_state now c s a of (Some e, a) \<Rightarrow> (Some e, a) | (None, a) \<Rightarrow> backend_states now c ss a)"

section \<open>The smoke test\<close>

text \<open>What the test of a role meets: an exception, or for an embedding the length of its vector.\<close>

datatype smoke = Answers | Raises string | Vector nat

definition smoke_error :: "string \<Rightarrow> role_info \<Rightarrow> smoke \<Rightarrow> string option" where
  "smoke_error name info outcome =
     (if name \<notin> {''generation'', ''embedding''} then None
      else case outcome of
        Raises message \<Rightarrow> Some message
      | Answers \<Rightarrow> None
      | Vector n \<Rightarrow>
          (case ri_dimensions info of
             Some d \<Rightarrow>
               if name = ''embedding'' \<and> d \<noteq> 0 \<and> int n \<noteq> d
               then Some (''probe dimension '' @ show_nat n @ '' != discovered '' @ show_int d) else None
           | None \<Rightarrow> None))"

definition smoke_role :: "string \<Rightarrow> (string \<Rightarrow> smoke) \<Rightarrow> string \<Rightarrow> appliance \<Rightarrow> appliance" where
  "smoke_role now outcome name a =
     (case smoke_error name (la_roles a name) (outcome name) of
        None \<Rightarrow> a
      | Some message \<Rightarrow> note_error now ''SMOKE_TEST_FAILED'' (name @ '': '' @ message) True (Some name)
          (a\<lparr>la_roles := (la_roles a)(name := (la_roles a name)\<lparr>ri_status := ''unhealthy'', ri_error_code := Some ''SMOKE_TEST_FAILED''\<rparr>)\<rparr>))"

definition smoke_test :: "string \<Rightarrow> (string \<Rightarrow> smoke) \<Rightarrow> string list \<Rightarrow> appliance \<Rightarrow> appliance" where
  "smoke_test now outcome names a = fold (smoke_role now outcome) names a"

section \<open>The lifecycle\<close>

text \<open>
  What the backend does on the way: \<open>le_states\<close> while it starts, \<open>le_start\<close> what its start raises, then its
  roles, the smoke test's answers, and what it changed of its roles meanwhile.
\<close>

datatype start_result = Started | StartError start_error | StartCrash string

record backend_run =
  le_states :: "string list"
  le_start :: start_result
  le_roles :: "string \<Rightarrow> role_info"
  le_smoke :: "string \<Rightarrow> smoke"
  le_changes :: "(string \<Rightarrow> role_info) \<Rightarrow> string \<Rightarrow> role_info"

definition load_error_of :: "role_info \<Rightarrow> string" where
  "load_error_of info = (case ri_error_code info of None \<Rightarrow> ''MODEL_LOAD_FAILED'' | Some e \<Rightarrow> if e = [] then ''MODEL_LOAD_FAILED'' else e)"

definition note_unhealthy :: "string \<Rightarrow> string \<Rightarrow> appliance \<Rightarrow> appliance" where
  "note_unhealthy now name a =
     (let info = la_roles a name in
      if ri_status info = ''unhealthy''
      then note_error now (load_error_of info) (role_load_message (load_error_of info)) True (Some name) a else a)"

definition final_state :: "string list \<Rightarrow> (string \<times> role_config) list \<Rightarrow> string" where
  "final_state healthy enabled =
     (if length healthy = length enabled \<and> healthy \<noteq> [] then ''healthy''
      else if healthy \<noteq> [] then ''degraded'' else ''configuration_error'')"

definition after_start :: "string \<Rightarrow> runtime_config \<Rightarrow> backend_run \<Rightarrow> appliance \<Rightarrow> appliance" where
  "after_start now c b a =
     (let enabled = enabled_roles c;
          a = fold (note_unhealthy now) (map fst enabled) (a\<lparr>la_roles := le_roles b\<rparr>);
          healthy = healthy_roles a enabled;
          a = (if healthy \<noteq> [] \<and> ss_smoke_test_on_start (rt_startup c)
               then (let a = smoke_test now (le_smoke b) healthy (enter ''smoke_testing'' a) in a\<lparr>la_roles := le_changes b (la_roles a)\<rparr>)
               else a) in
      maybe_fail_process c (write_manifest (enter (final_state (healthy_roles a enabled) enabled) a)))"

definition lifecycle_inner :: "string \<Rightarrow> string + runtime_config \<Rightarrow> backend_run \<Rightarrow> appliance \<Rightarrow> string option \<times> appliance" where
  "lifecycle_inner now config b a =
     (case config of
        Inl message \<Rightarrow> (None, write_manifest (enter ''configuration_error'' (note_error now ''CONFIG_INVALID'' message True None a)))
      | Inr c \<Rightarrow>
          (case backend_states now c (le_states b) a of
             (Some (ValueError message), a) \<Rightarrow> (Some message, a)
           | (Some e, a) \<Rightarrow> (Some [], a)
           | (None, a) \<Rightarrow>
               (case le_start b of
                  StartCrash message \<Rightarrow> (Some message, a)
                | StartError e \<Rightarrow> (None, write_manifest
                    (enter (if be_recoverable e then ''configuration_error'' else ''runtime_error'')
                      (note_error now (be_code e) (be_message e) (be_recoverable e) (be_role e) a)))
                | Started \<Rightarrow> (None, after_start now c b a))))"

definition run_lifecycle :: "string \<Rightarrow> string + runtime_config \<Rightarrow> backend_run \<Rightarrow> appliance \<Rightarrow> appliance" where
  "run_lifecycle now config b a =
     (case lifecycle_inner now config b a of
        (None, a) \<Rightarrow> a
      | (Some message, a) \<Rightarrow> write_manifest (enter ''runtime_error''
          (note_error now ''ENGINE_DEAD'' (''lifecycle crashed: '' @ message) False None a)))"

definition appliance_init :: appliance where
  "appliance_init = \<lparr>la_machine = machine_init, la_roles = (\<lambda>_. bare_info ''disabled''), la_written = [], la_killed = False\<rparr>"

text \<open>\<open>_ensure_toolchain_on_path\<close>: the interpreter's directory comes first, once; \<open>None\<close> where \<open>PATH\<close> is unset.\<close>

definition toolchain_path :: "string \<Rightarrow> string option \<Rightarrow> string option" where
  "toolchain_path bindir path =
     (let parts = split_on (CHR 0x3A) (case path of None \<Rightarrow> [] | Some p \<Rightarrow> p) in
      if bindir \<noteq> [] \<and> bindir \<notin> set parts
      then Some (if hd parts \<noteq> [] then join_with '':'' (bindir # parts) else bindir)
      else path)"

section \<open>Beside the lifecycle\<close>

text \<open>\<open>backends/__init__.py\<close>: the configuration's SlimServe comes before the environment's choice.\<close>

datatype backend_choice = SlimServeChosen | FakeChosen | VllmChosen

definition select_backend :: "string option \<Rightarrow> runtime_config option \<Rightarrow> py_error + backend_choice" where
  "select_backend env c =
     (let name = lower (case env of None \<Rightarrow> ''vllm'' | Some v \<Rightarrow> v) in
      if (case c of Some c \<Rightarrow> rl_engine (ro_generation (rt_roles c)) = SlimServeEngine | None \<Rightarrow> False) then Inr SlimServeChosen
      else if name = ''fake'' then Inr FakeChosen
      else if name = ''vllm'' then Inr VllmChosen
      else Inl (ValueError ''unknown SOVEREIGN_ENGINE_BACKEND''))"

text \<open>\<open>healthcheck.py\<close>: the exit code of an answer, its status and its body where it is JSON; \<open>None\<close> is an exception.\<close>

definition healthcheck :: "(int \<times> json option) option \<Rightarrow> int" where
  "healthcheck resp =
     (case resp of
        Some (status, Some (JObj kvs)) \<Rightarrow>
          if status \<noteq> 200 then 1
          else if obj_get (JObj kvs) ''ready'' = JBool True then 0
          else if obj_get (JObj kvs) ''status'' = JStr ''alive'' then 0 else 1
      | _ \<Rightarrow> 1)"

text \<open>\<open>backends/roleclient.py\<close>: a request through a role's client, its answer the status, the text and the body.\<close>

definition role_post :: "string \<Rightarrow> string \<Rightarrow> (int \<times> string \<times> json option) option \<Rightarrow> py_error + json" where
  "role_post role path answer =
     (case answer of
        None \<Rightarrow> Inl (RuntimeError (role @ '' role is not loaded''))
      | Some (status, body_text, body) \<Rightarrow>
          if status \<noteq> 200 then Inl (RuntimeError (path @ '': '' @ show_int status @ '': '' @ take 300 body_text))
          else (case body of None \<Rightarrow> Inl (ValueError ''not JSON'') | Some v \<Rightarrow> Inr v))"

definition role_request :: "string \<Rightarrow> string \<times> string" where
  "role_request method =
     (if method = ''chat_completion'' then (''generation'', ''/v1/chat/completions'')
      else if method = ''completion'' then (''generation'', ''/v1/completions'')
      else (''embedding'', ''/v1/embeddings''))"

section \<open>The state it is left in is true\<close>

lemma enter_state: "state \<in> set STATES \<Longrightarrow> sm_state (la_machine (enter state a)) = state"
  by (auto simp: enter_def move_to_def transition_def)

lemma enter_keeps: "la_roles (enter state a) = la_roles a" "sm_errors (la_machine (enter state a)) = sm_errors (la_machine a)"
  "la_written (enter state a) = la_written a"
  by (auto simp: enter_def move_to_def transition_def split: sum.splits if_splits)

definition recorded :: "appliance \<Rightarrow> string \<Rightarrow> bool" where
  "recorded a name \<longleftrightarrow> (\<exists>err_code. dict_get (sm_errors (la_machine a)) (err_code, Some name) \<noteq> None)"

lemma note_error_records: "recorded (note_error now c message r role a) name \<longleftrightarrow> recorded a name \<or> role = Some name"
  by (auto simp: recorded_def note_error_def record_error_def Let_def)

lemma note_error_keeps: "la_roles (note_error now c message r role a) = la_roles a"
  by (simp add: note_error_def)

lemma note_unhealthy_all:
  "la_roles (fold (note_unhealthy now) names a) = la_roles a \<and>
   (\<forall>n. recorded (fold (note_unhealthy now) names a) n \<longleftrightarrow> recorded a n \<or> n \<in> set names \<and> ri_status (la_roles a n) = ''unhealthy'')"
  by (induction names arbitrary: a) (auto simp: note_unhealthy_def Let_def note_error_records note_error_keeps)

lemma recorded_roles: "recorded (a\<lparr>la_roles := f\<rparr>) name = recorded a name"
  by (simp add: recorded_def)

lemma smoke_role_keeps_record: "recorded a m \<Longrightarrow> recorded (smoke_role now outcome n a) m"
  by (auto simp: smoke_role_def note_error_records recorded_roles split: option.splits)

lemma smoke_test_records: "recorded a m \<Longrightarrow> recorded (smoke_test now outcome names a) m"
proof (induction names arbitrary: a)
  case (Cons n names)
  from Cons.IH [OF smoke_role_keeps_record [OF Cons.prems]] show ?case by (simp add: smoke_test_def)
qed (simp add: smoke_test_def)

lemma enter_records: "recorded (enter state a) m = recorded a m"
  by (simp add: recorded_def enter_keeps)

lemma written_last: "la_written (maybe_fail_process c (write_manifest a)) \<noteq> [] \<and>
    last (la_written (maybe_fail_process c (write_manifest a))) = sm_state (la_machine a) \<and>
    la_machine (maybe_fail_process c (write_manifest a)) = la_machine a \<and> la_roles (maybe_fail_process c (write_manifest a)) = la_roles a"
  by (simp add: maybe_fail_process_def write_manifest_def)

lemma final_state_known: "final_state healthy enabled \<in> {''healthy'', ''degraded'', ''configuration_error''}"
  by (simp add: final_state_def)

lemma all_healthy: "length (healthy_roles a enabled) = length enabled \<Longrightarrow> n \<in> fst ` set enabled \<Longrightarrow> ri_status (la_roles a n) = ''healthy''"
  using length_filter_less [of n "map fst enabled" "\<lambda>n. ri_status (la_roles a n) = ''healthy''"]
  by (auto simp: healthy_roles_def)

lemma not_all_healthy:
  assumes "length (healthy_roles a enabled) \<noteq> length enabled"
  shows "\<exists>n \<in> fst ` set enabled. ri_status (la_roles a n) \<noteq> ''healthy''"
proof (rule ccontr)
  assume "\<not> ?thesis"
  then have "filter (\<lambda>n. ri_status (la_roles a n) = ''healthy'') (map fst enabled) = map fst enabled"
    by (intro filter_True) auto
  then show False using assms by (simp add: healthy_roles_def)
qed

lemma some_healthy: "healthy_roles a enabled \<noteq> [] \<Longrightarrow> \<exists>n \<in> fst ` set enabled. ri_status (la_roles a n) = ''healthy''"
  by (auto simp: healthy_roles_def filter_empty_conv)

text \<open>The end of a started lifecycle.\<close>

lemma after_start_ends:
  fixes now c b a
  defines "t \<equiv> after_start now c b a"
  shows "sm_state (la_machine t) = final_state (healthy_roles t (enabled_roles c)) (enabled_roles c)"
    "la_written t \<noteq> []" "last (la_written t) = sm_state (la_machine t)"
    "n \<in> fst ` set (enabled_roles c) \<Longrightarrow> ri_status (le_roles b n) = ''unhealthy'' \<Longrightarrow> recorded t n"
proof -
  let ?e = "enabled_roles c"
  let ?n = "fold (note_unhealthy now) (map fst ?e) (a\<lparr>la_roles := le_roles b\<rparr>)"
  let ?h = "healthy_roles ?n ?e"
  let ?s = "if ?h \<noteq> [] \<and> ss_smoke_test_on_start (rt_startup c)
      then (let a = smoke_test now (le_smoke b) ?h (enter ''smoke_testing'' ?n) in a\<lparr>la_roles := le_changes b (la_roles a)\<rparr>) else ?n"
  have t: "t = maybe_fail_process c (write_manifest (enter (final_state (healthy_roles ?s ?e) ?e) ?s))"
    by (simp add: t_def after_start_def Let_def)
  have known: "final_state (healthy_roles ?s ?e) ?e \<in> set STATES" using final_state_known [of "healthy_roles ?s ?e" ?e] by (auto simp: STATES_def)
  have roles: "la_roles t = la_roles ?s" unfolding t using written_last enter_keeps(1) by metis
  then have "healthy_roles t ?e = healthy_roles ?s ?e" by (simp add: healthy_roles_def)
  then show "sm_state (la_machine t) = final_state (healthy_roles t ?e) ?e" "la_written t \<noteq> []" "last (la_written t) = sm_state (la_machine t)"
    using written_last enter_state [OF known] unfolding t by metis+
  show "recorded t n" if n: "n \<in> fst ` set ?e" "ri_status (le_roles b n) = ''unhealthy''"
  proof -
    have "recorded ?n n" using note_unhealthy_all [of now "map fst ?e" "a\<lparr>la_roles := le_roles b\<rparr>"] n by simp
    then have "recorded ?s n" by (simp add: Let_def recorded_roles smoke_test_records enter_records)
    then show ?thesis unfolding t recorded_def using written_last enter_keeps(2) by metis
  qed
qed


definition demo_backend_run :: backend_run where
  "demo_backend_run = \<lparr>le_states = [''loading''], le_start = Started,
     le_roles = (\<lambda>n. bare_info (if n = ''embedding'' then ''unhealthy'' else ''healthy'')), le_smoke = (\<lambda>_. Answers), le_changes = (\<lambda>r. r)\<rparr>"



end
