(* ===== verification/Spec2Isabelle.thy ===== *)
theory Spec2Isabelle
  imports AgentServer ImageBuild MetalPlatform MlxServer SlimServeWorker Launcher HostMemory LogLevel
begin

text \<open>
  The Sovereign runtime is two programs. The agent (\<open>lazarus/agent\<close>) runs on a host with one
  accelerator: it creates, replaces and removes deployments, each an engine process on a loopback port,
  keeps their records in \<open>agent.yaml\<close> and forwards requests to them. The appliance
  (\<open>lazarus/appliance\<close>) runs one configured engine, in the process (vLLM) or in an isolated child
  (SlimServe), and serves the OpenAI routes over it. Both fail closed: what is not verified is refused.

  \<^bold>\<open>How the development is read.\<close> A Python function is a HOL function of the same name where HOL allows
  it; a class with mutable state is a record and functions that return it changed; a raise is the left
  side of a sum (\<open>and_then\<close>, \<open>guarded\<close>) or the first failure of a list of checks (\<open>run_checks\<close>); a
  \<open>dict\<close> is an association list in insertion order. Asynchronous code runs on one event loop, so what
  happens between two awaits is one step of a machine, and what an await brings is part of the step's
  event; all interleavings are the machine's runs. Python integers are \<open>int\<close>, floats \<open>rat\<close>; texts are
  lists of code points below 256, or UTF-8 bytes where a theory says so. Code outside the repository is
  an argument: vLLM and torch, SlimServe's registry and plan, pydantic's reading of field types, YAML and
  JSON parsing, HMAC and SHA-256, the operating system's answers, HTTP replies, time. Where a property
  relies on such code its hypothesis says what is relied on.

  \<^bold>\<open>Shared theories.\<close> \<open>Prelude\<close>: results, checks, dictionaries (the locale \<open>keyed_store\<close>), the contract of a
  counted gate (\<open>counted_gate\<close>, met by both programs' admission counters) and of an invariant
  (\<open>invariant_of\<close>, met by every machine below). \<open>PosixPath\<close>: the paths the program accepts. \<open>Json\<close>:
  decoded JSON and the tests made on it.

  \<^bold>\<open>The agent.\<close>
  \<^item> \<open>DeploymentRecord\<close>, of \<open>deployments.py\<close>: the record of a deployment and the request for one, with every
    validator in pydantic's order. An accepted record reloads unchanged, has one engine of its kind and a
    layout of plain, distinct names; an accepted request makes an accepted record.
  \<^item> \<open>DeploymentCommand\<close>: the command line, environment, key and directory a deployment's engine is started
    with, \<open>shlex.split\<close> included. Every engine listens on loopback at the record's port; a language
    model's child holds the agent's key and no other.
  \<^item> \<open>ManagedFiles\<close>: artifacts resolve to regular files inside the managed directory with the digest asked for.
  \<^item> \<open>Queueing\<close>, of \<open>queueing.py\<close>: tickets, hour buckets and the day's figures, an exact count.
  \<^item> \<open>AgentTransitions\<close>: the machine of creation, replacement, rollback, removal, admission, exits and
    shutdown (\<open>agent_step\<close>), one \<open>worker_step\<close> for each stretch of a transition. \<open>AgentInvariant\<close> proves what
    every stretch keeps (\<open>agent_inv\<close>), opened at the deployment that moves and closed at its end.
    \<open>AgentSafety\<close> draws from it: distinct ports, every child registered, the file agreeing with memory,
    requests reaching only the recorded child outside transitions, answers that are true, transitions
    that end after at most seven outcomes, and no child after the shutdown.
  \<^item> \<open>AgentRequests\<close> and \<open>Videos\<close>: status, load, readiness, the proxy's decisions, transcription, speech, the
    video routes and their signed ids; what is read aloud goes through \<open>SpokenText\<close>, whose expressions run
    on \<open>PyRegex\<close>, Python's \<open>re\<close> as a function from a place to the places it leads to, in order. \<open>AgentService\<close> joins them to the machine: what the proxy forwards is
    an \<open>Enter\<close> step to the recorded child, a deployment told healthy forwards, a created video's id leads
    back to its job.
  \<^item> \<open>AgentServer\<close>, of \<open>server.py\<close> around the machine: engines found, children stopped, the token, the
    lifespan. Its sweep stops every child a signal ends, and is the machine's \<open>Sweep\<close>.
  \<^item> \<open>LogLevel\<close> and \<open>HostMemory\<close>, of \<open>log_level.py\<close> and \<open>memory.py\<close>: the kept level; the bytes counted of a
    family of processes, each mapped byte once.

  \<^bold>\<open>The appliance.\<close>
  \<^item> \<open>RuntimeConfig\<close>, of \<open>config.py\<close>: what \<open>runtime.yaml\<close> is accepted; \<open>ApplianceState\<close>, of \<open>state.py\<close> and
    \<open>manifest.py\<close>: states, deduplicated errors, the manifest.
  \<^item> \<open>ApplianceApi\<close> and \<open>ApplianceRoutes\<close>, of \<open>api.py\<close>: admission over asyncio's semaphore as a machine
    (never more than a role's concurrency, nobody asleep beside a free place), pausing and resuming that
    fail closed, and the routes, which reach the engine only for a served and admitted request.
  \<^item> \<open>VllmEngine\<close>, of \<open>vllm_engine.py\<close>: the check of a prepared bundle, the launch arguments, and the engines'
    life, after whose failure everything is refused.
  \<^item> \<open>SlimServeLaunch\<close>, of \<open>slimserve_launch.py\<close>: the whole of \<open>resolve_local\<close>, every refusal in order;
    \<open>SlimServeProvenance\<close>: the installed files and their cached verification; \<open>SlimServeWorker\<close>: the
    one-time instrumentation of the compiled kernels, a machine whose evidence names only kernels that ran;
    \<open>SlimServeObservation\<close>: what the child observes of its workers and engine; \<open>SlimServeBackend\<close>: what the
    supervisor accepts of it and the life of the child as a machine over the backend's lock. The
    properties follow one row up: a worker's row is evidence, the child's collected observation is
    accepted by the supervisor unchanged, an accepted observation is the reviewed placement, and an
    acknowledged pause is the engine's own.
  \<^item> \<open>Launcher\<close>: the pass from configuration to a terminal state, which is true and written.

  \<^bold>\<open>Around the two.\<close>
  \<^item> \<open>ImageBuild\<close>, of \<open>docker/slimserve/build.py\<close> and its lock: the checks of a build, its environment, the
    kernels' sources and the provenance it writes, which \<open>SlimServeProvenance\<close> then accepts.
  \<^item> \<open>MetalAttention\<close> and \<open>MetalPlatform\<close>, of \<open>platforms/mps\<close>: the paged cache and the attention over it,
    shown to be attention over each request's own sequence, and what the plugin tells and changes of vLLM.
  \<^item> \<open>MlxServer\<close>, of \<open>mlx_server.py\<close>: what the agent changes of mlx-lm's server.

  \<^bold>\<open>Bounds.\<close> Recursion is structural or has a measure, except \<open>HostMemory.descend\<close>, a walk over a process
  table that the host may answer with a cycle: it is a \<open>partial_function\<close>, and \<open>family_is_found\<close> proves
  that it returns on a finite tree. A bundle's scan stops at its seventeenth entry, as the code's does. No
  definition uses fuel. Time is a number each poll carries.

  \<^bold>\<open>Not modelled.\<close> The fake backend (a canned engine for tests). Inside the modelled
  parts: the relay of an answer's bytes, the export of metrics, the scheduling inside \<open>asyncio.gather\<close>,
  logging's output, process arguments of the entry points, \<open>libproc\<close>'s structures, torch's and
  QuixiCore's own arithmetic, and the last housekeeping of an image's build.
\<close>

end
